(* ===== verification/Prelude.thy ===== *)
theory Prelude
  imports Main "HOL-Library.AList" "HOL-Library.Char_ord" "HOL-Library.List_Lexorder"
    "HOL-Library.Sublist"
begin

text \<open>
  Shared material of the development: Go's dynamically typed values (what the code calls
  \<^verbatim>\<open>interface{}\<close>, \<^verbatim>\<open>map[string]interface{}\<close> and \<^verbatim>\<open>[]interface{}\<close>), the parts of
  \<^verbatim>\<open>strings\<close>, \<^verbatim>\<open>strconv\<close> and \<^verbatim>\<open>fmt\<close> the code uses on them, loops with an early
  return, and the locale of systems with an invariant.

  Go strings are byte sequences, so a \<^typ>\<open>string\<close> is a list of bytes. White space and case are
  the ASCII ones.
\<close>

section \<open>Collections of facts\<close>

named_theorems go_simps \<open>evaluation of the string and object helpers\<close>
named_theorems inv_intros \<open>preservation of the invariants, one fact for each operation\<close>

section \<open>Fallible code\<close>

type_synonym ('e, 'a) result = "'e + 'a"

abbreviation Err :: "'e \<Rightarrow> ('e, 'a) result" where "Err \<equiv> Inl"
abbreviation Ok :: "'a \<Rightarrow> ('e, 'a) result" where "Ok \<equiv> Inr"

text \<open>
  \<open>forR f xs\<close> is the loop \<^verbatim>\<open>for _, x := range xs { y, err := f(x); if err != nil { return err };
  out = append(out, y) }\<close>.
\<close>

fun forR :: "('a \<Rightarrow> ('e, 'b) result) \<Rightarrow> 'a list \<Rightarrow> ('e, 'b list) result" where
  "forR f [] = Ok []"
| "forR f (x # xs) =
     (case f x of Err e \<Rightarrow> Err e
      | Ok y \<Rightarrow> (case forR f xs of Err e \<Rightarrow> Err e | Ok ys \<Rightarrow> Ok (y # ys)))"

lemma forR_Ok_iff: "forR f xs = Ok ys \<longleftrightarrow> list_all2 (\<lambda>x y. f x = Ok y) xs ys"
proof (induction xs arbitrary: ys)
  case Nil
  then show ?case by auto
next
  case (Cons x xs)
  show ?case
  proof (cases ys)
    case Nil
    then show ?thesis by (auto split: sum.splits)
  next
    case (Cons y zs)
    then show ?thesis using Cons.IH [of zs] by (auto split: sum.splits)
  qed
qed

lemma forR_length: "forR f xs = Ok ys \<Longrightarrow> length ys = length xs"
  by (simp add: forR_Ok_iff list_all2_lengthD)

lemma forR_nth: "forR f xs = Ok ys \<Longrightarrow> i < length xs \<Longrightarrow> f (xs ! i) = Ok (ys ! i)"
  by (auto simp: forR_Ok_iff list_all2_conv_all_nth)

lemma forR_total: "(\<And>x. x \<in> set xs \<Longrightarrow> \<exists>y. f x = Ok y) \<Longrightarrow> \<exists>ys. forR f xs = Ok ys"
proof (induction xs)
  case Nil
  then show ?case by simp
next
  case (Cons x xs)
  from Cons.prems obtain y where y: "f x = Ok y" by force
  from Cons obtain ys where ys: "forR f xs = Ok ys" by force
  from y ys show ?case by simp
qed

lemma forR_Err: "forR f xs = Err e \<Longrightarrow> \<exists>x\<in>set xs. f x = Err e"
  by (induction xs) (auto split: sum.splits)

lemma forR_append:
  "forR f (xs @ ys) =
     (case forR f xs of Err e \<Rightarrow> Err e
      | Ok us \<Rightarrow> (case forR f ys of Err e \<Rightarrow> Err e | Ok vs \<Rightarrow> Ok (us @ vs)))"
  by (induction xs) (auto split: sum.splits)

lemma forR_Ok_map: "forR (\<lambda>x. Ok (g x)) xs = Ok (map g xs)"
  by (induction xs) auto

text \<open>A loop of checks: the first error wins.\<close>

definition isOk :: "('e, 'a) result \<Rightarrow> bool" where
  "isOk r = (case r of Inl _ \<Rightarrow> False | Inr _ \<Rightarrow> True)"

lemma isOk_iff: "isOk r \<longleftrightarrow> (\<exists>y. r = Ok y)"
  by (cases r) (auto simp: isOk_def)

fun checkAll :: "('a \<Rightarrow> 'e option) \<Rightarrow> 'a list \<Rightarrow> 'e option" where
  "checkAll f [] = None"
| "checkAll f (x # xs) = (case f x of Some e \<Rightarrow> Some e | None \<Rightarrow> checkAll f xs)"

lemma checkAll_None_iff: "checkAll f xs = None \<longleftrightarrow> (\<forall>x\<in>set xs. f x = None)"
  by (induction xs) (auto split: option.splits)

lemma checkAll_Some: "checkAll f xs = Some e \<Longrightarrow> \<exists>x\<in>set xs. f x = Some e"
  by (induction xs) (auto split: option.splits)

section \<open>Strings\<close>

definition isSpace :: "char \<Rightarrow> bool" where
  "isSpace c \<longleftrightarrow> (let n = of_char c :: nat in (9 \<le> n \<and> n \<le> 13) \<or> n = 32)"

text \<open>\<^verbatim>\<open>strings.TrimSpace\<close>: a space may have two or three bytes in UTF-8, and the end of a text is read backwards.\<close>

definition wideSpace2 :: "char \<Rightarrow> char \<Rightarrow> bool" where
  "wideSpace2 a b \<longleftrightarrow> a = CHR 0xC2 \<and> (b = CHR 0x85 \<or> b = CHR 0xA0)"

definition wideSpace3 :: "char \<Rightarrow> char \<Rightarrow> char \<Rightarrow> bool" where
  "wideSpace3 a b c \<longleftrightarrow>
     (let n = of_char c :: nat in
      (a = CHR 0xE2 \<and> b = CHR 0x80 \<and> (128 \<le> n \<and> n \<le> 138 \<or> n = 168 \<or> n = 169 \<or> n = 175))
        \<or> (a = CHR 0xE1 \<and> b = CHR 0x9A \<and> n = 128) \<or> (a = CHR 0xE2 \<and> b = CHR 0x81 \<and> n = 159) \<or> (a = CHR 0xE3 \<and> b = CHR 0x80 \<and> n = 128))"

fun dropSpaces :: "(char \<Rightarrow> char \<Rightarrow> bool) \<Rightarrow> (char \<Rightarrow> char \<Rightarrow> char \<Rightarrow> bool) \<Rightarrow> string \<Rightarrow> string" where
  "dropSpaces two three [] = []"
| "dropSpaces two three [a] = (if isSpace a then [] else [a])"
| "dropSpaces two three [a, b] = (if isSpace a then dropSpaces two three [b] else if two a b then [] else [a, b])"
| "dropSpaces two three (a # b # c # s) =
     (if isSpace a then dropSpaces two three (b # c # s) else if two a b then dropSpaces two three (c # s)
      else if three a b c then dropSpaces two three s else a # b # c # s)"

definition trimSpace :: "string \<Rightarrow> string" where
  "trimSpace s =
     rev (dropSpaces (\<lambda>b a. wideSpace2 a b) (\<lambda>c b a. wideSpace3 a b c) (rev (dropSpaces wideSpace2 wideSpace3 s)))"

definition hasPrefix :: "string \<Rightarrow> string \<Rightarrow> bool" where
  "hasPrefix p s \<longleftrightarrow> take (length p) s = p"

definition hasSuffix :: "string \<Rightarrow> string \<Rightarrow> bool" where
  "hasSuffix p s \<longleftrightarrow> length p \<le> length s \<and> drop (length s - length p) s = p"

definition trimPrefix :: "string \<Rightarrow> string \<Rightarrow> string" where
  "trimPrefix p s = (if hasPrefix p s then drop (length p) s else s)"

definition trimSuffix :: "string \<Rightarrow> string \<Rightarrow> string" where
  "trimSuffix p s = (if hasSuffix p s then take (length s - length p) s else s)"

text \<open>\<^verbatim>\<open>strings.Split\<close> for a separator of one byte, \<^verbatim>\<open>strings.Join\<close>.\<close>

fun splitOn :: "char \<Rightarrow> string \<Rightarrow> string list" where
  "splitOn c [] = [[]]"
| "splitOn c (x # xs) =
     (if x = c then [] # splitOn c xs
      else (case splitOn c xs of [] \<Rightarrow> [[x]] | w # ws \<Rightarrow> (x # w) # ws))"

fun join :: "string \<Rightarrow> string list \<Rightarrow> string" where
  "join sep [] = []"
| "join sep [x] = x"
| "join sep (x # y # xs) = x @ sep @ join sep (y # xs)"

definition lowerChar :: "char \<Rightarrow> char" where
  "lowerChar c = (let n = of_char c :: nat in if 65 \<le> n \<and> n \<le> 90 then char_of (n + 32) else c)"

definition upperChar :: "char \<Rightarrow> char" where
  "upperChar c = (let n = of_char c :: nat in if 97 \<le> n \<and> n \<le> 122 then char_of (n - 32) else c)"

definition toLower :: "string \<Rightarrow> string" where "toLower s = map lowerChar s"
definition toUpper :: "string \<Rightarrow> string" where "toUpper s = map upperChar s"

definition equalFold :: "string \<Rightarrow> string \<Rightarrow> bool" where
  "equalFold a b \<longleftrightarrow> toLower a = toLower b"

text \<open>\<^verbatim>\<open>strings.ContainsAny\<close>.\<close>

definition containsAny :: "string \<Rightarrow> string \<Rightarrow> bool" where
  "containsAny s chars \<longleftrightarrow> list_ex (\<lambda>c. c \<in> set chars) s"

definition isDigit :: "char \<Rightarrow> bool" where
  "isDigit c \<longleftrightarrow> (let n = of_char c :: nat in 48 \<le> n \<and> n \<le> 57)"

definition isLetter :: "char \<Rightarrow> bool" where
  "isLetter c \<longleftrightarrow> (let n = of_char c :: nat in (65 \<le> n \<and> n \<le> 90) \<or> (97 \<le> n \<and> n \<le> 122))"

lemma splitOn_not_Nil [simp]: "splitOn c s \<noteq> []"
  by (induction s) (auto split: list.splits)

lemma splitOn_no_sep: "w \<in> set (splitOn c s) \<Longrightarrow> c \<notin> set w"
proof (induction s arbitrary: w)
  case Nil
  then show ?case by simp
next
  case (Cons x xs)
  then show ?case
    by (cases "splitOn c xs") (auto split: if_splits)
qed

lemma splitOn_literal: "c \<notin> set s \<Longrightarrow> splitOn c s = [s]"
  by (induction s) auto

lemma splitOn_append: "c \<notin> set s \<Longrightarrow> splitOn c (s @ c # t) = s # splitOn c t"
  by (induction s) auto

text \<open>Splitting undoes joining, and joining undoes splitting.\<close>

lemma join_splitOn [simp]: "join [c] (splitOn c s) = s"
proof (induction s)
  case Nil
  then show ?case by simp
next
  case (Cons x xs)
  obtain w ws where s: "splitOn c xs = w # ws"
    by (metis neq_Nil_conv splitOn_not_Nil)
  then show ?case using Cons by (cases ws) auto
qed

lemma splitOn_join:
  "ws \<noteq> [] \<Longrightarrow> \<forall>w\<in>set ws. c \<notin> set w \<Longrightarrow> splitOn c (join [c] ws) = ws"
proof (induction "[c]" ws rule: join.induct)
  case 1
  then show ?case by simp
next
  case (2 x)
  then show ?case by (simp add: splitOn_literal)
next
  case (3 x y xs)
  then show ?case by (simp add: splitOn_append)
qed

lemma set_join: "set (join sep ws) \<subseteq> set sep \<union> (\<Union>w\<in>set ws. set w)"
  by (induction sep ws rule: join.induct) auto

lemma set_dropSpaces: "set (dropSpaces two three s) \<subseteq> set s"
  by (induction two three s rule: dropSpaces.induct) auto

lemma trimSpace_subset: "set (trimSpace s) \<subseteq> set s"
  unfolding trimSpace_def using set_dropSpaces by (metis set_rev subset_trans)

lemma trimSpace_empty [simp]: "trimSpace [] = []"
  by (simp add: trimSpace_def)

lemma equalFold_refl [simp]: "equalFold a a"
  by (simp add: equalFold_def)

lemma equalFold_sym: "equalFold a b = equalFold b a"
  by (auto simp: equalFold_def)

lemma equalFold_trans: "equalFold a b \<Longrightarrow> equalFold b c \<Longrightarrow> equalFold a c"
  by (simp add: equalFold_def)

section \<open>Numbers as text\<close>

function showPos :: "int \<Rightarrow> string" where
  "showPos n = (if n < 10 then [char_of (48 + n)] else showPos (n div 10) @ [char_of (48 + n mod 10)])"
  by pat_completeness auto
termination
  by (relation "measure nat") auto

declare showPos.simps [simp del]

text \<open>\<^verbatim>\<open>strconv.Itoa\<close>.\<close>

definition itoa :: "int \<Rightarrow> string" where
  "itoa i = (if i < 0 then CHR ''-'' # showPos (- i) else showPos i)"

lemma isDigit_char_of: "0 \<le> n \<Longrightarrow> n < 10 \<Longrightarrow> isDigit (char_of (48 + n :: int))"
proof -
  assume "0 \<le> n" "n < 10"
  then have "n = 0 \<or> n = 1 \<or> n = 2 \<or> n = 3 \<or> n = 4 \<or> n = 5 \<or> n = 6 \<or> n = 7 \<or> n = 8 \<or> n = 9"
    by arith
  then show ?thesis
    by (elim disjE) (simp_all add: isDigit_def Let_def of_char_def char_of_def)
qed

lemma showPos_digits: "0 \<le> n \<Longrightarrow> c \<in> set (showPos n) \<Longrightarrow> isDigit c"
proof (induction n rule: showPos.induct)
  case (1 n)
  show ?case
  proof (cases "n < 10")
    case True
    with "1.prems" show ?thesis
      by (simp add: showPos.simps [of n] isDigit_char_of)
  next
    case False
    with "1.prems" have "c \<in> set (showPos (n div 10)) \<or> c = char_of (48 + n mod 10)"
      by (auto simp: showPos.simps [of n])
    then show ?thesis using "1.IH" False by (auto intro: isDigit_char_of)
  qed
qed

lemma showPos_not_Nil [simp]: "showPos n \<noteq> []"
  by (subst showPos.simps) simp

section \<open>Transition systems\<close>

text \<open>An invariant that holds at the start and is kept by every step holds in every reachable state.\<close>

locale inv_system =
  fixes init :: "'s \<Rightarrow> bool" and step :: "'s \<Rightarrow> 's \<Rightarrow> bool" and inv :: "'s \<Rightarrow> bool"
  assumes init_inv: "init s \<Longrightarrow> inv s"
    and step_inv: "inv s \<Longrightarrow> step s s' \<Longrightarrow> inv s'"
begin

lemma steps_inv: "step\<^sup>*\<^sup>* s s' \<Longrightarrow> inv s \<Longrightarrow> inv s'"
  by (induction rule: rtranclp_induct) (auto intro: step_inv)

lemma reachable_inv: "init s \<Longrightarrow> step\<^sup>*\<^sup>* s s' \<Longrightarrow> inv s'"
  by (auto intro: steps_inv init_inv)

lemma steps_rel:
  assumes "step\<^sup>*\<^sup>* s s'" "inv s" "\<And>a. R a a" "\<And>a b c. R a b \<Longrightarrow> R b c \<Longrightarrow> R a c"
    and "\<And>a b. inv a \<Longrightarrow> step a b \<Longrightarrow> R a b"
  shows "R s s'"
  using assms(1)
proof (induction rule: rtranclp_induct)
  case base
  show ?case by (rule assms(3))
next
  case (step y z)
  have "inv y" using step.hyps(1) assms(2) by (rule steps_inv)
  then show ?case using step assms(4,5) by blast
qed

end

end
