(* ===== verification/GoValue.thy ===== *)
theory GoValue
  imports Prelude
begin

text \<open>
  Go's dynamically typed values. A value of type \<^verbatim>\<open>interface{}\<close> that the program handles is
  \<^verbatim>\<open>nil\<close>, a \<^verbatim>\<open>bool\<close>, an \<^verbatim>\<open>int\<close> or \<^verbatim>\<open>int64\<close>, a \<^verbatim>\<open>float64\<close> (every number of decoded JSON), a
  \<^verbatim>\<open>string\<close>, a \<^verbatim>\<open>[]interface{}\<close> or a \<^verbatim>\<open>map[string]interface{}\<close>. A map is the list of its entries, in the
  order in which \<^verbatim>\<open>range\<close> visits them (any order may occur) and with distinct keys
  (\<open>wf_gv\<close>).

  A finite \<^verbatim>\<open>float64\<close> is represented by the shortest decimal that identifies it, which is what
  \<^verbatim>\<open>strconv\<close> prints: \<open>Dec m e\<close> is \<open>m * 10 ^ e\<close>, with \<open>m\<close> not a multiple of 10 unless it is 0.
  The program does no arithmetic on these numbers: it compares them, truncates them to integers
  and prints them.
\<close>

section \<open>Numbers\<close>

datatype float64 = Dec (mant: int) (dexp: int)

fun normDec :: "nat \<Rightarrow> int \<Rightarrow> int \<Rightarrow> float64" where
  "normDec 0 m e = Dec m e"
| "normDec (Suc k) m e = (if m = 0 then Dec 0 0 else if m mod 10 = 0 then normDec k (m div 10) (e + 1) else Dec m e)"

text \<open>\<^verbatim>\<open>float64(i)\<close> for \<open>\<bar>i\<bar> < 2 ^ 53\<close>: an integer has at most as many trailing zeros as digits.\<close>

definition floatOfInt :: "int \<Rightarrow> float64" where
  "floatOfInt i = normDec (length (showPos \<bar>i\<bar>)) i 0"

text \<open>\<^verbatim>\<open>int(f)\<close>: truncation towards zero.\<close>

definition truncFloat :: "float64 \<Rightarrow> int" where
  "truncFloat f =
     (if 0 \<le> dexp f then mant f * 10 ^ nat (dexp f)
      else sgn (mant f) * (\<bar>mant f\<bar> div 10 ^ nat (- dexp f)))"

definition lessFloat :: "float64 \<Rightarrow> float64 \<Rightarrow> bool" where
  "lessFloat a b \<longleftrightarrow>
     (let lo = min (dexp a) (dexp b)
      in mant a * 10 ^ nat (dexp a - lo) < mant b * 10 ^ nat (dexp b - lo))"

definition isZeroFloat :: "float64 \<Rightarrow> bool" where
  "isZeroFloat f \<longleftrightarrow> mant f = 0"

text \<open>
  \<^verbatim>\<open>strconv.FormatFloat\<close> on the digits \<open>ds\<close> of the mantissa with the decimal point after \<open>dp\<close> digits:
  formats \<^verbatim>\<open>'e'\<close>, \<^verbatim>\<open>'f'\<close> and the shortest \<^verbatim>\<open>'g'\<close>, which is what \<^verbatim>\<open>fmt\<close> uses for \<^verbatim>\<open>%v\<close>.
\<close>

definition expDigits :: "int \<Rightarrow> string" where
  "expDigits x = (if x < 0 then CHR ''-'' else CHR ''+'') #
     (let d = showPos \<bar>x\<bar> in if length d < 2 then CHR ''0'' # d else d)"

definition fmtE :: "string \<Rightarrow> int \<Rightarrow> string" where
  "fmtE ds dp = take 1 ds @ (if length ds > 1 then CHR ''.'' # drop 1 ds else []) @ CHR ''e'' # expDigits (dp - 1)"

definition fmtF :: "string \<Rightarrow> int \<Rightarrow> string" where
  "fmtF ds dp =
     (if dp \<le> 0 then ''0.'' @ replicate (nat (- dp)) (CHR ''0'') @ ds
      else if length ds \<le> nat dp then ds @ replicate (nat dp - length ds) (CHR ''0'')
      else take (nat dp) ds @ CHR ''.'' # drop (nat dp) ds)"

definition fmtG :: "float64 \<Rightarrow> string" where
  "fmtG f =
     (if mant f = 0 then ''0''
      else let ds = showPos \<bar>mant f\<bar>;
               dp = int (length ds) + dexp f;
               body = (if dp - 1 < -4 \<or> 6 \<le> dp - 1 then fmtE ds dp else fmtF ds dp)
           in (if mant f < 0 then CHR ''-'' # body else body))"

text \<open>
  \<^verbatim>\<open>encoding/json\<close> prints a \<^verbatim>\<open>float64\<close> in format \<^verbatim>\<open>'f'\<close> unless it is below \<open>10 ^ -6\<close> or at
  least \<open>10 ^ 21\<close>; then it uses \<^verbatim>\<open>'e'\<close> with a negative one-digit exponent written without its zero.
\<close>

definition jsonExp :: "int \<Rightarrow> string" where
  "jsonExp x = (if -10 < x \<and> x < 0 then CHR ''-'' # showPos (- x) else expDigits x)"

definition fmtJSONFloat :: "float64 \<Rightarrow> string" where
  "fmtJSONFloat f =
     (if mant f = 0 then ''0''
      else let ds = showPos \<bar>mant f\<bar>;
               dp = int (length ds) + dexp f;
               body = (if dp - 1 < -6 \<or> 21 \<le> dp - 1
                       then take 1 ds @ (if length ds > 1 then CHR ''.'' # drop 1 ds else [])
                              @ CHR ''e'' # jsonExp (dp - 1)
                       else fmtF ds dp)
           in (if mant f < 0 then CHR ''-'' # body else body))"

section \<open>Values and objects\<close>

datatype gv =
    VNil
  | VBool bool
  | VInt int
  | VFloat float64
  | VStr string
  | VArr "gv list"
  | VObj "(string \<times> gv) list"

type_synonym obj = "(string \<times> gv) list"

text \<open>
  \<^verbatim>\<open>m[k]\<close> on a \<^verbatim>\<open>map[string]interface{}\<close> is \<^verbatim>\<open>nil\<close> for a missing key; \<^verbatim>\<open>m[k] = v\<close> replaces the entry
  or adds one.
\<close>

definition objGet :: "obj \<Rightarrow> string \<Rightarrow> gv" where
  "objGet m k = (case map_of m k of None \<Rightarrow> VNil | Some v \<Rightarrow> v)"

definition objPut :: "string \<Rightarrow> gv \<Rightarrow> obj \<Rightarrow> obj" where
  "objPut k v m = AList.update k v m"

lemma map_of_objPut [simp]: "map_of (objPut k v m) = (map_of m)(k \<mapsto> v)"
  by (simp add: objPut_def update_conv')

lemma objGet_objPut [simp]: "objGet (objPut k v m) k' = (if k' = k then v else objGet m k')"
  by (simp add: objGet_def)

lemma distinct_objPut [simp]: "distinct (map fst m) \<Longrightarrow> distinct (map fst (objPut k v m))"
  by (simp add: objPut_def distinct_update)

lemma dom_objPut [simp]: "fst ` set (objPut k v m) = insert k (fst ` set m)"
  by (simp add: objPut_def dom_update)

text \<open>Type assertions \<^verbatim>\<open>v.(T)\<close> with the comma-ok form.\<close>

fun asStr :: "gv \<Rightarrow> string option" where
  "asStr (VStr s) = Some s" | "asStr _ = None"

fun asBool :: "gv \<Rightarrow> bool option" where
  "asBool (VBool b) = Some b" | "asBool _ = None"

fun asArr :: "gv \<Rightarrow> gv list option" where
  "asArr (VArr xs) = Some xs" | "asArr _ = None"

fun asObj :: "gv \<Rightarrow> obj option" where
  "asObj (VObj m) = Some m" | "asObj _ = None"

fun asFloat :: "gv \<Rightarrow> float64 option" where
  "asFloat (VFloat f) = Some f" | "asFloat _ = None"

lemma asObj_eq_Some [simp]: "asObj v = Some m \<longleftrightarrow> v = VObj m"
  by (cases v) auto

lemma asArr_eq_Some [simp]: "asArr v = Some xs \<longleftrightarrow> v = VArr xs"
  by (cases v) auto

lemma asStr_eq_Some [simp]: "asStr v = Some s \<longleftrightarrow> v = VStr s"
  by (cases v) auto

text \<open>Well-formed values: every map has distinct keys.\<close>

fun wf_gv :: "gv \<Rightarrow> bool" where
  "wf_gv (VArr xs) = (\<forall>x\<in>set xs. wf_gv x)"
| "wf_gv (VObj m) = (distinct (map fst m) \<and> (\<forall>kv\<in>set m. wf_gv (snd kv)))"
| "wf_gv _ = True"

abbreviation wf_obj :: "obj \<Rightarrow> bool" where "wf_obj m \<equiv> wf_gv (VObj m)"

lemma wf_objGet: "wf_obj m \<Longrightarrow> wf_gv (objGet m k)"
  by (auto simp: objGet_def split: option.splits dest: map_of_SomeD)

lemma set_objPut_subset: "set (objPut k v m) \<subseteq> insert (k, v) (set m)"
  unfolding objPut_def by (induction m) auto

lemma wf_objPut: "wf_obj m \<Longrightarrow> wf_gv v \<Longrightarrow> wf_obj (objPut k v m)"
  using set_objPut_subset [of k v m] by fastforce

section \<open>Printing\<close>

text \<open>\<^verbatim>\<open>fmt.Sprint\<close> of one value; a map is printed in the order of its keys.\<close>

primrec sprint :: "gv \<Rightarrow> string" where
  "sprint VNil = ''<nil>''"
| "sprint (VBool b) = (if b then ''true'' else ''false'')"
| "sprint (VInt i) = itoa i"
| "sprint (VFloat f) = fmtG f"
| "sprint (VStr s) = s"
| "sprint (VArr xs) = ''['' @ join '' '' (map sprint xs) @ '']''"
| "sprint (VObj m) =
     ''map['' @ join '' '' (map (\<lambda>(k, t). k @ '':'' @ t) (sort_key fst (map (map_prod id sprint) m))) @ '']''"

text \<open>
  \<^verbatim>\<open>json.Marshal\<close>: keys in order, no white space, and strings escaped the way \<^verbatim>\<open>encoding/json\<close>
  does (quotes, backslashes, control characters, and the three HTML characters). Strings are valid
  UTF-8, whose bytes from 128 on are copied.
\<close>

definition hexChar :: "nat \<Rightarrow> char" where
  "hexChar n = (if n < 10 then char_of (48 + n) else char_of (87 + n))"

definition jsonEscape :: "char \<Rightarrow> string" where
  "jsonEscape c =
     (let n = of_char c :: nat in
      if n = 34 then [char_of (92 :: nat), char_of (34 :: nat)]
      else if n = 92 then [char_of (92 :: nat), char_of (92 :: nat)]
      else if n = 8 then [char_of (92 :: nat), CHR ''b'']
      else if n = 12 then [char_of (92 :: nat), CHR ''f'']
      else if n = 10 then [char_of (92 :: nat), CHR ''n'']
      else if n = 13 then [char_of (92 :: nat), CHR ''r'']
      else if n = 9 then [char_of (92 :: nat), CHR ''t'']
      else if n < 32 \<or> n = 60 \<or> n = 62 \<or> n = 38
        then char_of (92 :: nat) # ''u00'' @ [hexChar (n div 16), hexChar (n mod 16)]
      else [c])"

definition jsonString :: "string \<Rightarrow> string" where
  "jsonString s = char_of (34 :: nat) # concat (map jsonEscape s) @ [char_of (34 :: nat)]"

primrec jsonMarshal :: "gv \<Rightarrow> string" where
  "jsonMarshal VNil = ''null''"
| "jsonMarshal (VBool b) = (if b then ''true'' else ''false'')"
| "jsonMarshal (VInt i) = itoa i"
| "jsonMarshal (VFloat f) = fmtJSONFloat f"
| "jsonMarshal (VStr s) = jsonString s"
| "jsonMarshal (VArr xs) = ''['' @ join '','' (map jsonMarshal xs) @ '']''"
| "jsonMarshal (VObj m) =
     ''{'' @ join '','' (map (\<lambda>(k, t). jsonString k @ '':'' @ t) (sort_key fst (map (map_prod id jsonMarshal) m))) @ ''}''"

text \<open>\<^verbatim>\<open>%q\<close> of \<^verbatim>\<open>fmt\<close> on ASCII text.\<close>

definition quoteChar :: "char \<Rightarrow> string" where
  "quoteChar c =
     (let n = of_char c :: nat in
      if n = 34 \<or> n = 92 then [char_of (92 :: nat), c]
      else if n = 7 then [char_of (92 :: nat), CHR ''a'']
      else if n = 8 then [char_of (92 :: nat), CHR ''b'']
      else if n = 9 then [char_of (92 :: nat), CHR ''t'']
      else if n = 10 then [char_of (92 :: nat), CHR ''n'']
      else if n = 11 then [char_of (92 :: nat), CHR ''v'']
      else if n = 12 then [char_of (92 :: nat), CHR ''f'']
      else if n = 13 then [char_of (92 :: nat), CHR ''r'']
      else if n < 32 \<or> n = 127 then char_of (92 :: nat) # CHR ''x'' # [hexChar (n div 16), hexChar (n mod 16)]
      else [c])"

definition goQuote :: "string \<Rightarrow> string" where
  "goQuote s = char_of (34 :: nat) # concat (map quoteChar s) @ [char_of (34 :: nat)]"

text \<open>
  \<^verbatim>\<open>stringValue\<close> of the connector and activity packages: the empty string for \<^verbatim>\<open>nil\<close>, else
  \<^verbatim>\<open>fmt.Sprint\<close>.
\<close>

definition stringValue :: "gv \<Rightarrow> string" where
  "stringValue v = (case v of VNil \<Rightarrow> [] | _ \<Rightarrow> sprint v)"

lemma stringValue_VStr [simp]: "stringValue (VStr s) = s"
  by (simp add: stringValue_def)

lemma stringValue_VNil [simp]: "stringValue VNil = []"
  by (simp add: stringValue_def)

section \<open>Facts on integers held as floats\<close>

lemma normDec_value: "mant (normDec k m e) = 0 \<longleftrightarrow> m = 0"
  by (induction k arbitrary: m e) auto

lemma floatOfInt_zero_iff: "isZeroFloat (floatOfInt i) \<longleftrightarrow> i = 0"
  by (simp add: isZeroFloat_def floatOfInt_def normDec_value)

lemma normDec_trunc: "0 \<le> e \<Longrightarrow> truncFloat (normDec k m e) = m * 10 ^ nat e"
proof (induction k m e rule: normDec.induct)
  case (1 m e)
  then show ?case by (simp add: truncFloat_def)
next
  case (2 k m e)
  consider (z) "m = 0" | (d) "m \<noteq> 0" "m mod 10 = 0" | (n) "m \<noteq> 0" "m mod 10 \<noteq> 0" by blast
  then show ?case
  proof cases
    case z
    then show ?thesis by (simp add: truncFloat_def)
  next
    case d
    have "m * 10 ^ nat e = (m div 10) * 10 ^ nat (e + 1)"
      using d "2.prems" by (auto simp: nat_add_distrib elim!: dvdE simp flip: dvd_eq_mod_eq_0)
    then show ?thesis using d "2.IH" "2.prems" by simp
  next
    case n
    then show ?thesis using "2.prems" by (simp add: truncFloat_def)
  qed
qed

lemma truncFloat_floatOfInt [simp]: "truncFloat (floatOfInt i) = i"
  by (simp add: floatOfInt_def normDec_trunc)

end
