(* ===== verification/Model.thy ===== *)
theory Model
  imports GoValue
begin

text \<open>
  The shared data model (\<^verbatim>\<open>internal/model\<close>): pipeline definitions, references to stored payloads, node
  results, execution status and the inputs of a workflow, one record per struct with the fields in
  the order of the source, a pointer as an option; and the checks that guard a definition before
  any activity runs (\<^verbatim>\<open>node_policy.go\<close>, \<^verbatim>\<open>agent_contract.go\<close>, \<^verbatim>\<open>control.go\<close>).
\<close>

section \<open>Machine integers\<close>

text \<open>\<^verbatim>\<open>int\<close>, \<^verbatim>\<open>int64\<close> and \<^verbatim>\<open>int32\<close> arithmetic wraps around; a model value is kept in range by these.\<close>

definition wrap64 :: "int \<Rightarrow> int" where
  "wrap64 x = (x + 9223372036854775808) mod 18446744073709551616 - 9223372036854775808"

definition wrap32 :: "int \<Rightarrow> int" where
  "wrap32 x = (x + 2147483648) mod 4294967296 - 2147483648"

abbreviation maxInt64 :: int where "maxInt64 \<equiv> 9223372036854775807"
abbreviation minInt64 :: int where "minInt64 \<equiv> -9223372036854775808"
abbreviation maxInt32 :: int where "maxInt32 \<equiv> 2147483647"

lemma wrap64_id: "minInt64 \<le> x \<Longrightarrow> x \<le> maxInt64 \<Longrightarrow> wrap64 x = x"
  by (simp add: wrap64_def)

lemma wrap32_id: "-2147483648 \<le> x \<Longrightarrow> x \<le> maxInt32 \<Longrightarrow> wrap32 x = x"
  by (simp add: wrap32_def)

lemma wrap64_range: "minInt64 \<le> wrap64 x \<and> wrap64 x \<le> maxInt64"
  using pos_mod_bound [of 18446744073709551616 "x + 9223372036854775808"]
    pos_mod_sign [of 18446744073709551616 "x + 9223372036854775808"]
  unfolding wrap64_def by linarith

text \<open>\<^verbatim>\<open>time.Second\<close> in the nanoseconds of \<^verbatim>\<open>time.Duration\<close>.\<close>

abbreviation timeSecond :: int where "timeSecond \<equiv> 1000000000"

section \<open>Pipeline definitions\<close>

record DataAssetRef =
  asset_URN :: string
  asset_Platform :: string
  asset_Namespace :: string
  asset_Name :: string
  asset_Type :: string
  asset_Layer :: string
  asset_Schema :: obj
  asset_Owner :: string
  asset_Tags :: "string list"

record IngestionConfig =
  ing_Mode :: string
  ing_BackfillStart :: string
  ing_BackfillEnd :: string
  ing_StateKey :: string
  ing_PageSize :: int

record RetryConfig =
  retry_MaximumAttempts :: "int option"

record Node =
  node_ID :: string
  node_Type :: string
  node_ActivityType :: string
  node_Label :: string
  node_Config :: obj
  node_Ingestion :: "IngestionConfig option"
  node_TimeoutSec :: "int option"
  node_Retry :: "RetryConfig option"
  node_MergeStrategy :: string
  node_JoinKey :: string
  node_InputAssets :: "DataAssetRef list"
  node_OutputAssets :: "DataAssetRef list"

record Edge =
  edge_ID :: string
  edge_Source :: string
  edge_Target :: string
  edge_Condition :: string

record Trigger =
  trig_Type :: string
  trig_Schedule :: string
  trig_Path :: string
  trig_Secret :: string
  trig_Topic :: string
  trig_AssetURN :: string

record Concurrency =
  conc_MaxParallelNodes :: int

record ExecutionConfig =
  exec_Engine :: string
  exec_TransformSQL :: string

record PipelineMetadata =
  meta_Owner :: string
  meta_Domain :: string
  meta_Tags :: "string list"

record PipelineSLO =
  slo_FreshnessMinutes :: "float64 option"
  slo_MaxFailureRatePercent :: "float64 option"
  slo_MaxDurationMS :: "float64 option"

record PipelineNotificationPolicy =
  notif_ConnectionID :: string
  notif_MinimumSeverity :: string

record PipelineDefinition =
  def_ID :: string
  def_Version :: int
  def_Name :: string
  def_TenantID :: string
  def_Trigger :: Trigger
  def_Nodes :: "Node list"
  def_Edges :: "Edge list"
  def_Concurrency :: "Concurrency option"
  def_Metadata :: "PipelineMetadata option"
  def_SLO :: "PipelineSLO option"
  def_Notifications :: "PipelineNotificationPolicy option"
  def_Execution :: "ExecutionConfig option"

section \<open>Payload references, results and status\<close>

record DataRef =
  ref_Type :: string
  ref_Key :: string
  ref_Bucket :: string
  ref_TenantID :: string
  ref_SizeBytes :: int
  ref_RecordCount :: int
  ref_Encrypted :: bool
  ref_IV :: string

record NodeResult =
  res_NodeID :: string
  res_Status :: string
  res_OutputRef :: "DataRef option"
  res_Meta :: obj
  res_Error :: string

record StreamStatus =
  stream_Batches :: int
  stream_Records :: int
  stream_Errors :: int
  stream_LagRecords :: int
  stream_ThroughputPerSec :: float64
  stream_LastHeartbeat :: string

record ExecutionStatus =
  status_ExecutionID :: string
  status_Phase :: string
  status_NodeResults :: "(string \<times> NodeResult) list"
  status_StartedAt :: string
  status_CompletedAt :: string
  status_Stream :: "StreamStatus option"

record TriggerInput =
  tin_Type :: string
  tin_PayloadRef :: "DataRef option"
  tin_FiredAt :: string

record FlinkWorkflowState =
  flink_CohestraID :: string
  flink_DesiredState :: string
  flink_LastError :: string
  flink_Checkpoint :: string

record WorkflowInput =
  win_Definition :: PipelineDefinition
  win_TenantID :: string
  win_ExecutionID :: string
  win_PipelineRowID :: string
  win_Environment :: string
  win_ExecutionPrepared :: bool
  win_Trigger :: TriggerInput
  win_TraceID :: string
  win_EncryptedDEK :: string
  win_DEKIV :: string
  win_Stream :: "StreamStatus option"
  win_Flink :: "FlinkWorkflowState option"

record TenantContext =
  tc_TenantID :: string
  tc_UserID :: string
  tc_Email :: string
  tc_Role :: string
  tc_EmailVerified :: bool
  tc_TokenID :: string

record ExecutionControl =
  ctl_State :: string
  ctl_Revision :: int
  ctl_Phase :: string

definition TerminalExecutionPhase :: "string \<Rightarrow> bool" where
  "TerminalExecutionPhase phase \<longleftrightarrow> phase = ''completed'' \<or> phase = ''failed'' \<or> phase = ''cancelled''"

section \<open>Node policies\<close>

datatype policy_error =
    TimeoutOutOfRange string
  | AttemptsOutOfRange string
  | PolicyNeedsWorkflowEngine string

text \<open>The engine of a definition is the default one when it is absent, empty or \<^verbatim>\<open>workflow\<close>.\<close>

definition otherEngine :: "PipelineDefinition \<Rightarrow> bool" where
  "otherEngine def \<longleftrightarrow> (case def_Execution def of None \<Rightarrow> False
     | Some x \<Rightarrow> exec_Engine x \<noteq> '''' \<and> exec_Engine x \<noteq> ''workflow'')"

definition node_MaximumAttempts :: "Node \<Rightarrow> int option" where
  "node_MaximumAttempts node = Option.bind (node_Retry node) retry_MaximumAttempts"

definition nodePolicyError :: "PipelineDefinition \<Rightarrow> Node \<Rightarrow> policy_error option" where
  "nodePolicyError def node =
     (if (case node_TimeoutSec node of None \<Rightarrow> False | Some t \<Rightarrow> t \<le> 0 \<or> t > maxInt64 div timeSecond)
        then Some (TimeoutOutOfRange (node_ID node))
      else if (case node_MaximumAttempts node of None \<Rightarrow> False | Some a \<Rightarrow> a \<le> 0 \<or> a > maxInt32)
        then Some (AttemptsOutOfRange (node_ID node))
      else if (node_TimeoutSec node \<noteq> None \<or> node_MaximumAttempts node \<noteq> None) \<and> otherEngine def
        then Some (PolicyNeedsWorkflowEngine (node_ID node))
      else None)"

definition ValidateNodePolicies :: "PipelineDefinition \<Rightarrow> policy_error option" where
  "ValidateNodePolicies def = checkAll (nodePolicyError def) (def_Nodes def)"

lemma ValidateNodePolicies_bounds:
  assumes "ValidateNodePolicies def = None" "node \<in> set (def_Nodes def)"
  shows "node_TimeoutSec node = Some t \<Longrightarrow> 0 < t \<and> t * timeSecond \<le> maxInt64"
    and "node_MaximumAttempts node = Some a \<Longrightarrow> 0 < a \<and> a \<le> maxInt32"
proof -
  have ok: "nodePolicyError def node = None"
    using assms by (auto simp: ValidateNodePolicies_def checkAll_None_iff)
  show "node_TimeoutSec node = Some t \<Longrightarrow> 0 < t \<and> t * timeSecond \<le> maxInt64"
    using ok by (auto simp: nodePolicyError_def split: if_splits)
  show "node_MaximumAttempts node = Some a \<Longrightarrow> 0 < a \<and> a \<le> maxInt32"
    using ok by (auto simp: nodePolicyError_def split: if_splits)
qed

section \<open>The reserved agent contract\<close>

text \<open>
  A configuration is validated after a JSON round trip: the keys are those of the map, a \<^verbatim>\<open>null\<close> member
  leaves the zero value, and an integer member takes a number that prints without a fraction or an
  exponent and fits 64 bits.
\<close>

definition decodeStr :: "gv \<Rightarrow> string option" where
  "decodeStr v = (case v of VNil \<Rightarrow> Some [] | VStr s \<Rightarrow> Some s | _ \<Rightarrow> None)"

definition decodeInt :: "gv \<Rightarrow> int option" where
  "decodeInt v = (case v of VNil \<Rightarrow> Some 0
     | VInt i \<Rightarrow> Some i
     | VFloat f \<Rightarrow>
         (if (mant f = 0 \<or> (0 \<le> dexp f \<and> int (length (showPos \<bar>mant f\<bar>)) + dexp f \<le> 21))
             \<and> minInt64 \<le> truncFloat f \<and> truncFloat f \<le> maxInt64
          then Some (truncFloat f) else None)
     | _ \<Rightarrow> None)"

definition decodeStrs :: "gv \<Rightarrow> string list option" where
  "decodeStrs v = (case v of VNil \<Rightarrow> Some []
     | VArr xs \<Rightarrow> (if (\<forall>x\<in>set xs. decodeStr x \<noteq> None) then Some (map (the \<circ> decodeStr) xs) else None)
     | _ \<Rightarrow> None)"

record AgentInputBinding =
  bind_Mode :: string
  bind_Fields :: "string list"
  bind_MaxRecords :: int

record AgentNodeConfig =
  agent_AgentID :: string
  agent_AgentVersion :: int
  agent_InputBinding :: AgentInputBinding

datatype agent_error =
    AgentTypeMismatch string
  | AgentNeedsWorkflowEngine string
  | AgentConfigKeys string
  | AgentBindingKeys string
  | AgentConfigInvalid string
  | AgentIDNotCanonical string
  | AgentVersionRange string
  | AgentBindingRange string
  | AgentFieldsEmpty string
  | AgentFieldsNotLiteral string
  | AgentIncomingUnknown string
  | AgentIncomingCount string
  | AgentNotImplemented string

definition exactKeys :: "string list \<Rightarrow> obj \<Rightarrow> bool" where
  "exactKeys ks m \<longleftrightarrow> length m = length ks \<and> list_all (\<lambda>k. map_of m k \<noteq> None) ks"

definition decodeBinding :: "obj \<Rightarrow> AgentInputBinding option" where
  "decodeBinding b =
     (case (decodeStr (objGet b ''mode''), decodeStrs (objGet b ''fields''), decodeInt (objGet b ''maxRecords'')) of
        (Some m, Some fs, Some n) \<Rightarrow> Some \<lparr>bind_Mode = m, bind_Fields = fs, bind_MaxRecords = n\<rparr>
      | _ \<Rightarrow> None)"

definition decodeAgentConfig :: "obj \<Rightarrow> obj \<Rightarrow> AgentNodeConfig option" where
  "decodeAgentConfig c b =
     (case (decodeStr (objGet c ''agentId''), decodeInt (objGet c ''agentVersion''), decodeBinding b) of
        (Some i, Some v, Some bd) \<Rightarrow> Some \<lparr>agent_AgentID = i, agent_AgentVersion = v, agent_InputBinding = bd\<rparr>
      | _ \<Rightarrow> None)"

text \<open>The characters that a literal key may not contain: a path character or a line break or a tab.\<close>

definition agentFieldChars :: string where
  "agentFieldChars = ''.[]{}$'' @ [char_of (13 :: nat), char_of (10 :: nat), char_of (9 :: nat)]"

fun literalFields :: "string list \<Rightarrow> string list \<Rightarrow> bool" where
  "literalFields seen [] = True"
| "literalFields seen (f # fs) =
     (trimSpace f \<noteq> [] \<and> \<not> containsAny f agentFieldChars \<and> f \<notin> set seen \<and> literalFields (f # seen) fs)"

definition agentIncoming :: "PipelineDefinition \<Rightarrow> Node \<Rightarrow> (agent_error, nat) result" where
  "agentIncoming def node =
     (let ins = filter (\<lambda>e. edge_Target e = node_ID node) (def_Edges def)
      in if list_all (\<lambda>e. \<exists>s\<in>set (def_Nodes def). node_ID s = edge_Source e \<and> node_ID s \<noteq> node_ID node) ins
         then Ok (length ins) else Err (AgentIncomingUnknown (node_ID node)))"

text \<open>The conditions on a decoded configuration, after the keys of its objects; \<open>uuidParse\<close> stands
  for \<^verbatim>\<open>uuid.Parse\<close>.\<close>

definition agentConfigError :: "(string \<Rightarrow> bool) \<Rightarrow> string \<Rightarrow> AgentNodeConfig \<Rightarrow> agent_error option" where
  "agentConfigError uuidParse nid config =
     (let i = agent_AgentID config; binding = agent_InputBinding config in
      if \<not> uuidParse i \<or> length i \<noteq> 36 \<or> i \<noteq> toLower i then Some (AgentIDNotCanonical nid)
      else if agent_AgentVersion config \<le> 0 \<or> agent_AgentVersion config > 9007199254740991
        then Some (AgentVersionRange nid)
      else if bind_Mode binding \<noteq> ''batch'' \<or> bind_MaxRecords binding < 1 \<or> bind_MaxRecords binding > 100
        then Some (AgentBindingRange nid)
      else if bind_Fields binding = [] then Some (AgentFieldsEmpty nid)
      else if \<not> literalFields [] (bind_Fields binding) then Some (AgentFieldsNotLiteral nid)
      else None)"

definition agentNodeError ::
  "(string \<Rightarrow> bool) \<Rightarrow> PipelineDefinition \<Rightarrow> Node \<Rightarrow> agent_error option" where
  "agentNodeError uuidParse def node =
     (let nid = node_ID node; config = node_Config node in
      if node_Type node \<noteq> ''agent'' \<and> node_ActivityType node \<noteq> ''agent.run'' then None
      else if node_Type node \<noteq> ''agent'' \<or> node_ActivityType node \<noteq> ''agent.run'' then Some (AgentTypeMismatch nid)
      else if otherEngine def then Some (AgentNeedsWorkflowEngine nid)
      else if \<not> exactKeys [''agentId'', ''agentVersion'', ''inputBinding''] config then Some (AgentConfigKeys nid)
      else (case objGet config ''inputBinding'' of
          VObj b \<Rightarrow>
            if \<not> exactKeys [''mode'', ''fields'', ''maxRecords''] b then Some (AgentBindingKeys nid)
            else (case decodeAgentConfig config b of
                None \<Rightarrow> Some (AgentConfigInvalid nid)
              | Some cfg \<Rightarrow>
                  (case agentConfigError uuidParse nid cfg of
                     Some e \<Rightarrow> Some e
                   | None \<Rightarrow>
                       (case agentIncoming def node of
                          Inl e \<Rightarrow> Some e
                        | Inr n \<Rightarrow> if n \<noteq> 1 then Some (AgentIncomingCount nid) else None)))
        | _ \<Rightarrow> Some (AgentBindingKeys nid)))"

definition ValidateAgentNodes :: "(string \<Rightarrow> bool) \<Rightarrow> PipelineDefinition \<Rightarrow> agent_error option" where
  "ValidateAgentNodes uuidParse def = checkAll (agentNodeError uuidParse def) (def_Nodes def)"

definition ValidateAgentAdmission :: "(string \<Rightarrow> bool) \<Rightarrow> PipelineDefinition \<Rightarrow> agent_error option" where
  "ValidateAgentAdmission uuidParse def =
     (case ValidateAgentNodes uuidParse def of
        Some e \<Rightarrow> Some e
      | None \<Rightarrow> checkAll (\<lambda>node. if node_Type node = ''agent'' then Some (AgentNotImplemented (node_ID node)) else None)
                  (def_Nodes def))"

lemma literalFields_distinct:
  "literalFields seen fs \<Longrightarrow> distinct fs \<and> set fs \<inter> set seen = {}"
  by (induction seen fs rule: literalFields.induct) auto

text \<open>The gate fails closed: no definition that it admits has a node that either names the agent
  type or the agent activity.\<close>

lemma ValidateAgentAdmission_no_agent:
  assumes "ValidateAgentAdmission uuidParse def = None" "node \<in> set (def_Nodes def)"
  shows "node_Type node \<noteq> ''agent'' \<and> node_ActivityType node \<noteq> ''agent.run''"
proof -
  have nodes: "ValidateAgentNodes uuidParse def = None"
    using assms(1) by (auto simp: ValidateAgentAdmission_def split: option.splits)
  then have ok: "agentNodeError uuidParse def node = None"
    using assms(2) by (auto simp: ValidateAgentNodes_def checkAll_None_iff)
  have "node_Type node \<noteq> ''agent''"
    using assms nodes by (auto simp: ValidateAgentAdmission_def checkAll_None_iff split: if_splits)
  with ok show ?thesis by (auto simp: agentNodeError_def Let_def split: if_splits)
qed

end
