(* ===== verification/Graph.thy ===== *)
theory Graph
  imports Model
begin

text \<open>
  In-degree maps and the relaxation step of Kahn's algorithm, shared by the planner of the workflow
  (\<^verbatim>\<open>buildPlan\<close>, one level at a time) and the validation of the API (\<^verbatim>\<open>validatePipeline\<close>, one node at a
  time). A graph is the list of its vertices and the list of its (source, target) pairs; \<open>kinv\<close> is
  the invariant of both loops, with \<open>P\<close> the vertices already taken from the queue and \<open>Q\<close> the queue.
\<close>

section \<open>In-degree maps\<close>

text \<open>A Go \<^verbatim>\<open>map[string]int\<close>: a missing key reads as 0.\<close>

type_synonym degmap = "(string \<times> int) list"

definition degGet :: "degmap \<Rightarrow> string \<Rightarrow> int" where
  "degGet d k = (case map_of d k of None \<Rightarrow> 0 | Some n \<Rightarrow> n)"

definition degPut :: "string \<Rightarrow> int \<Rightarrow> degmap \<Rightarrow> degmap" where
  "degPut k v d = AList.update k v d"

definition degDec :: "degmap \<Rightarrow> string \<Rightarrow> degmap" where
  "degDec d t = degPut t (degGet d t - 1) d"

definition degInc :: "degmap \<Rightarrow> string \<Rightarrow> degmap" where
  "degInc d t = degPut t (degGet d t + 1) d"

lemma degGet_Nil [simp]: "degGet [] k = 0"
  by (simp add: degGet_def)

lemma degGet_degPut [simp]: "degGet (degPut k v d) k' = (if k' = k then v else degGet d k')"
  by (simp add: degGet_def degPut_def update_conv')

lemma degGet_degDec: "degGet (degDec d t) k = (if k = t then degGet d k - 1 else degGet d k)"
  by (simp add: degDec_def)

lemma degGet_degInc: "degGet (degInc d t) k = (if k = t then degGet d k + 1 else degGet d k)"
  by (simp add: degInc_def)

text \<open>The number of positive entries bounds how often a vertex can still reach in-degree 0.\<close>

definition positives :: "degmap \<Rightarrow> nat" where
  "positives d = length (filter (\<lambda>kv. 0 < snd kv) d)"

lemma positives_degPut_le: "v \<le> degGet d k \<Longrightarrow> positives (degPut k v d) \<le> positives d"
  unfolding degPut_def positives_def
  by (induction d) (auto simp: degGet_def split: if_splits)

lemma positives_degPut_less: "v \<le> 0 \<Longrightarrow> 0 < degGet d k \<Longrightarrow> positives (degPut k v d) < positives d"
  unfolding degPut_def positives_def
  by (induction d) (auto simp: degGet_def split: if_splits)

lemma positives_degDec: "positives (degDec d t) + (if degGet d t = 1 then 1 else 0) \<le> positives d"
  using positives_degPut_le [of "degGet d t - 1" d t] positives_degPut_less [of "degGet d t - 1" d t]
  by (auto simp: degDec_def)

section \<open>Relaxing a sequence of edge targets\<close>

text \<open>One pass over edge targets: decrement, and list a target when it reaches 0.\<close>

fun relaxIds :: "degmap \<Rightarrow> string list \<Rightarrow> degmap \<times> string list" where
  "relaxIds d [] = (d, [])"
| "relaxIds d (t # ts) =
     (let d' = degDec d t; (d'', l) = relaxIds d' ts
      in (d'', if degGet d' t = 0 then t # l else l))"

lemma relaxIds_deg: "degGet (fst (relaxIds d ts)) k = degGet d k - int (count_list ts k)"
  by (induction d ts rule: relaxIds.induct) (auto simp: Let_def split_beta degGet_degDec)

lemma relaxIds_new:
  "distinct (snd (relaxIds d ts)) \<and>
   set (snd (relaxIds d ts)) = {t. 1 \<le> degGet d t \<and> degGet d t \<le> int (count_list ts t)}"
proof (induction d ts rule: relaxIds.induct)
  case (1 d)
  then show ?case by auto
next
  case (2 d t ts)
  obtain d'' l where r: "relaxIds (degDec d t) ts = (d'', l)" by fastforce
  have l: "distinct l" "\<And>u. u \<in> set l \<longleftrightarrow> 1 \<le> degGet (degDec d t) u \<and> degGet (degDec d t) u \<le> int (count_list ts u)"
    using 2 [OF refl] r by auto
  have new: "snd (relaxIds d (t # ts)) = (if degGet d t = 1 then t # l else l)"
    by (simp add: r Let_def degGet_degDec)
  have "u \<in> set (snd (relaxIds d (t # ts))) \<longleftrightarrow> 1 \<le> degGet d u \<and> degGet d u \<le> int (count_list (t # ts) u)" for u
    unfolding new using l(2) [of u] by (cases "u = t") (auto simp: degGet_degDec)
  moreover have "distinct (snd (relaxIds d (t # ts)))"
    unfolding new using l by (auto simp: degGet_degDec)
  ultimately show ?case by blast
qed

lemma relaxIds_positives: "positives (fst (relaxIds d ts)) + length (snd (relaxIds d ts)) \<le> positives d"
proof (induction d ts rule: relaxIds.induct)
  case (2 d t ts)
  then have "positives (fst (relaxIds (degDec d t) ts)) + length (snd (relaxIds (degDec d t) ts))
      \<le> positives (degDec d t)" by simp
  then show ?case using positives_degDec [of d t]
    by (auto simp: Let_def split_beta degGet_degDec split: if_splits)
qed simp

lemma relaxIds_append:
  "relaxIds d (ts @ us) =
     (let (d', l) = relaxIds d ts; (d'', l') = relaxIds d' us in (d'', l @ l'))"
  by (induction d ts rule: relaxIds.induct) (auto simp: Let_def split_beta)

section \<open>The invariant of Kahn's algorithm\<close>

definition wfGraph :: "string list \<Rightarrow> (string \<times> string) list \<Rightarrow> bool" where
  "wfGraph V E \<longleftrightarrow> distinct V \<and> (\<forall>(s, t) \<in> set E. s \<in> set V \<and> t \<in> set V)"

definition indeg :: "(string \<times> string) list \<Rightarrow> string list \<Rightarrow> string \<Rightarrow> int" where
  "indeg E P t = int (length (filter (\<lambda>(u, v). v = t \<and> u \<notin> set P) E))"

definition targetsOf :: "(string \<times> string) list \<Rightarrow> string \<Rightarrow> string list" where
  "targetsOf E s = map snd (filter (\<lambda>e. fst e = s) E)"

definition kinv ::
  "string list \<Rightarrow> (string \<times> string) list \<Rightarrow> degmap \<Rightarrow> string list \<Rightarrow> string list \<Rightarrow> bool" where
  "kinv V E d P Q \<longleftrightarrow>
     distinct (P @ Q) \<and> set (P @ Q) \<subseteq> set V \<and>
     (\<forall>t. degGet d t = indeg E P t) \<and>
     (\<forall>t\<in>set V. t \<in> set (P @ Q) \<longleftrightarrow> degGet d t = 0)"

lemma indeg_nonneg [simp]: "0 \<le> indeg E P t"
  by (simp add: indeg_def)

lemma indeg_zero_iff: "indeg E P t = 0 \<longleftrightarrow> (\<forall>s. (s, t) \<in> set E \<longrightarrow> s \<in> set P)"
  by (auto simp: indeg_def filter_empty_conv)

lemma count_targetsOf: "count_list (targetsOf E s) t = length (filter (\<lambda>(u, v). v = t \<and> u = s) E)"
  unfolding targetsOf_def by (induction E) auto

lemma indeg_append1:
  assumes "b \<notin> set P"
  shows "indeg E (P @ [b]) t = indeg E P t - int (count_list (targetsOf E b) t)"
  unfolding indeg_def count_targetsOf using assms by (induction E) auto

lemma indeg_append:
  assumes "distinct (P @ B)"
  shows "indeg E (P @ B) t = indeg E P t - int (count_list (concat (map (targetsOf E) B)) t)"
  using assms
proof (induction B rule: rev_induct)
  case (snoc b B)
  then have "indeg E ((P @ B) @ [b]) t = indeg E (P @ B) t - int (count_list (targetsOf E b) t)"
    by (intro indeg_append1) auto
  with snoc show ?case by simp
qed simp

text \<open>Taking a batch \<open>B\<close> from the front of the queue and relaxing its edges keeps the invariant.\<close>

lemma kinv_step:
  assumes wf: "wfGraph V E" and inv: "kinv V E d P (B @ R)"
    and r: "relaxIds d (concat (map (targetsOf E) B)) = (d', l)"
  shows "kinv V E d' (P @ B) (R @ l)"
    and "\<forall>t\<in>set l. \<exists>s\<in>set B. (s, t) \<in> set E"
proof -
  let ?ts = "concat (map (targetsOf E) B)"
  have dist: "distinct (P @ B)" and deg: "\<And>t. degGet d t = indeg E P t"
    using inv by (auto simp: kinv_def)
  have deg': "degGet d' t = indeg E (P @ B) t" for t
    using relaxIds_deg [of d ?ts t] r deg indeg_append [OF dist, of E t] by simp
  have cnt: "int (count_list ?ts t) \<le> degGet d t" for t
    using indeg_append [OF dist, of E t] indeg_nonneg [of E "P @ B" t] deg [of t] by linarith
  have l: "distinct l" "set l = {t. 1 \<le> degGet d t \<and> degGet d' t = 0}"
    using relaxIds_new [of d ?ts] relaxIds_deg [of d ?ts] r cnt
    by (auto simp: order_antisym_conv)
  have zero: "degGet d t = 0" if "t \<in> set P \<union> set B \<union> set R" for t
    using that inv by (auto simp: kinv_def)
  have zero': "degGet d' t = 0" if "degGet d t = 0" for t
    using that cnt [of t] indeg_nonneg [of E "P @ B" t] relaxIds_deg [of d ?ts t] r deg' [of t] by simp
  have edge: "\<exists>s. (s, t) \<in> set E \<and> s \<in> set B" if "t \<in> set l" for t
  proof -
    have "indeg E P t \<noteq> 0" "indeg E (P @ B) t = 0" using that l deg deg' by auto
    then show ?thesis by (auto simp: indeg_zero_iff)
  qed
  then show "\<forall>t\<in>set l. \<exists>s\<in>set B. (s, t) \<in> set E" by blast
  have lV: "set l \<subseteq> set V" using edge wf by (fastforce simp: wfGraph_def)
  have disj: "set l \<inter> (set P \<union> set B \<union> set R) = {}" using l zero by force
  have nonneg: "0 \<le> degGet d t" for t using deg by simp
  have cover: "t \<in> set ((P @ B) @ R @ l) \<longleftrightarrow> degGet d' t = 0" if "t \<in> set V" for t
  proof -
    have "t \<in> set (P @ B @ R) \<longleftrightarrow> degGet d t = 0" using inv that by (auto simp: kinv_def)
    then show ?thesis using zero' [of t] nonneg [of t] by (auto simp: l(2))
  qed
  show "kinv V E d' (P @ B) (R @ l)"
    unfolding kinv_def
  proof (intro conjI)
    have "distinct (P @ B @ R)" using inv by (simp add: kinv_def)
    then show "distinct ((P @ B) @ R @ l)" using l(1) disj by auto
    have "set (P @ B @ R) \<subseteq> set V" using inv by (simp add: kinv_def)
    then show "set ((P @ B) @ R @ l) \<subseteq> set V" using lV by auto
    show "\<forall>t. degGet d' t = indeg E (P @ B) t" using deg' by blast
    show "\<forall>t\<in>set V. t \<in> set ((P @ B) @ R @ l) \<longleftrightarrow> degGet d' t = 0" using cover by blast
  qed
qed

text \<open>The degrees that the edges were counted into, with the vertices of in-degree 0 as the queue.\<close>

lemma kinv_init:
  assumes "wfGraph V E" "\<And>t. degGet d t = indeg E [] t"
    and "distinct Q" "set Q = {t \<in> set V. degGet d t = 0}"
  shows "kinv V E d [] Q"
  using assms by (auto simp: kinv_def)

section \<open>What an exhausted queue means\<close>

text \<open>A list is in topological order when every edge into a member comes from an earlier one.\<close>

definition topo :: "(string \<times> string) list \<Rightarrow> string list \<Rightarrow> bool" where
  "topo E P \<longleftrightarrow> (\<forall>i<length P. \<forall>s. (s, P ! i) \<in> set E \<longrightarrow> s \<in> set (take i P))"

lemma topo_Nil [simp]: "topo E []"
  by (simp add: topo_def)

lemma topo_append:
  assumes "topo E P" "\<forall>b\<in>set B. \<forall>s. (s, b) \<in> set E \<longrightarrow> s \<in> set P"
  shows "topo E (P @ B)"
  unfolding topo_def
proof (intro allI impI)
  fix i s assume "i < length (P @ B)" and e: "(s, (P @ B) ! i) \<in> set E"
  show "s \<in> set (take i (P @ B))"
  proof (cases "i < length P")
    case True
    then show ?thesis using assms(1) e by (auto simp: topo_def nth_append)
  next
    case False
    then have "(P @ B) ! i \<in> set B" using \<open>i < length (P @ B)\<close> by (auto simp: nth_append)
    then have "s \<in> set P" using assms(2) e by blast
    then show ?thesis using False by auto
  qed
qed

lemma kinv_queue_ready: "kinv V E d P (B @ R) \<Longrightarrow> b \<in> set B \<Longrightarrow> (s, b) \<in> set E \<Longrightarrow> s \<in> set P"
proof -
  assume inv: "kinv V E d P (B @ R)" and b: "b \<in> set B" and e: "(s, b) \<in> set E"
  then have "b \<in> set V" "degGet d b = indeg E P b" by (auto simp: kinv_def)
  then have "indeg E P b = 0" using inv b by (auto simp: kinv_def)
  then show "s \<in> set P" using e by (auto simp: indeg_zero_iff)
qed

lemma topo_acyclic:
  assumes "topo E P" "\<forall>(s, t) \<in> set E. t \<in> set P"
  shows "acyclic (set E)"
proof -
  let ?rank = "\<lambda>t. LEAST i. i < length P \<and> P ! i = t"
  have "?rank s < ?rank t" if "(s, t) \<in> set E" for s t
  proof -
    have "t \<in> set P" using that assms(2) by auto
    then have "\<exists>i. i < length P \<and> P ! i = t" by (auto simp: in_set_conv_nth)
    then have r: "?rank t < length P \<and> P ! ?rank t = t" by (rule LeastI_ex)
    then have "(s, P ! ?rank t) \<in> set E" using that by simp
    then have "s \<in> set (take (?rank t) P)" using assms(1) r unfolding topo_def by blast
    then obtain j where j: "j < ?rank t" "P ! j = s" using r by (auto simp: in_set_conv_nth)
    then have "j < length P \<and> P ! j = s" using r by simp
    then have "?rank s \<le> j" by (rule Least_le)
    with j show ?thesis by simp
  qed
  then have "set E \<subseteq> measure ?rank" by auto
  then show ?thesis using wf_measure wf_subset wf_acyclic by blast
qed

lemma kahn_complete:
  assumes wf: "wfGraph V E" and inv: "kinv V E d P []" and topo: "topo E P"
  shows "length P = length V \<longleftrightarrow> acyclic (set E)"
proof
  assume len: "length P = length V"
  have "distinct V" "distinct P" "set P \<subseteq> set V" using wf inv by (auto simp: wfGraph_def kinv_def)
  with len have "set P = set V"
    by (metis card_subset_eq distinct_card finite_set)
  then show "acyclic (set E)" using topo_acyclic [OF topo] wf by (auto simp: wfGraph_def)
next
  assume "acyclic (set E)"
  then have wfE: "wf (set E)" by (simp add: finite_acyclic_wf)
  have dist: "distinct V" "distinct P" and sub: "set P \<subseteq> set V" using wf inv by (auto simp: wfGraph_def kinv_def)
  have "set V \<subseteq> set P"
  proof (rule ccontr)
    assume "\<not> set V \<subseteq> set P"
    then obtain t0 where "t0 \<in> set V - set P" by auto
    then obtain t where t: "t \<in> set V - set P" and min: "\<And>s. (s, t) \<in> set E \<Longrightarrow> s \<notin> set V - set P"
      using wfE by (meson wf_eq_minimal)
    have "degGet d t \<noteq> 0" using inv t by (auto simp: kinv_def)
    then have "indeg E P t \<noteq> 0" using inv by (auto simp: kinv_def)
    then obtain s where "(s, t) \<in> set E" "s \<notin> set P" by (auto simp: indeg_zero_iff)
    then show False using min wf by (auto simp: wfGraph_def)
  qed
  with sub have "set P = set V" by auto
  then show "length P = length V" using dist by (metis distinct_card)
qed

end
