(* ===== verification/Dag.thy ===== *)
theory Dag
  imports Graph "HOL-Library.Multiset"
begin

text \<open>
  The execution plan of a workflow (\<^verbatim>\<open>buildPlan\<close> in \<^verbatim>\<open>internal/workflows/dynamic_dag.go\<close>): the nodes in
  levels, each level holding the nodes whose predecessors are all in earlier levels, and the
  incoming edges of every node. The loops over the nodes and the edges are folds over the same
  maps; the level loop is a recursion that ends because every node listed for the next level has
  used up a positive in-degree.
\<close>

section \<open>The model\<close>

datatype plan_error = UnknownSource string | UnknownTarget string | PlanCycle

record executionPlan =
  plan_Levels :: "Node list list"
  plan_Incoming :: "string \<Rightarrow> Edge list"

record planMaps =
  pm_inDegree :: degmap
  pm_incoming :: "string \<Rightarrow> Edge list"
  pm_outgoing :: "string \<Rightarrow> Edge list"

text \<open>The first loop: \<^verbatim>\<open>inDegree[node.ID] = 0\<close> and \<^verbatim>\<open>byID[node.ID] = node\<close>.\<close>

definition initDegrees :: "Node list \<Rightarrow> degmap" where
  "initDegrees nodes = fold (\<lambda>node d. degPut (node_ID node) 0 d) nodes []"

definition nodesByID :: "Node list \<Rightarrow> (string \<Rightarrow> Node option)" where
  "nodesByID nodes = fold (\<lambda>node m. m(node_ID node \<mapsto> node)) nodes Map.empty"

text \<open>The second loop, over the edges.\<close>

fun scanEdges :: "(string \<Rightarrow> Node option) \<Rightarrow> Edge list \<Rightarrow> planMaps \<Rightarrow> (plan_error, planMaps) result" where
  "scanEdges byID [] m = Ok m"
| "scanEdges byID (edge # edges) m =
     (if byID (edge_Source edge) = None then Err (UnknownSource (edge_Source edge))
      else if byID (edge_Target edge) = None then Err (UnknownTarget (edge_Target edge))
      else scanEdges byID edges
             \<lparr>pm_inDegree = degInc (pm_inDegree m) (edge_Target edge),
              pm_incoming = (pm_incoming m)(edge_Target edge := pm_incoming m (edge_Target edge) @ [edge]),
              pm_outgoing = (pm_outgoing m)(edge_Source edge := pm_outgoing m (edge_Source edge) @ [edge])\<rparr>)"

text \<open>One pass over the nodes of a level and, for each, over its outgoing edges.\<close>

definition relaxEdge :: "(string \<Rightarrow> Node option) \<Rightarrow> Edge \<Rightarrow> degmap \<times> Node list \<Rightarrow> degmap \<times> Node list" where
  "relaxEdge byID edge st =
     (let d = degDec (fst st) (edge_Target edge)
      in (d, if degGet d (edge_Target edge) = 0 then snd st @ [the (byID (edge_Target edge))] else snd st))"

definition relaxNode ::
  "(string \<Rightarrow> Node option) \<Rightarrow> (string \<Rightarrow> Edge list) \<Rightarrow> Node \<Rightarrow> degmap \<times> Node list \<Rightarrow> degmap \<times> Node list" where
  "relaxNode byID outgoing node st = fold (relaxEdge byID) (outgoing (node_ID node)) st"

definition relaxLevel ::
  "(string \<Rightarrow> Node option) \<Rightarrow> (string \<Rightarrow> Edge list) \<Rightarrow> degmap \<Rightarrow> Node list \<Rightarrow> degmap \<times> Node list" where
  "relaxLevel byID outgoing d level = fold (relaxNode byID outgoing) level (d, [])"

lemma relaxEdge_positives:
  "positives (fst (relaxEdge byID e st)) + length (snd (relaxEdge byID e st)) \<le> positives (fst st) + length (snd st)"
  using positives_degDec [of "fst st" "edge_Target e"] by (auto simp: relaxEdge_def Let_def degGet_degDec)

lemma relaxEdges_positives:
  "positives (fst (fold (relaxEdge byID) es st)) + length (snd (fold (relaxEdge byID) es st))
     \<le> positives (fst st) + length (snd st)"
proof (induction es arbitrary: st)
  case (Cons e es)
  from Cons.IH [of "relaxEdge byID e st"] relaxEdge_positives [of byID e st] show ?case by simp
qed simp

lemma relaxLevel_positives:
  "positives (fst (relaxLevel byID outgoing d level)) + length (snd (relaxLevel byID outgoing d level)) \<le> positives d"
proof -
  have "positives (fst (fold (relaxNode byID outgoing) level st)) + length (snd (fold (relaxNode byID outgoing) level st))
          \<le> positives (fst st) + length (snd st)" for st
  proof (induction level arbitrary: st)
    case (Cons n level)
    from Cons.IH [of "relaxNode byID outgoing n st"] relaxEdges_positives [of byID "outgoing (node_ID n)" st]
    show ?case by (simp add: relaxNode_def)
  qed simp
  from this [of "(d, [])"] show ?thesis by (simp add: relaxLevel_def)
qed

function planLevels ::
  "(string \<Rightarrow> Node option) \<Rightarrow> (string \<Rightarrow> Edge list) \<Rightarrow> degmap \<Rightarrow> Node list \<Rightarrow> Node list list" where
  "planLevels byID outgoing d queue =
     (if queue = [] then []
      else queue # planLevels byID outgoing (fst (relaxLevel byID outgoing d queue)) (snd (relaxLevel byID outgoing d queue)))"
  by pat_completeness auto
termination
proof (relation "measure (\<lambda>(byID, outgoing, d, queue). 2 * positives d + (if queue = [] then 0 else 1))")
  fix byID :: "string \<Rightarrow> Node option" and outgoing d and queue :: "Node list"
  assume "queue \<noteq> []"
  then show "((byID, outgoing, fst (relaxLevel byID outgoing d queue), snd (relaxLevel byID outgoing d queue)),
          byID, outgoing, d, queue) \<in> measure (\<lambda>(byID, outgoing, d, queue). 2 * positives d + (if queue = [] then 0 else 1))"
    using relaxLevel_positives [of byID outgoing d queue] by (cases "snd (relaxLevel byID outgoing d queue)") auto
qed simp

declare planLevels.simps [simp del]

definition buildPlan :: "Node list \<Rightarrow> Edge list \<Rightarrow> (plan_error, executionPlan) result" where
  "buildPlan nodes edges =
     (let byID = nodesByID nodes in
      case scanEdges byID edges \<lparr>pm_inDegree = initDegrees nodes, pm_incoming = (\<lambda>_. []), pm_outgoing = (\<lambda>_. [])\<rparr> of
        Inl e \<Rightarrow> Err e
      | Inr m \<Rightarrow>
          let queue = filter (\<lambda>node. degGet (pm_inDegree m) (node_ID node) = 0) nodes;
              levels = planLevels byID (pm_outgoing m) (pm_inDegree m) queue;
              visited = sum_list (map length levels)
          in if visited \<noteq> length nodes then Err PlanCycle
             else Ok \<lparr>plan_Levels = levels, plan_Incoming = pm_incoming m\<rparr>)"

section \<open>A sample graph\<close>

text \<open>A diamond, used to evaluate the definitions on concrete input, and an edge that closes a cycle.\<close>

definition sampleNode :: "string \<Rightarrow> string \<Rightarrow> string \<Rightarrow> Node" where
  "sampleNode i ty act = \<lparr>node_ID = i, node_Type = ty, node_ActivityType = act, node_Label = [], node_Config = [],
     node_Ingestion = None, node_TimeoutSec = None, node_Retry = None, node_MergeStrategy = [], node_JoinKey = [],
     node_InputAssets = [], node_OutputAssets = []\<rparr>"

definition sampleEdge :: "string \<Rightarrow> string \<Rightarrow> Edge" where
  "sampleEdge s t = \<lparr>edge_ID = s @ ''-'' @ t, edge_Source = s, edge_Target = t, edge_Condition = []\<rparr>"

definition sampleNodes :: "Node list" where
  "sampleNodes = [sampleNode ''k'' ''sink'' ''sink.postgres'', sampleNode ''a'' ''source'' ''http.fetch'',
     sampleNode ''b'' ''transform'' ''transform.map'', sampleNode ''c'' ''transform'' ''transform.filter'']"

definition sampleEdges :: "Edge list" where
  "sampleEdges = [sampleEdge ''a'' ''b'', sampleEdge ''a'' ''c'', sampleEdge ''b'' ''k'', sampleEdge ''c'' ''k'']"

definition backEdge :: Edge where
  "backEdge = sampleEdge ''k'' ''b''"

section \<open>The maps\<close>

definition edgePairs :: "Edge list \<Rightarrow> (string \<times> string) list" where
  "edgePairs edges = map (\<lambda>e. (edge_Source e, edge_Target e)) edges"

abbreviation nodeIDs :: "Node list \<Rightarrow> string list" where
  "nodeIDs nodes \<equiv> map node_ID nodes"

lemma degGet_initDegrees: "degGet (initDegrees nodes) k = 0"
proof -
  have "degGet d k = 0 \<Longrightarrow> degGet (fold (\<lambda>node d. degPut (node_ID node) 0 d) nodes d) k = 0" for d
    by (induction nodes arbitrary: d) auto
  then show ?thesis by (simp add: initDegrees_def)
qed

lemma nodesByID_None: "nodesByID nodes k = None \<longleftrightarrow> k \<notin> set (nodeIDs nodes)"
proof -
  have "fold (\<lambda>node m. m(node_ID node \<mapsto> node)) nodes m k = None \<longleftrightarrow> k \<notin> set (nodeIDs nodes) \<and> m k = None" for m
    by (induction nodes arbitrary: m) auto
  then show ?thesis by (simp add: nodesByID_def)
qed

lemma nodesByID_Some: "nodesByID nodes k = Some n \<Longrightarrow> n \<in> set nodes \<and> node_ID n = k"
proof -
  have "fold (\<lambda>node m. m(node_ID node \<mapsto> node)) nodes m k = Some n \<Longrightarrow> (n \<in> set nodes \<and> node_ID n = k) \<or> m k = Some n" for m
    by (induction nodes arbitrary: m) (fastforce split: if_splits)+
  then show "nodesByID nodes k = Some n \<Longrightarrow> n \<in> set nodes \<and> node_ID n = k"
    by (fastforce simp: nodesByID_def)
qed

lemma scanEdges_Ok:
  "scanEdges byID edges m = Ok m' \<Longrightarrow>
     (\<forall>e\<in>set edges. byID (edge_Source e) \<noteq> None \<and> byID (edge_Target e) \<noteq> None)
     \<and> (\<forall>t. degGet (pm_inDegree m') t = degGet (pm_inDegree m) t + indeg (edgePairs edges) [] t)
     \<and> (\<forall>t. pm_incoming m' t = pm_incoming m t @ filter (\<lambda>e. edge_Target e = t) edges)
     \<and> (\<forall>s. pm_outgoing m' s = pm_outgoing m s @ filter (\<lambda>e. edge_Source e = s) edges)"
proof (induction byID edges m rule: scanEdges.induct)
  case (1 byID m)
  then show ?case by (simp add: indeg_def edgePairs_def)
next
  case (2 byID edge edges m)
  then show ?case
    by (auto simp: indeg_def edgePairs_def degGet_degInc split: if_splits)
qed

lemma scanEdges_total:
  "\<forall>e\<in>set edges. byID (edge_Source e) \<noteq> None \<and> byID (edge_Target e) \<noteq> None \<Longrightarrow> \<exists>m'. scanEdges byID edges m = Ok m'"
  by (induction byID edges m rule: scanEdges.induct) auto

lemma scanEdges_Err:
  "scanEdges byID edges m = Err e \<Longrightarrow>
     (\<exists>x\<in>set edges. (e = UnknownSource (edge_Source x) \<and> byID (edge_Source x) = None)
        \<or> (e = UnknownTarget (edge_Target x) \<and> byID (edge_Target x) = None))"
  by (induction byID edges m rule: scanEdges.induct) (auto split: if_splits)

section \<open>The level loop\<close>

text \<open>On identifiers, a pass over a level is the relaxation of the targets of its edges.\<close>

lemma relaxEdges_ids:
  assumes "\<forall>e\<in>set es. \<exists>n. byID (edge_Target e) = Some n \<and> node_ID n = edge_Target e"
  shows "fst (fold (relaxEdge byID) es st) = fst (relaxIds (fst st) (map edge_Target es))
    \<and> nodeIDs (snd (fold (relaxEdge byID) es st)) = nodeIDs (snd st) @ snd (relaxIds (fst st) (map edge_Target es))"
  using assms
proof (induction es arbitrary: st)
  case (Cons e es)
  then obtain n where "byID (edge_Target e) = Some n" "node_ID n = edge_Target e" by auto
  then show ?case using Cons.IH [of "relaxEdge byID e st"] Cons.prems
    by (simp add: relaxEdge_def Let_def split_beta)
qed simp

lemma relaxLevel_ids:
  assumes "\<forall>s. \<forall>e\<in>set (outgoing s). \<exists>n. byID (edge_Target e) = Some n \<and> node_ID n = edge_Target e"
  shows "fst (relaxLevel byID outgoing d level)
           = fst (relaxIds d (concat (map (\<lambda>s. map edge_Target (outgoing s)) (nodeIDs level))))
       \<and> nodeIDs (snd (relaxLevel byID outgoing d level))
           = snd (relaxIds d (concat (map (\<lambda>s. map edge_Target (outgoing s)) (nodeIDs level))))"
proof -
  have "fst (fold (relaxNode byID outgoing) level st)
           = fst (relaxIds (fst st) (concat (map (\<lambda>s. map edge_Target (outgoing s)) (nodeIDs level))))
       \<and> nodeIDs (snd (fold (relaxNode byID outgoing) level st))
           = nodeIDs (snd st) @ snd (relaxIds (fst st) (concat (map (\<lambda>s. map edge_Target (outgoing s)) (nodeIDs level))))" for st
  proof (induction level arbitrary: st)
    case (Cons n level)
    then show ?case
      using relaxEdges_ids [of "outgoing (node_ID n)" byID st] assms
      by (simp add: relaxNode_def relaxIds_append Let_def split_beta)
  qed simp
  from this [of "(d, [])"] show ?thesis by (simp add: relaxLevel_def)
qed

lemma relaxLevel_nodes:
  "set (snd (relaxLevel byID outgoing d level)) \<subseteq> {the (byID (edge_Target e)) |e s. e \<in> set (outgoing s)}"
proof -
  let ?S = "{the (byID (edge_Target e)) |e s. e \<in> set (outgoing s)}"
  have edges: "set (snd st) \<subseteq> ?S \<Longrightarrow> set es \<subseteq> (\<Union>s. set (outgoing s)) \<Longrightarrow> set (snd (fold (relaxEdge byID) es st)) \<subseteq> ?S" for es st
  proof (induction es arbitrary: st)
    case (Cons e es)
    have "set (snd (relaxEdge byID e st)) \<subseteq> ?S"
      using Cons.prems by (auto simp: relaxEdge_def Let_def)
    then show ?case using Cons.IH [of "relaxEdge byID e st"] Cons.prems(2) by simp
  qed simp
  have "set (snd st) \<subseteq> ?S \<Longrightarrow> set (snd (fold (relaxNode byID outgoing) level st)) \<subseteq> ?S" for st
  proof (induction level arbitrary: st)
    case (Cons n level)
    have "set (snd (relaxNode byID outgoing n st)) \<subseteq> ?S"
      unfolding relaxNode_def by (rule edges [OF Cons.prems]) blast
    then show ?case using Cons.IH by simp
  qed simp
  then show ?thesis by (simp add: relaxLevel_def)
qed

text \<open>The facts on the maps that the level loop runs with.\<close>

definition planGraph :: "Node list \<Rightarrow> Edge list \<Rightarrow> (string \<Rightarrow> Node option) \<Rightarrow> (string \<Rightarrow> Edge list) \<Rightarrow> bool" where
  "planGraph nodes edges byID outgoing \<longleftrightarrow>
     wfGraph (nodeIDs nodes) (edgePairs edges) \<and>
     (\<forall>k \<in> set (nodeIDs nodes). \<exists>n\<in>set nodes. byID k = Some n \<and> node_ID n = k) \<and>
     (\<forall>s. outgoing s = filter (\<lambda>e. edge_Source e = s) edges)"

lemma targetsOf_outgoing:
  "targetsOf (edgePairs edges) s = map edge_Target (filter (\<lambda>e. edge_Source e = s) edges)"
  by (induction edges) (auto simp: targetsOf_def edgePairs_def)

lemma planGraph_target:
  "planGraph nodes edges byID outgoing \<Longrightarrow> e \<in> set (outgoing s) \<Longrightarrow>
     \<exists>n\<in>set nodes. byID (edge_Target e) = Some n \<and> node_ID n = edge_Target e"
  by (fastforce simp: planGraph_def wfGraph_def edgePairs_def)

lemma relaxLevel_step:
  assumes g: "planGraph nodes edges byID outgoing" and r: "relaxLevel byID outgoing d queue = (d', next)"
    and inv: "kinv (nodeIDs nodes) (edgePairs edges) d P (nodeIDs queue)"
  shows "kinv (nodeIDs nodes) (edgePairs edges) d' (P @ nodeIDs queue) (nodeIDs next)"
    and "\<forall>n\<in>set next. \<exists>s\<in>set queue. (node_ID s, node_ID n) \<in> set (edgePairs edges)"
    and "set next \<subseteq> set nodes"
proof -
  let ?E = "edgePairs edges"
  have outgoing: "outgoing = (\<lambda>s. filter (\<lambda>e. edge_Source e = s) edges)" using g by (auto simp: planGraph_def)
  have tgt: "targetsOf ?E = (\<lambda>s. map edge_Target (outgoing s))"
    by (rule ext) (simp add: targetsOf_outgoing outgoing)
  have "\<forall>s. \<forall>e\<in>set (outgoing s). \<exists>n. byID (edge_Target e) = Some n \<and> node_ID n = edge_Target e"
    using planGraph_target [OF g] by blast
  then have ids: "relaxIds d (concat (map (targetsOf ?E) (nodeIDs queue))) = (d', nodeIDs next)"
    using relaxLevel_ids [of outgoing byID d queue] r unfolding tgt by (simp add: prod_eq_iff)
  have wf: "wfGraph (nodeIDs nodes) ?E" using g by (simp add: planGraph_def)
  have inv': "kinv (nodeIDs nodes) ?E d P (nodeIDs queue @ [])" using inv by simp
  show "kinv (nodeIDs nodes) ?E d' (P @ nodeIDs queue) (nodeIDs next)"
    using kinv_step(1) [OF wf inv' ids] by simp
  show "\<forall>n\<in>set next. \<exists>s\<in>set queue. (node_ID s, node_ID n) \<in> set ?E"
    using kinv_step(2) [OF wf inv' ids] by simp
  show "set next \<subseteq> set nodes"
    using relaxLevel_nodes [of byID outgoing d queue] r planGraph_target [OF g] by fastforce
qed

text \<open>
  What the level loop establishes: it ends with an empty queue and the invariant; every node of a
  level has all its predecessors in earlier levels, and from the second level on one of them in the
  level just before.
\<close>

definition levelsOrdered :: "(string \<times> string) list \<Rightarrow> string list \<Rightarrow> Node list list \<Rightarrow> bool" where
  "levelsOrdered E P levels \<longleftrightarrow>
     (\<forall>k<length levels. levels ! k \<noteq> [] \<and>
        (\<forall>n\<in>set (levels ! k). \<forall>s. (s, node_ID n) \<in> set E \<longrightarrow> s \<in> set P \<union> node_ID ` set (concat (take k levels))))"

definition levelsTight :: "(string \<times> string) list \<Rightarrow> Node list list \<Rightarrow> bool" where
  "levelsTight E levels \<longleftrightarrow>
     (\<forall>k. Suc k < length levels \<longrightarrow> (\<forall>n\<in>set (levels ! Suc k). \<exists>p\<in>set (levels ! k). (node_ID p, node_ID n) \<in> set E))"

lemma levelsOrdered_Cons:
  assumes "q \<noteq> []" "\<forall>n\<in>set q. \<forall>s. (s, node_ID n) \<in> set E \<longrightarrow> s \<in> set P" "levelsOrdered E (P @ nodeIDs q) ls"
  shows "levelsOrdered E P (q # ls)"
  unfolding levelsOrdered_def
proof (intro allI impI)
  fix k assume "k < length (q # ls)"
  then show "(q # ls) ! k \<noteq> [] \<and> (\<forall>n\<in>set ((q # ls) ! k). \<forall>s. (s, node_ID n) \<in> set E \<longrightarrow>
      s \<in> set P \<union> node_ID ` set (concat (take k (q # ls))))"
    using assms unfolding levelsOrdered_def by (cases k) (auto simp: image_Un)
qed

lemma levelsTight_Cons:
  assumes "ls \<noteq> [] \<Longrightarrow> \<forall>n\<in>set (hd ls). \<exists>p\<in>set q. (node_ID p, node_ID n) \<in> set E" "levelsTight E ls"
  shows "levelsTight E (q # ls)"
  unfolding levelsTight_def
proof (intro allI impI)
  fix k assume "Suc k < length (q # ls)"
  then show "\<forall>n\<in>set ((q # ls) ! Suc k). \<exists>p\<in>set ((q # ls) ! k). (node_ID p, node_ID n) \<in> set E"
    using assms unfolding levelsTight_def by (cases k) (auto simp: hd_conv_nth)
qed

lemma levelsOrdered_ConsD:
  assumes "levelsOrdered E P (q # ls)"
  shows "\<forall>n\<in>set q. \<forall>s. (s, node_ID n) \<in> set E \<longrightarrow> s \<in> set P" and "levelsOrdered E (P @ nodeIDs q) ls"
proof -
  show "\<forall>n\<in>set q. \<forall>s. (s, node_ID n) \<in> set E \<longrightarrow> s \<in> set P"
    using assms unfolding levelsOrdered_def by force
  show "levelsOrdered E (P @ nodeIDs q) ls"
    unfolding levelsOrdered_def
  proof (intro allI impI)
    fix k assume "k < length ls"
    then show "ls ! k \<noteq> [] \<and> (\<forall>n\<in>set (ls ! k). \<forall>s. (s, node_ID n) \<in> set E \<longrightarrow>
        s \<in> set (P @ nodeIDs q) \<union> node_ID ` set (concat (take k ls)))"
      using assms [unfolded levelsOrdered_def, rule_format, of "Suc k"] by (auto simp: image_Un)
  qed
qed

lemma topo_levels:
  "topo E P \<Longrightarrow> levelsOrdered E P ls \<Longrightarrow> topo E (P @ nodeIDs (concat ls))"
proof (induction ls arbitrary: P)
  case (Cons q ls)
  note l = levelsOrdered_ConsD [OF Cons.prems(2)]
  have "topo E (P @ nodeIDs q)" using Cons.prems(1) l(1) by (intro topo_append) auto
  then show ?case using Cons.IH [of "P @ nodeIDs q"] l(2) by simp
qed simp

lemma planLevels_spec:
  assumes g: "planGraph nodes edges byID outgoing"
    and "kinv (nodeIDs nodes) (edgePairs edges) d P (nodeIDs queue)" "set queue \<subseteq> set nodes"
  shows "(\<exists>d'. kinv (nodeIDs nodes) (edgePairs edges) d' (P @ nodeIDs (concat (planLevels byID outgoing d queue))) [])
    \<and> levelsOrdered (edgePairs edges) P (planLevels byID outgoing d queue)
    \<and> levelsTight (edgePairs edges) (planLevels byID outgoing d queue)
    \<and> set (concat (planLevels byID outgoing d queue)) \<subseteq> set nodes
    \<and> (queue \<noteq> [] \<longrightarrow> planLevels byID outgoing d queue \<noteq> [] \<and> hd (planLevels byID outgoing d queue) = queue)"
  using assms
proof (induction byID outgoing d queue arbitrary: P rule: planLevels.induct)
  case (1 byID outgoing d queue)
  let ?E = "edgePairs edges"
  show ?case
  proof (cases "queue = []")
    case True
    then show ?thesis using "1.prems"
      by (auto simp: planLevels.simps [of _ _ _ "[]"] levelsOrdered_def levelsTight_def)
  next
    case False
    obtain d' next' where r: "relaxLevel byID outgoing d queue = (d', next')" by fastforce
    define ls where "ls = planLevels byID outgoing d' next'"
    have eq: "planLevels byID outgoing d queue = queue # ls"
      using False r by (simp add: planLevels.simps [of _ _ _ queue] ls_def)
    note step = relaxLevel_step [OF "1.prems"(1) r "1.prems"(2)]
    have IH: "(\<exists>d'. kinv (nodeIDs nodes) ?E d' ((P @ nodeIDs queue) @ nodeIDs (concat ls)) [])
        \<and> levelsOrdered ?E (P @ nodeIDs queue) ls \<and> levelsTight ?E ls \<and> set (concat ls) \<subseteq> set nodes
        \<and> (next' \<noteq> [] \<longrightarrow> ls \<noteq> [] \<and> hd ls = next')"
      using "1.IH" [OF False "1.prems"(1), of "P @ nodeIDs queue"] step(1,3) unfolding ls_def r fst_conv snd_conv by blast
    have ready: "\<forall>n\<in>set queue. \<forall>s. (s, node_ID n) \<in> set ?E \<longrightarrow> s \<in> set P"
      using kinv_queue_ready [of "nodeIDs nodes" ?E d P "nodeIDs queue" "[]"] "1.prems"(2) by auto
    have empty: "next' = [] \<Longrightarrow> ls = []" by (simp add: ls_def planLevels.simps [of _ _ _ "[]"])
    have tight: "ls \<noteq> [] \<Longrightarrow> \<forall>n\<in>set (hd ls). \<exists>p\<in>set queue. (node_ID p, node_ID n) \<in> set ?E"
      using IH step(2) empty by auto
    show ?thesis unfolding eq
      using IH levelsOrdered_Cons [OF False ready] levelsTight_Cons [OF tight] False "1.prems"(3) by simp
  qed
qed

section \<open>Correctness of the plan\<close>

abbreviation emptyMaps :: "Node list \<Rightarrow> planMaps" where
  "emptyMaps nodes \<equiv> \<lparr>pm_inDegree = initDegrees nodes, pm_incoming = (\<lambda>_. []), pm_outgoing = (\<lambda>_. [])\<rparr>"

definition edgesKnown :: "Node list \<Rightarrow> Edge list \<Rightarrow> bool" where
  "edgesKnown nodes edges \<longleftrightarrow>
     (\<forall>e\<in>set edges. edge_Source e \<in> set (nodeIDs nodes) \<and> edge_Target e \<in> set (nodeIDs nodes))"

lemma planGraph_init:
  assumes "distinct (nodeIDs nodes)" "scanEdges (nodesByID nodes) edges (emptyMaps nodes) = Ok m"
  shows "planGraph nodes edges (nodesByID nodes) (pm_outgoing m)"
    and "kinv (nodeIDs nodes) (edgePairs edges) (pm_inDegree m) []
           (nodeIDs (filter (\<lambda>node. degGet (pm_inDegree m) (node_ID node) = 0) nodes))"
proof -
  note scan = scanEdges_Ok [OF assms(2)]
  have wf: "wfGraph (nodeIDs nodes) (edgePairs edges)"
    using scan assms(1) by (auto simp: wfGraph_def edgePairs_def nodesByID_None)
  have "\<exists>n\<in>set nodes. nodesByID nodes k = Some n \<and> node_ID n = k" if "k \<in> set (nodeIDs nodes)" for k
    using nodesByID_None [of nodes k] nodesByID_Some [of nodes k] that by (cases "nodesByID nodes k") auto
  then show "planGraph nodes edges (nodesByID nodes) (pm_outgoing m)"
    using wf scan by (simp add: planGraph_def)
  show "kinv (nodeIDs nodes) (edgePairs edges) (pm_inDegree m) []
           (nodeIDs (filter (\<lambda>node. degGet (pm_inDegree m) (node_ID node) = 0) nodes))"
    using scan assms(1) by (intro kinv_init [OF wf]) (auto simp: degGet_initDegrees distinct_map inj_on_def)
qed

lemma sum_list_length_concat: "sum_list (map length xss) = length (concat xss)"
  by (simp add: length_concat)

text \<open>The visited count decides acyclicity, and the levels satisfy the ordering facts.\<close>

lemma buildPlan_scanned:
  assumes "distinct (nodeIDs nodes)" "scanEdges (nodesByID nodes) edges (emptyMaps nodes) = Ok m"
  shows "\<exists>levels. buildPlan nodes edges =
           (if acyclic (set (edgePairs edges)) then Ok \<lparr>plan_Levels = levels, plan_Incoming = pm_incoming m\<rparr> else Err PlanCycle)
         \<and> levelsOrdered (edgePairs edges) [] levels \<and> levelsTight (edgePairs edges) levels
         \<and> set (concat levels) \<subseteq> set nodes \<and> distinct (nodeIDs (concat levels))
         \<and> (acyclic (set (edgePairs edges)) \<longrightarrow> length (concat levels) = length nodes)"
proof -
  let ?E = "edgePairs edges"
  let ?q = "filter (\<lambda>node. degGet (pm_inDegree m) (node_ID node) = 0) nodes"
  define levels where "levels = planLevels (nodesByID nodes) (pm_outgoing m) (pm_inDegree m) ?q"
  note g = planGraph_init(1) [OF assms]
  obtain d' where fin: "kinv (nodeIDs nodes) ?E d' (nodeIDs (concat levels)) []"
    and ord: "levelsOrdered ?E [] levels" and tight: "levelsTight ?E levels"
    and sub: "set (concat levels) \<subseteq> set nodes"
    using planLevels_spec [OF g planGraph_init(2) [OF assms]] unfolding levels_def by force
  have topo: "topo ?E (nodeIDs (concat levels))" using topo_levels [OF _ ord] by simp
  have wf: "wfGraph (nodeIDs nodes) ?E" using g by (simp add: planGraph_def)
  have count: "length (concat levels) = length nodes \<longleftrightarrow> acyclic (set ?E)"
    using kahn_complete [OF wf fin topo] by simp
  have dist: "distinct (nodeIDs (concat levels))" using fin by (simp add: kinv_def)
  have "buildPlan nodes edges = (if acyclic (set ?E) then Ok \<lparr>plan_Levels = levels, plan_Incoming = pm_incoming m\<rparr> else Err PlanCycle)"
    using assms(2) count by (simp add: buildPlan_def Let_def levels_def [symmetric] sum_list_length_concat)
  then show ?thesis using ord tight sub dist count by blast
qed

lemma buildPlan_Ok_scan:
  "buildPlan nodes edges = Ok plan \<Longrightarrow>
     \<exists>m. scanEdges (nodesByID nodes) edges (emptyMaps nodes) = Ok m \<and> plan_Incoming plan = pm_incoming m"
  by (auto simp: buildPlan_def Let_def split: sum.splits if_splits)

lemma scanEdges_edgesKnown:
  "(\<exists>m. scanEdges (nodesByID nodes) edges (emptyMaps nodes) = Ok m) \<longleftrightarrow> edgesKnown nodes edges"
  using scanEdges_total [of edges "nodesByID nodes" "emptyMaps nodes"] scanEdges_Ok [of "nodesByID nodes" edges "emptyMaps nodes"]
  by (auto simp: edgesKnown_def nodesByID_None)

lemma buildPlan_ok_iff:
  assumes "distinct (nodeIDs nodes)"
  shows "(\<exists>plan. buildPlan nodes edges = Ok plan) \<longleftrightarrow> edgesKnown nodes edges \<and> acyclic (set (edgePairs edges))"
proof
  assume "\<exists>plan. buildPlan nodes edges = Ok plan"
  then obtain plan m where b: "buildPlan nodes edges = Ok plan"
    and m: "scanEdges (nodesByID nodes) edges (emptyMaps nodes) = Ok m"
    using buildPlan_Ok_scan by blast
  then show "edgesKnown nodes edges \<and> acyclic (set (edgePairs edges))"
    using buildPlan_scanned [OF assms m] scanEdges_edgesKnown by (auto split: if_splits)
next
  assume "edgesKnown nodes edges \<and> acyclic (set (edgePairs edges))"
  then obtain m where "scanEdges (nodesByID nodes) edges (emptyMaps nodes) = Ok m"
    using scanEdges_edgesKnown by blast
  then show "\<exists>plan. buildPlan nodes edges = Ok plan"
    using buildPlan_scanned [OF assms] \<open>edgesKnown nodes edges \<and> _\<close> by fastforce
qed

lemma buildPlan_levels:
  assumes "distinct (nodeIDs nodes)" "buildPlan nodes edges = Ok plan"
  shows "levelsOrdered (edgePairs edges) [] (plan_Levels plan)" "levelsTight (edgePairs edges) (plan_Levels plan)"
    and "mset (concat (plan_Levels plan)) = mset nodes"
proof -
  obtain m where m: "scanEdges (nodesByID nodes) edges (emptyMaps nodes) = Ok m"
    using buildPlan_Ok_scan [OF assms(2)] by blast
  then obtain levels where l: "plan_Levels plan = levels" "levelsOrdered (edgePairs edges) [] levels"
      "levelsTight (edgePairs edges) levels" "set (concat levels) \<subseteq> set nodes"
      "distinct (nodeIDs (concat levels))" "length (concat levels) = length nodes"
    using buildPlan_scanned [OF assms(1) m] assms(2) by (auto split: if_splits)
  show "levelsOrdered (edgePairs edges) [] (plan_Levels plan)" "levelsTight (edgePairs edges) (plan_Levels plan)"
    using l by simp_all
  have dl: "distinct (concat levels)" "distinct nodes" using l(5) assms(1) by (simp_all add: distinct_map)
  then have "card (set (concat levels)) = card (set nodes)" using l(6) distinct_card by metis
  then have "set (concat levels) = set nodes" using l(4) by (simp add: card_subset_eq)
  then show "mset (concat (plan_Levels plan)) = mset nodes"
    using dl l(1) by (metis set_eq_iff_mset_eq_distinct)
qed

lemma buildPlan_incoming:
  "buildPlan nodes edges = Ok plan \<Longrightarrow> plan_Incoming plan k = filter (\<lambda>e. edge_Target e = k) edges"
  using buildPlan_Ok_scan [of nodes edges plan] scanEdges_Ok [of "nodesByID nodes" edges "emptyMaps nodes"] by auto

section \<open>Properties of the planner\<close>

text \<open>C1: On a definition whose node identifiers are distinct, a plan that \<^verbatim>\<open>buildPlan\<close> returns
  contains every node exactly once; no level is empty; every edge goes from a node to a node of a strictly later level; a node
  is in the earliest level possible (from the second level on it has a predecessor in the level
  before); and the plan lists the incoming edges of every node in the order of the definition.\<close>

theorem plan_levels_correct:
  assumes "distinct (map node_ID nodes)" "buildPlan nodes edges = Ok plan"
  shows "mset (concat (plan_Levels plan)) = mset nodes
    \<and> [] \<notin> set (plan_Levels plan)
    \<and> (\<forall>e\<in>set edges. \<forall>k<length (plan_Levels plan). edge_Target e \<in> node_ID ` set (plan_Levels plan ! k) \<longrightarrow>
           (\<exists>j<k. edge_Source e \<in> node_ID ` set (plan_Levels plan ! j)))
    \<and> (\<forall>k. Suc k < length (plan_Levels plan) \<longrightarrow> (\<forall>n\<in>set (plan_Levels plan ! Suc k).
           \<exists>e\<in>set edges. edge_Target e = node_ID n \<and> edge_Source e \<in> node_ID ` set (plan_Levels plan ! k)))
    \<and> (\<forall>k. plan_Incoming plan k = filter (\<lambda>e. edge_Target e = k) edges)"
proof (intro conjI)
  note l = buildPlan_levels [OF assms]
  show "mset (concat (plan_Levels plan)) = mset nodes" by (rule l(3))
  show "[] \<notin> set (plan_Levels plan)"
    using l(1) by (auto simp: levelsOrdered_def in_set_conv_nth)
  show "\<forall>e\<in>set edges. \<forall>k<length (plan_Levels plan). edge_Target e \<in> node_ID ` set (plan_Levels plan ! k) \<longrightarrow>
           (\<exists>j<k. edge_Source e \<in> node_ID ` set (plan_Levels plan ! j))"
  proof (intro ballI allI impI)
    fix e k assume e: "e \<in> set edges" and k: "k < length (plan_Levels plan)"
      and t: "edge_Target e \<in> node_ID ` set (plan_Levels plan ! k)"
    then have "(edge_Source e, edge_Target e) \<in> set (edgePairs edges)" by (auto simp: edgePairs_def)
    then have "edge_Source e \<in> node_ID ` set (concat (take k (plan_Levels plan)))"
      using l(1) k t unfolding levelsOrdered_def by fastforce
    then obtain lv where "lv \<in> set (take k (plan_Levels plan))" "edge_Source e \<in> node_ID ` set lv" by auto
    then show "\<exists>j<k. edge_Source e \<in> node_ID ` set (plan_Levels plan ! j)"
      by (auto simp: in_set_conv_nth)
  qed
  show "\<forall>k. Suc k < length (plan_Levels plan) \<longrightarrow> (\<forall>n\<in>set (plan_Levels plan ! Suc k).
           \<exists>e\<in>set edges. edge_Target e = node_ID n \<and> edge_Source e \<in> node_ID ` set (plan_Levels plan ! k))"
  proof (intro allI impI ballI)
    fix k n assume "Suc k < length (plan_Levels plan)" "n \<in> set (plan_Levels plan ! Suc k)"
    then obtain p where "p \<in> set (plan_Levels plan ! k)" "(node_ID p, node_ID n) \<in> set (edgePairs edges)"
      using l(2) unfolding levelsTight_def by blast
    then show "\<exists>e\<in>set edges. edge_Target e = node_ID n \<and> edge_Source e \<in> node_ID ` set (plan_Levels plan ! k)"
      by (force simp: edgePairs_def)
  qed
  show "\<forall>k. plan_Incoming plan k = filter (\<lambda>e. edge_Target e = k) edges"
    using buildPlan_incoming [OF assms(2)] by blast
qed

theorem plan_levels_correct_witness:
  "\<exists>plan. buildPlan sampleNodes sampleEdges = Ok plan \<and> mset (concat (plan_Levels plan)) = mset sampleNodes"
proof -
  have "isOk (buildPlan sampleNodes sampleEdges)" by code_simp
  then obtain plan where p: "buildPlan sampleNodes sampleEdges = Ok plan" by (auto simp: isOk_iff)
  have "distinct (map node_ID sampleNodes)" by code_simp
  from plan_levels_correct [OF this p] p show ?thesis by blast
qed

text \<open>C2: On distinct identifiers \<^verbatim>\<open>buildPlan\<close> is decided completely: it succeeds exactly when every
  edge joins known nodes and the graph is acyclic; with all edges known a failure is the cycle
  error; and with an unknown endpoint the error names an endpoint of some edge that is no node.\<close>

theorem plan_exists_iff_acyclic:
  assumes "distinct (map node_ID nodes)"
  shows "(isOk (buildPlan nodes edges) \<longleftrightarrow>
        edgesKnown nodes edges \<and> acyclic {(edge_Source e, edge_Target e) |e. e \<in> set edges})
    \<and> (edgesKnown nodes edges \<and> \<not> isOk (buildPlan nodes edges) \<longrightarrow> buildPlan nodes edges = Err PlanCycle)
    \<and> (\<not> edgesKnown nodes edges \<longrightarrow> (\<exists>k. k \<notin> set (map node_ID nodes)
           \<and> (buildPlan nodes edges = Err (UnknownSource k) \<or> buildPlan nodes edges = Err (UnknownTarget k))))"
proof (intro conjI impI)
  have "set (edgePairs edges) = {(edge_Source e, edge_Target e) |e. e \<in> set edges}" by (auto simp: edgePairs_def)
  then show "isOk (buildPlan nodes edges) \<longleftrightarrow>
      edgesKnown nodes edges \<and> acyclic {(edge_Source e, edge_Target e) |e. e \<in> set edges}"
    using buildPlan_ok_iff [OF assms, of edges] by (simp add: isOk_iff)
  show "buildPlan nodes edges = Err PlanCycle" if "edgesKnown nodes edges \<and> \<not> isOk (buildPlan nodes edges)"
  proof -
    have known: "edgesKnown nodes edges" and fail: "\<not> isOk (buildPlan nodes edges)" using that by auto
    obtain m where "scanEdges (nodesByID nodes) edges (emptyMaps nodes) = Ok m"
      using known scanEdges_edgesKnown by blast
    from buildPlan_scanned [OF assms this] fail show ?thesis by (auto simp: isOk_def split: if_splits)
  qed
  show "\<exists>k. k \<notin> set (map node_ID nodes)
           \<and> (buildPlan nodes edges = Err (UnknownSource k) \<or> buildPlan nodes edges = Err (UnknownTarget k))"
    if unknown: "\<not> edgesKnown nodes edges"
  proof -
    obtain e where e: "scanEdges (nodesByID nodes) edges (emptyMaps nodes) = Err e"
      using unknown scanEdges_edgesKnown [of nodes edges]
      by (cases "scanEdges (nodesByID nodes) edges (emptyMaps nodes)") auto
    then have "buildPlan nodes edges = Err e" by (simp add: buildPlan_def)
    moreover obtain k where "nodesByID nodes k = None" "e = UnknownSource k \<or> e = UnknownTarget k"
      using scanEdges_Err [OF e] by blast
    ultimately show ?thesis by (intro exI [of _ k]) (simp add: nodesByID_None)
  qed
qed

theorem plan_exists_iff_acyclic_witness:
  "buildPlan sampleNodes (backEdge # sampleEdges) = Err PlanCycle"
proof -
  have "distinct (map node_ID sampleNodes)" by code_simp
  moreover have "edgesKnown sampleNodes (backEdge # sampleEdges)" by code_simp
  moreover have "\<not> isOk (buildPlan sampleNodes (backEdge # sampleEdges))" by code_simp
  ultimately show ?thesis using plan_exists_iff_acyclic [of sampleNodes "backEdge # sampleEdges"] by blast
qed

end
