(* ===== verification/Process.thy ===== *)
theory Process
  imports Dag
begin

text \<open>
  Workflow code as processes. A workflow function runs between calls to the Temporal service: it
  asks for an activity or waits for a signal, and continues with the reply. A node runs as a
  coroutine, a \<open>proc\<close>; the workflow itself, a \<open>wf\<close>, also starts a group of coroutines and waits for
  all of them. The environment (activities, signals, the scheduler of the coroutines) may give any
  reply and interleave the coroutines of a group in any order: \<open>wfRuns\<close> relates a workflow to every
  trace of calls and replies it can have, and to its result.
\<close>

section \<open>Calls and replies\<close>

text \<open>Errors carry the text of \<^verbatim>\<open>err.Error()\<close>; \<^verbatim>\<open>temporal.IsCanceledError\<close> recognises \<open>WCanceled\<close>.\<close>

datatype werr = WCanceled string | WErr string

primrec errText :: "werr \<Rightarrow> string" where
  "errText (WCanceled s) = s" | "errText (WErr s) = s"

primrec isCanceled :: "werr \<Rightarrow> bool" where
  "isCanceled (WCanceled _) = True" | "isCanceled (WErr _) = False"

record ActivityOptions =
  opt_TaskQueue :: string
  opt_StartToCloseTimeout :: int
  opt_ScheduleToCloseTimeout :: int
  opt_HeartbeatTimeout :: int
  opt_InitialInterval :: int
  opt_MaximumInterval :: int
  opt_MaximumAttempts :: int
  opt_NonRetryableErrorTypes :: "string list"

record SourcePage =
  page_OutputRef :: "DataRef option"
  page_HasMore :: bool
  page_RecordCount :: int
  page_Checkpoint :: "obj option"

record SparkJobRef =
  spark_Name :: string
  spark_InputStateKey :: string
  spark_InputSnapshot :: string
  spark_OutputBefore :: string
  spark_Noop :: bool

record FlinkDeploymentStatus =
  fds_State :: string
  fds_Error :: string
  fds_Checkpoint :: string

text \<open>
  The calls, with the arguments that the code passes. \<open>Gate\<close> is \<^verbatim>\<open>waitActive\<close> of the execution controller,
  \<open>ViewControl\<close> a read of the controller's fields, \<open>DrainSignals\<close> the three \<^verbatim>\<open>ReceiveAsync\<close> loops and
  \<open>SelectSignal\<close> the selector that blocks while the workflow is paused. The workflows of the engines also read
  the clock of the workflow (\<open>ReadClock\<close>), sleep, and wait for a signal or a timer; \<open>SelectFlink\<close> answers with the
  signals that are buffered when \<^verbatim>\<open>Select\<close> returns (pause, resume, rollback, cancel), none when the timer fired.
\<close>

datatype call =
    EvalEdgeCondition string "DataRef option" string
  | MergeRefs "DataRef list" string string string string string string
  | DispatchNode string obj "DataRef option" string string string int string
  | FetchSourcePage string obj "IngestionConfig option" string string "obj option" string string string
  | PrepareScheduledExecution string string string string string string
  | CommitSourceCursors string "(string \<times> obj) list"
  | CommitDedupeKeys string "obj list"
  | MarkExecution string string
  | FinalizeExecutionControl string string string
  | ReadExecutionControl string string
  | Gate
  | ViewControl
  | DrainSignals
  | SelectSignal
  | ReadClock
  | SleepFor int
  | SubmitSparkJob PipelineDefinition string string
  | SparkJobStatus SparkJobRef
  | CommitSparkJob SparkJobRef PipelineDefinition string
  | CancelSparkJob SparkJobRef
  | SelectSpark
  | DeployFlinkJob PipelineDefinition string string
  | FlinkJobStatus string
  | FlinkJobAction string string string
  | RecordFlinkError string string
  | SelectFlink

datatype reply =
    RErr werr
  | RUnit
  | RBool bool
  | RNode NodeResult
  | RPage SourcePage
  | RText string
  | RControl ExecutionControl
  | RSignals bool bool bool
  | RSelect bool
  | RView "werr option" bool
  | RTime int
  | RStreamPage SourcePage int
  | RSparkRef SparkJobRef
  | RSparkStatus string string
  | RFlinkRef string
  | RFlinkStatus FlinkDeploymentStatus
  | RPending bool bool bool bool

text \<open>A reply of the wrong shape is an error of \<^verbatim>\<open>Get\<close>, which decodes the result.\<close>

definition decodeError :: werr where
  "decodeError = WErr ''unable to decode''"

definition getUnit :: "reply \<Rightarrow> (werr, unit) result" where
  "getUnit r = (case r of RErr e \<Rightarrow> Err e | _ \<Rightarrow> Ok ())"

definition getBool :: "reply \<Rightarrow> (werr, bool) result" where
  "getBool r = (case r of RErr e \<Rightarrow> Err e | RBool b \<Rightarrow> Ok b | _ \<Rightarrow> Err decodeError)"

definition getNode :: "reply \<Rightarrow> (werr, NodeResult) result" where
  "getNode r = (case r of RErr e \<Rightarrow> Err e | RNode n \<Rightarrow> Ok n | _ \<Rightarrow> Err decodeError)"

definition getPage :: "reply \<Rightarrow> (werr, SourcePage) result" where
  "getPage r = (case r of RErr e \<Rightarrow> Err e | RPage p \<Rightarrow> Ok p | _ \<Rightarrow> Err decodeError)"

definition getText :: "reply \<Rightarrow> (werr, string) result" where
  "getText r = (case r of RErr e \<Rightarrow> Err e | RText s \<Rightarrow> Ok s | _ \<Rightarrow> Err decodeError)"

definition getTime :: "reply \<Rightarrow> int" where
  "getTime r = (case r of RTime t \<Rightarrow> t | _ \<Rightarrow> 0)"

definition getStreamPage :: "reply \<Rightarrow> (werr, SourcePage \<times> int) result" where
  "getStreamPage r = (case r of RErr e \<Rightarrow> Err e | RStreamPage p l \<Rightarrow> Ok (p, l) | _ \<Rightarrow> Err decodeError)"

definition getSparkRef :: "reply \<Rightarrow> (werr, SparkJobRef) result" where
  "getSparkRef r = (case r of RErr e \<Rightarrow> Err e | RSparkRef x \<Rightarrow> Ok x | _ \<Rightarrow> Err decodeError)"

definition getSparkStatus :: "reply \<Rightarrow> (werr, string \<times> string) result" where
  "getSparkStatus r = (case r of RErr e \<Rightarrow> Err e | RSparkStatus s e \<Rightarrow> Ok (s, e) | _ \<Rightarrow> Err decodeError)"

definition getFlinkRef :: "reply \<Rightarrow> (werr, string) result" where
  "getFlinkRef r = (case r of RErr e \<Rightarrow> Err e | RFlinkRef x \<Rightarrow> Ok x | _ \<Rightarrow> Err decodeError)"

definition getFlinkStatus :: "reply \<Rightarrow> (werr, FlinkDeploymentStatus) result" where
  "getFlinkStatus r = (case r of RErr e \<Rightarrow> Err e | RFlinkStatus s \<Rightarrow> Ok s | _ \<Rightarrow> Err decodeError)"

text \<open>The node that a call names.\<close>

fun callNode :: "call \<Rightarrow> string option" where
  "callNode (MergeRefs _ _ _ _ _ nid _) = Some nid"
| "callNode (DispatchNode _ _ _ _ _ nid _ _) = Some nid"
| "callNode (FetchSourcePage _ _ _ _ _ _ _ nid _) = Some nid"
| "callNode _ = None"

section \<open>Processes and their traces\<close>

datatype 'r proc = PRet 'r | PAct ActivityOptions call "reply \<Rightarrow> 'r proc"

datatype 'r wf =
    Ret 'r
  | Act ActivityOptions call "reply \<Rightarrow> 'r wf"
  | Par "NodeResult proc list" "NodeResult list \<Rightarrow> 'r wf"

type_synonym event = "ActivityOptions \<times> call \<times> reply"

abbreviation ev_call :: "event \<Rightarrow> call" where "ev_call e \<equiv> fst (snd e)"

inductive procRuns :: "'r proc \<Rightarrow> event list \<Rightarrow> 'r \<Rightarrow> bool" where
  proc_ret: "procRuns (PRet r) [] r"
| proc_act: "procRuns (k rep) tr r \<Longrightarrow> procRuns (PAct opts c k) ((opts, c, rep) # tr) r"

inductive_simps procRuns_PRet [simp]: "procRuns (PRet r) tr x"
inductive_simps procRuns_PAct: "procRuns (PAct opts c k) tr x"

text \<open>A group of coroutines: at each step some coroutine makes its call and receives a reply.\<close>

inductive parRuns :: "'r proc list \<Rightarrow> event list \<Rightarrow> 'r list \<Rightarrow> bool" where
  par_done: "parRuns (map PRet rs) [] rs"
| par_step: "i < length ps \<Longrightarrow> ps ! i = PAct opts c k \<Longrightarrow> parRuns (ps[i := k rep]) tr rs
    \<Longrightarrow> parRuns ps ((opts, c, rep) # tr) rs"

inductive wfRuns :: "'r wf \<Rightarrow> event list \<Rightarrow> 'r \<Rightarrow> bool" where
  wf_ret: "wfRuns (Ret r) [] r"
| wf_act: "wfRuns (k rep) tr r \<Longrightarrow> wfRuns (Act opts c k) ((opts, c, rep) # tr) r"
| wf_par: "parRuns ps tr rs \<Longrightarrow> wfRuns (k rs) tr' r \<Longrightarrow> wfRuns (Par ps k) (tr @ tr') r"

inductive_simps wfRuns_Ret [simp]: "wfRuns (Ret r) tr x"
inductive_simps wfRuns_Act: "wfRuns (Act opts c k) tr x"
inductive_simps wfRuns_Par: "wfRuns (Par ps k) tr x"

lemma Union_update_Cons:
  "i < length xs \<Longrightarrow> (\<Union>t\<in>set (xs[i := e # xs ! i]). set t) = insert e (\<Union>t\<in>set xs. set t)"
proof (induction xs arbitrary: i)
  case (Cons x xs)
  then show ?case by (cases i) auto
qed simp

text \<open>Every coroutine of a group runs as it would alone, on a subsequence of the trace, and every
  event of the trace is one of a coroutine.\<close>

lemma parRuns_projection:
  "parRuns ps tr rs \<Longrightarrow> \<exists>trs. length trs = length ps \<and> length rs = length ps
     \<and> (\<forall>i<length ps. procRuns (ps ! i) (trs ! i) (rs ! i) \<and> subseq (trs ! i) tr)
     \<and> set tr = (\<Union>t\<in>set trs. set t)"
proof (induction rule: parRuns.induct)
  case (par_done rs)
  show ?case by (rule exI [of _ "replicate (length rs) []"]) (auto simp: list_emb.intros)
next
  case (par_step i ps opts c k rep tr rs)
  then obtain trs where trs: "length trs = length ps" "length rs = length ps"
    "\<forall>j<length ps. procRuns (ps[i := k rep] ! j) (trs ! j) (rs ! j) \<and> subseq (trs ! j) tr"
    "set tr = (\<Union>t\<in>set trs. set t)" by auto
  let ?e = "(opts, c, rep)"
  have "procRuns (ps ! j) (trs[i := ?e # trs ! i] ! j) (rs ! j) \<and> subseq (trs[i := ?e # trs ! i] ! j) (?e # tr)"
    if "j < length ps" for j
    using trs par_step.hyps(1,2) that by (cases "j = i") (auto simp: procRuns_PAct)
  moreover have "(\<Union>t\<in>set (trs[i := ?e # trs ! i]). set t) = insert ?e (\<Union>t\<in>set trs. set t)"
    using trs(1) par_step.hyps(1) by (intro Union_update_Cons) simp
  ultimately show ?case using trs by (intro exI [of _ "trs[i := ?e # trs ! i]"]) auto
qed

text \<open>The run with a fixed environment that answers every call by a function, the coroutines one after
  the other, is one of the runs.\<close>

primrec execProc :: "(call \<Rightarrow> reply) \<Rightarrow> 'r proc \<Rightarrow> event list \<times> 'r" where
  "execProc f (PRet r) = ([], r)"
| "execProc f (PAct opts c k) = (let (tr, r) = execProc f (k (f c)) in ((opts, c, f c) # tr, r))"

primrec execWf :: "(call \<Rightarrow> reply) \<Rightarrow> 'r wf \<Rightarrow> event list \<times> 'r" where
  "execWf f (Ret r) = ([], r)"
| "execWf f (Act opts c k) = (let (tr, r) = execWf f (k (f c)) in ((opts, c, f c) # tr, r))"
| "execWf f (Par ps k) =
     (let rs = map (execProc f) ps; (tr, r) = execWf f (k (map snd rs)) in (concat (map fst rs) @ tr, r))"

lemma execProc_runs: "procRuns p (fst (execProc f p)) (snd (execProc f p))"
  by (induction p) (auto simp: split_beta intro: procRuns.intros)

lemma parRuns_prefix:
  "procRuns p tr r \<Longrightarrow> parRuns (pre @ PRet r # post) tr' rs \<Longrightarrow> parRuns (pre @ p # post) (tr @ tr') rs"
proof (induction rule: procRuns.induct)
  case (proc_act k rep tr r opts c)
  then have "parRuns ((pre @ PAct opts c k # post)[length pre := k rep]) (tr @ tr') rs" by simp
  then have "parRuns (pre @ PAct opts c k # post) ((opts, c, rep) # tr @ tr') rs"
    by (intro par_step [of "length pre"]) simp_all
  then show ?case by simp
qed simp

lemma execProcs_runs:
  "parRuns (map PRet fin @ ps) (concat (map (\<lambda>p. fst (execProc f p)) ps)) (fin @ map (\<lambda>p. snd (execProc f p)) ps)"
proof (induction ps arbitrary: fin)
  case Nil
  show ?case using par_done [of fin] by simp
next
  case (Cons p ps)
  have "parRuns (map PRet fin @ PRet (snd (execProc f p)) # ps) (concat (map (\<lambda>p. fst (execProc f p)) ps))
      (fin @ map (\<lambda>p. snd (execProc f p)) (p # ps))"
    using Cons.IH [of "fin @ [snd (execProc f p)]"] by simp
  from parRuns_prefix [OF execProc_runs this] show ?case by simp
qed

lemma execWf_runs: "wfRuns w (fst (execWf f w)) (snd (execWf f w))"
proof (induction w)
  case (Par ps k)
  have "parRuns ps (concat (map (\<lambda>p. fst (execProc f p)) ps)) (map (\<lambda>p. snd (execProc f p)) ps)"
    using execProcs_runs [of "[]" ps f] by simp
  from wf_par [OF this Par.IH] show ?case by (simp add: split_beta Let_def comp_def)
qed (auto simp: split_beta intro: wfRuns.intros)

text \<open>An invariant of the calls of a process, for every behaviour of the environment.\<close>

primrec procAll :: "(ActivityOptions \<Rightarrow> call \<Rightarrow> bool) \<Rightarrow> 'r proc \<Rightarrow> bool" where
  "procAll P (PRet r) = True"
| "procAll P (PAct opts c k) = (P opts c \<and> (\<forall>rep. procAll P (k rep)))"

lemma procAll_runs: "procRuns p tr r \<Longrightarrow> procAll P p \<Longrightarrow> e \<in> set tr \<Longrightarrow> P (fst e) (ev_call e)"
  by (induction rule: procRuns.induct) auto

lemma procAll_par:
  assumes "parRuns ps tr rs" "\<forall>p\<in>set ps. procAll P p" "e \<in> set tr"
  shows "P (fst e) (ev_call e)"
  using assms
proof (induction rule: parRuns.induct)
  case (par_step i ps opts c k rep tr rs)
  have "procAll P (PAct opts c k)" using par_step.hyps(1,2) par_step.prems(1) by (metis nth_mem)
  then have "P opts c" "procAll P (k rep)" by simp_all
  moreover from this have "\<forall>p\<in>set (ps[i := k rep]). procAll P p"
    using par_step.prems(1) set_update_subset_insert [of ps i "k rep"] by auto
  ultimately show ?case using par_step.IH par_step.prems(2) by auto
qed simp

lemma procAll_mono: "procAll P p \<Longrightarrow> (\<And>o' c. P o' c \<Longrightarrow> Q o' c) \<Longrightarrow> procAll Q p"
  by (induction p) auto

primrec wfAll :: "(ActivityOptions \<Rightarrow> call \<Rightarrow> bool) \<Rightarrow> 'r wf \<Rightarrow> bool" where
  "wfAll P (Ret r) = True"
| "wfAll P (Act opts c k) = (P opts c \<and> (\<forall>rep. wfAll P (k rep)))"
| "wfAll P (Par ps k) = (list_all (procAll P) ps \<and> (\<forall>rs. wfAll P (k rs)))"

lemma wfAll_mono: "wfAll P p \<Longrightarrow> (\<And>o' c. P o' c \<Longrightarrow> Q o' c) \<Longrightarrow> wfAll Q p"
proof (induction p)
  case (Par ps k)
  then show ?case by (auto simp: list_all_iff intro: procAll_mono)
qed auto

lemma wfAll_runs: "wfRuns p tr r \<Longrightarrow> wfAll P p \<Longrightarrow> e \<in> set tr \<Longrightarrow> P (fst e) (ev_call e)"
proof (induction rule: wfRuns.induct)
  case (wf_par ps tr rs k tr' r)
  then show ?case using procAll_par [OF wf_par.hyps(1), of P e] by (auto simp: list_all_iff)
qed auto

text \<open>The nodes named along a trace.\<close>

definition nodeTrace :: "event list \<Rightarrow> string list" where
  "nodeTrace tr = List.map_filter (\<lambda>e. callNode (ev_call e)) tr"

lemma nodeTrace_append [simp]: "nodeTrace (tr @ tr') = nodeTrace tr @ nodeTrace tr'"
  by (simp add: nodeTrace_def map_filter_def)

lemma nodeTrace_Nil [simp]: "nodeTrace [] = []"
  by (simp add: nodeTrace_def map_filter_def)

lemma nodeTrace_Cons [simp]:
  "nodeTrace (e # tr) = (case callNode (ev_call e) of None \<Rightarrow> nodeTrace tr | Some n \<Rightarrow> n # nodeTrace tr)"
  by (simp add: nodeTrace_def map_filter_def split: option.splits)

lemma set_nodeTrace: "x \<in> set (nodeTrace tr) \<longleftrightarrow> (\<exists>e\<in>set tr. callNode (ev_call e) = Some x)"
  by (induction tr) (auto split: option.splits)

end
