(* ===== verification/Validation.thy ===== *)
theory Validation
  imports Dag
begin

text \<open>
  The admission checks of the API (\<^verbatim>\<open>internal/api/pipeline_validation.go\<close>): the structure of a pipeline
  definition, the engine-specific shapes, the licensed features that a definition needs, and the
  webhook trigger. \<^verbatim>\<open>range\<close> over the in-degree map visits the identifiers in an unspecified order,
  a parameter \<open>rng\<close>; the SQL checks of the two builds (\<^verbatim>\<open>internal/enterprise\<close>) are the fields of
  an \<open>edition\<close>.
\<close>

section \<open>The model\<close>

record edition =
  ed_Build :: bool
  ed_ValidateFlinkDeployment :: "PipelineDefinition \<Rightarrow> string \<Rightarrow> string option"
  ed_ValidateSparkSelect :: "string \<Rightarrow> string option"
  ed_ValidateFlinkSelect :: "string \<Rightarrow> string option"

definition errCommunity :: string where
  "errCommunity = ''this feature requires the enterprise build (go build -tags ee)''"

definition communityEdition :: edition where
  "communityEdition = \<lparr>ed_Build = False,
     ed_ValidateFlinkDeployment = (\<lambda>_ _. Some errCommunity),
     ed_ValidateSparkSelect = (\<lambda>_. Some errCommunity),
     ed_ValidateFlinkSelect = (\<lambda>_. Some errCommunity)\<rparr>"

datatype pipeline_error =
    NameRequired
  | NodesRequired
  | TriggerTypeRequired
  | UnsupportedEngine string
  | AgentRejected agent_error
  | PolicyRejected policy_error
  | NodeIDRequired
  | DuplicateNodeID string
  | InvalidNodeType string string
  | ActivityTypeRequired string
  | InvalidLayer string gv
  | EdgeUnknownNode string
  | PipelineCycle
  | EditionError string
  | EngineSource string string
  | EngineSink string string
  | EngineTransform string
  | EngineActivity string string
  | EngineShape string

definition validTypes :: "string list" where
  "validTypes = [''source'', ''transform'', ''sink'', ''fork'', ''merge'', ''agent'']"

definition validLayers :: "string list" where
  "validLayers = [''bronze'', ''silver'', ''gold'']"

definition invalidLayer :: "Node \<Rightarrow> bool" where
  "invalidLayer node \<longleftrightarrow> (case map_of (node_Config node) ''layer'' of None \<Rightarrow> False
     | Some layer \<Rightarrow> (case asStr layer of None \<Rightarrow> True | Some name \<Rightarrow> name \<notin> set validLayers))"

text \<open>The loop over the nodes: the identifiers seen so far, or the first error.\<close>

fun scanNodes :: "string list \<Rightarrow> Node list \<Rightarrow> (pipeline_error, string list) result" where
  "scanNodes ids [] = Ok ids"
| "scanNodes ids (node # nodes) =
     (if node_ID node = [] then Err NodeIDRequired
      else if node_ID node \<in> set ids then Err (DuplicateNodeID (node_ID node))
      else if node_Type node \<notin> set validTypes then Err (InvalidNodeType (node_ID node) (node_Type node))
      else if node_Type node \<noteq> ''fork'' \<and> node_Type node \<noteq> ''merge'' \<and> node_ActivityType node = []
        then Err (ActivityTypeRequired (node_ID node))
      else if invalidLayer node then Err (InvalidLayer (node_ID node) (objGet (node_Config node) ''layer''))
      else scanNodes (ids @ [node_ID node]) nodes)"

record graphMaps =
  gm_indegree :: degmap
  gm_outgoing :: "string \<Rightarrow> string list"

fun scanRefs :: "string list \<Rightarrow> Edge list \<Rightarrow> graphMaps \<Rightarrow> (pipeline_error, graphMaps) result" where
  "scanRefs ids [] m = Ok m"
| "scanRefs ids (edge # edges) m =
     (if edge_Source edge \<notin> set ids \<or> edge_Target edge \<notin> set ids then Err (EdgeUnknownNode (edge_ID edge))
      else scanRefs ids edges
             \<lparr>gm_indegree = degInc (gm_indegree m) (edge_Target edge),
              gm_outgoing = (gm_outgoing m)(edge_Source edge := gm_outgoing m (edge_Source edge) @ [edge_Target edge])\<rparr>)"

text \<open>The queue loop; its result is \<^verbatim>\<open>visited\<close>.\<close>

function kahnVisit :: "(string \<Rightarrow> string list) \<Rightarrow> degmap \<Rightarrow> string list \<Rightarrow> nat" where
  "kahnVisit outgoing d [] = 0"
| "kahnVisit outgoing d (nid # queue) =
     Suc (kahnVisit outgoing (fst (relaxIds d (outgoing nid))) (queue @ snd (relaxIds d (outgoing nid))))"
  by pat_completeness auto
termination
proof (relation "measure (\<lambda>(outgoing, d, queue). positives d + length queue)")
  fix outgoing :: "string \<Rightarrow> string list" and d nid queue
  show "((outgoing, fst (relaxIds d (outgoing nid)), queue @ snd (relaxIds d (outgoing nid))), outgoing, d, nid # queue)
      \<in> measure (\<lambda>(outgoing, d, queue). positives d + length queue)"
    using relaxIds_positives [of d "outgoing nid"] by simp
qed simp

definition countType :: "string \<Rightarrow> PipelineDefinition \<Rightarrow> nat" where
  "countType ty def = length (filter (\<lambda>node. node_Type node = ty) (def_Nodes def))"

definition flinkNodeError :: "Node \<Rightarrow> pipeline_error option" where
  "flinkNodeError node =
     (if node_Type node = ''source'' \<and> node_ActivityType node \<noteq> ''kafka.fetch'' then Some (EngineSource ''flink-sql'' (node_ActivityType node))
      else if node_Type node = ''sink'' \<and> node_ActivityType node \<noteq> ''sink.clickhouse'' then Some (EngineSink ''flink-sql'' (node_ActivityType node))
      else if node_Type node = ''transform'' then Some (EngineTransform ''flink-sql'')
      else None)"

definition validateFlinkSQL :: "edition \<Rightarrow> string \<Rightarrow> PipelineDefinition \<Rightarrow> pipeline_error option" where
  "validateFlinkSQL ed sql def =
     (case ed_ValidateFlinkSelect ed sql of Some e \<Rightarrow> Some (EditionError e)
      | None \<Rightarrow> (case checkAll flinkNodeError (def_Nodes def) of Some e \<Rightarrow> Some e
      | None \<Rightarrow>
          if countType ''source'' def \<noteq> 1 \<or> countType ''sink'' def \<noteq> 1 then Some (EngineShape ''flink-sql'')
          else map_option EditionError (ed_ValidateFlinkDeployment ed def ''validation'')))"

definition sparkNodeError :: "Node \<Rightarrow> pipeline_error option" where
  "sparkNodeError node =
     (if node_Type node = ''source'' \<and> node_ActivityType node \<notin> {''s3.fetch'', ''iceberg.fetch''} then Some (EngineSource ''spark-sql'' (node_ActivityType node))
      else if node_Type node = ''sink'' \<and> node_ActivityType node \<notin> {''sink.iceberg'', ''sink.clickhouse''} then Some (EngineSink ''spark-sql'' (node_ActivityType node))
      else if node_Type node = ''transform'' then Some (EngineTransform ''spark-sql'')
      else None)"

definition validateSparkSQL :: "edition \<Rightarrow> string \<Rightarrow> PipelineDefinition \<Rightarrow> pipeline_error option" where
  "validateSparkSQL ed sql def =
     (case ed_ValidateSparkSelect ed sql of Some e \<Rightarrow> Some (EditionError e)
      | None \<Rightarrow> (case checkAll sparkNodeError (def_Nodes def) of Some e \<Rightarrow> Some e
      | None \<Rightarrow>
          if countType ''source'' def \<noteq> 1 \<or> countType ''sink'' def \<noteq> 1 then Some (EngineShape ''spark-sql'') else None))"

definition streamActivities :: "string list" where
  "streamActivities = [''kafka.fetch'', ''transform.map'', ''transform.filter'', ''transform.rename'', ''transform.parse'',
     ''transform.contract'', ''sink.postgres'', ''sink.mysql'', ''sink.mongodb'', ''sink.clickhouse'']"

definition validateStreamDirect :: "PipelineDefinition \<Rightarrow> pipeline_error option" where
  "validateStreamDirect def =
     (case checkAll (\<lambda>node. if node_ActivityType node \<notin> set streamActivities
                             then Some (EngineActivity ''stream-direct'' (node_ActivityType node)) else None) (def_Nodes def) of
        Some e \<Rightarrow> Some e
      | None \<Rightarrow>
          if countType ''source'' def \<noteq> 1 \<or> countType ''sink'' def \<noteq> 1
             \<or> int (length (def_Edges def)) \<noteq> int (length (def_Nodes def)) - 1
          then Some (EngineShape ''stream-direct'') else None)"

definition validateEngine :: "edition \<Rightarrow> PipelineDefinition \<Rightarrow> pipeline_error option" where
  "validateEngine ed def =
     (case def_Execution def of None \<Rightarrow> None
      | Some x \<Rightarrow>
          if exec_Engine x = ''stream-direct'' then validateStreamDirect def
          else if exec_Engine x = ''spark-sql'' then validateSparkSQL ed (exec_TransformSQL x) def
          else if exec_Engine x = ''flink-sql'' then validateFlinkSQL ed (exec_TransformSQL x) def
          else None)"

definition engineKnown :: "PipelineDefinition \<Rightarrow> bool" where
  "engineKnown def \<longleftrightarrow> (case def_Execution def of None \<Rightarrow> True
     | Some x \<Rightarrow> exec_Engine x \<in> {'''', ''workflow'', ''stream-direct'', ''spark-sql'', ''flink-sql''})"

definition validateGraph :: "(string list \<Rightarrow> string list) \<Rightarrow> PipelineDefinition \<Rightarrow> pipeline_error option" where
  "validateGraph rng def =
     (case scanNodes [] (def_Nodes def) of
        Inl e \<Rightarrow> Some e
      | Inr ids \<Rightarrow>
          (case scanRefs ids (def_Edges def) \<lparr>gm_indegree = map (\<lambda>i. (i, 0)) ids, gm_outgoing = (\<lambda>_. [])\<rparr> of
             Inl e \<Rightarrow> Some e
           | Inr m \<Rightarrow>
               let queue = filter (\<lambda>nid. degGet (gm_indegree m) nid = 0) (rng ids)
               in if kahnVisit (gm_outgoing m) (gm_indegree m) queue \<noteq> length (def_Nodes def) then Some PipelineCycle
                  else None))"

definition validatePipeline ::
  "(string \<Rightarrow> bool) \<Rightarrow> edition \<Rightarrow> (string list \<Rightarrow> string list) \<Rightarrow> PipelineDefinition \<Rightarrow> pipeline_error option" where
  "validatePipeline uuidParse ed rng def =
     (if trimSpace (def_Name def) = [] then Some NameRequired
      else if def_Nodes def = [] then Some NodesRequired
      else if trig_Type (def_Trigger def) = [] then Some TriggerTypeRequired
      else if \<not> engineKnown def then Some (UnsupportedEngine (exec_Engine (the (def_Execution def))))
      else (case ValidateAgentAdmission uuidParse def of Some e \<Rightarrow> Some (AgentRejected e)
      | None \<Rightarrow> (case ValidateNodePolicies def of Some e \<Rightarrow> Some (PolicyRejected e)
      | None \<Rightarrow> (case validateGraph rng def of Some e \<Rightarrow> Some e
      | None \<Rightarrow> validateEngine ed def))))"

text \<open>The licensed features that a definition uses (\<^verbatim>\<open>pipelineFeatures\<close>).\<close>

definition hasFeature :: "PipelineDefinition \<Rightarrow> string \<Rightarrow> bool" where
  "hasFeature def f \<longleftrightarrow>
     (let engine = (case def_Execution def of None \<Rightarrow> '''' | Some x \<Rightarrow> exec_Engine x);
          cfg = (\<lambda>node k. objGet (node_Config node) k) in
      f = ''realtime'' \<and> (engine = ''stream-direct'' \<or> engine = ''flink-sql'' \<or>
          list_ex (\<lambda>n. node_ActivityType n = ''kafka.fetch'' \<or> node_ActivityType n = ''sink.kafka''
             \<or> cfg n ''syncMode'' = VStr ''cdc'' \<or> cfg n ''writeMode'' = VStr ''apply-cdc'') (def_Nodes def))
      \<or> f = ''sparkSql'' \<and> engine = ''spark-sql''
      \<or> f = ''flinkSql'' \<and> engine = ''flink-sql''
      \<or> f = ''statefulProcessing'' \<and>
          list_ex (\<lambda>n. node_ActivityType n = ''transform.dedupe'' \<and> cfg n ''scope'' = VStr ''pipeline'') (def_Nodes def)
      \<or> f = ''advancedConnectors'' \<and>
          list_ex (\<lambda>n. node_ActivityType n \<in> {''sftp.fetch'', ''sink.sftp'', ''snowflake.fetch'', ''sink.snowflake'',
             ''iceberg.fetch'', ''sink.iceberg''}) (def_Nodes def))"

definition pipelineFeatures :: "PipelineDefinition \<Rightarrow> string list" where
  "pipelineFeatures def =
     filter (hasFeature def) [''realtime'', ''sparkSql'', ''flinkSql'', ''statefulProcessing'', ''advancedConnectors'']"

datatype webhook_error = WebhookPath | WebhookSecret

text \<open>\<^verbatim>\<open>^[A-Za-z0-9][A-Za-z0-9_-]{2,127}$\<close>\<close>

definition webhookPathOK :: "string \<Rightarrow> bool" where
  "webhookPathOK p \<longleftrightarrow> 3 \<le> length p \<and> length p \<le> 128 \<and>
     (isLetter (hd p) \<or> isDigit (hd p)) \<and>
     list_all (\<lambda>c. isLetter c \<or> isDigit c \<or> c = CHR ''_'' \<or> c = CHR ''-'') p"

definition validateWebhookTrigger :: "Trigger \<Rightarrow> webhook_error option" where
  "validateWebhookTrigger trigger =
     (if trig_Type trigger \<noteq> ''webhook'' then None
      else if \<not> webhookPathOK (trig_Path trigger) then Some WebhookPath
      else let secret = trimSpace (trig_Secret trigger) in
        if length secret < 16 \<or> toLower secret \<in> {''change-me'', ''changeme'', ''change-me-please''} then Some WebhookSecret
        else None)"

section \<open>The scans\<close>

lemma scanNodes_Ok:
  "scanNodes ids nodes = Ok ids' \<Longrightarrow> distinct ids \<Longrightarrow>
     ids' = ids @ nodeIDs nodes \<and> distinct ids' \<and>
     (\<forall>n\<in>set nodes. node_ID n \<noteq> [] \<and> node_Type n \<in> set validTypes)"
proof (induction ids nodes rule: scanNodes.induct)
  case (2 ids node nodes)
  have c: "node_ID node \<noteq> []" "node_ID node \<notin> set ids" "node_Type node \<in> set validTypes"
    and a: "\<not> (node_Type node \<noteq> ''fork'' \<and> node_Type node \<noteq> ''merge'' \<and> node_ActivityType node = [])" "\<not> invalidLayer node"
    and r: "scanNodes (ids @ [node_ID node]) nodes = Ok ids'" and d: "distinct (ids @ [node_ID node])"
    using "2.prems" by (simp_all split: if_splits)
  have e: "ids' = (ids @ [node_ID node]) @ nodeIDs nodes" and "distinct ids'"
      and "\<forall>n\<in>set nodes. node_ID n \<noteq> [] \<and> node_Type n \<in> set validTypes"
    using "2.IH" [OF c(1,2) _ a r d] c(3) by blast+
  then show ?case unfolding e using c by simp
qed simp

lemma scanRefs_Ok:
  "scanRefs ids edges m = Ok m' \<Longrightarrow>
     (\<forall>e\<in>set edges. edge_Source e \<in> set ids \<and> edge_Target e \<in> set ids)
     \<and> (\<forall>t. degGet (gm_indegree m') t = degGet (gm_indegree m) t + indeg (edgePairs edges) [] t)
     \<and> (\<forall>s. gm_outgoing m' s = gm_outgoing m s @ targetsOf (edgePairs edges) s)"
proof (induction ids edges m rule: scanRefs.induct)
  case (1 ids m)
  then show ?case by (simp add: indeg_def edgePairs_def targetsOf_def)
next
  case (2 ids edge edges m)
  let ?m = "\<lparr>gm_indegree = degInc (gm_indegree m) (edge_Target edge),
       gm_outgoing = (gm_outgoing m)(edge_Source edge := gm_outgoing m (edge_Source edge) @ [edge_Target edge])\<rparr>"
  have c: "edge_Source edge \<in> set ids" "edge_Target edge \<in> set ids" and r: "scanRefs ids edges ?m = Ok m'"
    using "2.prems" by (simp_all split: if_splits)
  have deg: "degGet (gm_indegree ?m) t + indeg (edgePairs edges) [] t
      = degGet (gm_indegree m) t + indeg (edgePairs (edge # edges)) [] t" for t
    by (simp add: degGet_degInc indeg_def edgePairs_def)
  have out: "gm_outgoing ?m s @ targetsOf (edgePairs edges) s
      = gm_outgoing m s @ targetsOf (edgePairs (edge # edges)) s" for s
    by (simp add: targetsOf_def edgePairs_def)
  have "(\<forall>e\<in>set edges. edge_Source e \<in> set ids \<and> edge_Target e \<in> set ids)
     \<and> (\<forall>t. degGet (gm_indegree m') t = degGet (gm_indegree ?m) t + indeg (edgePairs edges) [] t)
     \<and> (\<forall>s. gm_outgoing m' s = gm_outgoing ?m s @ targetsOf (edgePairs edges) s)"
    using "2.IH" [OF _ r] c by blast
  then show ?case unfolding deg out using c by simp
qed

lemma scanRefs_Err: "scanRefs ids edges m = Err e \<Longrightarrow> \<exists>x\<in>set edges. e = EdgeUnknownNode (edge_ID x)"
  by (induction ids edges m rule: scanRefs.induct) (auto split: if_splits)

lemma degGet_zeros: "degGet (map (\<lambda>i. (i, 0)) ids) t = 0"
  by (induction ids) (auto simp: degGet_def)

text \<open>The queue loop visits as many vertices as it can reach in topological order.\<close>

lemma kahnVisit_spec:
  assumes "wfGraph V E" "\<forall>s. outgoing s = targetsOf E s" "kinv V E d P queue" "topo E P"
  shows "\<exists>d' P'. kinv V E d' P' [] \<and> topo E P' \<and> length P' = length P + kahnVisit outgoing d queue"
  using assms
proof (induction outgoing d queue arbitrary: P rule: kahnVisit.induct)
  case (1 outgoing d)
  then show ?case by auto
next
  case (2 outgoing d nid queue)
  obtain d' l where r: "relaxIds d (outgoing nid) = (d', l)" by fastforce
  have inv: "kinv V E d P ([nid] @ queue)" using "2.prems"(3) by simp
  have "relaxIds d (concat (map (targetsOf E) [nid])) = (d', l)" using r "2.prems"(2) by simp
  from kinv_step(1) [OF "2.prems"(1) inv this]
  have "kinv V E (fst (relaxIds d (outgoing nid))) (P @ [nid]) (queue @ snd (relaxIds d (outgoing nid)))"
    using r by simp
  moreover have "topo E (P @ [nid])"
    using kinv_queue_ready [OF inv] "2.prems"(4) by (intro topo_append) auto
  ultimately obtain d'' P' where "kinv V E d'' P' [] \<and> topo E P'
      \<and> length P' = length (P @ [nid]) + kahnVisit outgoing (fst (relaxIds d (outgoing nid))) (queue @ snd (relaxIds d (outgoing nid)))"
    using "2.IH" [OF "2.prems"(1,2)] by blast
  then show ?case by auto
qed

lemma kahnVisit_acyclic:
  assumes ids: "distinct ids" and scan: "scanRefs ids edges \<lparr>gm_indegree = map (\<lambda>i. (i, 0)) ids, gm_outgoing = (\<lambda>_. [])\<rparr> = Ok m"
    and rng: "mset (rng ids) = mset ids"
  shows "kahnVisit (gm_outgoing m) (gm_indegree m) (filter (\<lambda>nid. degGet (gm_indegree m) nid = 0) (rng ids)) = length ids
     \<longleftrightarrow> acyclic (set (edgePairs edges))"
proof -
  let ?E = "edgePairs edges" and ?q = "filter (\<lambda>nid. degGet (gm_indegree m) nid = 0) (rng ids)"
  note s = scanRefs_Ok [OF scan]
  have wf: "wfGraph ids ?E" using s ids by (auto simp: wfGraph_def edgePairs_def)
  have "distinct (rng ids)" "set (rng ids) = set ids"
    using rng ids by (metis mset_eq_imp_distinct_iff, metis mset_eq_setD)
  then have "kinv ids ?E (gm_indegree m) [] ?q"
    using s by (intro kinv_init [OF wf]) (auto simp: degGet_zeros)
  then obtain d' P' where "kinv ids ?E d' P' []" "topo ?E P'" "length P' = kahnVisit (gm_outgoing m) (gm_indegree m) ?q"
    using kahnVisit_spec [OF wf, of "gm_outgoing m" "gm_indegree m" "[]" ?q] s by auto
  then show ?thesis using kahn_complete [OF wf] by metis
qed

text \<open>The graph checks as a specification: no map order occurs in it.\<close>

lemma validateGraph_None_iff:
  assumes rng: "\<And>xs. mset (rng xs) = mset xs"
  shows "validateGraph rng def = None \<longleftrightarrow>
     (\<exists>ids. scanNodes [] (def_Nodes def) = Ok ids) \<and> edgesKnown (def_Nodes def) (def_Edges def)
     \<and> acyclic (set (edgePairs (def_Edges def)))"
proof (cases "scanNodes [] (def_Nodes def)")
  case (Inl e)
  then show ?thesis by (simp add: validateGraph_def)
next
  case (Inr ids)
  then have ids: "ids = nodeIDs (def_Nodes def)" "distinct ids" using scanNodes_Ok [OF Inr] by auto
  let ?m = "\<lparr>gm_indegree = map (\<lambda>i. (i, 0)) ids, gm_outgoing = (\<lambda>_. [])\<rparr>"
  show ?thesis
  proof (cases "scanRefs ids (def_Edges def) ?m")
    case (Inl e)
    then have "\<not> edgesKnown (def_Nodes def) (def_Edges def)"
    proof -
      have "(\<forall>e\<in>set es. edge_Source e \<in> set ids \<and> edge_Target e \<in> set ids) \<Longrightarrow> scanRefs ids es m \<noteq> Err e" for es m
        by (induction ids es m rule: scanRefs.induct) auto
      then show ?thesis using Inl ids unfolding edgesKnown_def by blast
    qed
    then show ?thesis using Inr Inl by (simp add: validateGraph_def)
  next
    case (Inr m)
    then have "edgesKnown (def_Nodes def) (def_Edges def)"
      using scanRefs_Ok [OF Inr] ids by (auto simp: edgesKnown_def)
    moreover have "length ids = length (def_Nodes def)" using ids by simp
    ultimately show ?thesis
      using kahnVisit_acyclic [where rng = rng, OF ids(2) Inr rng] \<open>scanNodes [] (def_Nodes def) = Ok ids\<close> Inr
      by (simp add: validateGraph_def Let_def)
  qed
qed

lemma validateGraph_order:
  assumes "\<And>xs. mset (rng xs) = mset xs" "\<And>xs. mset (rng' xs) = mset xs"
  shows "validateGraph rng def = validateGraph rng' def"
proof (cases "scanNodes [] (def_Nodes def)")
  case (Inr ids)
  then have ids: "ids = nodeIDs (def_Nodes def)" "distinct ids" using scanNodes_Ok [OF Inr] by auto
  then have "length (def_Nodes def) = length ids" by simp
  then show ?thesis
    using Inr kahnVisit_acyclic [where rng = rng, OF ids(2) _ assms(1)] kahnVisit_acyclic [where rng = rng', OF ids(2) _ assms(2)]
    by (auto simp: validateGraph_def Let_def split: sum.splits)
qed (simp add: validateGraph_def)

lemma validatePipeline_graph:
  "validatePipeline uuidParse ed rng def = None \<Longrightarrow>
     validateGraph rng def = None \<and> ValidateNodePolicies def = None \<and> ValidateAgentAdmission uuidParse def = None
     \<and> def_Nodes def \<noteq> [] \<and> validateEngine ed def = None \<and> engineKnown def"
  by (auto simp: validatePipeline_def split: if_splits option.splits)

section \<open>Properties of admission\<close>

definition sampleTrigger :: Trigger where
  "sampleTrigger = \<lparr>trig_Type = ''manual'', trig_Schedule = [], trig_Path = [], trig_Secret = [], trig_Topic = [], trig_AssetURN = []\<rparr>"

definition sampleDef :: "Node list \<Rightarrow> Edge list \<Rightarrow> PipelineDefinition" where
  "sampleDef ns es = \<lparr>def_ID = ''p1'', def_Version = 1, def_Name = ''sample'', def_TenantID = ''t1'', def_Trigger = sampleTrigger,
     def_Nodes = ns, def_Edges = es, def_Concurrency = None, def_Metadata = None, def_SLO = None, def_Notifications = None,
     def_Execution = None\<rparr>"

text \<open>C3: A definition that the API admits is one that the workflow can plan: whatever order
  \<^verbatim>\<open>range\<close> visits the in-degree map in, an admitted definition has distinct, non-empty node identifiers, no agent node and
  policies in range, and \<^verbatim>\<open>buildPlan\<close> succeeds on it with at least one level.\<close>

theorem admitted_pipeline_plans:
  assumes "\<And>xs. mset (rng xs) = mset xs" "validatePipeline uuidParse ed rng def = None"
  shows "distinct (map node_ID (def_Nodes def)) \<and> [] \<notin> set (map node_ID (def_Nodes def))
    \<and> (\<forall>n\<in>set (def_Nodes def). node_Type n \<noteq> ''agent'' \<and> nodePolicyError def n = None)
    \<and> (\<exists>plan. buildPlan (def_Nodes def) (def_Edges def) = Ok plan \<and> plan_Levels plan \<noteq> [])"
proof -
  note v = validatePipeline_graph [OF assms(2)]
  obtain ids where ids: "scanNodes [] (def_Nodes def) = Ok ids"
      and g: "edgesKnown (def_Nodes def) (def_Edges def)" "acyclic (set (edgePairs (def_Edges def)))"
    using v validateGraph_None_iff [OF assms(1)] by blast
  have d: "distinct (nodeIDs (def_Nodes def))" and ne: "[] \<notin> set (nodeIDs (def_Nodes def))"
    using scanNodes_Ok [OF ids] by auto
  obtain plan where p: "buildPlan (def_Nodes def) (def_Edges def) = Ok plan"
    using buildPlan_ok_iff [OF d] g by blast
  have "plan_Levels plan \<noteq> []" using buildPlan_levels(3) [OF d p] v by auto
  moreover have "\<forall>n\<in>set (def_Nodes def). node_Type n \<noteq> ''agent'' \<and> nodePolicyError def n = None"
    using v ValidateAgentAdmission_no_agent [of uuidParse def] by (auto simp: ValidateNodePolicies_def checkAll_None_iff)
  ultimately show ?thesis using d ne p by blast
qed

theorem admitted_pipeline_plans_witness:
  "validatePipeline (\<lambda>_. True) communityEdition rev (sampleDef sampleNodes sampleEdges) = None
   \<and> (\<exists>plan. buildPlan sampleNodes sampleEdges = Ok plan \<and> plan_Levels plan \<noteq> [])"
proof -
  have v: "validatePipeline (\<lambda>_. True) communityEdition rev (sampleDef sampleNodes sampleEdges) = None" by code_simp
  have "def_Nodes (sampleDef sampleNodes sampleEdges) = sampleNodes" "def_Edges (sampleDef sampleNodes sampleEdges) = sampleEdges"
    by (simp_all add: sampleDef_def)
  with admitted_pipeline_plans [OF _ v] v show ?thesis by auto
qed

text \<open>The verdict and the error of the admission check do not depend on the order in which
  \<^verbatim>\<open>range\<close> visits the in-degree map, although the queue does.\<close>

theorem validation_order_independent:
  assumes "\<And>xs. mset (rng xs) = mset xs" "\<And>xs. mset (rng' xs) = mset xs"
  shows "validatePipeline uuidParse ed rng def = validatePipeline uuidParse ed rng' def"
  unfolding validatePipeline_def validateGraph_order [of rng rng' def, OF assms] by (rule refl)

theorem validation_order_independent_witness:
  "validatePipeline (\<lambda>_. True) communityEdition rev (sampleDef sampleNodes (backEdge # sampleEdges))
     = validatePipeline (\<lambda>_. True) communityEdition (\<lambda>xs. xs) (sampleDef sampleNodes (backEdge # sampleEdges))"
  by (rule validation_order_independent) simp_all

text \<open>The check for the stream-direct engine counts sources, sinks and edges; it does not
  enforce the linear graph that its message asks for: a graph that forks at its source is admitted.\<close>

theorem stream_direct_admits_fork:
  "\<exists>ns es. validateStreamDirect (sampleDef ns es) = None
     \<and> (\<exists>e1\<in>set es. \<exists>e2\<in>set es. edge_Source e1 = edge_Source e2 \<and> edge_Target e1 \<noteq> edge_Target e2)"
proof (intro exI conjI)
  let ?ns = "[sampleNode ''a'' ''source'' ''kafka.fetch'', sampleNode ''b'' ''transform'' ''transform.map'', sampleNode ''k'' ''sink'' ''sink.postgres'']"
  let ?es = "[sampleEdge ''a'' ''b'', sampleEdge ''a'' ''k'']"
  show "validateStreamDirect (sampleDef ?ns ?es) = None" by code_simp
  show "\<exists>e1\<in>set ?es. \<exists>e2\<in>set ?es. edge_Source e1 = edge_Source e2 \<and> edge_Target e1 \<noteq> edge_Target e2" by code_simp
qed

end
