(* ===== verification/NodeRun.thy ===== *)
theory NodeRun
  imports Process Validation
begin

text \<open>
  How one node of a pipeline runs (\<^verbatim>\<open>runNode\<close>, \<^verbatim>\<open>runSource\<close> and their helpers in
  \<^verbatim>\<open>internal/workflows/dynamic_dag.go\<close>): the skip rule, the edge conditions, the page loop of a source, merges,
  forks and the dispatch of every other node. Neither function returns an error: a failed call
  becomes a result with status \<^verbatim>\<open>failed\<close>.
\<close>

section \<open>The model\<close>

type_synonym results = "(string \<times> NodeResult) list"

definition skipped :: "string \<Rightarrow> NodeResult" where
  "skipped nodeID = \<lparr>res_NodeID = nodeID, res_Status = ''skipped'', res_OutputRef = None,
     res_Meta = [(''durationMs'', VInt 0)], res_Error = []\<rparr>"

definition failed :: "string \<Rightarrow> werr \<Rightarrow> NodeResult" where
  "failed nodeID err = \<lparr>res_NodeID = nodeID, res_Status = ''failed'', res_OutputRef = None,
     res_Meta = [(''durationMs'', VInt 0)], res_Error = errText err\<rparr>"

definition defaultString :: "string \<Rightarrow> string \<Rightarrow> string" where
  "defaultString value fallback = (if value = [] then fallback else value)"

text \<open>Options of the activities of a node; the products and conversions are those of the machine.\<close>

definition withNodeActivityOptions :: "ActivityOptions \<Rightarrow> Node \<Rightarrow> ActivityOptions" where
  "withNodeActivityOptions options node =
     (let o1 = (case node_TimeoutSec node of None \<Rightarrow> options
                | Some t \<Rightarrow>
                    let s = wrap64 (t * timeSecond)
                    in options\<lparr>opt_StartToCloseTimeout := s,
                               opt_HeartbeatTimeout := (if opt_HeartbeatTimeout options > s then s else opt_HeartbeatTimeout options)\<rparr>)
      in (case node_MaximumAttempts node of None \<Rightarrow> o1 | Some a \<Rightarrow> o1\<lparr>opt_MaximumAttempts := wrap32 a\<rparr>))"

definition maxSourcePagesPerRun :: nat where
  "maxSourcePagesPerRun = 50"

definition resumableSource :: "Node \<Rightarrow> obj option \<Rightarrow> bool" where
  "resumableSource node checkpoint \<longleftrightarrow>
     (case checkpoint of None \<Rightarrow> False | Some c \<Rightarrow> c \<noteq> [])
     \<and> (case node_Ingestion node of None \<Rightarrow> True | Some i \<Rightarrow> ing_Mode i \<noteq> ''backfill'')"

definition sourceConnectionID :: "string \<Rightarrow> Node \<Rightarrow> string" where
  "sourceConnectionID pipelineID node =
     pipelineID @ '':'' @ node_ID node
     @ (if objGet (node_Config node) ''syncMode'' = VStr ''cdc'' then '':cdc'' else [])
     @ (case node_Ingestion node of None \<Rightarrow> [] | Some i \<Rightarrow> if ing_StateKey i \<noteq> [] then '':'' @ ing_StateKey i else [])"

definition pageCapError :: werr where
  "pageCapError = WErr ''source partition exceeded 50 pages; reduce backfill partition size or increase pageSize''"

definition pageCapWarning :: string where
  "pageCapWarning = ''source stopped after 50 pages in this run; the next run resumes from the saved cursor''"

definition sourceResult :: "WorkflowInput \<Rightarrow> Node \<Rightarrow> int \<Rightarrow> obj option \<Rightarrow> bool \<Rightarrow> DataRef option \<Rightarrow> NodeResult" where
  "sourceResult input node sofar checkpoint truncated outputRef =
     \<lparr>res_NodeID = node_ID node, res_Status = ''success'', res_OutputRef = outputRef,
      res_Meta = [(''durationMs'', VInt 0), (''recordCount'', VInt sofar)]
        @ (case checkpoint of None \<Rightarrow> []
           | Some c \<Rightarrow> [(''checkpoint'', VObj c), (''connectionId'', VStr (sourceConnectionID (def_ID (win_Definition input)) node))])
        @ (if truncated then [(''truncated'', VBool True), (''warning'', VStr pageCapWarning)] else []),
      res_Error = []\<rparr>"

text \<open>After the loop: several pages are merged into one payload.\<close>

definition finishSource ::
  "ActivityOptions \<Rightarrow> WorkflowInput \<Rightarrow> Node \<Rightarrow> int \<Rightarrow> DataRef list \<Rightarrow> obj option \<Rightarrow> bool \<Rightarrow> NodeResult proc" where
  "finishSource opts input node sofar refs checkpoint truncated =
     (if length refs \<le> 1
      then PRet (sourceResult input node sofar checkpoint truncated (case refs of [] \<Rightarrow> None | r # _ \<Rightarrow> Some r))
      else PAct opts (MergeRefs refs ''concat'' [] (win_TenantID input) (win_ExecutionID input) (node_ID node) (win_EncryptedDEK input))
             (\<lambda>rep. case getNode rep of
                Inl err \<Rightarrow> PRet (failed (node_ID node) err)
              | Inr merged \<Rightarrow> PRet (sourceResult input node sofar checkpoint truncated (res_OutputRef merged))))"

text \<open>The page loop; \<open>left\<close> is the number of further pages that the cap allows after this one, and
  \<open>capResume\<close> the version flag of the resume at the cap.\<close>

fun sourcePages ::
  "ActivityOptions \<Rightarrow> bool \<Rightarrow> WorkflowInput \<Rightarrow> Node \<Rightarrow> nat \<Rightarrow> int \<Rightarrow> DataRef list \<Rightarrow> obj option \<Rightarrow> NodeResult proc" where
  "sourcePages opts capResume input node left sofar refs checkpoint =
     PAct opts (FetchSourcePage (node_ActivityType node) (node_Config node) (node_Ingestion node) (win_TenantID input)
                  (sourceConnectionID (def_ID (win_Definition input)) node) checkpoint (win_ExecutionID input)
                  (node_ID node) (win_EncryptedDEK input))
       (\<lambda>rep. case getPage rep of
          Inl err \<Rightarrow> PRet (failed (node_ID node) err)
        | Inr page \<Rightarrow>
            let refs' = (case page_OutputRef page of None \<Rightarrow> refs | Some r \<Rightarrow> refs @ [r]);
                checkpoint' = (case page_Checkpoint page of None \<Rightarrow> checkpoint | Some c \<Rightarrow> Some c);
                sofar' = sofar + page_RecordCount page
            in if \<not> page_HasMore page then finishSource opts input node sofar' refs' checkpoint' False
               else (case left of
                   0 \<Rightarrow> if resumableSource node checkpoint' \<and> capResume
                         then finishSource opts input node sofar' refs' checkpoint' True
                         else PRet (failed (node_ID node) pageCapError)
                 | Suc left' \<Rightarrow> sourcePages opts capResume input node left' sofar' refs' checkpoint'))"

declare sourcePages.simps [simp del]

definition runSource :: "ActivityOptions \<Rightarrow> bool \<Rightarrow> WorkflowInput \<Rightarrow> Node \<Rightarrow> NodeResult proc" where
  "runSource opts capResume input node =
     sourcePages opts capResume input node (maxSourcePagesPerRun - 1) 0 [] None"

definition upstreamSucceeded :: "results \<Rightarrow> Edge \<Rightarrow> bool" where
  "upstreamSucceeded results edge \<longleftrightarrow>
     (case map_of results (edge_Source edge) of None \<Rightarrow> False | Some upstream \<Rightarrow> res_Status upstream = ''success'')"

definition upstreamRef :: "results \<Rightarrow> Edge \<Rightarrow> DataRef option" where
  "upstreamRef results edge = Option.bind (map_of results (edge_Source edge)) res_OutputRef"

fun evalEdges ::
  "ActivityOptions \<Rightarrow> WorkflowInput \<Rightarrow> Node \<Rightarrow> results \<Rightarrow> Edge list \<Rightarrow> NodeResult proc \<Rightarrow> NodeResult proc" where
  "evalEdges opts input node results [] k = k"
| "evalEdges opts input node results (edge # edges) k =
     (if edge_Condition edge = [] then evalEdges opts input node results edges k
      else PAct opts (EvalEdgeCondition (edge_Condition edge) (upstreamRef results edge) (win_EncryptedDEK input))
             (\<lambda>rep. case getBool rep of
                Inl err \<Rightarrow> PRet (failed (node_ID node) err)
              | Inr allowed \<Rightarrow> if allowed then evalEdges opts input node results edges k else PRet (skipped (node_ID node))))"

definition runBody :: "ActivityOptions \<Rightarrow> bool \<Rightarrow> WorkflowInput \<Rightarrow> Node \<Rightarrow> Edge list \<Rightarrow> results \<Rightarrow> NodeResult proc" where
  "runBody opts capResume input node inEdges results =
     (if node_Type node = ''source'' then runSource opts capResume input node
      else let refs = List.map_filter (upstreamRef results) inEdges in
        if node_Type node = ''merge''
        then PAct opts (MergeRefs refs (defaultString (node_MergeStrategy node) ''concat'') (node_JoinKey node) (win_TenantID input)
                          (win_ExecutionID input) (node_ID node) (win_EncryptedDEK input))
               (\<lambda>rep. case getNode rep of Inl err \<Rightarrow> PRet (failed (node_ID node) err) | Inr result \<Rightarrow> PRet result)
        else let inputRef = (case refs of [] \<Rightarrow> tin_PayloadRef (win_Trigger input) | r # _ \<Rightarrow> Some r) in
          if node_Type node = ''fork''
          then PRet \<lparr>res_NodeID = node_ID node, res_Status = ''success'', res_OutputRef = inputRef,
                 res_Meta = [(''durationMs'', VInt 0)], res_Error = []\<rparr>
          else PAct opts (DispatchNode (node_ActivityType node) (node_Config node) inputRef (win_TenantID input)
                            (win_ExecutionID input) (node_ID node) (def_Version (win_Definition input)) (win_EncryptedDEK input))
                 (\<lambda>rep. case getNode rep of Inl err \<Rightarrow> PRet (failed (node_ID node) err) | Inr result \<Rightarrow> PRet result))"

definition runNode ::
  "ActivityOptions \<Rightarrow> bool \<Rightarrow> WorkflowInput \<Rightarrow> Node \<Rightarrow> (string \<Rightarrow> Edge list) \<Rightarrow> results \<Rightarrow> NodeResult proc" where
  "runNode opts capResume input node incoming results =
     (let inEdges = incoming (node_ID node) in
      if inEdges \<noteq> [] \<and> \<not> list_ex (upstreamSucceeded results) inEdges then PRet (skipped (node_ID node))
      else evalEdges opts input node results inEdges (runBody opts capResume input node inEdges results))"

section \<open>What a node reads and calls\<close>

text \<open>The calls of a node use its own options and name no other node.\<close>

definition ownCall :: "ActivityOptions \<Rightarrow> Node \<Rightarrow> ActivityOptions \<Rightarrow> call \<Rightarrow> bool" where
  "ownCall opts node o' c \<longleftrightarrow> o' = opts \<and> (callNode c = None \<and> (\<exists>x r d. c = EvalEdgeCondition x r d) \<or> callNode c = Some (node_ID node))"

lemma finishSource_own: "procAll (ownCall opts node) (finishSource opts input node sofar refs cp tr)"
  by (auto simp: finishSource_def ownCall_def split: sum.splits)

lemma sourcePages_own: "procAll (ownCall opts node) (sourcePages opts cap input node left sofar refs cp)"
proof (induction left arbitrary: sofar refs cp)
  case 0
  show ?case by (subst sourcePages.simps) (auto simp: ownCall_def Let_def finishSource_own split: sum.splits)
next
  case (Suc left)
  show ?case by (subst sourcePages.simps) (auto simp: ownCall_def Let_def finishSource_own Suc split: sum.splits)
qed

lemma runBody_own: "procAll (ownCall opts node) (runBody opts cap input node es results)"
  by (auto simp: runBody_def runSource_def sourcePages_own Let_def ownCall_def split: sum.splits)

lemma evalEdges_own:
  "procAll (ownCall opts node) k \<Longrightarrow> procAll (ownCall opts node) (evalEdges opts input node results es k)"
  by (induction opts input node results es k rule: evalEdges.induct) (auto simp: ownCall_def split: sum.splits)

lemma runNode_own: "procAll (ownCall opts node) (runNode opts cap input node incoming results)"
  by (simp add: runNode_def Let_def evalEdges_own runBody_own)

text \<open>A node reads only the results of the sources of its incoming edges: writes to other entries of
  the shared map, in particular those of its siblings, do not change how it runs.\<close>

lemma upstream_cong:
  "map_of r (edge_Source e) = map_of r' (edge_Source e) \<Longrightarrow>
     upstreamSucceeded r e = upstreamSucceeded r' e \<and> upstreamRef r e = upstreamRef r' e"
  by (simp add: upstreamSucceeded_def upstreamRef_def)

lemma evalEdges_cong:
  "\<forall>e\<in>set es. map_of r (edge_Source e) = map_of r' (edge_Source e) \<Longrightarrow>
     evalEdges opts input node r es k = evalEdges opts input node r' es k"
proof (induction es)
  case (Cons e es)
  have ref: "upstreamRef r e = upstreamRef r' e" using Cons.prems by (simp add: upstreamRef_def)
  have rest: "evalEdges opts input node r es k = evalEdges opts input node r' es k" using Cons by simp
  show ?case unfolding evalEdges.simps ref rest by (rule refl)
qed simp

lemma runNode_reads:
  assumes "\<forall>e\<in>set (incoming (node_ID node)). map_of r (edge_Source e) = map_of r' (edge_Source e)"
  shows "runNode opts cap input node incoming r = runNode opts cap input node incoming r'"
proof -
  let ?es = "incoming (node_ID node)"
  have ex: "list_ex (upstreamSucceeded r) ?es = list_ex (upstreamSucceeded r') ?es"
    using assms by (simp add: list_ex_iff upstreamSucceeded_def)
  have "List.map_filter (upstreamRef r) ?es = List.map_filter (upstreamRef r') ?es"
    using assms unfolding map_filter_def
    by (intro map_cong filter_cong refl) (auto simp: upstreamRef_def intro!: filter_cong)
  then have body: "runBody opts cap input node ?es r = runBody opts cap input node ?es r'"
    by (simp add: runBody_def)
  show ?thesis unfolding runNode_def Let_def ex body evalEdges_cong [OF assms] by (rule refl)
qed

section \<open>The page loop\<close>

text \<open>The pages that a trace received and the cursors that it asked with.\<close>

fun eventPage :: "event \<Rightarrow> SourcePage option" where
  "eventPage (_, FetchSourcePage _ _ _ _ _ _ _ _ _, RPage p) = Some p"
| "eventPage _ = None"

fun eventCursor :: "event \<Rightarrow> obj option option" where
  "eventCursor (_, FetchSourcePage _ _ _ _ _ cur _ _ _, _) = Some cur"
| "eventCursor _ = None"

definition tracePages :: "event list \<Rightarrow> SourcePage list" where
  "tracePages tr = List.map_filter eventPage tr"

definition traceCursors :: "event list \<Rightarrow> obj option list" where
  "traceCursors tr = List.map_filter eventCursor tr"

fun cursorAfter :: "obj option \<Rightarrow> SourcePage list \<Rightarrow> obj option" where
  "cursorAfter cp [] = cp"
| "cursorAfter cp (p # ps) = cursorAfter (case page_Checkpoint p of None \<Rightarrow> cp | Some c \<Rightarrow> Some c) ps"

definition pagesTotal :: "SourcePage list \<Rightarrow> int" where
  "pagesTotal ps = sum_list (map page_RecordCount ps)"

lemma trace_simps [simp]:
  "tracePages [] = []" "traceCursors [] = []"
  "tracePages (e # tr) = (case eventPage e of None \<Rightarrow> tracePages tr | Some p \<Rightarrow> p # tracePages tr)"
  "traceCursors (e # tr) = (case eventCursor e of None \<Rightarrow> traceCursors tr | Some c \<Rightarrow> c # traceCursors tr)"
  by (auto simp: tracePages_def traceCursors_def map_filter_def split: option.splits)

lemma finishSource_runs:
  assumes "procRuns (finishSource opts input node sofar refs cp trunc) tr r"
  shows "tracePages tr = [] \<and> traceCursors tr = []
    \<and> (res_Status r = ''success'' \<longrightarrow> (\<exists>ref. r = sourceResult input node sofar cp trunc ref))"
proof (cases "length refs \<le> 1")
  case True
  then show ?thesis using assms by (auto simp: finishSource_def)
next
  case False
  then obtain c rep tr' where tr: "tr = (opts, c, rep) # tr'" "eventPage (opts, c, rep) = None" "eventCursor (opts, c, rep) = None"
    and run: "procRuns (case getNode rep of Inl err \<Rightarrow> PRet (failed (node_ID node) err)
      | Inr merged \<Rightarrow> PRet (sourceResult input node sofar cp trunc (res_OutputRef merged))) tr' r"
    using assms by (auto simp: finishSource_def procRuns_PAct)
  then show ?thesis by (cases "getNode rep") (auto simp: failed_def)
qed

text \<open>One round of the loop: the call, and what follows a page.\<close>

definition afterPage ::
  "ActivityOptions \<Rightarrow> bool \<Rightarrow> WorkflowInput \<Rightarrow> Node \<Rightarrow> nat \<Rightarrow> int \<Rightarrow> DataRef list \<Rightarrow> obj option \<Rightarrow> SourcePage \<Rightarrow> NodeResult proc" where
  "afterPage opts capResume input node left sofar refs checkpoint page =
     (if \<not> page_HasMore page then finishSource opts input node sofar refs checkpoint False
      else (case left of
          0 \<Rightarrow> if resumableSource node checkpoint \<and> capResume then finishSource opts input node sofar refs checkpoint True
                else PRet (failed (node_ID node) pageCapError)
        | Suc left' \<Rightarrow> sourcePages opts capResume input node left' sofar refs checkpoint))"

lemma sourcePages_round:
  assumes "procRuns (sourcePages opts cap input node left sofar refs cp) tr r"
  obtains e tr' where "tr = e # tr'" "eventCursor e = Some cp" "eventPage e = None" "tr' = []" "res_Status r = ''failed''"
  | e tr' p refs' where "tr = e # tr'" "eventCursor e = Some cp" "eventPage e = Some p"
      "procRuns (afterPage opts cap input node left (sofar + page_RecordCount p) refs' (cursorAfter cp [p]) p) tr' r"
proof -
  obtain c rep tr' where tr: "tr = (opts, c, rep) # tr'"
    and c: "eventCursor (opts, c, rep) = Some cp" "eventPage (opts, c, rep) = (case rep of RPage p \<Rightarrow> Some p | _ \<Rightarrow> None)"
    and run: "procRuns (case getPage rep of Inl err \<Rightarrow> PRet (failed (node_ID node) err)
      | Inr page \<Rightarrow> afterPage opts cap input node left (sofar + page_RecordCount page)
          (case page_OutputRef page of None \<Rightarrow> refs | Some r \<Rightarrow> refs @ [r]) (cursorAfter cp [page]) page) tr' r"
    using assms unfolding sourcePages.simps [of _ _ _ _ left] procRuns_PAct
    by (auto simp: Let_def afterPage_def cong: sum.case_cong split: reply.splits)
  show thesis
  proof (cases "getPage rep")
    case (Inl e)
    then have "eventPage (opts, c, rep) = None" using c by (auto simp: getPage_def split: reply.splits)
    moreover have "tr' = []" "res_Status r = ''failed''" using run Inl by (auto simp: failed_def)
    ultimately show thesis using that(1) tr c(1) by blast
  next
    case (Inr p)
    then have "eventPage (opts, c, rep) = Some p" using c by (auto simp: getPage_def split: reply.splits)
    then show thesis using that(2) tr c(1) run Inr by simp
  qed
qed

lemma sourcePages_runs:
  assumes "procRuns (sourcePages opts cap input node left sofar refs cp) tr r"
  shows "length (traceCursors tr) \<le> Suc left
    \<and> traceCursors tr = map (\<lambda>i. cursorAfter cp (take i (tracePages tr))) [0..<length (traceCursors tr)]
    \<and> (res_Status r = ''success'' \<longrightarrow> tracePages tr \<noteq> [] \<and> length (traceCursors tr) = length (tracePages tr) \<and>
         (\<exists>trunc ref. r = sourceResult input node (sofar + pagesTotal (tracePages tr)) (cursorAfter cp (tracePages tr)) trunc ref
           \<and> (trunc \<longrightarrow> cap \<and> resumableSource node (cursorAfter cp (tracePages tr)) \<and> length (tracePages tr) = Suc left)
           \<and> (\<not> trunc \<longrightarrow> \<not> page_HasMore (last (tracePages tr)))))"
  using assms
proof (induction left arbitrary: sofar refs cp tr)
  case (0 sofar refs cp tr)
  from 0 show ?case
  proof (cases rule: sourcePages_round)
    case (1 e tr')
    then show ?thesis by simp
  next
    case (2 e tr' p refs')
    from 2(4) have "tr' = [] \<and> res_Status r = ''failed''
        \<or> (\<exists>trunc. procRuns (finishSource opts input node (sofar + page_RecordCount p) refs' (cursorAfter cp [p]) trunc) tr' r
             \<and> (trunc \<longrightarrow> cap \<and> resumableSource node (cursorAfter cp [p])) \<and> (\<not> trunc \<longrightarrow> \<not> page_HasMore p))"
      by (auto simp: afterPage_def failed_def split: if_splits)
    then show ?thesis using 2 finishSource_runs by (fastforce simp: pagesTotal_def)
  qed
next
  case (Suc left sofar refs cp tr)
  from Suc.prems show ?case
  proof (cases rule: sourcePages_round)
    case (1 e tr')
    then show ?thesis by simp
  next
    case (2 e tr' p refs')
    show ?thesis
    proof (cases "page_HasMore p")
      case False
      then have "procRuns (finishSource opts input node (sofar + page_RecordCount p) refs' (cursorAfter cp [p]) False) tr' r"
        using 2(4) by (simp add: afterPage_def)
      then show ?thesis using 2 False finishSource_runs by (fastforce simp: pagesTotal_def)
    next
      case True
      then have run: "procRuns (sourcePages opts cap input node left (sofar + page_RecordCount p) refs' (cursorAfter cp [p])) tr' r"
        using 2(4) by (simp add: afterPage_def)
      note IH = Suc.IH [OF run]
      have "traceCursors tr = cp # map (\<lambda>i. cursorAfter cp (take (Suc i) (p # tracePages tr'))) [0..<length (traceCursors tr')]"
        using IH 2 by simp
      also have "\<dots> = map (\<lambda>i. cursorAfter cp (take i (tracePages tr))) [0..<length (traceCursors tr)]"
        using 2 by (simp add: upt_conv_Cons map_Suc_upt [symmetric] del: upt_Suc)
      finally show ?thesis using IH 2 by (auto simp: pagesTotal_def add.assoc)
    qed
  qed
qed

section \<open>The conditions of the incoming edges\<close>

definition conditioned :: "Edge list \<Rightarrow> Edge list" where
  "conditioned es = filter (\<lambda>e. edge_Condition e \<noteq> []) es"

abbreviation allowedEvents :: "ActivityOptions \<Rightarrow> WorkflowInput \<Rightarrow> results \<Rightarrow> Edge list \<Rightarrow> event list" where
  "allowedEvents opts input results es \<equiv>
     map (\<lambda>e. (opts, EvalEdgeCondition (edge_Condition e) (upstreamRef results e) (win_EncryptedDEK input), RBool True)) es"

text \<open>Either all conditions were answered with true and the rest of the trace is that of the body, or
  no call of the trace names the node.\<close>

lemma evalEdges_runs:
  assumes "procRuns (evalEdges opts input node results es k) tr r"
  shows "(\<exists>tr'. tr = allowedEvents opts input results (conditioned es) @ tr' \<and> procRuns k tr' r)
    \<or> (nodeTrace tr = [] \<and> res_Status r \<in> {''failed'', ''skipped''})"
  using assms
proof (induction es arbitrary: tr)
  case (Cons e es)
  show ?case
  proof (cases "edge_Condition e = []")
    case True
    then show ?thesis using Cons by (simp add: conditioned_def)
  next
    case False
    let ?c = "EvalEdgeCondition (edge_Condition e) (upstreamRef results e) (win_EncryptedDEK input)"
    obtain rep tr' where tr: "tr = (opts, ?c, rep) # tr'"
      and run: "procRuns (case getBool rep of Inl err \<Rightarrow> PRet (failed (node_ID node) err)
        | Inr allowed \<Rightarrow> if allowed then evalEdges opts input node results es k else PRet (skipped (node_ID node))) tr' r"
      using Cons.prems False by (auto simp: procRuns_PAct)
    show ?thesis
    proof (cases "getBool rep = Ok True")
      case True
      then have "rep = RBool True" by (cases rep) (auto simp: getBool_def)
      moreover have "procRuns (evalEdges opts input node results es k) tr' r" using run True by simp
      ultimately show ?thesis using Cons.IH tr False by (auto simp: conditioned_def)
    next
      case False
      then have "tr' = [] \<and> res_Status r \<in> {''failed'', ''skipped''}"
        using run by (cases "getBool rep") (auto simp: failed_def skipped_def split: if_splits)
      then show ?thesis using tr by simp
    qed
  qed
qed (simp add: conditioned_def)

section \<open>Properties of node runs\<close>

definition sampleDef0 :: "Node list \<Rightarrow> PipelineDefinition" where
  "sampleDef0 ns = sampleDef ns []"

definition sampleInput :: "PipelineDefinition \<Rightarrow> WorkflowInput" where
  "sampleInput def = \<lparr>win_Definition = def, win_TenantID = ''t1'', win_ExecutionID = ''exec-1'', win_PipelineRowID = ''row-1'',
     win_Environment = ''test'', win_ExecutionPrepared = True,
     win_Trigger = \<lparr>tin_Type = ''manual'', tin_PayloadRef = None, tin_FiredAt = []\<rparr>, win_TraceID = [], win_EncryptedDEK = ''dek'',
     win_DEKIV = [], win_Stream = None, win_Flink = None\<rparr>"

definition sampleOptions :: ActivityOptions where
  "sampleOptions = \<lparr>opt_TaskQueue = ''q'', opt_StartToCloseTimeout = 600 * timeSecond, opt_ScheduleToCloseTimeout = 0,
     opt_HeartbeatTimeout = 60 * timeSecond, opt_InitialInterval = 2 * timeSecond, opt_MaximumInterval = 300 * timeSecond,
     opt_MaximumAttempts = 5, opt_NonRetryableErrorTypes = []\<rparr>"

definition samplePage :: SourcePage where
  "samplePage = \<lparr>page_OutputRef = None, page_HasMore = False, page_RecordCount = 3, page_Checkpoint = Some [(''offset'', VInt 3)]\<rparr>"

text \<open>In every run of a source, whatever the activities answer, at most 50 pages are asked for and
  each page is asked with the newest checkpoint of the pages before it. A successful result reports the sum
  of the record counts and the newest checkpoint; it is marked as truncated only at the cap, with
  a checkpoint to resume from and outside a backfill, and otherwise the last page had no more.\<close>

theorem source_run_pages:
  assumes "procRuns (runSource opts cap input node) tr r"
  shows "length (traceCursors tr) \<le> 50
    \<and> traceCursors tr = map (\<lambda>i. cursorAfter None (take i (tracePages tr))) [0..<length (traceCursors tr)]
    \<and> (res_Status r = ''success'' \<longrightarrow>
         map_of (res_Meta r) ''recordCount'' = Some (VInt (pagesTotal (tracePages tr)))
         \<and> map_of (res_Meta r) ''checkpoint'' = map_option VObj (cursorAfter None (tracePages tr))
         \<and> (map_of (res_Meta r) ''truncated'' \<noteq> None \<longrightarrow>
              length (tracePages tr) = 50 \<and> resumableSource node (cursorAfter None (tracePages tr)))
         \<and> (map_of (res_Meta r) ''truncated'' = None \<longrightarrow> tracePages tr \<noteq> [] \<and> \<not> page_HasMore (last (tracePages tr))))"
proof -
  note run = sourcePages_runs [OF assms [unfolded runSource_def], unfolded maxSourcePagesPerRun_def]
  have "map_of (res_Meta r) ''recordCount'' = Some (VInt (pagesTotal (tracePages tr)))
         \<and> map_of (res_Meta r) ''checkpoint'' = map_option VObj (cursorAfter None (tracePages tr))
         \<and> (map_of (res_Meta r) ''truncated'' \<noteq> None \<longrightarrow>
              length (tracePages tr) = 50 \<and> resumableSource node (cursorAfter None (tracePages tr)))
         \<and> (map_of (res_Meta r) ''truncated'' = None \<longrightarrow> tracePages tr \<noteq> [] \<and> \<not> page_HasMore (last (tracePages tr)))"
    if "res_Status r = ''success''"
    using run that by (cases "cursorAfter None (tracePages tr)") (auto simp: sourceResult_def split: if_splits)
  then show ?thesis using run by simp
qed

theorem source_run_pages_witness:
  "\<exists>tr r. procRuns (runSource sampleOptions True (sampleInput (sampleDef0 [])) (sampleNode ''a'' ''source'' ''http.fetch'')) tr r
     \<and> res_Status r = ''success'' \<and> map_of (res_Meta r) ''recordCount'' = Some (VInt (pagesTotal (tracePages tr)))
     \<and> tracePages tr = [samplePage]"
proof -
  let ?n = "sampleNode ''a'' ''source'' ''http.fetch''" and ?i = "sampleInput (sampleDef0 [])"
  let ?e = "(sampleOptions, FetchSourcePage ''http.fetch'' [] None ''t1'' ''p1:a'' None ''exec-1'' ''a'' ''dek'', RPage samplePage)"
  let ?r = "sourceResult ?i ?n 3 (Some [(''offset'', VInt 3)]) False None"
  have run: "procRuns (runSource sampleOptions True ?i ?n) [?e] ?r"
    by (simp add: runSource_def sourcePages.simps procRuns_PAct sampleNode_def sampleInput_def sampleDef0_def sampleDef_def
        sourceConnectionID_def getPage_def samplePage_def finishSource_def objGet_def)
  show ?thesis
    using source_run_pages [OF run] run
    by (intro exI [of _ "[?e]"] exI [of _ ?r]) (simp add: sourceResult_def)
qed

text \<open>The guard of a node: if a run makes any call that names the node, then the node has no incoming
  edge or one whose source succeeded, and the run began by asking every condition of its incoming
  edges, in order, and each was answered with true.\<close>

theorem node_call_guarded:
  assumes "procRuns (runNode opts cap input node incoming results) tr r" "node_ID node \<in> set (nodeTrace tr)"
  shows "(incoming (node_ID node) = [] \<or> list_ex (upstreamSucceeded results) (incoming (node_ID node)))
    \<and> take (length (conditioned (incoming (node_ID node)))) tr
        = allowedEvents opts input results (conditioned (incoming (node_ID node)))"
proof -
  have guard: "incoming (node_ID node) = [] \<or> list_ex (upstreamSucceeded results) (incoming (node_ID node))"
    using assms by (auto simp: runNode_def Let_def split: if_splits)
  then have "procRuns (evalEdges opts input node results (incoming (node_ID node))
      (runBody opts cap input node (incoming (node_ID node)) results)) tr r"
    using assms(1) by (auto simp: runNode_def Let_def split: if_splits)
  from evalEdges_runs [OF this] guard assms(2) show ?thesis by auto
qed

theorem node_call_guarded_witness:
  "\<exists>tr r. procRuns (runNode sampleOptions True (sampleInput (sampleDef0 [])) (sampleNode ''k'' ''sink'' ''sink.postgres'') (\<lambda>_. []) []) tr r
     \<and> take (length (conditioned [])) tr = allowedEvents sampleOptions (sampleInput (sampleDef0 [])) [] (conditioned [])"
proof -
  let ?n = "sampleNode ''k'' ''sink'' ''sink.postgres''" and ?i = "sampleInput (sampleDef0 [])"
  let ?e = "(sampleOptions, DispatchNode ''sink.postgres'' [] None ''t1'' ''exec-1'' ''k'' 1 ''dek'', RErr (WErr ''down''))"
  have run: "procRuns (runNode sampleOptions True ?i ?n (\<lambda>_. []) []) [?e] (failed ''k'' (WErr ''down''))"
    by (simp add: runNode_def runBody_def procRuns_PAct sampleNode_def sampleInput_def sampleDef0_def sampleDef_def getNode_def map_filter_def)
  have "node_ID ?n \<in> set (nodeTrace [?e])" by (simp add: sampleNode_def)
  from node_call_guarded [OF run this] run show ?thesis by blast
qed

text \<open>Node policies that passed validation are what the activities of a node run with: the
  timeout is positive and not wrapped, the heartbeat does not exceed it, and the attempts are the
  configured number, between 1 and the largest 32-bit integer.\<close>

theorem node_policy_options:
  assumes "ValidateNodePolicies def = None" "node \<in> set (def_Nodes def)"
    and "0 < opt_HeartbeatTimeout opts" "opt_HeartbeatTimeout opts \<le> opt_StartToCloseTimeout opts"
    and "1 \<le> opt_MaximumAttempts opts" "opt_MaximumAttempts opts \<le> maxInt32"
  shows "0 < opt_HeartbeatTimeout (withNodeActivityOptions opts node)
    \<and> opt_HeartbeatTimeout (withNodeActivityOptions opts node) \<le> opt_StartToCloseTimeout (withNodeActivityOptions opts node)
    \<and> (\<forall>t. node_TimeoutSec node = Some t \<longrightarrow> opt_StartToCloseTimeout (withNodeActivityOptions opts node) = t * timeSecond)
    \<and> (\<forall>a. node_MaximumAttempts node = Some a \<longrightarrow> opt_MaximumAttempts (withNodeActivityOptions opts node) = a)
    \<and> 1 \<le> opt_MaximumAttempts (withNodeActivityOptions opts node)
    \<and> opt_MaximumAttempts (withNodeActivityOptions opts node) \<le> maxInt32"
proof -
  have t: "0 < t \<and> wrap64 (t * timeSecond) = t * timeSecond" if "node_TimeoutSec node = Some t" for t
    using ValidateNodePolicies_bounds(1) [OF assms(1,2) that] by (simp add: wrap64_id)
  have a: "0 < a \<and> a \<le> maxInt32 \<and> wrap32 a = a" if "node_MaximumAttempts node = Some a" for a
    using ValidateNodePolicies_bounds(2) [OF assms(1,2) that] by (simp add: wrap32_id)
  show ?thesis
    using t a assms(3-6) by (cases "node_TimeoutSec node"; cases "node_MaximumAttempts node")
      (auto simp: withNodeActivityOptions_def Let_def)
qed

theorem node_policy_options_witness:
  "let n = (sampleNode ''a'' ''source'' ''http.fetch'')\<lparr>node_TimeoutSec := Some 30, node_Retry := Some \<lparr>retry_MaximumAttempts = Some 9\<rparr>\<rparr>
   in opt_StartToCloseTimeout (withNodeActivityOptions sampleOptions n) = 30 * timeSecond
      \<and> opt_MaximumAttempts (withNodeActivityOptions sampleOptions n) = 9"
proof -
  let ?n = "(sampleNode ''a'' ''source'' ''http.fetch'')\<lparr>node_TimeoutSec := Some 30, node_Retry := Some \<lparr>retry_MaximumAttempts = Some 9\<rparr>\<rparr>"
  have "ValidateNodePolicies (sampleDef0 [?n]) = None" by code_simp
  moreover have "?n \<in> set (def_Nodes (sampleDef0 [?n]))" by (simp add: sampleDef0_def sampleDef_def)
  moreover have "node_TimeoutSec ?n = Some 30" "node_MaximumAttempts ?n = Some 9" by (simp_all add: node_MaximumAttempts_def)
  ultimately show ?thesis
    using node_policy_options [of "sampleDef0 [?n]" ?n sampleOptions] by (simp add: sampleOptions_def)
qed

end
