(* ===== verification/Workflow.thy ===== *)
theory Workflow
  imports NodeRun
begin

text \<open>
  The DAG workflow (\<^verbatim>\<open>DynamicDAGWorkflow\<close> in \<^verbatim>\<open>internal/workflows/dynamic_dag.go\<close> and \<^verbatim>\<open>controlledDAGWorkflow\<close>
  in \<^verbatim>\<open>internal/workflows/execution_control.go\<close>): validation of the definition, preparation of a scheduled run, the
  levels of the plan in batches of parallel nodes, the commits of cursors and dedupe keys and the
  final phase. \<open>versions\<close> are the answers of \<^verbatim>\<open>workflow.GetVersion\<close>, \<open>info\<close> what the service knows of the run,
  and \<open>rng\<close> the order in which \<^verbatim>\<open>range\<close> visits the results. The two rejections of a definition are named by the type of the
  application error.
\<close>

section \<open>The model\<close>

record wfVersions =
  ver_nodePolicy :: bool
  ver_agentAdmission :: bool
  ver_durableControls :: bool
  ver_pageCapResume :: bool

record wfInfo =
  info_WorkflowID :: string
  info_RunID :: string
  info_Namespace :: string
  info_StartedAt :: string
  info_CompletedAt :: string

type_synonym outcome = "ExecutionStatus \<times> werr option"

definition emptyStatus :: ExecutionStatus where
  "emptyStatus = \<lparr>status_ExecutionID = [], status_Phase = [], status_NodeResults = [], status_StartedAt = [],
     status_CompletedAt = [], status_Stream = None\<rparr>"

definition defaultOptions :: "WorkflowInput \<Rightarrow> ActivityOptions" where
  "defaultOptions input = \<lparr>opt_TaskQueue = ''dynamic-activities-'' @ win_Environment input,
     opt_StartToCloseTimeout = 600 * timeSecond, opt_ScheduleToCloseTimeout = 0, opt_HeartbeatTimeout = 60 * timeSecond,
     opt_InitialInterval = 2 * timeSecond, opt_MaximumInterval = 300 * timeSecond, opt_MaximumAttempts = 5,
     opt_NonRetryableErrorTypes = [''UnknownActivityError'', ''SchemaValidationError'', ''QuotaExceededError'']\<rparr>"

definition controlActivityContext :: "ActivityOptions \<Rightarrow> ActivityOptions" where
  "controlActivityContext options = options\<lparr>opt_StartToCloseTimeout := 5 * timeSecond, opt_ScheduleToCloseTimeout := 30 * timeSecond,
     opt_HeartbeatTimeout := 0, opt_InitialInterval := timeSecond, opt_MaximumInterval := 2 * timeSecond,
     opt_MaximumAttempts := 10, opt_NonRetryableErrorTypes := []\<rparr>"

text \<open>\<^verbatim>\<open>level[start:end]\<close> for \<^verbatim>\<open>start\<close> from 0 in steps of \<open>n\<close>.\<close>

fun chunks :: "nat \<Rightarrow> 'a list \<Rightarrow> 'a list list" where
  "chunks n [] = []"
| "chunks n (x # xs) = (x # take (n - 1) xs) # chunks n (drop (n - 1) xs)"

definition maxParallel :: "PipelineDefinition \<Rightarrow> nat" where
  "maxParallel def = (case def_Concurrency def of None \<Rightarrow> 5
     | Some c \<Rightarrow> if conc_MaxParallelNodes c > 0 then nat (conc_MaxParallelNodes c) else 5)"

definition storeResults :: "Node list \<Rightarrow> NodeResult list \<Rightarrow> results \<Rightarrow> results" where
  "storeResults batch rs res = fold (\<lambda>(node, r). AList.update (node_ID node) r) (zip batch rs) res"

type_synonym nodeRunner = "Node \<Rightarrow> results \<Rightarrow> NodeResult proc"

definition nodeOptions :: "wfVersions \<Rightarrow> WorkflowInput \<Rightarrow> Node \<Rightarrow> ActivityOptions" where
  "nodeOptions ver input node =
     (if ver_nodePolicy ver then withNodeActivityOptions (defaultOptions input) node else defaultOptions input)"

definition nodeRun :: "wfVersions \<Rightarrow> WorkflowInput \<Rightarrow> (string \<Rightarrow> Edge list) \<Rightarrow> nodeRunner" where
  "nodeRun ver input incoming node res =
     runNode (nodeOptions ver input node) (ver_pageCapResume ver) input node incoming res"

fun runBatches :: "nodeRunner \<Rightarrow> Node list list \<Rightarrow> results \<Rightarrow> (results \<Rightarrow> 'r wf) \<Rightarrow> 'r wf" where
  "runBatches run [] res k = k res"
| "runBatches run (batch # batches) res k =
     Par (map (\<lambda>node. run node res) batch) (\<lambda>rs. runBatches run batches (storeResults batch rs res) k)"

text \<open>\<^verbatim>\<open>drainSignals\<close>: every buffered pause, then every resume, then every cancel.\<close>

definition drainSignals :: "reply \<Rightarrow> bool \<Rightarrow> bool \<times> bool" where
  "drainSignals rep paused = (case rep of
     RSignals p r c \<Rightarrow> (if r then False else if p then True else paused, c) | _ \<Rightarrow> (paused, False))"

fun legacyLevels ::
  "ActivityOptions \<Rightarrow> nat \<Rightarrow> nodeRunner \<Rightarrow> Node list list \<Rightarrow> bool \<Rightarrow> results \<Rightarrow> (bool \<Rightarrow> results \<Rightarrow> 'r wf) \<Rightarrow> 'r wf" where
  "legacyLevels opts n run [] paused res k = k False res"
| "legacyLevels opts n run (level # levels) paused res k =
     Act opts DrainSignals (\<lambda>rep.
       let (paused', cancelled) = drainSignals rep paused in
       if cancelled then k True res
       else if paused' then
         Act opts SelectSignal (\<lambda>rep.
           if rep = RSelect True then k True res
           else runBatches run (chunks n level) res (\<lambda>res'. legacyLevels opts n run levels False res' k))
       else runBatches run (chunks n level) res (\<lambda>res'. legacyLevels opts n run levels False res' k))"

definition anyFailed :: "results \<Rightarrow> bool" where
  "anyFailed res \<longleftrightarrow> list_ex (\<lambda>(_, r). res_Status r = ''failed'') res"

text \<open>What a completed run commits, from the metadata of the results.\<close>

definition resultCursor :: "NodeResult \<Rightarrow> (string \<times> obj) option" where
  "resultCursor r = (case (objGet (res_Meta r) ''checkpoint'', objGet (res_Meta r) ''connectionId'') of
     (VObj c, VStr i) \<Rightarrow> Some (i, c) | _ \<Rightarrow> None)"

definition resultDedupe :: "NodeResult \<Rightarrow> obj option" where
  "resultDedupe r = asObj (objGet (res_Meta r) ''dedupeCheckpoint'')"

definition finishLegacy ::
  "(results \<Rightarrow> results) \<Rightarrow> wfInfo \<Rightarrow> WorkflowInput \<Rightarrow> ActivityOptions \<Rightarrow> bool \<Rightarrow> results \<Rightarrow> outcome wf" where
  "finishLegacy rng info input opts cancelled res =
     (let phase = (if cancelled then ''cancelled'' else if anyFailed res then ''failed'' else ''completed'');
          cursors = List.map_filter (resultCursor \<circ> snd) (rng res);
          dedupe = List.map_filter (resultDedupe \<circ> snd) (rng res);
          fail = (\<lambda>e. Ret (emptyStatus, Some e));
          mark = Act opts (MarkExecution (win_ExecutionID input) phase) (\<lambda>rep. case getUnit rep of
            Inl e \<Rightarrow> fail e
          | Inr _ \<Rightarrow> Ret (\<lparr>status_ExecutionID = win_ExecutionID input, status_Phase = phase, status_NodeResults = res,
               status_StartedAt = info_StartedAt info, status_CompletedAt = info_CompletedAt info, status_Stream = None\<rparr>, None));
          dedupes = (if dedupe \<noteq> [] then Act opts (CommitDedupeKeys (win_TenantID input) dedupe) (\<lambda>rep. case getUnit rep of
            Inl e \<Rightarrow> fail e | Inr _ \<Rightarrow> mark) else mark)
      in if phase \<noteq> ''completed'' then mark
         else if cursors \<noteq> [] then Act opts (CommitSourceCursors (win_TenantID input) cursors) (\<lambda>rep. case getUnit rep of
            Inl e \<Rightarrow> fail e | Inr _ \<Rightarrow> dedupes)
         else dedupes)"

text \<open>The deferred finalization of a controlled run.\<close>

definition controlledPhase :: "werr option \<Rightarrow> bool \<Rightarrow> werr option \<Rightarrow> results \<Rightarrow> string" where
  "controlledPhase failure cancelled runErr res =
     (if cancelled \<or> ((case runErr of None \<Rightarrow> False | Some e \<Rightarrow> isCanceled e) \<and> failure = None) then ''cancelled''
      else if runErr \<noteq> None \<or> failure \<noteq> None then ''failed''
      else if anyFailed res then ''failed'' else ''completed'')"

definition finishControlled ::
  "wfInfo \<Rightarrow> WorkflowInput \<Rightarrow> ActivityOptions \<Rightarrow> werr option \<Rightarrow> results \<Rightarrow> outcome wf" where
  "finishControlled info input opts runErr res =
     Act opts ViewControl (\<lambda>view.
       let (failure, cancelled) = (case view of RView f c \<Rightarrow> (f, c) | _ \<Rightarrow> (None, False));
           runErr' = (if failure \<noteq> None then failure else runErr);
           phase = controlledPhase failure cancelled runErr' res;
           status = (\<lambda>p. \<lparr>status_ExecutionID = win_ExecutionID input, status_Phase = p, status_NodeResults = res,
             status_StartedAt = info_StartedAt info, status_CompletedAt = info_CompletedAt info, status_Stream = None\<rparr>)
       in Act (controlActivityContext opts) (FinalizeExecutionControl (win_TenantID input) (win_ExecutionID input) phase) (\<lambda>rep.
            case getText rep of
              Inl e \<Rightarrow> Ret (status phase, if runErr' = None then Some e else runErr')
            | Inr actual \<Rightarrow> Ret (status actual, if actual = ''cancelled'' \<and> failure = None then None else runErr')))"

fun controlledBatches ::
  "ActivityOptions \<Rightarrow> nodeRunner \<Rightarrow> Node list list \<Rightarrow> results \<Rightarrow> (werr option \<Rightarrow> results \<Rightarrow> 'r wf) \<Rightarrow> 'r wf" where
  "controlledBatches opts run [] res k = k None res"
| "controlledBatches opts run (batch # batches) res k =
     Act opts Gate (\<lambda>rep. case getUnit rep of
       Inl e \<Rightarrow> k (Some e) res
     | Inr _ \<Rightarrow> Par (map (\<lambda>node. run node res) batch) (\<lambda>rs.
         Act opts ViewControl (\<lambda>view.
           case view of
             RView (Some f) _ \<Rightarrow> k (Some f) (storeResults batch rs res)
           | RView None True \<Rightarrow> k (Some (WCanceled ''execution cancellation requested'')) (storeResults batch rs res)
           | _ \<Rightarrow> controlledBatches opts run batches (storeResults batch rs res) k)))"

definition definitionResults :: "WorkflowInput \<Rightarrow> results \<Rightarrow> NodeResult list" where
  "definitionResults input res = List.map_filter (\<lambda>node. map_of res (node_ID node)) (def_Nodes (win_Definition input))"

definition commitControlled ::
  "WorkflowInput \<Rightarrow> ActivityOptions \<Rightarrow> results \<Rightarrow> (werr option \<Rightarrow> 'r wf) \<Rightarrow> 'r wf" where
  "commitControlled input opts res k =
     (let cursors = List.map_filter resultCursor (definitionResults input res);
          dedupe = List.map_filter resultDedupe (definitionResults input res);
          dedupes = (if dedupe = [] then k None else
            Act opts Gate (\<lambda>rep. case getUnit rep of
              Inl e \<Rightarrow> k (Some e)
            | Inr _ \<Rightarrow> Act opts (CommitDedupeKeys (win_TenantID input) dedupe) (\<lambda>rep. case getUnit rep of
                Inl e \<Rightarrow> k (Some e) | Inr _ \<Rightarrow> k None)))
      in Act opts Gate (\<lambda>rep. case getUnit rep of
           Inl e \<Rightarrow> k (Some e)
         | Inr _ \<Rightarrow> if cursors = [] then dedupes else
             Act opts (CommitSourceCursors (win_TenantID input) cursors) (\<lambda>rep. case getUnit rep of
               Inl e \<Rightarrow> k (Some e) | Inr _ \<Rightarrow> dedupes)))"

definition planErrorText :: "plan_error \<Rightarrow> string" where
  "planErrorText e = (case e of
     UnknownSource s \<Rightarrow> ''edge references unknown source '' @ goQuote s
   | UnknownTarget t \<Rightarrow> ''edge references unknown target '' @ goQuote t
   | PlanCycle \<Rightarrow> ''pipeline contains a cycle'')"

definition controlledDAGWorkflow :: "wfVersions \<Rightarrow> wfInfo \<Rightarrow> WorkflowInput \<Rightarrow> outcome wf" where
  "controlledDAGWorkflow ver info input =
     (let opts = defaultOptions input; finish = finishControlled info input opts in
      Act (controlActivityContext opts) (ReadExecutionControl (win_TenantID input) (win_ExecutionID input)) (\<lambda>rep.
        case getUnit rep of
          Inl e \<Rightarrow> finish (Some e) []
        | Inr _ \<Rightarrow>
            (case buildPlan (def_Nodes (win_Definition input)) (def_Edges (win_Definition input)) of
               Inl e \<Rightarrow> finish (Some (WErr (planErrorText e))) []
             | Inr plan \<Rightarrow>
                 controlledBatches opts (nodeRun ver input (plan_Incoming plan))
                   (concat (map (chunks (maxParallel (win_Definition input))) (plan_Levels plan))) []
                   (\<lambda>err res.
                     if err \<noteq> None then finish err res
                     else if anyFailed res then finish None res
                     else commitControlled input opts res (\<lambda>err'. finish err' res)))))"

definition legacyDAGWorkflow ::
  "(results \<Rightarrow> results) \<Rightarrow> wfVersions \<Rightarrow> wfInfo \<Rightarrow> WorkflowInput \<Rightarrow> outcome wf" where
  "legacyDAGWorkflow rng ver info input =
     (let opts = defaultOptions input in
      case buildPlan (def_Nodes (win_Definition input)) (def_Edges (win_Definition input)) of
        Inl e \<Rightarrow> Ret (emptyStatus, Some (WErr (planErrorText e)))
      | Inr plan \<Rightarrow>
          legacyLevels opts (maxParallel (win_Definition input)) (nodeRun ver input (plan_Incoming plan)) (plan_Levels plan) False []
            (finishLegacy rng info input opts))"

definition withDefaults :: "wfInfo \<Rightarrow> WorkflowInput \<Rightarrow> WorkflowInput" where
  "withDefaults info input = input\<lparr>
     win_ExecutionID := (if win_ExecutionID input = [] then ''exec-'' @ info_RunID info else win_ExecutionID input),
     win_Environment := (if win_Environment input = [] then info_Namespace info else win_Environment input),
     win_Trigger := (if tin_FiredAt (win_Trigger input) = [] then (win_Trigger input)\<lparr>tin_FiredAt := info_StartedAt info\<rparr> else win_Trigger input)\<rparr>"

definition DynamicDAGWorkflow ::
  "(string \<Rightarrow> bool) \<Rightarrow> (results \<Rightarrow> results) \<Rightarrow> wfVersions \<Rightarrow> wfInfo \<Rightarrow> WorkflowInput \<Rightarrow> outcome wf" where
  "DynamicDAGWorkflow uuidParse rng ver info input0 =
     (let input = withDefaults info input0; opts = defaultOptions input;
          main = (\<lambda>inp. if ver_durableControls ver then controlledDAGWorkflow ver info inp else legacyDAGWorkflow rng ver info inp)
      in
      if ver_nodePolicy ver \<and> ValidateNodePolicies (win_Definition input) \<noteq> None
        then Ret (emptyStatus, Some (WErr ''InvalidNodePolicy''))
      else if ver_agentAdmission ver \<and> ValidateAgentAdmission uuidParse (win_Definition input) \<noteq> None
        then Ret (emptyStatus, Some (WErr ''AgentAdmissionRejected''))
      else if tin_Type (win_Trigger input) = ''cron'' \<and> \<not> win_ExecutionPrepared input then
        if win_PipelineRowID input = [] then Ret (emptyStatus, Some (WErr ''scheduled workflow is missing pipelineRowId''))
        else Act opts (PrepareScheduledExecution (win_ExecutionID input) (win_PipelineRowID input) (win_TenantID input)
                         (win_Environment input) (info_WorkflowID info) (info_RunID info)) (\<lambda>rep. case getUnit rep of
               Inl e \<Rightarrow> Ret (emptyStatus, Some e)
             | Inr _ \<Rightarrow> main (input\<lparr>win_ExecutionPrepared := True\<rparr>))
      else main input)"

text \<open>The status queries.\<close>

definition legacyQueryPhase :: "bool \<Rightarrow> bool \<Rightarrow> string" where
  "legacyQueryPhase paused cancelled = (if cancelled then ''cancelled'' else if paused then ''paused'' else ''running'')"

definition controlledQueryPhase :: "string \<Rightarrow> bool \<Rightarrow> bool \<Rightarrow> string" where
  "controlledQueryPhase phase paused cancelled = (if paused \<and> \<not> cancelled then ''paused'' else phase)"

section \<open>Batches and results\<close>

lemma concat_chunks [simp]: "concat (chunks n xs) = xs"
  by (induction n xs rule: chunks.induct) auto

lemma concat_concat_chunks [simp]: "concat (concat (map (chunks n) ls)) = concat ls"
  by (induction ls) simp_all

lemma chunks_bound: "0 < n \<Longrightarrow> c \<in> set (chunks n xs) \<Longrightarrow> length c \<le> n"
  by (induction n xs rule: chunks.induct) auto

lemma maxParallel_pos: "0 < maxParallel def"
  by (auto simp: maxParallel_def split: option.splits)

lemma dom_storeResults:
  "length rs = length batch \<Longrightarrow> dom (map_of (storeResults batch rs res)) = dom (map_of res) \<union> set (nodeIDs batch)"
proof (induction batch arbitrary: rs res)
  case (Cons n batch)
  then obtain r rs' where "rs = r # rs'" "length rs' = length batch" by (cases rs) auto
  then show ?case using Cons.IH [of rs' "AList.update (node_ID n) r res"]
    by (auto simp: storeResults_def update_conv')
qed (simp add: storeResults_def)

lemma map_of_storeResults:
  "length rs = length batch \<Longrightarrow> distinct (nodeIDs batch) \<Longrightarrow>
     map_of (storeResults batch rs res) k = (case map_of (zip (nodeIDs batch) rs) k of None \<Rightarrow> map_of res k | Some r \<Rightarrow> Some r)"
proof (induction batch arbitrary: rs res)
  case (Cons n batch)
  then obtain r rs' where r: "rs = r # rs'" "length rs' = length batch" by (cases rs) auto
  let ?res = "AList.update (node_ID n) r res"
  have none: "map_of (zip (nodeIDs batch) rs') (node_ID n) = None"
    using Cons.prems r by (simp add: map_of_zip_is_None)
  have "map_of (storeResults (n # batch) rs res) k = map_of (storeResults batch rs' ?res) k"
    using r by (simp add: storeResults_def)
  also have "\<dots> = (case map_of (zip (nodeIDs batch) rs') k of None \<Rightarrow> map_of ?res k | Some x \<Rightarrow> Some x)"
    using Cons r(2) by simp
  also have "\<dots> = (case map_of (zip (nodeIDs (n # batch)) rs) k of None \<Rightarrow> map_of res k | Some x \<Rightarrow> Some x)"
    using r(1) none by (cases "k = node_ID n") (simp_all add: update_conv' split: option.splits)
  finally show ?case .
qed (simp add: storeResults_def)

lemma map_of_storeResults_nth:
  "length rs = length batch \<Longrightarrow> distinct (nodeIDs batch) \<Longrightarrow> i < length batch \<Longrightarrow>
     map_of (storeResults batch rs res) (node_ID (batch ! i)) = Some (rs ! i)"
  using map_of_zip_nth [of "nodeIDs batch" rs i] by (simp add: map_of_storeResults)

lemma map_of_storeResults_other:
  "length rs = length batch \<Longrightarrow> distinct (nodeIDs batch) \<Longrightarrow> k \<notin> set (nodeIDs batch) \<Longrightarrow>
     map_of (storeResults batch rs res) k = map_of res k"
  by (simp add: map_of_storeResults map_of_zip_is_None [THEN iffD2])

lemma distinct_storeResults: "distinct (map fst res) \<Longrightarrow> distinct (map fst (storeResults batch rs res))"
proof -
  have "distinct (map fst res) \<Longrightarrow> distinct (map fst (fold (\<lambda>(node, r). AList.update (node_ID node) r) xs res))" for xs
    by (induction xs arbitrary: res) (auto simp: distinct_update)
  then show "distinct (map fst res) \<Longrightarrow> distinct (map fst (storeResults batch rs res))" by (simp add: storeResults_def)
qed

text \<open>Events of nodes: the calls that a node makes, all under the options of a node of the group.\<close>

definition nodeEvent :: "(Node \<Rightarrow> ActivityOptions) \<Rightarrow> Node list \<Rightarrow> event \<Rightarrow> bool" where
  "nodeEvent opts nodes e \<longleftrightarrow> (\<exists>n\<in>set nodes. ownCall (opts n) n (fst e) (ev_call e))"

lemma nodeEvent_mono: "nodeEvent opts ns e \<Longrightarrow> set ns \<subseteq> set ms \<Longrightarrow> nodeEvent opts ms e"
  by (auto simp: nodeEvent_def)

text \<open>The results solve the equations of the pipeline: the result of every node is one that the node
  itself returns when it runs on these very results, on calls that occur in the trace.\<close>

definition solvedBy :: "nodeRunner \<Rightarrow> event list \<Rightarrow> results \<Rightarrow> Node list \<Rightarrow> bool" where
  "solvedBy run tr res ns \<longleftrightarrow>
     (\<forall>n\<in>set ns. \<exists>r tri. map_of res (node_ID n) = Some r \<and> procRuns (run n res) tri r \<and> subseq tri tr)"

lemma subseq_appendI: "subseq xs ys \<Longrightarrow> subseq xs (ys @ zs)"
  by (metis append_Nil2 list_emb_append_mono list_emb_Nil)

lemma solvedBy_append: "solvedBy run tr res ns \<Longrightarrow> solvedBy run (tr @ tr') res ns"
  unfolding solvedBy_def using subseq_appendI by blast

lemma solvedBy_prepend: "solvedBy run tr res ns \<Longrightarrow> solvedBy run (tr' @ tr) res ns"
  unfolding solvedBy_def by (meson list_emb_append2)

text \<open>Groups in dependency order: a node's sources are in \<open>P\<close> or in an earlier group.\<close>

fun forwardFrom :: "(string \<Rightarrow> Edge list) \<Rightarrow> string set \<Rightarrow> Node list list \<Rightarrow> bool" where
  "forwardFrom incoming P [] = True"
| "forwardFrom incoming P (g # gs) =
     ((\<forall>n\<in>set g. \<forall>e\<in>set (incoming (node_ID n)). edge_Source e \<in> P) \<and> forwardFrom incoming (P \<union> set (nodeIDs g)) gs)"

lemma forwardFrom_chunked:
  assumes "\<forall>n\<in>set (concat cs). \<forall>e\<in>set (incoming (node_ID n)). edge_Source e \<in> P"
    and "forwardFrom incoming (P \<union> set (nodeIDs (concat cs))) gs"
  shows "forwardFrom incoming P (cs @ gs)"
  using assms
proof (induction cs arbitrary: P)
  case (Cons c cs)
  have "forwardFrom incoming (P \<union> set (nodeIDs c)) (cs @ gs)"
    using Cons.prems by (intro Cons.IH) (auto simp: Un_assoc image_Un)
  then show ?case using Cons.prems(1) by auto
qed simp

lemma forwardFrom_chunks: "forwardFrom incoming P gs \<Longrightarrow> forwardFrom incoming P (concat (map (chunks n) gs))"
proof (induction incoming P gs rule: forwardFrom.induct)
  case (2 incoming P g gs)
  then show ?case by (simp add: forwardFrom_chunked)
qed simp

text \<open>
  The contract between the loops of the workflow and the coroutine of a node: a coroutine makes
  only calls of its own node, and reads only the results of the sources of its incoming edges.
\<close>

locale node_runner =
  fixes nopts :: "Node \<Rightarrow> ActivityOptions" and run :: nodeRunner and incoming :: "string \<Rightarrow> Edge list"
  assumes own: "procAll (ownCall (nopts n) n) (run n res)"
    and reads: "\<forall>e\<in>set (incoming (node_ID n)). map_of r (edge_Source e) = map_of r' (edge_Source e) \<Longrightarrow> run n r = run n r'"
begin

lemma group_events:
  assumes "parRuns (map (\<lambda>n. run n res) batch) tr rs"
  shows "length rs = length batch" "\<forall>e\<in>set tr. nodeEvent nopts batch e"
proof -
  show "length rs = length batch" using parRuns_projection [OF assms] by auto
  have "procAll (\<lambda>o' c. \<exists>n\<in>set batch. ownCall (nopts n) n o' c) p" if "p \<in> set (map (\<lambda>n. run n res) batch)" for p
  proof -
    obtain n where n: "n \<in> set batch" "p = run n res" using \<open>p \<in> _\<close> by auto
    then have "procAll (ownCall (nopts n) n) p" using own by simp
    then show ?thesis using n(1) by (auto elim!: procAll_mono)
  qed
  then show "\<forall>e\<in>set tr. nodeEvent nopts batch e"
    unfolding nodeEvent_def using procAll_par [OF assms] by blast
qed

text \<open>The state between groups: every node done so far has its result, computed from these results.\<close>

definition settled :: "event list \<Rightarrow> results \<Rightarrow> Node list \<Rightarrow> bool" where
  "settled pre res ns \<longleftrightarrow> solvedBy run pre res ns \<and> dom (map_of res) = set (nodeIDs ns) \<and> distinct (map fst res)
     \<and> (\<forall>n\<in>set ns. \<forall>e\<in>set (incoming (node_ID n)). edge_Source e \<in> set (nodeIDs ns))"

lemma settled_append: "settled pre res ns \<Longrightarrow> settled (pre @ tr) res ns"
  by (simp add: settled_def solvedBy_append)

lemma settled_group:
  assumes s: "settled pre res ns" and d: "distinct (nodeIDs (ns @ batch))"
    and f: "\<forall>n\<in>set batch. \<forall>e\<in>set (incoming (node_ID n)). edge_Source e \<in> set (nodeIDs ns)"
    and r: "parRuns (map (\<lambda>n. run n res) batch) tr rs"
  shows "settled (pre @ tr) (storeResults batch rs res) (ns @ batch)"
proof -
  let ?res = "storeResults batch rs res"
  have len: "length rs = length batch" by (rule group_events [OF r])
  have db: "distinct (nodeIDs batch)" using d by simp
  have old: "map_of ?res k = map_of res k" if "k \<in> set (nodeIDs ns)" for k
    using d that by (intro map_of_storeResults_other [OF len db]) auto
  have same: "run n ?res = run n res" if "\<forall>e\<in>set (incoming (node_ID n)). edge_Source e \<in> set (nodeIDs ns)" for n
    using that old by (intro reads) blast
  have "\<exists>x tri. map_of ?res (node_ID n) = Some x \<and> procRuns (run n ?res) tri x \<and> subseq tri (pre @ tr)" if "n \<in> set ns" for n
  proof -
    obtain x tri where "map_of res (node_ID n) = Some x" "procRuns (run n res) tri x" "subseq tri pre"
      using s \<open>n \<in> set ns\<close> unfolding settled_def solvedBy_def by blast
    moreover have "run n ?res = run n res" using s \<open>n \<in> set ns\<close> unfolding settled_def by (intro same) blast
    ultimately show ?thesis using old [of "node_ID n"] \<open>n \<in> set ns\<close> subseq_appendI by fastforce
  qed
  moreover have "\<exists>x tri. map_of ?res (node_ID n) = Some x \<and> procRuns (run n ?res) tri x \<and> subseq tri (pre @ tr)" if "n \<in> set batch" for n
  proof -
    obtain i where i: "i < length batch" "batch ! i = n" using \<open>n \<in> set batch\<close> by (auto simp: in_set_conv_nth)
    obtain tri where "procRuns (run n res) tri (rs ! i)" "subseq tri tr"
      using parRuns_projection [OF r] i by fastforce
    moreover have "run n ?res = run n res" using f \<open>n \<in> set batch\<close> by (intro same) blast
    ultimately show ?thesis using map_of_storeResults_nth [OF len db i(1)] i(2) by (metis list_emb_append2)
  qed
  ultimately have "solvedBy run (pre @ tr) ?res (ns @ batch)" by (auto simp: solvedBy_def)
  moreover have "distinct (map fst ?res)" using s by (intro distinct_storeResults) (simp add: settled_def)
  moreover have "\<forall>n\<in>set (ns @ batch). \<forall>e\<in>set (incoming (node_ID n)). edge_Source e \<in> set (nodeIDs (ns @ batch))"
    using s f unfolding settled_def by auto
  ultimately show ?thesis using s dom_storeResults [OF len] by (simp add: settled_def)
qed

lemma batches_settle:
  assumes "wfRuns (runBatches run batches res k) tr r"
    and "settled pre res ns" "distinct (nodeIDs (ns @ concat batches))" "forwardFrom incoming (set (nodeIDs ns)) batches"
  shows "\<exists>tr1 tr2 res'. tr = tr1 @ tr2 \<and> wfRuns (k res') tr2 r \<and> (\<forall>e\<in>set tr1. nodeEvent nopts (concat batches) e)
    \<and> settled (pre @ tr1) res' (ns @ concat batches)"
  using assms
proof (induction batches arbitrary: res tr pre ns)
  case (Cons batch batches)
  from Cons.prems(1) obtain t1 t2 rs where t: "tr = t1 @ t2" "parRuns (map (\<lambda>n. run n res) batch) t1 rs"
      "wfRuns (runBatches run batches (storeResults batch rs res) k) t2 r"
    by (auto simp: wfRuns_Par)
  have "settled (pre @ t1) (storeResults batch rs res) (ns @ batch)"
    using Cons.prems by (intro settled_group [OF _ _ _ t(2)]) auto
  with Cons.IH [OF t(3) this] Cons.prems obtain u1 u2 res' where u: "t2 = u1 @ u2" "wfRuns (k res') u2 r"
    "\<forall>e\<in>set u1. nodeEvent nopts (concat batches) e" "settled ((pre @ t1) @ u1) res' ((ns @ batch) @ concat batches)" by auto
  have "\<forall>e\<in>set (t1 @ u1). nodeEvent nopts (concat (batch # batches)) e"
    using group_events(2) [OF t(2)] u(3) by (auto intro: nodeEvent_mono)
  then show ?case using t(1) u by (intro exI [of _ "t1 @ u1"] exI [of _ u2] exI [of _ res']) simp
next
  case Nil
  then show ?case by (intro exI [of _ "[]"] exI [of _ tr] exI [of _ res]) auto
qed

end

interpretation nr: node_runner "nodeOptions ver input" "nodeRun ver input incoming" incoming for ver input incoming
proof
  show "procAll (ownCall (nodeOptions ver input n) n) (nodeRun ver input incoming n res)" for n res
    by (simp add: nodeRun_def runNode_own)
  show "nodeRun ver input incoming n r = nodeRun ver input incoming n r'"
    if "\<forall>e\<in>set (incoming (node_ID n)). map_of r (edge_Source e) = map_of r' (edge_Source e)" for n r r'
    unfolding nodeRun_def using that by (rule runNode_reads)
qed

section \<open>The trace of the levels\<close>

text \<open>Events that only read signals or control state.\<close>

definition quietEvent :: "event \<Rightarrow> bool" where
  "quietEvent e \<longleftrightarrow> ev_call e \<in> {DrainSignals, SelectSignal, Gate, ViewControl}"

text \<open>The trace \<open>tr\<close> splits into one segment per level that was started; a segment holds events of the
  nodes of its level.\<close>

definition levelTraces :: "(Node \<Rightarrow> ActivityOptions) \<Rightarrow> Node list list \<Rightarrow> event list list \<Rightarrow> bool" where
  "levelTraces opts levels trs \<longleftrightarrow> length trs \<le> length levels \<and>
     (\<forall>i<length trs. \<forall>e\<in>set (trs ! i). quietEvent e \<or> nodeEvent opts (levels ! i) e)"

lemma levelTraces_Nil [simp]: "levelTraces opts levels []"
  by (simp add: levelTraces_def)

lemma levelTraces_Cons:
  "levelTraces opts (l # levels) (t # trs) \<longleftrightarrow>
     (\<forall>e\<in>set t. quietEvent e \<or> nodeEvent opts l e) \<and> levelTraces opts levels trs"
  by (auto simp: levelTraces_def less_Suc_eq_0_disj nth_Cons split: nat.splits)

context node_runner
begin

lemma legacy_levels_settle:
  assumes "wfRuns (legacyLevels opts n run levels paused res k) tr r"
    and "settled pre res ns" "distinct (nodeIDs (ns @ concat levels))" "forwardFrom incoming (set (nodeIDs ns)) levels"
  shows "\<exists>trs tr2 c res' ns'. tr = concat trs @ tr2 \<and> wfRuns (k c res') tr2 r \<and> levelTraces nopts levels trs
    \<and> settled (pre @ concat trs) res' ns' \<and> (\<not> c \<longrightarrow> ns' = ns @ concat levels)"
  using assms
proof (induction levels arbitrary: paused res tr pre ns)
  case (Cons level levels)
  let ?go = "runBatches run (chunks n level) res (\<lambda>res'. legacyLevels opts n run levels False res' k)"
  have "\<exists>t1 t2. tr = t1 @ t2 \<and> (\<forall>e\<in>set t1. quietEvent e) \<and> (wfRuns (k True res) t2 r \<or> wfRuns ?go t2 r)"
  proof -
    obtain rep t where t: "tr = (opts, DrainSignals, rep) # t"
      and run: "wfRuns (let (paused', cancelled) = drainSignals rep paused in
         if cancelled then k True res
         else if paused' then Act opts SelectSignal (\<lambda>rep. if rep = RSelect True then k True res else ?go) else ?go) t r"
      using Cons.prems(1) by (auto simp: wfRuns_Act)
    obtain p c where d: "drainSignals rep paused = (p, c)" by fastforce
    have quiet: "quietEvent (opts, DrainSignals, rep)" by (simp add: quietEvent_def)
    show ?thesis
    proof (cases "p \<and> \<not> c")
      case False
      then have "wfRuns (k True res) t r \<or> wfRuns ?go t r" using run d by (auto split: if_splits)
      then show ?thesis using t quiet by (intro exI [of _ "[(opts, DrainSignals, rep)]"] exI [of _ t]) auto
    next
      case True
      then obtain rep' t' where t': "t = (opts, SelectSignal, rep') # t'" "wfRuns (k True res) t' r \<or> wfRuns ?go t' r"
        using run d by (auto simp: wfRuns_Act split: if_splits)
      then show ?thesis using t quiet
        by (intro exI [of _ "[(opts, DrainSignals, rep), (opts, SelectSignal, rep')]"] exI [of _ t']) (auto simp: quietEvent_def)
    qed
  qed
  then obtain t1 t2 where t: "tr = t1 @ t2" "\<forall>e\<in>set t1. quietEvent e" "wfRuns (k True res) t2 r \<or> wfRuns ?go t2 r" by blast
  have s1: "settled (pre @ t1) res ns" using Cons.prems(2) by (rule settled_append)
  from t(3) show ?case
  proof
    assume "wfRuns (k True res) t2 r"
    then show ?thesis using t s1
      by (intro exI [of _ "[t1]"] exI [of _ t2] exI [of _ True] exI [of _ res] exI [of _ ns]) (auto simp: levelTraces_Cons)
  next
    assume go: "wfRuns ?go t2 r"
    have "forwardFrom incoming (set (nodeIDs ns)) (chunks n level)"
      using Cons.prems(4) forwardFrom_chunked [of "chunks n level" incoming _ "[]"] by simp
    moreover have "distinct (nodeIDs (ns @ concat (chunks n level)))" using Cons.prems(3) by auto
    ultimately obtain u1 u2 res' where u: "t2 = u1 @ u2"
      "wfRuns (legacyLevels opts n run levels False res' k) u2 r" "\<forall>e\<in>set u1. nodeEvent nopts level e"
      "settled ((pre @ t1) @ u1) res' (ns @ level)" using batches_settle [OF go s1] by auto
    have d2: "distinct (nodeIDs ((ns @ level) @ concat levels))" using Cons.prems(3) by simp
    have f2: "forwardFrom incoming (set (nodeIDs (ns @ level))) levels" using Cons.prems(4) by simp
    from Cons.IH [OF u(2) u(4) d2 f2] obtain trs tr2 c res'' ns' where v: "u2 = concat trs @ tr2" "wfRuns (k c res'') tr2 r"
      "levelTraces nopts levels trs" "settled (((pre @ t1) @ u1) @ concat trs) res'' ns'" "\<not> c \<longrightarrow> ns' = (ns @ level) @ concat levels"
      by blast
    have "levelTraces nopts (level # levels) ((t1 @ u1) # trs)" using t(2) u(3) v(3) by (auto simp: levelTraces_Cons)
    then show ?thesis using t(1) u(1) v
      by (intro exI [of _ "(t1 @ u1) # trs"] exI [of _ tr2] exI [of _ c] exI [of _ res''] exI [of _ ns']) simp
  qed
next
  case Nil
  then show ?case
    by (intro exI [of _ "[]"] exI [of _ tr] exI [of _ False] exI [of _ res] exI [of _ ns]) auto
qed

lemma controlled_batches_settle:
  assumes "wfRuns (controlledBatches opts run batches res k) tr r"
    and "settled pre res ns" "distinct (nodeIDs (ns @ concat batches))" "forwardFrom incoming (set (nodeIDs ns)) batches"
  shows "\<exists>trs tr2 err res' ns'. tr = concat trs @ tr2 \<and> wfRuns (k err res') tr2 r \<and> levelTraces nopts batches trs
    \<and> settled (pre @ concat trs) res' ns' \<and> (err = None \<longrightarrow> ns' = ns @ concat batches)"
  using assms
proof (induction batches arbitrary: res tr pre ns)
  case (Cons batch batches)
  obtain rep t where t: "tr = (opts, Gate, rep) # t" and quiet: "quietEvent (opts, Gate, rep)"
    and run: "wfRuns (case getUnit rep of Inl e \<Rightarrow> k (Some e) res
     | Inr _ \<Rightarrow> Par (map (\<lambda>node. run node res) batch) (\<lambda>rs.
         Act opts ViewControl (\<lambda>view.
           case view of
             RView (Some f) _ \<Rightarrow> k (Some f) (storeResults batch rs res)
           | RView None True \<Rightarrow> k (Some (WCanceled ''execution cancellation requested'')) (storeResults batch rs res)
           | _ \<Rightarrow> controlledBatches opts run batches (storeResults batch rs res) k))) t r"
    using Cons.prems(1) by (auto simp: wfRuns_Act quietEvent_def)
  have s1: "settled (pre @ [(opts, Gate, rep)]) res ns" using Cons.prems(2) by (rule settled_append)
  show ?case
  proof (cases "getUnit rep")
    case (Inl e)
    then show ?thesis using t run quiet s1
      by (intro exI [of _ "[[(opts, Gate, rep)]]"] exI [of _ t] exI [of _ "Some e"] exI [of _ res] exI [of _ ns])
        (auto simp: levelTraces_Cons)
  next
    case (Inr u)
    then obtain u1 u2 rs view where u: "t = u1 @ (opts, ViewControl, view) # u2" "parRuns (map (\<lambda>n. run n res) batch) u1 rs"
      and view: "wfRuns (case view of
             RView (Some f) _ \<Rightarrow> k (Some f) (storeResults batch rs res)
           | RView None True \<Rightarrow> k (Some (WCanceled ''execution cancellation requested'')) (storeResults batch rs res)
           | _ \<Rightarrow> controlledBatches opts run batches (storeResults batch rs res) k) u2 r"
      using run by (auto simp: wfRuns_Par wfRuns_Act)
    have go: "(\<exists>e. wfRuns (k (Some e) (storeResults batch rs res)) u2 r)
        \<or> wfRuns (controlledBatches opts run batches (storeResults batch rs res) k) u2 r"
    proof (cases view)
      case (RView f c)
      then show ?thesis using view by (cases f; cases c) auto
    qed (use view in simp_all)
    let ?seg = "(opts, Gate, rep) # u1 @ [(opts, ViewControl, view)]" and ?res = "storeResults batch rs res"
    have seg: "\<forall>e\<in>set ?seg. quietEvent e \<or> nodeEvent nopts batch e"
      using group_events(2) [OF u(2)] by (auto simp: quietEvent_def)
    have "settled ((pre @ [(opts, Gate, rep)]) @ u1) ?res (ns @ batch)"
      using Cons.prems(3,4) by (intro settled_group [OF s1 _ _ u(2)]) auto
    then have s2: "settled (pre @ ?seg) ?res (ns @ batch)"
      using settled_append [of "(pre @ [(opts, Gate, rep)]) @ u1" ?res "ns @ batch" "[(opts, ViewControl, view)]"] by simp
    from go show ?thesis
    proof
      assume "\<exists>e. wfRuns (k (Some e) ?res) u2 r"
      then obtain e where "wfRuns (k (Some e) ?res) u2 r" by blast
      then show ?thesis using t u(1) seg s2
        by (intro exI [of _ "[?seg]"] exI [of _ u2] exI [of _ "Some e"] exI [of _ ?res] exI [of _ "ns @ batch"])
          (simp add: levelTraces_Cons)
    next
      assume "wfRuns (controlledBatches opts run batches ?res k) u2 r"
      moreover have "distinct (nodeIDs ((ns @ batch) @ concat batches))" using Cons.prems(3) by simp
      moreover have "forwardFrom incoming (set (nodeIDs (ns @ batch))) batches" using Cons.prems(4) by simp
      ultimately obtain trs tr2 err res' ns' where v: "u2 = concat trs @ tr2" "wfRuns (k err res') tr2 r"
        "levelTraces nopts batches trs" "settled ((pre @ ?seg) @ concat trs) res' ns'" "err = None \<longrightarrow> ns' = (ns @ batch) @ concat batches"
        using Cons.IH [OF _ s2] by blast
      then show ?thesis using t u(1) seg
        by (intro exI [of _ "?seg # trs"] exI [of _ tr2] exI [of _ err] exI [of _ res'] exI [of _ ns'])
          (simp add: levelTraces_Cons)
    qed
  qed
next
  case Nil
  then show ?case
    by (intro exI [of _ "[]"] exI [of _ tr] exI [of _ None] exI [of _ res] exI [of _ ns]) auto
qed

end

end
