(* ===== verification/WorkflowSafety.thy ===== *)
theory WorkflowSafety
  imports Workflow
begin

text \<open>
  What holds of every run of the DAG workflow, in both of its forms and for every behaviour of the
  activities, the signals and the scheduler: no call of a node precedes a call of a node it depends
  on, the results solve the equations of the pipeline, and cursors, dedupe keys and the phase
  \<^verbatim>\<open>completed\<close> are written only for runs in which every node ran and none failed.
\<close>

section \<open>Plans as dependency-ordered groups\<close>

definition incomingOf :: "PipelineDefinition \<Rightarrow> string \<Rightarrow> Edge list" where
  "incomingOf def k = filter (\<lambda>e. edge_Target e = k) (def_Edges def)"

lemma levelsOrdered_forward:
  assumes "\<forall>k. incoming k = filter (\<lambda>e. edge_Target e = k) edges"
  shows "levelsOrdered (edgePairs edges) P ls \<Longrightarrow> forwardFrom incoming (set P) ls"
proof (induction ls arbitrary: P)
  case (Cons q ls)
  note l = levelsOrdered_ConsD [OF Cons.prems]
  have "\<forall>n\<in>set q. \<forall>e\<in>set (incoming (node_ID n)). edge_Source e \<in> set P"
  proof (intro ballI)
    fix n e assume "n \<in> set q" "e \<in> set (incoming (node_ID n))"
    then have "(edge_Source e, node_ID n) \<in> set (edgePairs edges)" using assms by (auto simp: edgePairs_def)
    then show "edge_Source e \<in> set P" using l(1) \<open>n \<in> set q\<close> by blast
  qed
  then show ?case using Cons.IH [OF l(2)] by simp
qed simp

lemma buildPlan_forward:
  assumes "distinct (nodeIDs (def_Nodes def))" "buildPlan (def_Nodes def) (def_Edges def) = Ok plan"
  shows "plan_Incoming plan = incomingOf def"
    and "forwardFrom (incomingOf def) {} (plan_Levels plan)"
    and "distinct (nodeIDs (concat (plan_Levels plan)))"
    and "set (concat (plan_Levels plan)) = set (def_Nodes def)"
proof -
  note l = buildPlan_levels [OF assms]
  show inc: "plan_Incoming plan = incomingOf def"
    using buildPlan_incoming [OF assms(2)] by (auto simp: incomingOf_def)
  show "forwardFrom (incomingOf def) {} (plan_Levels plan)"
    using levelsOrdered_forward [OF _ l(1)] by (simp add: incomingOf_def)
  have "mset (nodeIDs (concat (plan_Levels plan))) = mset (nodeIDs (def_Nodes def))"
    using l(3) by (metis mset_map)
  then show "distinct (nodeIDs (concat (plan_Levels plan)))" using assms(1) mset_eq_imp_distinct_iff by blast
  show "set (concat (plan_Levels plan)) = set (def_Nodes def)" using l(3) by (rule mset_eq_setD)
qed

section \<open>The order of calls\<close>

text \<open>After a call that names the target of an edge, no call names its source.\<close>

definition inOrder :: "(string \<Rightarrow> Edge list) \<Rightarrow> event list \<Rightarrow> bool" where
  "inOrder incoming tr \<longleftrightarrow> (\<forall>a ev b t e. tr = a @ ev # b \<longrightarrow> callNode (ev_call ev) = Some t \<longrightarrow> e \<in> set (incoming t)
     \<longrightarrow> edge_Source e \<notin> set (nodeTrace b))"

lemma inOrder_Cons: "callNode (ev_call x) = None \<Longrightarrow> inOrder incoming tr \<Longrightarrow> inOrder incoming (x # tr)"
  unfolding inOrder_def by (auto simp: Cons_eq_append_conv)

lemma inOrder_silent: "nodeTrace tr = [] \<Longrightarrow> inOrder incoming tr"
  unfolding inOrder_def by (metis append_is_Nil_conv list.distinct(1) nodeTrace_Cons nodeTrace_append option.simps(5))

lemma segment_nodes:
  assumes "\<forall>e\<in>set t. quietEvent e \<or> nodeEvent nopts g e"
  shows "set (nodeTrace t) \<subseteq> set (nodeIDs g)"
proof
  fix x assume "x \<in> set (nodeTrace t)"
  then obtain e where "e \<in> set t" "callNode (ev_call e) = Some x" by (auto simp: set_nodeTrace)
  then show "x \<in> set (nodeIDs g)" using assms by (force simp: quietEvent_def nodeEvent_def ownCall_def)
qed

lemma levelTraces_nodes: "levelTraces nopts gs trs \<Longrightarrow> set (nodeTrace (concat trs)) \<subseteq> set (nodeIDs (concat gs))"
proof (induction gs arbitrary: trs)
  case Nil
  then show ?case by (simp add: levelTraces_def)
next
  case (Cons g gs)
  show ?case
  proof (cases trs)
    case (Cons t ts)
    then show ?thesis using Cons.IH [of ts] Cons.prems segment_nodes [of t nopts g] \<open>trs = t # ts\<close>
      by (auto simp: levelTraces_Cons)
  qed simp
qed

lemma append_Cons_split:
  "t @ rest = a @ x # b \<Longrightarrow> (\<exists>u. a = t @ u \<and> rest = u @ x # b) \<or> (\<exists>u. t = a @ x # u \<and> b = u @ rest)"
proof (induction t arbitrary: a)
  case (Cons y t)
  then show ?case by (cases a) auto
qed simp

lemma inOrder_levels:
  assumes "forwardFrom incoming P gs" "P \<inter> set (nodeIDs (concat gs)) = {}" "distinct (nodeIDs (concat gs))"
    and "levelTraces nopts gs trs" "nodeTrace tr2 = []"
  shows "inOrder incoming (concat trs @ tr2)"
  using assms
proof (induction gs arbitrary: P trs)
  case Nil
  then show ?case by (simp add: levelTraces_def inOrder_silent)
next
  case (Cons g gs)
  show ?case
  proof (cases trs)
    case Nil
    then show ?thesis using Cons.prems(5) by (simp add: inOrder_silent)
  next
    case trs: (Cons t ts)
    let ?rest = "concat ts @ tr2"
    have lt: "\<forall>e\<in>set t. quietEvent e \<or> nodeEvent nopts g e" "levelTraces nopts gs ts"
      using Cons.prems(4) trs by (simp_all add: levelTraces_Cons)
    have ids: "set (nodeTrace t) \<subseteq> set (nodeIDs g)" "set (nodeTrace ?rest) \<subseteq> set (nodeIDs (concat gs))"
      using segment_nodes [OF lt(1)] levelTraces_nodes [OF lt(2)] Cons.prems(5) by auto
    have g: "set (nodeIDs g) \<inter> set (nodeIDs (concat gs)) = {}" and d: "distinct (nodeIDs (concat gs))"
      and f: "forwardFrom incoming (P \<union> set (nodeIDs g)) gs"
      using Cons.prems(1,3) by simp_all
    have "P \<inter> set (nodeIDs (concat gs)) = {}" using Cons.prems(2) by auto
    with g have p: "(P \<union> set (nodeIDs g)) \<inter> set (nodeIDs (concat gs)) = {}" by blast
    have rest: "inOrder incoming ?rest"
      by (rule Cons.IH [OF f p d lt(2) Cons.prems(5)])
    show ?thesis unfolding inOrder_def
    proof (intro allI impI)
      fix a ev b x e
      assume eq: "concat trs @ tr2 = a @ ev # b" and x: "callNode (ev_call ev) = Some x" and e: "e \<in> set (incoming x)"
      from eq trs have "t @ ?rest = a @ ev # b" by simp
      then consider u where "a = t @ u" "?rest = u @ ev # b" | u where "t = a @ ev # u" "b = u @ ?rest"
        using append_Cons_split by metis
      then show "edge_Source e \<notin> set (nodeTrace b)"
      proof cases
        case 1
        then show ?thesis using rest x e unfolding inOrder_def by blast
      next
        case 2
        then have "x \<in> set (nodeTrace t)" using x by simp
        then have "x \<in> set (nodeIDs g)" using ids(1) by blast
        then have src: "edge_Source e \<in> P" using Cons.prems(1) e by auto
        have "set (nodeTrace b) \<subseteq> set (nodeIDs (concat (g # gs)))" using 2 ids x by auto
        then show ?thesis using src Cons.prems(2) by blast
      qed
    qed
  qed
qed

section \<open>The end of a run\<close>

definition cursorsOf :: "results \<Rightarrow> (string \<times> obj) set" where
  "cursorsOf res = {c. \<exists>k r. map_of res k = Some r \<and> resultCursor r = Some c}"

definition dedupesOf :: "results \<Rightarrow> obj set" where
  "dedupesOf res = {c. \<exists>k r. map_of res k = Some r \<and> resultDedupe r = Some c}"

text \<open>A call of the closing part: commits and the phase \<^verbatim>\<open>completed\<close> only if \<open>good\<close>, with exactly the given data.\<close>

definition closingCall ::
  "string \<Rightarrow> bool \<Rightarrow> (string \<times> obj) set \<Rightarrow> obj set \<Rightarrow> ActivityOptions \<Rightarrow> call \<Rightarrow> bool" where
  "closingCall tenant good cs ds opts c \<longleftrightarrow>
     (case c of CommitSourceCursors t xs \<Rightarrow> t = tenant \<and> good \<and> set xs = cs
      | CommitDedupeKeys t xs \<Rightarrow> t = tenant \<and> good \<and> set xs = ds
      | MarkExecution x p \<Rightarrow> p = ''completed'' \<longrightarrow> good
      | FinalizeExecutionControl t x p \<Rightarrow> p = ''completed'' \<longrightarrow> good
      | _ \<Rightarrow> callNode c = None)"

lemma closingCall_node: "closingCall t g cs ds o' c \<Longrightarrow> callNode c = None"
  by (cases c) (auto simp: closingCall_def)

lemma closingCall_weaken: "closingCall t g cs ds o' c \<Longrightarrow> (g \<Longrightarrow> g') \<Longrightarrow> closingCall t g' cs ds o' c"
  by (cases c) (auto simp: closingCall_def)

lemma set_map_filter: "set (List.map_filter f xs) = {y. \<exists>x\<in>set xs. f x = Some y}"
  by (force simp: map_filter_def)

lemma range_data:
  assumes "distinct (map fst res)" "mset (rng res) = mset res"
  shows "set (List.map_filter (resultCursor \<circ> snd) (rng res)) = cursorsOf res"
    and "set (List.map_filter (resultDedupe \<circ> snd) (rng res)) = dedupesOf res"
  using mset_eq_setD [OF assms(2)] assms(1)
  by (force simp: set_map_filter cursorsOf_def dedupesOf_def)+

lemma definition_data:
  assumes "dom (map_of res) = set (nodeIDs (def_Nodes (win_Definition input)))"
  shows "set (List.map_filter resultCursor (definitionResults input res)) = cursorsOf res"
    and "set (List.map_filter resultDedupe (definitionResults input res)) = dedupesOf res"
proof -
  let ?ns = "def_Nodes (win_Definition input)"
  have r: "r \<in> set (definitionResults input res) \<longleftrightarrow> (\<exists>k. map_of res k = Some r)" for r
  proof
    assume "r \<in> set (definitionResults input res)"
    then show "\<exists>k. map_of res k = Some r" by (auto simp: definitionResults_def set_map_filter)
  next
    assume "\<exists>k. map_of res k = Some r"
    then obtain k where k: "map_of res k = Some r" by blast
    then have "k \<in> set (nodeIDs ?ns)" using assms by blast
    then obtain n where "n \<in> set ?ns" "node_ID n = k" by auto
    then show "r \<in> set (definitionResults input res)" using k by (auto simp: definitionResults_def set_map_filter)
  qed
  have "(\<exists>r\<in>set (definitionResults input res). P r) \<longleftrightarrow> (\<exists>k r. map_of res k = Some r \<and> P r)" for P
    using r by blast
  then show "set (List.map_filter resultCursor (definitionResults input res)) = cursorsOf res"
    and "set (List.map_filter resultDedupe (definitionResults input res)) = dedupesOf res"
    by (simp_all add: set_map_filter cursorsOf_def dedupesOf_def)
qed

lemma finishLegacy_closing:
  assumes "distinct (map fst res)" "mset (rng res) = mset res"
  shows "wfAll (closingCall (win_TenantID input) (\<not> c \<and> \<not> anyFailed res) (cursorsOf res) (dedupesOf res))
           (finishLegacy rng info input opts c res)"
  using range_data [of res rng, OF assms] by (auto simp: finishLegacy_def Let_def closingCall_def split: sum.splits)

lemma finishControlled_closing:
  "wfAll (closingCall tenant (err = None \<and> \<not> anyFailed res) cs ds) (finishControlled info input opts err res)"
proof -
  have phase: "controlledPhase f c (if f \<noteq> None then f else err) res = ''completed'' \<Longrightarrow> err = None \<and> \<not> anyFailed res" for f c
    by (auto simp: controlledPhase_def split: if_splits)
  have "wfAll (closingCall tenant (err = None \<and> \<not> anyFailed res) cs ds)
     (Act (controlActivityContext opts) (FinalizeExecutionControl t x (controlledPhase f c (if f \<noteq> None then f else err) res))
       (\<lambda>rep. case getText rep of Inl e \<Rightarrow> Ret (g e) | Inr a \<Rightarrow> Ret (h a)))" for f c t x and g :: "werr \<Rightarrow> outcome" and h
    using phase [of f c] by (auto simp: closingCall_def split: sum.splits)
  then show ?thesis
    by (simp add: finishControlled_def Let_def split_beta closingCall_def)
qed

lemma commitControlled_closing:
  assumes "dom (map_of res) = set (nodeIDs (def_Nodes (win_Definition input)))"
    and "\<And>err. wfAll (closingCall (win_TenantID input) good (cursorsOf res) (dedupesOf res)) (k err)" good
  shows "wfAll (closingCall (win_TenantID input) good (cursorsOf res) (dedupesOf res)) (commitControlled input opts res k)"
  using assms(2,3) definition_data [OF assms(1)]
  by (auto simp: commitControlled_def Let_def closingCall_def split: sum.splits)

section \<open>Every run\<close>

text \<open>A run in which every node has a result, none failed, and the results solve the pipeline.\<close>

definition fullRun :: "wfVersions \<Rightarrow> WorkflowInput \<Rightarrow> event list \<Rightarrow> results \<Rightarrow> bool" where
  "fullRun ver input tr res \<longleftrightarrow>
     solvedBy (nodeRun ver input (incomingOf (win_Definition input))) tr res (def_Nodes (win_Definition input))
     \<and> dom (map_of res) = set (nodeIDs (def_Nodes (win_Definition input))) \<and> \<not> anyFailed res"

definition goodRun :: "wfVersions \<Rightarrow> WorkflowInput \<Rightarrow> event list \<Rightarrow> bool" where
  "goodRun ver input tr \<longleftrightarrow> inOrder (incomingOf (win_Definition input)) tr
     \<and> (\<forall>ev\<in>set tr. case ev_call ev of
           CommitSourceCursors t xs \<Rightarrow> t = win_TenantID input \<and> (\<exists>res. fullRun ver input tr res \<and> set xs = cursorsOf res)
         | CommitDedupeKeys t xs \<Rightarrow> t = win_TenantID input \<and> (\<exists>res. fullRun ver input tr res \<and> set xs = dedupesOf res)
         | MarkExecution x p \<Rightarrow> p = ''completed'' \<longrightarrow> (\<exists>res. fullRun ver input tr res)
         | FinalizeExecutionControl t x p \<Rightarrow> p = ''completed'' \<longrightarrow> (\<exists>res. fullRun ver input tr res)
         | _ \<Rightarrow> True)"

lemma fullRun_Cons: "fullRun ver input tr res \<Longrightarrow> fullRun ver input (x # tr) res"
  using solvedBy_prepend [of _ tr res _ "[x]"] by (simp add: fullRun_def)

definition preludeCall :: "call \<Rightarrow> bool" where
  "preludeCall c \<longleftrightarrow> (case c of ReadExecutionControl _ _ \<Rightarrow> True | PrepareScheduledExecution _ _ _ _ _ _ \<Rightarrow> True | _ \<Rightarrow> False)"

lemma goodRun_Cons:
  assumes "preludeCall (ev_call x)" "goodRun ver input tr"
  shows "goodRun ver input (x # tr)"
proof -
  have "callNode (ev_call x) = None" using assms(1) by (cases "ev_call x") (auto simp: preludeCall_def)
  then have "inOrder (incomingOf (win_Definition input)) (x # tr)"
    using assms(2) by (intro inOrder_Cons) (simp_all add: goodRun_def)
  moreover have "case ev_call ev of
           CommitSourceCursors t xs \<Rightarrow> t = win_TenantID input \<and> (\<exists>res. fullRun ver input (x # tr) res \<and> set xs = cursorsOf res)
         | CommitDedupeKeys t xs \<Rightarrow> t = win_TenantID input \<and> (\<exists>res. fullRun ver input (x # tr) res \<and> set xs = dedupesOf res)
         | MarkExecution x' p \<Rightarrow> p = ''completed'' \<longrightarrow> (\<exists>res. fullRun ver input (x # tr) res)
         | FinalizeExecutionControl t x' p \<Rightarrow> p = ''completed'' \<longrightarrow> (\<exists>res. fullRun ver input (x # tr) res)
         | _ \<Rightarrow> True" if "ev \<in> set (x # tr)" for ev
  proof (cases "ev = x")
    case True
    then show ?thesis using assms(1) by (cases "ev_call x") (auto simp: preludeCall_def)
  next
    case False
    then have "ev \<in> set tr" using that by simp
    then show ?thesis using assms(2) fullRun_Cons [of ver input tr _ x] unfolding goodRun_def
      by (cases "ev_call ev") (auto dest!: bspec, blast+)
  qed
  ultimately show ?thesis by (simp add: goodRun_def)
qed

text \<open>A run whose closing part keeps to \<open>closingCall\<close> is good.\<close>

lemma goodRun_closing:
  assumes "nr.settled ver input (incomingOf (win_Definition input)) (concat trs) res ns"
    and "g \<Longrightarrow> set ns = set (def_Nodes (win_Definition input)) \<and> \<not> anyFailed res"
    and run: "wfRuns w tr2 out" and closing: "wfAll (closingCall (win_TenantID input) g (cursorsOf res) (dedupesOf res)) w"
    and lt: "levelTraces (nodeOptions ver input) gs trs"
    and f: "forwardFrom (incomingOf (win_Definition input)) {} gs" "distinct (nodeIDs (concat gs))"
  shows "goodRun ver input (concat trs @ tr2)"
proof -
  let ?tr = "concat trs @ tr2" and ?nodes = "def_Nodes (win_Definition input)"
  have closing': "closingCall (win_TenantID input) g (cursorsOf res) (dedupesOf res) (fst e) (ev_call e)" if "e \<in> set tr2" for e
    using wfAll_runs [OF run closing] that .
  then have "nodeTrace tr2 = []"
    using closingCall_node set_nodeTrace [of _ tr2] by (metis all_not_in_conv option.distinct(1) set_empty)
  then have order: "inOrder (incomingOf (win_Definition input)) ?tr"
    by (intro inOrder_levels [OF f(1) _ f(2) lt]) auto
  have full: "fullRun ver input ?tr res" if g
  proof -
    have ns: "set ns = set ?nodes" "\<not> anyFailed res" using assms(2) [OF that] by auto
    have s: "solvedBy (nodeRun ver input (incomingOf (win_Definition input))) (concat trs) res ns"
        "dom (map_of res) = set (nodeIDs ns)"
      using assms(1) by (simp_all add: nr.settled_def)
    have "solvedBy (nodeRun ver input (incomingOf (win_Definition input))) (concat trs) res ?nodes"
      using s(1) ns(1) by (simp add: solvedBy_def)
    then show ?thesis using s(2) ns solvedBy_append by (auto simp: fullRun_def)
  qed
  have ok: "case ev_call ev of
           CommitSourceCursors t xs \<Rightarrow> t = win_TenantID input \<and> (\<exists>res. fullRun ver input ?tr res \<and> set xs = cursorsOf res)
         | CommitDedupeKeys t xs \<Rightarrow> t = win_TenantID input \<and> (\<exists>res. fullRun ver input ?tr res \<and> set xs = dedupesOf res)
         | MarkExecution x p \<Rightarrow> p = ''completed'' \<longrightarrow> (\<exists>res. fullRun ver input ?tr res)
         | FinalizeExecutionControl t x p \<Rightarrow> p = ''completed'' \<longrightarrow> (\<exists>res. fullRun ver input ?tr res)
         | _ \<Rightarrow> True" if ev: "ev \<in> set ?tr" for ev
  proof (cases "ev \<in> set tr2")
    case True
    from closing' [OF this] full show ?thesis by (cases "ev_call ev") (auto simp: closingCall_def)
  next
    case False
    then obtain t where "t \<in> set trs" "ev \<in> set t" using ev by auto
    then obtain i where "i < length trs" "ev \<in> set (trs ! i)" by (metis in_set_conv_nth)
    then have "quietEvent ev \<or> nodeEvent (nodeOptions ver input) (gs ! i) ev" using lt by (auto simp: levelTraces_def)
    then show ?thesis by (cases "ev_call ev") (auto simp: quietEvent_def nodeEvent_def ownCall_def)
  qed
  show ?thesis using order ok by (simp add: goodRun_def)
qed

lemma controlledDAG_good:
  assumes d: "distinct (nodeIDs (def_Nodes (win_Definition input)))"
    and run: "wfRuns (controlledDAGWorkflow ver info input) tr out"
  shows "goodRun ver input tr"
proof -
  let ?def = "win_Definition input" and ?opts = "defaultOptions input"
  let ?nodes = "def_Nodes ?def"
  let ?tail = "\<lambda>err res. if err \<noteq> None then finishControlled info input ?opts err res
      else if anyFailed res then finishControlled info input ?opts None res
      else commitControlled input ?opts res (\<lambda>err'. finishControlled info input ?opts err' res)"
  obtain e rep tr' where tr: "tr = e # tr'" "preludeCall (ev_call e)"
    and r0: "wfRuns (case getUnit rep of
          Inl e \<Rightarrow> finishControlled info input ?opts (Some e) []
        | Inr _ \<Rightarrow>
            (case buildPlan ?nodes (def_Edges ?def) of
               Inl e \<Rightarrow> finishControlled info input ?opts (Some (WErr (planErrorText e))) []
             | Inr plan \<Rightarrow> controlledBatches ?opts (nodeRun ver input (plan_Incoming plan))
                   (concat (map (chunks (maxParallel ?def)) (plan_Levels plan))) [] ?tail)) tr' out"
    using run unfolding controlledDAGWorkflow_def Let_def wfRuns_Act by (auto simp: preludeCall_def)
  have body: "(\<exists>err. wfRuns (finishControlled info input ?opts (Some err) []) tr' out)
      \<or> (\<exists>plan. buildPlan ?nodes (def_Edges ?def) = Ok plan \<and>
            wfRuns (controlledBatches ?opts (nodeRun ver input (plan_Incoming plan))
              (concat (map (chunks (maxParallel ?def)) (plan_Levels plan))) [] ?tail) tr' out)"
    using r0 by (cases "getUnit rep"; cases "buildPlan ?nodes (def_Edges ?def)") auto
  note empty = nr.settled_def [of ver input "incomingOf ?def" "[]" "[]" "[]"]
  from body have "goodRun ver input tr'"
  proof
    assume "\<exists>err. wfRuns (finishControlled info input ?opts (Some err) []) tr' out"
    then obtain err where w: "wfRuns (finishControlled info input ?opts (Some err) []) tr' out" by blast
    have "goodRun ver input (concat [] @ tr')"
      by (rule goodRun_closing [where res = "[]" and ns = "[]" and g = False and gs = "[]", OF _ _ w])
        (use finishControlled_closing [of _ "Some err" "[]"] in \<open>auto simp: empty solvedBy_def\<close>)
    then show ?thesis by simp
  next
    assume "\<exists>plan. buildPlan ?nodes (def_Edges ?def) = Ok plan \<and>
            wfRuns (controlledBatches ?opts (nodeRun ver input (plan_Incoming plan))
              (concat (map (chunks (maxParallel ?def)) (plan_Levels plan))) [] ?tail) tr' out"
    then obtain plan where plan: "buildPlan ?nodes (def_Edges ?def) = Ok plan"
      and w: "wfRuns (controlledBatches ?opts (nodeRun ver input (plan_Incoming plan))
              (concat (map (chunks (maxParallel ?def)) (plan_Levels plan))) [] ?tail) tr' out" by blast
    note p = buildPlan_forward [OF d plan]
    let ?gs = "concat (map (chunks (maxParallel ?def)) (plan_Levels plan))"
    have cc: "concat ?gs = concat (plan_Levels plan)" by simp
    have fwd: "forwardFrom (incomingOf ?def) {} ?gs" using p(2) by (rule forwardFrom_chunks)
    have dist: "distinct (nodeIDs (concat ?gs))" unfolding cc by (rule p(3))
    have s0: "nr.settled ver input (incomingOf ?def) [] [] []" by (simp add: empty solvedBy_def)
    have d0: "distinct (nodeIDs ([] @ concat ?gs))" and f0: "forwardFrom (incomingOf ?def) (set (nodeIDs [])) ?gs"
      using dist fwd by simp_all
    from nr.controlled_batches_settle [OF w [unfolded p(1)] s0 d0 f0] obtain trs tr2 err res ns where
      r0: "tr' = concat trs @ tr2" "wfRuns (?tail err res) tr2 out"
      "levelTraces (nodeOptions ver input) ?gs trs" "nr.settled ver input (incomingOf ?def) ([] @ concat trs) res ns"
      "err = None \<longrightarrow> ns = [] @ concat ?gs"
      by blast
    note r = r0(1-3) r0(4) [unfolded append_Nil] r0(5) [unfolded append_Nil cc]
    let ?g = "err = None \<and> \<not> anyFailed res"
    have dom: "dom (map_of res) = set (nodeIDs ?nodes)" if "err = None"
      using r(4,5) that p(4) by (simp add: nr.settled_def flip: set_concat)
    have closing: "wfAll (closingCall (win_TenantID input) ?g (cursorsOf res) (dedupesOf res)) (?tail err res)"
    proof (cases ?g)
      case True
      have "wfAll (closingCall (win_TenantID input) ?g (cursorsOf res) (dedupesOf res)) (finishControlled info input ?opts err' res)" for err'
        by (rule wfAll_mono [OF finishControlled_closing [of "win_TenantID input" err' res]])
          (erule closingCall_weaken, use True in blast)
      then show ?thesis using True dom by (simp add: commitControlled_closing)
    next
      case False
      then show ?thesis using finishControlled_closing [of "win_TenantID input" err res] by auto
    qed
    have "set ns = set ?nodes \<and> \<not> anyFailed res" if ?g using r(5) p(4) that by simp
    then show ?thesis unfolding r(1)
      by (intro goodRun_closing [OF r(4) _ r(2) closing r(3) fwd dist]) blast
  qed
  then show ?thesis unfolding tr(1) by (rule goodRun_Cons [OF tr(2)])
qed

lemma legacyDAG_good:
  assumes d: "distinct (nodeIDs (def_Nodes (win_Definition input)))" and rng: "\<And>xs. mset (rng xs) = mset xs"
    and run: "wfRuns (legacyDAGWorkflow rng ver info input) tr out"
  shows "goodRun ver input tr"
proof (cases "buildPlan (def_Nodes (win_Definition input)) (def_Edges (win_Definition input))")
  case (Inl e)
  then have "tr = []" using run by (simp add: legacyDAGWorkflow_def)
  then show ?thesis by (simp add: goodRun_def inOrder_silent)
next
  case (Inr plan)
  let ?def = "win_Definition input" and ?opts = "defaultOptions input"
  note p = buildPlan_forward [OF d Inr]
  have w: "wfRuns (legacyLevels ?opts (maxParallel ?def) (nodeRun ver input (incomingOf ?def)) (plan_Levels plan) False []
      (finishLegacy rng info input ?opts)) tr out"
    using run Inr p(1) by (simp add: legacyDAGWorkflow_def Let_def)
  have s0: "nr.settled ver input (incomingOf ?def) [] [] []" by (simp add: nr.settled_def solvedBy_def)
  have d0: "distinct (nodeIDs ([] @ concat (plan_Levels plan)))"
    and f0: "forwardFrom (incomingOf ?def) (set (nodeIDs [])) (plan_Levels plan)"
    using p(2,3) by simp_all
  from nr.legacy_levels_settle [OF w s0 d0 f0] obtain trs tr2 c res ns where r0: "tr = concat trs @ tr2"
    "wfRuns (finishLegacy rng info input ?opts c res) tr2 out" "levelTraces (nodeOptions ver input) (plan_Levels plan) trs"
    "nr.settled ver input (incomingOf ?def) ([] @ concat trs) res ns" "\<not> c \<longrightarrow> ns = [] @ concat (plan_Levels plan)"
    by blast
  note r = r0(1-3) r0(4,5) [unfolded append_Nil]
  have "distinct (map fst res)" using r(4) by (simp add: nr.settled_def)
  note closing = finishLegacy_closing [where rng = rng and input = input and info = info and opts = ?opts and c = c, OF this rng]
  have "set ns = set (def_Nodes ?def) \<and> \<not> anyFailed res" if "\<not> c \<and> \<not> anyFailed res" using r(5) p(4) that by simp
  then show ?thesis unfolding r(1)
    by (intro goodRun_closing [OF r(4) _ r(2) closing r(3) p(2,3)]) blast
qed

text \<open>The input that the workflow runs with, after the defaults and the preparation.\<close>

definition effectiveInput :: "wfInfo \<Rightarrow> WorkflowInput \<Rightarrow> WorkflowInput" where
  "effectiveInput info input =
     (let i = withDefaults info input
      in if tin_Type (win_Trigger i) = ''cron'' \<and> \<not> win_ExecutionPrepared i then i\<lparr>win_ExecutionPrepared := True\<rparr> else i)"

lemma win_Definition_effectiveInput [simp]: "win_Definition (effectiveInput info input) = win_Definition input"
  by (simp add: effectiveInput_def withDefaults_def Let_def)

lemma win_TenantID_effectiveInput [simp]: "win_TenantID (effectiveInput info input) = win_TenantID input"
  by (simp add: effectiveInput_def withDefaults_def Let_def)

lemma DynamicDAG_runs:
  assumes "wfRuns (DynamicDAGWorkflow uuidParse rng ver info input) tr out"
  shows "(\<forall>e\<in>set tr. preludeCall (ev_call e))
    \<or> (\<exists>pre tr'. tr = pre @ tr' \<and> length pre \<le> 1 \<and> (\<forall>e\<in>set pre. preludeCall (ev_call e))
         \<and> (wfRuns (controlledDAGWorkflow ver info (effectiveInput info input)) tr' out
            \<or> wfRuns (legacyDAGWorkflow rng ver info (effectiveInput info input)) tr' out))"
proof -
  define inp where "inp = withDefaults info input"
  define main where "main = (\<lambda>i. if ver_durableControls ver then controlledDAGWorkflow ver info i else legacyDAGWorkflow rng ver info i)"
  have m: "wfRuns (main i) t out \<longleftrightarrow> (if ver_durableControls ver then wfRuns (controlledDAGWorkflow ver info i) t out
      else wfRuns (legacyDAGWorkflow rng ver info i) t out)" for i t by (simp add: main_def)
  let ?cron = "tin_Type (win_Trigger inp) = ''cron'' \<and> \<not> win_ExecutionPrepared inp"
  have eff: "effectiveInput info input = (if ?cron then inp\<lparr>win_ExecutionPrepared := True\<rparr> else inp)"
    by (simp add: effectiveInput_def inp_def Let_def)
  have "tr = [] \<or> (\<not> ?cron \<and> wfRuns (main inp) tr out)
     \<or> (?cron \<and> (\<exists>o' a b c d e f rep t. tr = (o', PrepareScheduledExecution a b c d e f, rep) # t
          \<and> wfRuns (case getUnit rep of Inl e \<Rightarrow> Ret (emptyStatus, Some e) | Inr _ \<Rightarrow> main (inp\<lparr>win_ExecutionPrepared := True\<rparr>)) t out))"
    using assms unfolding DynamicDAGWorkflow_def Let_def inp_def [symmetric] main_def [symmetric]
    by (auto simp: wfRuns_Act main_def split: if_splits)
  then consider "tr = []" | "\<not> ?cron" "wfRuns (main inp) tr out"
    | x rep t where "?cron" "tr = x # t" "preludeCall (ev_call x)"
        "wfRuns (case getUnit rep of Inl e \<Rightarrow> Ret (emptyStatus, Some e) | Inr _ \<Rightarrow> main (inp\<lparr>win_ExecutionPrepared := True\<rparr>)) t out"
    by (auto simp: preludeCall_def)
  then show ?thesis
  proof cases
    case 1
    then show ?thesis by simp
  next
    case 2
    then show ?thesis using m [of inp tr] eff by (intro disjI2 exI [of _ "[]"] exI [of _ tr]) (auto split: if_splits)
  next
    case (3 x rep t)
    show ?thesis
    proof (cases "getUnit rep")
      case (Inl e)
      then show ?thesis using 3 by simp
    next
      case (Inr u)
      then show ?thesis using 3 m [of "inp\<lparr>win_ExecutionPrepared := True\<rparr>" t] eff
        by (intro disjI2 exI [of _ "[x]"] exI [of _ t]) (auto split: if_splits)
    qed
  qed
qed

lemma DynamicDAG_good:
  assumes "distinct (nodeIDs (def_Nodes (win_Definition input)))" "\<And>xs. mset (rng xs) = mset xs"
    and "wfRuns (DynamicDAGWorkflow uuidParse rng ver info input) tr out"
  shows "goodRun ver (effectiveInput info input) tr"
proof -
  let ?i = "effectiveInput info input"
  have d: "distinct (nodeIDs (def_Nodes (win_Definition ?i)))" using assms(1) by simp
  have prepend: "goodRun ver ?i (pre @ t)" if "\<forall>e\<in>set pre. preludeCall (ev_call e)" "goodRun ver ?i t" for pre t
    using that by (induction pre) (auto intro: goodRun_Cons)
  have nil: "goodRun ver ?i []" by (simp add: goodRun_def inOrder_silent)
  from DynamicDAG_runs [OF assms(3)] show ?thesis
  proof (elim disjE exE conjE)
    assume "\<forall>e\<in>set tr. preludeCall (ev_call e)"
    from prepend [OF this nil] show ?thesis by simp
  next
    fix pre tr' assume p: "tr = pre @ tr'" "\<forall>e\<in>set pre. preludeCall (ev_call e)"
      and w: "wfRuns (controlledDAGWorkflow ver info ?i) tr' out"
    show ?thesis unfolding p(1) by (rule prepend [OF p(2) controlledDAG_good [OF d w]])
  next
    fix pre tr' assume p: "tr = pre @ tr'" "\<forall>e\<in>set pre. preludeCall (ev_call e)"
      and w: "wfRuns (legacyDAGWorkflow rng ver info ?i) tr' out"
    show ?thesis unfolding p(1) by (rule prepend [OF p(2) legacyDAG_good [OF d assms(2) w]])
  qed
qed

section \<open>A sample run\<close>

definition sampleVersions :: "bool \<Rightarrow> wfVersions" where
  "sampleVersions durable = \<lparr>ver_nodePolicy = True, ver_agentAdmission = True, ver_durableControls = durable, ver_pageCapResume = True\<rparr>"

definition sampleInfo :: wfInfo where
  "sampleInfo = \<lparr>info_WorkflowID = ''wf'', info_RunID = ''run'', info_Namespace = ''test'', info_StartedAt = ''t0'', info_CompletedAt = ''t1''\<rparr>"

definition pairInput :: WorkflowInput where
  "pairInput = sampleInput (sampleDef [sampleNode ''k'' ''sink'' ''sink.postgres'', sampleNode ''a'' ''source'' ''http.fetch'']
     [sampleEdge ''a'' ''k''])"

definition sampleReply :: "call \<Rightarrow> reply" where
  "sampleReply c = (case c of
     FetchSourcePage _ _ _ _ _ _ _ _ _ \<Rightarrow> RPage samplePage
   | DispatchNode _ _ _ _ _ nid _ _ \<Rightarrow> RNode \<lparr>res_NodeID = nid, res_Status = ''success'', res_OutputRef = None,
       res_Meta = [(''dedupeCheckpoint'', VObj [(''scope'', VStr ''s'')])], res_Error = []\<rparr>
   | FinalizeExecutionControl _ _ p \<Rightarrow> RText p
   | ViewControl \<Rightarrow> RView None False
   | _ \<Rightarrow> RUnit)"

definition sampleRun :: "bool \<Rightarrow> event list \<times> outcome" where
  "sampleRun durable = execWf sampleReply
     (DynamicDAGWorkflow (\<lambda>_. True) (\<lambda>xs. xs) (sampleVersions durable) sampleInfo pairInput)"

lemma sampleRun_runs:
  "wfRuns (DynamicDAGWorkflow (\<lambda>_. True) (\<lambda>xs. xs) (sampleVersions durable) sampleInfo pairInput)
     (fst (sampleRun durable)) (snd (sampleRun durable))"
  unfolding sampleRun_def by (rule execWf_runs)

lemma pairInput_distinct: "distinct (map node_ID (def_Nodes (win_Definition pairInput)))"
  by code_simp

section \<open>Properties of every run\<close>

text \<open>C4: Dependency order. In every run, with both forms of the workflow, every reply and every
  interleaving of the parallel nodes, a call that names a node is never followed by a call that
  names one of the nodes it has an edge from.\<close>

theorem calls_follow_dependencies:
  assumes "distinct (map node_ID (def_Nodes (win_Definition input)))" "\<And>xs. mset (rng xs) = mset xs"
    and "wfRuns (DynamicDAGWorkflow uuidParse rng ver info input) tr out"
    and "i < j" "j < length tr" "e \<in> set (def_Edges (win_Definition input))"
    and "callNode (ev_call (tr ! i)) = Some (edge_Target e)"
  shows "callNode (ev_call (tr ! j)) \<noteq> Some (edge_Source e)"
proof
  assume j: "callNode (ev_call (tr ! j)) = Some (edge_Source e)"
  have "inOrder (incomingOf (win_Definition input)) tr"
    using DynamicDAG_good [OF assms(1-3)] by (simp add: goodRun_def)
  moreover have "tr = take i tr @ tr ! i # drop (Suc i) tr" using assms(4,5) by (simp add: id_take_nth_drop)
  moreover have "e \<in> set (incomingOf (win_Definition input) (edge_Target e))" using assms(6) by (simp add: incomingOf_def)
  ultimately have "edge_Source e \<notin> set (nodeTrace (drop (Suc i) tr))"
    using assms(7) unfolding inOrder_def by blast
  moreover have "tr ! j = drop (Suc i) tr ! (j - Suc i)" "j - Suc i < length (drop (Suc i) tr)" using assms(4,5) by simp_all
  then have "tr ! j \<in> set (drop (Suc i) tr)" by (metis nth_mem)
  ultimately show False using j set_nodeTrace by blast
qed

theorem calls_follow_dependencies_witness:
  "let tr = fst (sampleRun True) in
   callNode (ev_call (tr ! 2)) = Some ''a'' \<and> callNode (ev_call (tr ! 5)) = Some ''k'' \<and> callNode (ev_call (tr ! 6)) \<noteq> Some ''a''"
proof -
  have m: "map (\<lambda>e. callNode (ev_call e)) (fst (sampleRun True))
      = [None, None, Some ''a'', None, None, Some ''k'', None, None, None, None, None, None, None]" by code_simp
  have "map (\<lambda>e. callNode (ev_call e)) (fst (sampleRun True)) ! 2 = Some ''a''"
    "map (\<lambda>e. callNode (ev_call e)) (fst (sampleRun True)) ! 5 = Some ''k''"
    "length (map (\<lambda>e. callNode (ev_call e)) (fst (sampleRun True))) = 13"
    unfolding m by simp_all
  then have l: "6 < length (fst (sampleRun True))" and t: "callNode (ev_call (fst (sampleRun True) ! 2)) = Some ''a''"
    "callNode (ev_call (fst (sampleRun True) ! 5)) = Some ''k''" by simp_all
  have e: "sampleEdge ''a'' ''k'' \<in> set (def_Edges (win_Definition pairInput))"
    by (simp add: pairInput_def sampleInput_def sampleDef_def)
  from calls_follow_dependencies [OF pairInput_distinct _ sampleRun_runs _ l e, of 5] t
  show ?thesis by (simp add: sampleEdge_def)
qed

text \<open>C5: Commits are guarded. If a run commits source cursors, then every node has a result, none
  failed, each result is what its node returns on these results by calls of the run, and the
  cursors are exactly those of the results, for the tenant of the input.\<close>

theorem cursor_commit_guarded:
  assumes "distinct (map node_ID (def_Nodes (win_Definition input)))" "\<And>xs. mset (rng xs) = mset xs"
    and "wfRuns (DynamicDAGWorkflow uuidParse rng ver info input) tr out"
    and "ev \<in> set tr" "ev_call ev = CommitSourceCursors t cs"
  shows "t = win_TenantID input \<and> (\<exists>res. fullRun ver (effectiveInput info input) tr res \<and> set cs = cursorsOf res)"
  using DynamicDAG_good [OF assms(1-3)] assms(4,5) unfolding goodRun_def by (fastforce dest!: bspec)

theorem cursor_commit_guarded_witness:
  "\<exists>res. fullRun (sampleVersions True) (effectiveInput sampleInfo pairInput) (fst (sampleRun True)) res
     \<and> {(''p1:a'', [(''offset'', VInt 3)])} = cursorsOf res"
proof -
  have "\<exists>ev\<in>set (fst (sampleRun True)). ev_call ev = CommitSourceCursors ''t1'' [(''p1:a'', [(''offset'', VInt 3)])]"
    by code_simp
  then obtain ev where "ev \<in> set (fst (sampleRun True))" "ev_call ev = CommitSourceCursors ''t1'' [(''p1:a'', [(''offset'', VInt 3)])]"
    by blast
  from cursor_commit_guarded [OF pairInput_distinct _ sampleRun_runs this] show ?thesis by simp
qed

text \<open>The same for the keys of the cross-run deduplication.\<close>

theorem dedupe_commit_guarded:
  assumes "distinct (map node_ID (def_Nodes (win_Definition input)))" "\<And>xs. mset (rng xs) = mset xs"
    and "wfRuns (DynamicDAGWorkflow uuidParse rng ver info input) tr out"
    and "ev \<in> set tr" "ev_call ev = CommitDedupeKeys t ds"
  shows "t = win_TenantID input \<and> (\<exists>res. fullRun ver (effectiveInput info input) tr res \<and> set ds = dedupesOf res)"
  using DynamicDAG_good [OF assms(1-3)] assms(4,5) unfolding goodRun_def by (fastforce dest!: bspec)

theorem dedupe_commit_guarded_witness:
  "\<exists>res. fullRun (sampleVersions False) (effectiveInput sampleInfo pairInput) (fst (sampleRun False)) res
     \<and> {[(''scope'', VStr ''s'')]} = dedupesOf res"
proof -
  have "\<exists>ev\<in>set (fst (sampleRun False)). ev_call ev = CommitDedupeKeys ''t1'' [[(''scope'', VStr ''s'')]]" by code_simp
  then obtain ev where "ev \<in> set (fst (sampleRun False))" "ev_call ev = CommitDedupeKeys ''t1'' [[(''scope'', VStr ''s'')]]" by blast
  from dedupe_commit_guarded [OF pairInput_distinct _ sampleRun_runs this] show ?thesis by simp
qed

text \<open>C6: The phase is truthful. If a run reports the phase \<^verbatim>\<open>completed\<close> to the database, then every
  node has a result, none failed, and the results solve the pipeline.\<close>

theorem completed_phase_truthful:
  assumes "distinct (map node_ID (def_Nodes (win_Definition input)))" "\<And>xs. mset (rng xs) = mset xs"
    and "wfRuns (DynamicDAGWorkflow uuidParse rng ver info input) tr out"
    and "ev \<in> set tr" "ev_call ev = MarkExecution x ''completed'' \<or> ev_call ev = FinalizeExecutionControl t x ''completed''"
  shows "\<exists>res. fullRun ver (effectiveInput info input) tr res"
  using DynamicDAG_good [OF assms(1-3)] assms(4,5) unfolding goodRun_def by (fastforce dest!: bspec)

theorem completed_phase_truthful_witness:
  "\<exists>res. fullRun (sampleVersions True) (effectiveInput sampleInfo pairInput) (fst (sampleRun True)) res"
proof -
  have "\<exists>ev\<in>set (fst (sampleRun True)). ev_call ev = FinalizeExecutionControl ''t1'' ''exec-1'' ''completed''" by code_simp
  then obtain ev where "ev \<in> set (fst (sampleRun True))" "ev_call ev = FinalizeExecutionControl ''t1'' ''exec-1'' ''completed''" by blast
  from completed_phase_truthful [OF pairInput_distinct _ sampleRun_runs this(1)] this(2) show ?thesis by blast
qed

end
