(* ===== verification/Executions.thy ===== *)
theory Executions
  imports Workflow "HOL-Library.Product_Lexorder"
begin

text \<open>
  The rows that record executions, and the operations on them: the control request of the API
  (\<^verbatim>\<open>internal/api/execution_control.go\<close>), the activities that read, admit and finalize
  (\<^verbatim>\<open>internal/activities/execution_control.go\<close>, \<^verbatim>\<open>MarkExecution\<close>), and the delivery loop
  (\<^verbatim>\<open>internal/dispatchers/execution_control.go\<close>). A table is the list of its rows; an \<^verbatim>\<open>UPDATE\<close> maps the rows that its
  \<^verbatim>\<open>WHERE\<close> clause selects; times are in milliseconds and \<open>now\<close> is a parameter. The statements of one query with a
  data-modifying \<^verbatim>\<open>WITH\<close> see the same snapshot, as PostgreSQL documents.
\<close>

section \<open>Rows\<close>

record execRow =
  ex_ID :: string
  ex_TenantID :: string
  ex_PipelineID :: string
  ex_Phase :: string
  ex_Environment :: string
  ex_WorkflowID :: "string option"
  ex_RunID :: "string option"
  ex_ControlState :: string
  ex_ControlRevision :: int
  ex_DeliveredRevision :: int
  ex_NextDeliveryAt :: int
  ex_CompletedAt :: "int option"
  ex_BackfillPartition :: "string option"

record pipelineRow =
  pl_ID :: string
  pl_TenantID :: string
  pl_CreatedBy :: "string option"

record partitionRow =
  bp_ID :: string
  bp_JobID :: string
  bp_TenantID :: string
  bp_Status :: string
  bp_CompletedAt :: "int option"

record jobRow =
  bj_ID :: string
  bj_TenantID :: string
  bj_Status :: string
  bj_CompletedAt :: "int option"

record nodeRunRow =
  nr_ExecutionID :: string
  nr_NodeID :: string
  nr_TenantID :: string
  nr_Status :: string
  nr_DurationMS :: int
  nr_RecordCount :: "int option"
  nr_Error :: "string option"
  nr_StartedAt :: "int option"
  nr_FinishedAt :: "int option"
  nr_Attempt :: int

record alertRow =
  al_TenantID :: string
  al_PipelineID :: string
  al_ExecutionID :: string
  al_Fingerprint :: string
  al_Status :: string
  al_Message :: string
  al_LastSeenAt :: int

record auditRow =
  au_TenantID :: string
  au_UserID :: string
  au_Action :: string
  au_Resource :: string
  au_ControlState :: string
  au_ControlRevision :: int

record ctlDB =
  db_Executions :: "execRow list"
  db_Pipelines :: "pipelineRow list"
  db_Access :: "(string \<times> string \<times> string) list"
  db_Partitions :: "partitionRow list"
  db_Jobs :: "jobRow list"
  db_NodeRuns :: "nodeRunRow list"
  db_Alerts :: "alertRow list"
  db_Audit :: "auditRow list"

definition updateWhere :: "('a \<Rightarrow> bool) \<Rightarrow> ('a \<Rightarrow> 'a) \<Rightarrow> 'a list \<Rightarrow> 'a list" where
  "updateWhere P f rows = map (\<lambda>r. if P r then f r else r) rows"

definition isExecution :: "string \<Rightarrow> string \<Rightarrow> execRow \<Rightarrow> bool" where
  "isExecution tenant eid r \<longleftrightarrow> ex_ID r = eid \<and> ex_TenantID r = tenant"

section \<open>The control request of the API\<close>

datatype http_error = HTTPError int string

definition controlTarget :: "string \<Rightarrow> string option" where
  "controlTarget action = map_of [(''pause'', ''paused''), (''resume'', ''active''), (''cancel'', ''cancel_requested'')] action"

text \<open>The part inside the transaction that decides: access, terminal phases, earlier cancellation.\<close>

definition controlAccess :: "ctlDB \<Rightarrow> TenantContext \<Rightarrow> execRow \<Rightarrow> http_error option" where
  "controlAccess db tenant row =
     (case find (\<lambda>p. pl_ID p = ex_PipelineID row \<and> pl_TenantID p = ex_TenantID row) (db_Pipelines db) of
        None \<Rightarrow> Some (HTTPError 404 ''not found'')
      | Some p \<Rightarrow>
          if tc_Role tenant \<noteq> ''owner'' \<and> pl_CreatedBy p \<noteq> Some (tc_UserID tenant) then
            (case find (\<lambda>(pid, uid, _). pid = pl_ID p \<and> uid = tc_UserID tenant) (db_Access db) of
               None \<Rightarrow> Some (HTTPError 404 ''not found'')
             | Some (_, _, role) \<Rightarrow>
                 if role \<noteq> ''editor'' \<and> role \<noteq> ''admin'' then Some (HTTPError 403 ''pipeline access requires editor role'') else None)
          else None)"

definition controlConflict :: "string \<Rightarrow> execRow \<Rightarrow> http_error option" where
  "controlConflict action row =
     (if TerminalExecutionPhase (ex_Phase row) then Some (HTTPError 409 ''terminal executions cannot be controlled'')
      else if ex_ControlState row = ''cancel_requested'' \<and> action \<noteq> ''cancel''
        then Some (HTTPError 409 ''cancellation has already been requested'')
      else None)"

text \<open>The write: nothing when the durable intent is already there, else a new revision.\<close>

definition applyControl :: "int \<Rightarrow> string \<Rightarrow> execRow \<Rightarrow> execRow" where
  "applyControl now target row =
     (if ex_ControlState row = target \<and> ex_ControlRevision row > 0 then row
      else row\<lparr>ex_ControlState := target, ex_ControlRevision := ex_ControlRevision row + 1, ex_NextDeliveryAt := now\<rparr>)"

record signalRequest =
  sg_Environment :: string
  sg_WorkflowID :: string
  sg_RunID :: string
  sg_Signal :: string

definition coalesce :: "'a option \<Rightarrow> 'a \<Rightarrow> 'a" where
  "coalesce x d = (case x of None \<Rightarrow> d | Some y \<Rightarrow> y)"

text \<open>The answer carries the control that is reported and, for a rollback, the signal to send.\<close>

definition executionSignal ::
  "int \<Rightarrow> TenantContext \<Rightarrow> string \<Rightarrow> string \<Rightarrow> ctlDB \<Rightarrow> (http_error, ctlDB \<times> ExecutionControl \<times> signalRequest option) result" where
  "executionSignal now tenant action eid db =
     (let target = controlTarget action in
      if target = None \<and> action \<noteq> ''rollback'' then Err (HTTPError 404 ''not found'')
      else (case find (isExecution (tc_TenantID tenant) eid) (db_Executions db) of
          None \<Rightarrow> Err (HTTPError 404 ''not found'')
        | Some row \<Rightarrow>
            (case controlAccess db tenant row of Some e \<Rightarrow> Err e
             | None \<Rightarrow>
            (case controlConflict action row of Some e \<Rightarrow> Err e
             | None \<Rightarrow>
            (case target of
               None \<Rightarrow> Ok (db, \<lparr>ctl_State = ex_ControlState row, ctl_Revision = ex_ControlRevision row, ctl_Phase = ex_Phase row\<rparr>,
                 Some \<lparr>sg_Environment = ex_Environment row, sg_WorkflowID = coalesce (ex_WorkflowID row) (ex_ID row),
                   sg_RunID = coalesce (ex_RunID row) [], sg_Signal = action\<rparr>)
             | Some t \<Rightarrow>
                 let row' = applyControl now t row;
                     control = \<lparr>ctl_State = ex_ControlState row', ctl_Revision = ex_ControlRevision row', ctl_Phase = ex_Phase row\<rparr>
                 in if row' = row then Ok (db, control, None)
                    else Ok (db\<lparr>db_Executions := updateWhere (isExecution (tc_TenantID tenant) eid) (applyControl now t) (db_Executions db),
                        db_Audit := db_Audit db @ [\<lparr>au_TenantID = tc_TenantID tenant, au_UserID = tc_UserID tenant,
                          au_Action = ''execution.'' @ action, au_Resource = eid, au_ControlState = ex_ControlState row',
                          au_ControlRevision = ex_ControlRevision row'\<rparr>]\<rparr>, control, None))))))"

section \<open>The activities\<close>

datatype control_error = InvalidExecutionIdentity | ExecutionNotReady | ExecutionControlBlocked string int

definition rowControl :: "execRow \<Rightarrow> ExecutionControl" where
  "rowControl row = \<lparr>ctl_State = ex_ControlState row, ctl_Revision = ex_ControlRevision row, ctl_Phase = ex_Phase row\<rparr>"

definition readExecutionControl :: "ctlDB \<Rightarrow> string \<Rightarrow> string \<Rightarrow> (control_error, ExecutionControl) result" where
  "readExecutionControl db tenant eid =
     (if tenant = [] \<or> eid = [] then Err InvalidExecutionIdentity
      else (case find (isExecution tenant eid) (db_Executions db) of
              None \<Rightarrow> Err ExecutionNotReady | Some row \<Rightarrow> Ok (rowControl row)))"

text \<open>Admission of a business activity; \<open>attempt\<close> is the attempt that the service reports.\<close>

definition admitControlledActivity ::
  "ctlDB \<Rightarrow> int \<Rightarrow> string \<Rightarrow> string \<Rightarrow> bool \<Rightarrow> control_error option" where
  "admitControlledActivity db attempt tenant eid required =
     (if \<not> required then None
      else (case readExecutionControl db tenant eid of
          Inl e \<Rightarrow> Some e
        | Inr control \<Rightarrow>
            if ctl_State control \<noteq> ''active'' \<or> TerminalExecutionPhase (ctl_Phase control)
            then Some (ExecutionControlBlocked
                   (if TerminalExecutionPhase (ctl_Phase control) then ''cancel_requested'' else ctl_State control) attempt)
            else None))"

text \<open>The row update of \<^verbatim>\<open>FinalizeExecutionControl\<close> and of \<^verbatim>\<open>MarkExecution\<close>.\<close>

definition finalizeRow :: "int \<Rightarrow> string \<Rightarrow> execRow \<Rightarrow> execRow" where
  "finalizeRow now phase row = row\<lparr>
     ex_Phase := (if TerminalExecutionPhase (ex_Phase row) then ex_Phase row
                  else if ex_ControlState row = ''cancel_requested'' then ''cancelled'' else phase),
     ex_CompletedAt := Some (coalesce (ex_CompletedAt row) now)\<rparr>"

definition markRow :: "int \<Rightarrow> string \<Rightarrow> execRow \<Rightarrow> execRow" where
  "markRow now phase row = row\<lparr>
     ex_Phase := (if TerminalExecutionPhase (ex_Phase row) then ex_Phase row else phase),
     ex_CompletedAt := (if TerminalExecutionPhase phase then Some (coalesce (ex_CompletedAt row) now) else ex_CompletedAt row)\<rparr>"

text \<open>The backfill statement: the partition of the execution gets the phase, and its job is closed when
  the snapshot has no partition of the job that is still open.\<close>

definition ofJob :: "string \<Rightarrow> string \<Rightarrow> partitionRow \<Rightarrow> bool" where
  "ofJob tenant jid p \<longleftrightarrow> bp_JobID p = jid \<and> bp_TenantID p = tenant"

definition closeBackfill :: "int \<Rightarrow> string \<Rightarrow> string \<Rightarrow> string \<Rightarrow> ctlDB \<Rightarrow> ctlDB" where
  "closeBackfill now tenant eid phase db =
     (let hit = (\<lambda>p. bp_TenantID p = tenant \<and>
              list_ex (\<lambda>e. isExecution tenant eid e \<and> ex_BackfillPartition e = Some (bp_ID p)) (db_Executions db));
          changed = map bp_JobID (filter hit (db_Partitions db));
          parts = (\<lambda>jid. filter (ofJob tenant jid) (db_Partitions db));
          closes = (\<lambda>j. bj_ID j \<in> set changed \<and> bj_TenantID j = tenant \<and>
              \<not> list_ex (\<lambda>p. bp_Status p \<in> {''pending'', ''starting'', ''running''}) (parts (bj_ID j)));
          verdict = (\<lambda>j. if list_ex (\<lambda>p. bp_Status p = ''failed'') (parts (bj_ID j)) then ''failed''
              else if list_ex (\<lambda>p. bp_Status p = ''cancelled'') (parts (bj_ID j)) then ''cancelled'' else ''completed'')
      in db\<lparr>db_Partitions := updateWhere hit (\<lambda>p. p\<lparr>bp_Status := phase, bp_CompletedAt := Some now\<rparr>) (db_Partitions db),
            db_Jobs := updateWhere closes (\<lambda>j. j\<lparr>bj_Status := verdict j, bj_CompletedAt := Some now\<rparr>) (db_Jobs db)\<rparr>)"

text \<open>The alert of a failed execution; \<open>NULLS LAST\<close> puts unfinished node runs at the end.\<close>

definition latestFailure :: "string \<Rightarrow> string \<Rightarrow> ctlDB \<Rightarrow> nodeRunRow option" where
  "latestFailure tenant eid db =
     (let fs = filter (\<lambda>n. nr_ExecutionID n = eid \<and> nr_TenantID n = tenant \<and> nr_Status n = ''failed'') (db_NodeRuns db);
          finished = filter (\<lambda>n. nr_FinishedAt n \<noteq> None) fs
      in (case rev (sort_key (\<lambda>n. the (nr_FinishedAt n)) finished) of
            n # _ \<Rightarrow> Some n | [] \<Rightarrow> (case fs of n # _ \<Rightarrow> Some n | [] \<Rightarrow> None)))"

definition alertMessage :: "nodeRunRow option \<Rightarrow> string" where
  "alertMessage nr = (case nr of None \<Rightarrow> ''Execution failed''
     | Some n \<Rightarrow> (case nr_Error n of
          Some e \<Rightarrow> ''Node '' @ nr_NodeID n @ '' failed: '' @ e | None \<Rightarrow> ''Node '' @ nr_NodeID n @ '' failed''))"

definition sameAlert :: "string \<Rightarrow> string \<Rightarrow> string \<Rightarrow> alertRow \<Rightarrow> bool" where
  "sameAlert tenant pid fp a \<longleftrightarrow> al_TenantID a = tenant \<and> al_PipelineID a = pid \<and> al_Fingerprint a = fp
     \<and> al_Status a \<in> {''open'', ''acknowledged''}"

definition raiseAlert :: "int \<Rightarrow> string \<Rightarrow> string \<Rightarrow> ctlDB \<Rightarrow> ctlDB" where
  "raiseAlert now tenant eid db =
     (case find (isExecution tenant eid) (db_Executions db) of
        None \<Rightarrow> db
      | Some e \<Rightarrow>
          let msg = alertMessage (latestFailure tenant eid db);
              same = sameAlert tenant (ex_PipelineID e) ''execution_failed''
          in if list_ex same (db_Alerts db)
             then db\<lparr>db_Alerts := updateWhere same (\<lambda>a. a\<lparr>al_LastSeenAt := now, al_ExecutionID := eid, al_Message := msg\<rparr>) (db_Alerts db)\<rparr>
             else db\<lparr>db_Alerts := db_Alerts db @ [\<lparr>al_TenantID = tenant, al_PipelineID = ex_PipelineID e, al_ExecutionID = eid,
                    al_Fingerprint = ''execution_failed'', al_Status = ''open'', al_Message = msg, al_LastSeenAt = now\<rparr>]\<rparr>)"

definition markExecution :: "int \<Rightarrow> string \<Rightarrow> string \<Rightarrow> string \<Rightarrow> ctlDB \<Rightarrow> (control_error, ctlDB \<times> string) result" where
  "markExecution now tenant0 eid phase0 db =
     (let known = (if tenant0 \<noteq> [] then Some tenant0
                   else map_option ex_TenantID (find (\<lambda>r. ex_ID r = eid) (db_Executions db)))
      in case known of
           None \<Rightarrow> Err ExecutionNotReady
         | Some tenant \<Rightarrow>
             (case find (isExecution tenant eid) (db_Executions db) of
                None \<Rightarrow> Err ExecutionNotReady
              | Some row \<Rightarrow>
                  let phase = ex_Phase (markRow now phase0 row);
                      db1 = db\<lparr>db_Executions := updateWhere (isExecution tenant eid) (markRow now phase0) (db_Executions db)\<rparr>;
                      db2 = closeBackfill now tenant eid phase db1
                  in Ok (if phase = ''failed'' then raiseAlert now tenant eid db2 else db2, phase)))"

definition finalizeExecutionControl :: "int \<Rightarrow> string \<Rightarrow> string \<Rightarrow> string \<Rightarrow> ctlDB \<Rightarrow> (control_error, ctlDB \<times> string) result" where
  "finalizeExecutionControl now tenant eid phase db =
     (if tenant = [] then Err InvalidExecutionIdentity
      else (case find (isExecution tenant eid) (db_Executions db) of
          None \<Rightarrow> Err ExecutionNotReady
        | Some row \<Rightarrow>
            let actual = ex_Phase (finalizeRow now phase row);
                db1 = db\<lparr>db_Executions := updateWhere (isExecution tenant eid) (finalizeRow now phase) (db_Executions db)\<rparr>
            in (case markExecution now tenant eid actual db1 of
                  Inl e \<Rightarrow> Err e | Inr (db2, _) \<Rightarrow> Ok (db2, actual))))"

section \<open>Delivery\<close>

record pendingControl =
  pc_Tenant :: string
  pc_ID :: string
  pc_WorkflowID :: string
  pc_RunID :: string
  pc_State :: string
  pc_Revision :: int

definition deliverable :: "int \<Rightarrow> string \<Rightarrow> execRow \<Rightarrow> bool" where
  "deliverable now namespace r \<longleftrightarrow> ex_Environment r = namespace \<and> ex_DeliveredRevision r < ex_ControlRevision r
     \<and> ex_NextDeliveryAt r \<le> now \<and> \<not> TerminalExecutionPhase (ex_Phase r)"

definition pendingOf :: "execRow \<Rightarrow> pendingControl" where
  "pendingOf r = \<lparr>pc_Tenant = ex_TenantID r, pc_ID = ex_ID r, pc_WorkflowID = coalesce (ex_WorkflowID r) (ex_ID r),
     pc_RunID = coalesce (ex_RunID r) [], pc_State = ex_ControlState r, pc_Revision = ex_ControlRevision r\<rparr>"

definition selectPending :: "int \<Rightarrow> string \<Rightarrow> ctlDB \<Rightarrow> pendingControl list" where
  "selectPending now namespace db =
     take 20 (map pendingOf (sort_key (\<lambda>r. (ex_NextDeliveryAt r, ex_TenantID r, ex_ID r))
                (filter (deliverable now namespace) (db_Executions db))))"

datatype signal_result = Signalled | SignalNotFound | SignalFailed string

definition signalName :: "string \<Rightarrow> string" where
  "signalName state = coalesce (map_of [(''active'', ''resume''), (''paused'', ''pause''), (''cancel_requested'', ''cancel'')] state) []"

text \<open>The update after one call: a newer intent stays pending.\<close>

definition pendingRow :: "string \<Rightarrow> pendingControl \<Rightarrow> execRow \<Rightarrow> bool" where
  "pendingRow namespace p r \<longleftrightarrow> isExecution (pc_Tenant p) (pc_ID p) r \<and> ex_Environment r = namespace
     \<and> ex_ControlRevision r = pc_Revision p \<and> ex_DeliveredRevision r < pc_Revision p"

definition settleDelivery :: "int \<Rightarrow> string \<Rightarrow> pendingControl \<Rightarrow> signal_result \<Rightarrow> execRow list \<Rightarrow> execRow list" where
  "settleDelivery now namespace p res rows =
     (case res of
        SignalFailed _ \<Rightarrow> updateWhere (pendingRow namespace p) (\<lambda>r. r\<lparr>ex_NextDeliveryAt := now + 30000\<rparr>) rows
      | _ \<Rightarrow> updateWhere (pendingRow namespace p) (\<lambda>r. r\<lparr>ex_DeliveredRevision := pc_Revision p\<rparr>) rows)"

fun deliverAll ::
  "int \<Rightarrow> string \<Rightarrow> (string \<Rightarrow> string \<Rightarrow> string \<Rightarrow> string \<Rightarrow> int \<Rightarrow> signal_result) \<Rightarrow> pendingControl list \<Rightarrow> execRow list
     \<Rightarrow> string option \<Rightarrow> execRow list \<times> string option" where
  "deliverAll now namespace sig [] rows firstErr = (rows, firstErr)"
| "deliverAll now namespace sig (p # ps) rows firstErr =
     (let res = sig (pc_WorkflowID p) (pc_RunID p) (signalName (pc_State p)) (pc_State p) (pc_Revision p)
      in deliverAll now namespace sig ps (settleDelivery now namespace p res rows)
           (case res of SignalFailed e \<Rightarrow> (if firstErr = None then Some e else firstErr) | _ \<Rightarrow> firstErr))"

definition DispatchExecutionControls ::
  "int \<Rightarrow> string \<Rightarrow> (string \<Rightarrow> string \<Rightarrow> string \<Rightarrow> string \<Rightarrow> int \<Rightarrow> signal_result) \<Rightarrow> ctlDB \<Rightarrow> ctlDB \<times> string option" where
  "DispatchExecutionControls now namespace sig db =
     (let (rows, err) = deliverAll now namespace sig (selectPending now namespace db) (db_Executions db) None
      in (db\<lparr>db_Executions := rows\<rparr>, err))"

section \<open>Node runs\<close>

definition nullableCount :: "int \<Rightarrow> int option" where
  "nullableCount value = (if value = 0 then None else Some value)"

text \<open>The upsert of \<^verbatim>\<open>recordNodeRun\<close>; \<open>elapsed\<close> computes the duration from the pinned start.\<close>

definition upsertNodeRun ::
  "int \<Rightarrow> nodeRunRow \<Rightarrow> bool \<Rightarrow> nodeRunRow \<Rightarrow> nodeRunRow" where
  "upsertNodeRun now new appendRecords old =
     (let failed = (nr_Status old = ''failed'');
          start = (case nr_StartedAt old of Some s \<Rightarrow> Some s | None \<Rightarrow> nr_StartedAt new)
      in old\<lparr>nr_Status := nr_Status new, nr_Error := nr_Error new, nr_FinishedAt := Some now,
         nr_DurationMS := (if failed then nr_DurationMS new else max (nr_DurationMS new) (now - coalesce start now)),
         nr_RecordCount := (if failed \<or> \<not> appendRecords then nr_RecordCount new
            else nullableCount (coalesce (nr_RecordCount old) 0 + coalesce (nr_RecordCount new) 0)),
         nr_StartedAt := (if failed then nr_StartedAt new else start),
         nr_Attempt := nr_Attempt old + (if failed then 1 else 0)\<rparr>)"

definition recordNodeRun ::
  "(string \<Rightarrow> string) \<Rightarrow> int \<Rightarrow> string \<Rightarrow> string \<Rightarrow> string \<Rightarrow> string \<Rightarrow> int \<Rightarrow> int \<Rightarrow> int \<Rightarrow> string \<Rightarrow> bool \<Rightarrow> nodeRunRow list \<Rightarrow> nodeRunRow list" where
  "recordNodeRun redact now eid nid tenant status startedAt duration records errorText appendRecords rows =
     (let new = \<lparr>nr_ExecutionID = eid, nr_NodeID = nid, nr_TenantID = tenant, nr_Status = status, nr_DurationMS = duration,
            nr_RecordCount = nullableCount records, nr_Error = (if errorText = [] then None else Some (redact errorText)),
            nr_StartedAt = Some startedAt, nr_FinishedAt = Some now, nr_Attempt = 1\<rparr>;
          same = (\<lambda>r. nr_ExecutionID r = eid \<and> nr_NodeID r = nid)
      in if list_ex same rows then updateWhere same (upsertNodeRun now new appendRecords) rows else rows @ [new])"

section \<open>Facts on tables\<close>

lemma set_updateWhere: "x \<in> set (updateWhere P f rows) \<longleftrightarrow> (\<exists>r\<in>set rows. x = (if P r then f r else r))"
  by (auto simp: updateWhere_def)

lemma length_updateWhere [simp]: "length (updateWhere P f rows) = length rows"
  by (simp add: updateWhere_def)

lemma nth_updateWhere: "i < length rows \<Longrightarrow> updateWhere P f rows ! i = (if P (rows ! i) then f (rows ! i) else rows ! i)"
  by (simp add: updateWhere_def)

lemma updateWhere_same: "(\<And>r. r \<in> set rows \<Longrightarrow> P r \<Longrightarrow> f r = r) \<Longrightarrow> updateWhere P f rows = rows"
  by (auto simp: updateWhere_def intro: map_idI)

lemma find_updateWhere:
  "(\<And>r. r \<in> set rows \<Longrightarrow> P (f r) = P r) \<Longrightarrow> find P (updateWhere P f rows) = map_option f (find P rows)"
  by (induction rows) (auto simp: updateWhere_def)

lemma isExecution_applyControl [simp]: "isExecution t e (applyControl now x r) = isExecution t e r"
  by (simp add: isExecution_def applyControl_def)

lemma isExecution_finalizeRow [simp]: "isExecution t e (finalizeRow now x r) = isExecution t e r"
  by (simp add: isExecution_def finalizeRow_def)

lemma isExecution_markRow [simp]: "isExecution t e (markRow now x r) = isExecution t e r"
  by (simp add: isExecution_def markRow_def)

text \<open>What a control request may do to a row.\<close>

definition controlled :: "int \<Rightarrow> string \<Rightarrow> execRow \<Rightarrow> execRow \<Rightarrow> bool" where
  "controlled now target r r' \<longleftrightarrow> r' = applyControl now target r \<and> \<not> TerminalExecutionPhase (ex_Phase r)
     \<and> (ex_ControlState r = ''cancel_requested'' \<longrightarrow> target = ''cancel_requested'')"

lemma executionSignal_Ok:
  assumes "executionSignal now tenant action eid db = Ok (db', control, sig)"
  obtains row where "find (isExecution (tc_TenantID tenant) eid) (db_Executions db) = Some row"
    "controlAccess db tenant row = None" "controlConflict action row = None"
    "controlTarget action = None \<Longrightarrow> db' = db \<and> action = ''rollback''"
    "\<And>t. controlTarget action = Some t \<Longrightarrow>
        control = rowControl (applyControl now t row)
        \<and> (applyControl now t row = row \<longrightarrow> db' = db)
        \<and> (applyControl now t row \<noteq> row \<longrightarrow>
             db_Executions db' = updateWhere (isExecution (tc_TenantID tenant) eid) (applyControl now t) (db_Executions db)
             \<and> (\<exists>a. db_Audit db' = db_Audit db @ [a] \<and> au_ControlRevision a = ex_ControlRevision (applyControl now t row)))"
proof -
  have "controlTarget action \<noteq> None \<or> action = ''rollback''"
    using assms by (auto simp: executionSignal_def Let_def split: if_splits)
  moreover obtain row where row: "find (isExecution (tc_TenantID tenant) eid) (db_Executions db) = Some row"
      "controlAccess db tenant row = None" "controlConflict action row = None"
    using assms by (auto simp: executionSignal_def Let_def split: if_splits option.splits)
  moreover have "ex_Phase (applyControl now t row) = ex_Phase row" for t by (simp add: applyControl_def)
  ultimately show thesis
    using assms by (intro that [OF row]) (auto simp: executionSignal_def Let_def rowControl_def split: if_splits)
qed

lemma controlTarget_cancel: "controlTarget action = Some ''cancel_requested'' \<longleftrightarrow> action = ''cancel''"
  by (auto simp: controlTarget_def split: if_splits)

section \<open>Properties of control requests\<close>

definition sampleRow :: "string \<Rightarrow> string \<Rightarrow> int \<Rightarrow> int \<Rightarrow> execRow" where
  "sampleRow phase state rvn dlv = \<lparr>ex_ID = ''e1'', ex_TenantID = ''t1'', ex_PipelineID = ''p1'', ex_Phase = phase, ex_Environment = ''test'',
     ex_WorkflowID = Some ''wf'', ex_RunID = Some ''run'', ex_ControlState = state, ex_ControlRevision = rvn, ex_DeliveredRevision = dlv,
     ex_NextDeliveryAt = 0, ex_CompletedAt = None, ex_BackfillPartition = Some ''bp1''\<rparr>"

definition sampleDB :: "execRow list \<Rightarrow> ctlDB" where
  "sampleDB rows = \<lparr>db_Executions = rows, db_Pipelines = [\<lparr>pl_ID = ''p1'', pl_TenantID = ''t1'', pl_CreatedBy = Some ''u1''\<rparr>],
     db_Access = [], db_Partitions = [\<lparr>bp_ID = ''bp1'', bp_JobID = ''j1'', bp_TenantID = ''t1'', bp_Status = ''running'', bp_CompletedAt = None\<rparr>],
     db_Jobs = [\<lparr>bj_ID = ''j1'', bj_TenantID = ''t1'', bj_Status = ''running'', bj_CompletedAt = None\<rparr>],
     db_NodeRuns = [], db_Alerts = [], db_Audit = []\<rparr>"

definition sampleTenant :: TenantContext where
  "sampleTenant = \<lparr>tc_TenantID = ''t1'', tc_UserID = ''u1'', tc_Email = [], tc_Role = ''member'', tc_EmailVerified = True, tc_TokenID = []\<rparr>"

text \<open>C7: A control request that succeeds changes at most the row of the execution in the tenant of
  the caller; that row is not terminal; a cancellation is never undone; the revision grows by one
  and is audited exactly when the intent changes, and a repeated request changes nothing.\<close>

theorem control_request_effect:
  assumes "executionSignal now tenant action eid db = Ok (db', control, sig)" "i < length (db_Executions db)"
  defines "r \<equiv> db_Executions db ! i" and "r' \<equiv> db_Executions db' ! i"
  shows "length (db_Executions db') = length (db_Executions db)
    \<and> (r' \<noteq> r \<longrightarrow> ex_ID r = eid \<and> ex_TenantID r = tc_TenantID tenant
        \<and> ex_ControlRevision r' = ex_ControlRevision r + 1 \<and> ex_Phase r' = ex_Phase r
        \<and> controlTarget action = Some (ex_ControlState r') \<and> db_Audit db' \<noteq> db_Audit db)
    \<and> (\<exists>row\<in>set (db_Executions db). ex_ID row = eid \<and> ex_TenantID row = tc_TenantID tenant
        \<and> \<not> TerminalExecutionPhase (ex_Phase row) \<and> (ex_ControlState row = ''cancel_requested'' \<longrightarrow> action = ''cancel''))"
proof -
  from executionSignal_Ok [OF assms(1)] obtain row where row:
    "find (isExecution (tc_TenantID tenant) eid) (db_Executions db) = Some row" "controlConflict action row = None"
    and none: "controlTarget action = None \<Longrightarrow> db' = db"
    and some: "\<And>t. controlTarget action = Some t \<Longrightarrow> (applyControl now t row = row \<longrightarrow> db' = db)
        \<and> (applyControl now t row \<noteq> row \<longrightarrow>
             db_Executions db' = updateWhere (isExecution (tc_TenantID tenant) eid) (applyControl now t) (db_Executions db)
             \<and> db_Audit db' \<noteq> db_Audit db)"
    by (metis append_self_conv list.distinct(1))
  have "row \<in> set (db_Executions db)" "isExecution (tc_TenantID tenant) eid row"
    using row(1) by (auto simp: find_Some_iff)
  moreover have "\<not> TerminalExecutionPhase (ex_Phase row)" "ex_ControlState row = ''cancel_requested'' \<longrightarrow> action = ''cancel''"
    using row(2) by (auto simp: controlConflict_def split: if_splits)
  moreover have "length (db_Executions db') = length (db_Executions db)
    \<and> (r' \<noteq> r \<longrightarrow> ex_ID r = eid \<and> ex_TenantID r = tc_TenantID tenant
        \<and> ex_ControlRevision r' = ex_ControlRevision r + 1 \<and> ex_Phase r' = ex_Phase r
        \<and> controlTarget action = Some (ex_ControlState r') \<and> db_Audit db' \<noteq> db_Audit db)"
  proof (cases "controlTarget action")
    case None
    then show ?thesis using none by (simp add: r_def r'_def)
  next
    case (Some t)
    show ?thesis
    proof (cases "applyControl now t row = row")
      case True
      then show ?thesis using some [OF Some] by (simp add: r_def r'_def)
    next
      case False
      then have db': "db_Executions db' = updateWhere (isExecution (tc_TenantID tenant) eid) (applyControl now t) (db_Executions db)"
          "db_Audit db' \<noteq> db_Audit db" using some [OF Some] by auto
      have "r' = (if isExecution (tc_TenantID tenant) eid r then applyControl now t r else r)"
        using db'(1) assms(2) by (simp add: r_def r'_def nth_updateWhere)
      then show ?thesis using db' Some by (auto simp: isExecution_def applyControl_def)
    qed
  qed
  ultimately show ?thesis by (auto simp: isExecution_def)
qed

theorem control_request_effect_witness:
  "\<exists>db' control sig. executionSignal 7 sampleTenant ''pause'' ''e1'' (sampleDB [sampleRow ''running'' ''active'' 0 0]) = Ok (db', control, sig)
     \<and> ex_ControlRevision (db_Executions db' ! 0) = 1"
proof -
  let ?db = "sampleDB [sampleRow ''running'' ''active'' 0 0]"
  have "isOk (executionSignal 7 sampleTenant ''pause'' ''e1'' ?db)" by code_simp
  then obtain db' control sig where ok: "executionSignal 7 sampleTenant ''pause'' ''e1'' ?db = Ok (db', control, sig)"
    by (auto simp: isOk_iff)
  have l: "0 < length (db_Executions ?db)" by code_simp
  have "db_Executions db' ! 0 = (sampleRow ''running'' ''active'' 0 0)\<lparr>ex_ControlState := ''paused'', ex_ControlRevision := 1, ex_NextDeliveryAt := 7\<rparr>"
    using ok by (auto simp: executionSignal_def controlTarget_def sampleDB_def sampleRow_def isExecution_def sampleTenant_def controlAccess_def
        controlConflict_def TerminalExecutionPhase_def applyControl_def updateWhere_def Let_def)
  then show ?thesis using ok control_request_effect [OF ok l] by (auto simp: sampleDB_def sampleRow_def)
qed

lemma admitted_row:
  assumes "admitControlledActivity db attempt tenant eid True = None"
  shows "\<exists>row\<in>set (db_Executions db). ex_ID row = eid \<and> ex_TenantID row = tenant
     \<and> ex_ControlState row = ''active'' \<and> \<not> TerminalExecutionPhase (ex_Phase row)"
proof -
  obtain row where "find (isExecution tenant eid) (db_Executions db) = Some row"
      "ex_ControlState row = ''active''" "\<not> TerminalExecutionPhase (ex_Phase row)"
    using assms by (auto simp: admitControlledActivity_def readExecutionControl_def rowControl_def split: if_splits option.splits)
  then show ?thesis by (auto simp: find_Some_iff isExecution_def)
qed

text \<open>Admission fails closed: a controlled activity is admitted only if the row of its execution
  exists in its tenant, is active and is not terminal.\<close>

theorem admission_fails_closed:
  assumes "admitControlledActivity db attempt tenant eid True = None"
  shows "\<exists>row\<in>set (db_Executions db). ex_ID row = eid \<and> ex_TenantID row = tenant
     \<and> ex_ControlState row = ''active'' \<and> \<not> TerminalExecutionPhase (ex_Phase row)"
  using assms by (rule admitted_row)

theorem admission_fails_closed_witness:
  "admitControlledActivity (sampleDB [sampleRow ''running'' ''active'' 3 1]) 1 ''t1'' ''e1'' True = None
   \<and> (\<exists>row\<in>set (db_Executions (sampleDB [sampleRow ''running'' ''active'' 3 1])). ex_ControlState row = ''active'')"
proof -
  have "admitControlledActivity (sampleDB [sampleRow ''running'' ''active'' 3 1]) 1 ''t1'' ''e1'' True = None" by code_simp
  from admission_fails_closed [OF this] this show ?thesis by blast
qed

section \<open>Properties of finalization\<close>

lemma markRow_terminal: "TerminalExecutionPhase phase \<Longrightarrow> ex_Phase (markRow now phase (finalizeRow now p r)) =
    (if TerminalExecutionPhase (ex_Phase (finalizeRow now p r)) then ex_Phase (finalizeRow now p r) else phase)"
  by (simp add: markRow_def)

lemma ex_Phase_closeBackfill [simp]: "db_Executions (closeBackfill now t e p db) = db_Executions db"
  by (simp add: closeBackfill_def Let_def)

lemma db_Executions_raiseAlert [simp]: "db_Executions (raiseAlert now t e db) = db_Executions db"
  by (simp add: raiseAlert_def Let_def split: option.splits)

lemma markExecution_Ok:
  assumes "tenant \<noteq> []" "find (isExecution tenant eid) (db_Executions db) = Some row"
  shows "\<exists>db'. markExecution now tenant eid phase db = Ok (db', ex_Phase (markRow now phase row))
    \<and> db_Executions db' = updateWhere (isExecution tenant eid) (markRow now phase) (db_Executions db)"
  using assms by (auto simp: markExecution_def Let_def)

lemma finalize_Ok:
  assumes "tenant \<noteq> []" "find (isExecution tenant eid) (db_Executions db) = Some row"
  shows "\<exists>db'. finalizeExecutionControl now tenant eid phase db = Ok (db', ex_Phase (finalizeRow now phase row))
    \<and> db_Executions db' = updateWhere (isExecution tenant eid)
          (markRow now (ex_Phase (finalizeRow now phase row)) \<circ> finalizeRow now phase) (db_Executions db)"
proof -
  let ?db1 = "db\<lparr>db_Executions := updateWhere (isExecution tenant eid) (finalizeRow now phase) (db_Executions db)\<rparr>"
  let ?p = "ex_Phase (finalizeRow now phase row)"
  have "find (isExecution tenant eid) (db_Executions ?db1) = Some (finalizeRow now phase row)"
    using assms(2) by (simp add: find_updateWhere)
  from markExecution_Ok [OF assms(1) this, of now ?p] obtain db' where db': "markExecution now tenant eid ?p ?db1 = Ok (db', ex_Phase (markRow now ?p (finalizeRow now phase row)))"
    "db_Executions db' = updateWhere (isExecution tenant eid) (markRow now ?p) (db_Executions ?db1)" by blast
  have "db_Executions db' = updateWhere (isExecution tenant eid) (markRow now ?p \<circ> finalizeRow now phase) (db_Executions db)"
    unfolding db'(2) by (auto simp: updateWhere_def)
  then show ?thesis using assms db'(1) by (simp add: finalizeExecutionControl_def Let_def)
qed

text \<open>Finalization is truthful and stable: it returns the phase that the row then has; a terminal
  phase is kept, otherwise an earlier cancellation wins over the reported phase; and finalizing again with any
  phase returns the same one.\<close>

theorem finalize_phase:
  assumes "tenant \<noteq> []" "find (isExecution tenant eid) (db_Executions db) = Some row" "TerminalExecutionPhase phase" "TerminalExecutionPhase phase2"
  shows "\<exists>db' row' actual. finalizeExecutionControl now tenant eid phase db = Ok (db', actual)
    \<and> find (isExecution tenant eid) (db_Executions db') = Some row' \<and> ex_Phase row' = actual
    \<and> actual = (if TerminalExecutionPhase (ex_Phase row) then ex_Phase row
                else if ex_ControlState row = ''cancel_requested'' then ''cancelled'' else phase)
    \<and> (\<exists>db''. finalizeExecutionControl now2 tenant eid phase2 db' = Ok (db'', actual))"
proof -
  let ?f = "markRow now (ex_Phase (finalizeRow now phase row)) \<circ> finalizeRow now phase"
  obtain db' where db': "finalizeExecutionControl now tenant eid phase db = Ok (db', ex_Phase (finalizeRow now phase row))"
    "db_Executions db' = updateWhere (isExecution tenant eid) ?f (db_Executions db)"
    using finalize_Ok [OF assms(1,2)] by blast
  have row': "find (isExecution tenant eid) (db_Executions db') = Some (?f row)"
    unfolding db'(2) using assms(2) by (simp add: find_updateWhere)
  have actual: "ex_Phase (finalizeRow now phase row) = (if TerminalExecutionPhase (ex_Phase row) then ex_Phase row
                else if ex_ControlState row = ''cancel_requested'' then ''cancelled'' else phase)"
    by (simp add: finalizeRow_def)
  then have final: "TerminalExecutionPhase (ex_Phase (finalizeRow now phase row))"
    using assms(3) by (auto simp: TerminalExecutionPhase_def)
  have phase': "ex_Phase (?f row) = ex_Phase (finalizeRow now phase row)" by (simp add: markRow_def)
  have "ex_Phase (finalizeRow now2 phase2 (?f row)) = ex_Phase (finalizeRow now phase row)"
    using final phase' by (simp add: finalizeRow_def [of now2])
  then obtain db'' where "finalizeExecutionControl now2 tenant eid phase2 db' = Ok (db'', ex_Phase (finalizeRow now phase row))"
    using finalize_Ok [OF assms(1) row', of now2 phase2] by auto
  then show ?thesis using db'(1) row' phase' actual by blast
qed

theorem finalize_phase_witness:
  "\<exists>db'. finalizeExecutionControl 5 ''t1'' ''e1'' ''completed'' (sampleDB [sampleRow ''running'' ''cancel_requested'' 2 2]) = Ok (db', ''cancelled'')"
proof -
  let ?db = "sampleDB [sampleRow ''running'' ''cancel_requested'' 2 2]"
  have "find (isExecution ''t1'' ''e1'') (db_Executions ?db) = Some (sampleRow ''running'' ''cancel_requested'' 2 2)" by code_simp
  from finalize_phase [OF _ this, of "''completed''" "''failed''" 5 9] show ?thesis
    by (auto simp: sampleRow_def TerminalExecutionPhase_def)
qed

text \<open>The statement that closes a backfill job reads the partitions of the snapshot, in which the partition
  that the same statement updates is still open: marking the last running partition of a
  job as completed leaves the job running, for every tenant, execution and job.\<close>

theorem last_partition_leaves_job_open:
  assumes "tenant \<noteq> []" "find (isExecution tenant eid) (db_Executions db) = Some row"
    and "p \<in> set (db_Partitions db)" "bp_TenantID p = tenant" "bp_Status p = ''running''"
    and "markExecution now tenant eid phase db = Ok (db', ph)"
    and "j \<in> set (db_Jobs db)" "bj_ID j = bp_JobID p" "bj_TenantID j = tenant"
  shows "j \<in> set (db_Jobs db')"
proof -
  let ?db1 = "db\<lparr>db_Executions := updateWhere (isExecution tenant eid) (markRow now phase) (db_Executions db)\<rparr>"
  have "db_Jobs (raiseAlert now t e d) = db_Jobs d" for t e d by (simp add: raiseAlert_def Let_def split: option.splits)
  then have jobs: "db_Jobs db' = db_Jobs (closeBackfill now tenant eid ph ?db1)"
    using assms(1,2,6) by (auto simp: markExecution_def Let_def)
  have "list_ex (\<lambda>p. bp_Status p \<in> {''pending'', ''starting'', ''running''}) (filter (ofJob tenant (bj_ID j)) (db_Partitions db))"
    using assms(3,4,5,8) by (auto simp: list_ex_iff ofJob_def)
  then show ?thesis unfolding jobs closeBackfill_def Let_def
    using assms(7) by (force simp: set_updateWhere)
qed

theorem last_partition_leaves_job_open_witness:
  "\<exists>db' ph. markExecution 5 ''t1'' ''e1'' ''completed'' (sampleDB [sampleRow ''running'' ''active'' 0 0]) = Ok (db', ph)
     \<and> map bp_Status (db_Partitions db') = [''completed''] \<and> \<lparr>bj_ID = ''j1'', bj_TenantID = ''t1'', bj_Status = ''running'', bj_CompletedAt = None\<rparr> \<in> set (db_Jobs db')"
proof -
  let ?db = "sampleDB [sampleRow ''running'' ''active'' 0 0]"
  have s: "case markExecution 5 ''t1'' ''e1'' ''completed'' ?db of Inl _ \<Rightarrow> False | Inr (db', ph) \<Rightarrow> map bp_Status (db_Partitions db') = [''completed'']"
    by code_simp
  then obtain db' ph where ok: "markExecution 5 ''t1'' ''e1'' ''completed'' ?db = Ok (db', ph)" "map bp_Status (db_Partitions db') = [''completed'']"
    by (auto split: sum.splits)
  have f: "find (isExecution ''t1'' ''e1'') (db_Executions ?db) = Some (sampleRow ''running'' ''active'' 0 0)" by code_simp
  have "\<lparr>bj_ID = ''j1'', bj_TenantID = ''t1'', bj_Status = ''running'', bj_CompletedAt = None\<rparr> \<in> set (db_Jobs db')"
    by (rule last_partition_leaves_job_open [OF _ f, of "\<lparr>bp_ID = ''bp1'', bp_JobID = ''j1'', bp_TenantID = ''t1'', bp_Status = ''running'', bp_CompletedAt = None\<rparr>", OF _ _ _ _ ok(1)])
      (simp_all add: sampleDB_def)
  with ok show ?thesis by (intro exI conjI) assumption+
qed

section \<open>Properties of delivery\<close>

text \<open>An update of the delivery loop changes a row only as recorded: never its intent, and the
  delivered revision only to the current one.\<close>

definition deliveredStep :: "execRow \<Rightarrow> execRow \<Rightarrow> bool" where
  "deliveredStep r r' \<longleftrightarrow> (\<exists>t d. r' = r\<lparr>ex_NextDeliveryAt := t, ex_DeliveredRevision := d\<rparr>
     \<and> (d = ex_DeliveredRevision r \<or> d = ex_ControlRevision r \<and> ex_DeliveredRevision r < ex_ControlRevision r))"

lemma deliveredStep_refl: "deliveredStep r r"
  unfolding deliveredStep_def by (intro exI [of _ "ex_NextDeliveryAt r"] exI [of _ "ex_DeliveredRevision r"]) simp

lemma deliveredStep_trans: "deliveredStep r r' \<Longrightarrow> deliveredStep r' r'' \<Longrightarrow> deliveredStep r r''"
  unfolding deliveredStep_def by force

lemma settleDelivery_step: "list_all2 deliveredStep rows (settleDelivery now ns p res rows)"
proof -
  have step: "deliveredStep r (if pendingRow ns p r then r\<lparr>ex_NextDeliveryAt := now + 30000\<rparr> else r)"
    "deliveredStep r (if pendingRow ns p r then r\<lparr>ex_DeliveredRevision := pc_Revision p\<rparr> else r)" for r
  proof -
    have "r\<lparr>ex_NextDeliveryAt := now + 30000\<rparr> = r\<lparr>ex_NextDeliveryAt := now + 30000, ex_DeliveredRevision := ex_DeliveredRevision r\<rparr>"
      and "r\<lparr>ex_DeliveredRevision := pc_Revision p\<rparr> = r\<lparr>ex_NextDeliveryAt := ex_NextDeliveryAt r, ex_DeliveredRevision := pc_Revision p\<rparr>"
      by simp_all
    then show "deliveredStep r (if pendingRow ns p r then r\<lparr>ex_NextDeliveryAt := now + 30000\<rparr> else r)"
      "deliveredStep r (if pendingRow ns p r then r\<lparr>ex_DeliveredRevision := pc_Revision p\<rparr> else r)"
      unfolding deliveredStep_def pendingRow_def using deliveredStep_refl [of r, unfolded deliveredStep_def] by (metis)+
  qed
  have "settleDelivery now ns p res rows ! i = (case res of
        SignalFailed _ \<Rightarrow> (if pendingRow ns p (rows ! i) then (rows ! i)\<lparr>ex_NextDeliveryAt := now + 30000\<rparr> else rows ! i)
      | _ \<Rightarrow> (if pendingRow ns p (rows ! i) then (rows ! i)\<lparr>ex_DeliveredRevision := pc_Revision p\<rparr> else rows ! i))"
    if "i < length rows" for i
    using that by (cases res) (simp_all add: settleDelivery_def nth_updateWhere)
  moreover have "length (settleDelivery now ns p res rows) = length rows" by (cases res) (simp_all add: settleDelivery_def)
  ultimately show ?thesis using step by (cases res) (simp_all add: list_all2_conv_all_nth)
qed

lemma deliverAll_step: "list_all2 deliveredStep rows (fst (deliverAll now ns sig ps rows err))"
proof (induction now ns sig ps rows err rule: deliverAll.induct)
  case (1 now ns sig rows err)
  then show ?case by (simp add: deliveredStep_refl list.rel_refl)
next
  case (2 now ns sig p ps rows err)
  let ?res = "sig (pc_WorkflowID p) (pc_RunID p) (signalName (pc_State p)) (pc_State p) (pc_Revision p)"
  have "list_all2 deliveredStep (settleDelivery now ns p ?res rows) (fst (deliverAll now ns sig (p # ps) rows err))"
    using 2 by (simp add: Let_def)
  with settleDelivery_step [of rows now ns p ?res] show ?case
    by (auto intro: list_all2_trans [of deliveredStep deliveredStep deliveredStep] deliveredStep_trans)
qed

lemma deliverAll_delivers:
  assumes "\<And>a b c d e. sig a b c d e = Signalled" "p \<in> set ps" "i < length rows" "pendingRow ns p (rows ! i)"
  shows "ex_DeliveredRevision (fst (deliverAll now ns sig ps rows err) ! i) = ex_ControlRevision (rows ! i)"
  using assms(2-4)
proof (induction ps arbitrary: rows err)
  case (Cons q ps)
  let ?rows = "settleDelivery now ns q Signalled rows"
  have len: "length ?rows = length rows" by (simp add: settleDelivery_def)
  have nxt: "?rows ! i = (if pendingRow ns q (rows ! i) then (rows ! i)\<lparr>ex_DeliveredRevision := pc_Revision q\<rparr> else rows ! i)"
    using Cons.prems(2) by (simp add: settleDelivery_def nth_updateWhere)
  have rec: "fst (deliverAll now ns sig (q # ps) rows err) = fst (deliverAll now ns sig ps ?rows err)"
    by (simp add: assms(1))
  show ?case
  proof (cases "pendingRow ns q (rows ! i)")
    case True
    then have d: "ex_DeliveredRevision (?rows ! i) = ex_ControlRevision (?rows ! i)"
      and c: "ex_ControlRevision (?rows ! i) = ex_ControlRevision (rows ! i)"
      using nxt by (auto simp: pendingRow_def)
    have "deliveredStep (?rows ! i) (fst (deliverAll now ns sig ps ?rows err) ! i)"
      using deliverAll_step [of ?rows now ns sig ps err] Cons.prems(2) len by (simp add: list_all2_conv_all_nth)
    then show ?thesis unfolding rec using d c by (auto simp: deliveredStep_def)
  next
    case False
    then have "q \<noteq> p" using Cons.prems(3) by blast
    then have "p \<in> set ps" using Cons.prems(1) by simp
    then show ?thesis unfolding rec using Cons.IH [of ?rows err] Cons.prems(2,3) False nxt len by simp
  qed
qed simp



end
