(* ===== verification/Control.thy ===== *)
theory Control
  imports Executions
begin

text \<open>
  The durable execution controls as a system (\<^verbatim>\<open>internal/workflows/execution_control.go\<close> with the operations of
  \<open>Executions\<close>): the controller inside the workflow, which re-reads the row and ignores older revisions;
  the gate that every business activity passes; the retry loop around a blocked activity with its attempt
  budget; and the interleaving of API requests, reads, deliveries and finalizations on one row.
\<close>

section \<open>The controller of a workflow\<close>

record executionController =
  ec_control :: ExecutionControl
  ec_Paused :: bool
  ec_Cancelled :: bool
  ec_businessCancelled :: bool
  ec_failure :: "werr option"

definition newController :: executionController where
  "newController = \<lparr>ec_control = \<lparr>ctl_State = ''active'', ctl_Revision = 0, ctl_Phase = []\<rparr>, ec_Paused = False, ec_Cancelled = False,
     ec_businessCancelled = False, ec_failure = None\<rparr>"

text \<open>\<^verbatim>\<open>refresh\<close> after a successful read of \<open>value\<close>.\<close>

definition refresh :: "ExecutionControl \<Rightarrow> executionController \<Rightarrow> executionController" where
  "refresh value c =
     (if ctl_Revision value < ctl_Revision (ec_control c) then c
      else let stop = ctl_State value = ''cancel_requested'' \<or> TerminalExecutionPhase (ctl_Phase value)
           in c\<lparr>ec_control := value, ec_Paused := (ctl_State value = ''paused''),
                ec_Cancelled := (ec_Cancelled c \<or> stop), ec_businessCancelled := (ec_businessCancelled c \<or> stop)\<rparr>)"

text \<open>\<^verbatim>\<open>waitActive\<close>: the read, then the state on which \<^verbatim>\<open>Await\<close> wakes up; \<open>ctxErr\<close> is \<^verbatim>\<open>ctx.Err()\<close>.\<close>

definition awake :: "executionController \<Rightarrow> bool" where
  "awake c \<longleftrightarrow> \<not> ec_Paused c \<or> ec_Cancelled c \<or> ec_failure c \<noteq> None"

definition waitResult :: "werr option \<Rightarrow> executionController \<Rightarrow> werr option" where
  "waitResult ctxErr c =
     (if ec_failure c \<noteq> None then ec_failure c
      else if ec_Cancelled c then Some (WCanceled ''execution cancellation requested'')
      else ctxErr)"

text \<open>One round of \<^verbatim>\<open>watch\<close> after a hint or the timer: \<open>None\<close> for a failed read.\<close>

definition watchStep :: "bool \<Rightarrow> (werr, ExecutionControl) result \<Rightarrow> executionController \<Rightarrow> executionController \<times> bool" where
  "watchStep nonfatal rd c =
     (case rd of
        Inl e \<Rightarrow> if nonfatal then (c, True) else (c\<lparr>ec_failure := Some e, ec_businessCancelled := True\<rparr>, False)
      | Inr v \<Rightarrow> let c' = refresh v c in (c', \<not> ec_Cancelled c'))"

section \<open>The retry loop of a controlled activity\<close>

text \<open>
  One round of the loop in \<^verbatim>\<open>executeNodeActivity\<close>: the gate, then the activity with the remaining attempts. The
  activity returns a value or an error, or it was blocked at admission on an attempt, with details
  that may not decode.
\<close>

datatype attempt_out = Returned reply | Blocked string int | BlockedBadDetails werr

datatype loop_result =
    LoopReply reply
  | LoopError werr
  | LoopCancelled
  | LoopInvalid
  | LoopWaiting int

definition budgetError :: werr where
  "budgetError = WErr ''controlled activity requires a finite retry budget''"

fun attemptLoop :: "int \<Rightarrow> (werr option \<times> attempt_out) list \<Rightarrow> loop_result \<times> int list" where
  "attemptLoop remaining [] = (LoopWaiting remaining, [])"
| "attemptLoop remaining ((Some e, _) # rounds) = (LoopError e, [])"
| "attemptLoop remaining ((None, out) # rounds) =
     (case out of
        Returned r \<Rightarrow> (LoopReply r, [remaining])
      | BlockedBadDetails e \<Rightarrow> (LoopError e, [remaining])
      | Blocked state attempt \<Rightarrow>
          if state = ''cancel_requested'' then (LoopCancelled, [remaining])
          else if state \<noteq> ''paused'' \<or> attempt < 1 \<or> attempt > remaining then (LoopInvalid, [remaining])
          else let (res, budgets) = attemptLoop (wrap32 (remaining - (attempt - 1))) rounds in (res, remaining # budgets))"

definition executeNodeActivity :: "int \<Rightarrow> (werr option \<times> attempt_out) list \<Rightarrow> loop_result \<times> int list" where
  "executeNodeActivity maximumAttempts rounds =
     (if maximumAttempts < 1 then (LoopError budgetError, []) else attemptLoop maximumAttempts rounds)"

text \<open>
  The number of attempts that may have run business code: a blocked round ran the attempts before the blocked one, and any other call
  of the activity at most as many as it was allowed.
\<close>

fun businessAttempts :: "int \<Rightarrow> (werr option \<times> attempt_out) list \<Rightarrow> int" where
  "businessAttempts remaining [] = 0"
| "businessAttempts remaining ((Some e, _) # rounds) = 0"
| "businessAttempts remaining ((None, out) # rounds) =
     (case out of
        Blocked state attempt \<Rightarrow>
          if state = ''paused'' \<and> 1 \<le> attempt \<and> attempt \<le> remaining
          then (attempt - 1) + businessAttempts (remaining - (attempt - 1)) rounds else remaining
      | _ \<Rightarrow> remaining)"

lemma attemptLoop_budgets:
  assumes "1 \<le> remaining" "remaining \<le> maxInt32"
  shows "(\<forall>b\<in>set (snd (attemptLoop remaining rounds)). 1 \<le> b \<and> b \<le> remaining)
    \<and> 0 \<le> businessAttempts remaining rounds \<and> businessAttempts remaining rounds \<le> remaining
    \<and> (\<forall>n. fst (attemptLoop remaining rounds) = LoopWaiting n \<longrightarrow> 1 \<le> n \<and> n + businessAttempts remaining rounds = remaining)"
  using assms
proof (induction remaining rounds rule: attemptLoop.induct)
  case (3 remaining out rounds)
  show ?case
  proof (cases out)
    case (Blocked state attempt)
    show ?thesis
    proof (cases "state = ''paused'' \<and> 1 \<le> attempt \<and> attempt \<le> remaining")
      case True
      let ?next = "remaining - (attempt - 1)"
      have w: "wrap32 ?next = ?next" using True "3.prems" by (intro wrap32_id) simp_all
      have "1 \<le> ?next" "?next \<le> maxInt32" using True "3.prems" by simp_all
      with "3.IH" [OF Blocked] True w
      have IH: "(\<forall>b\<in>set (snd (attemptLoop ?next rounds)). 1 \<le> b \<and> b \<le> ?next)
          \<and> 0 \<le> businessAttempts ?next rounds \<and> businessAttempts ?next rounds \<le> ?next
          \<and> (\<forall>n. fst (attemptLoop ?next rounds) = LoopWaiting n \<longrightarrow> 1 \<le> n \<and> n + businessAttempts ?next rounds = ?next)"
        by simp
      have eq: "attemptLoop remaining ((None, out) # rounds)
          = (fst (attemptLoop ?next rounds), remaining # snd (attemptLoop ?next rounds))"
        "businessAttempts remaining ((None, out) # rounds) = (attempt - 1) + businessAttempts ?next rounds"
        using True w Blocked by (simp_all add: split_beta)
      have "\<forall>b\<in>set (remaining # snd (attemptLoop ?next rounds)). 1 \<le> b \<and> b \<le> remaining"
        using IH True "3.prems" by fastforce
      moreover have "1 \<le> n \<and> n + (attempt - 1 + businessAttempts ?next rounds) = remaining"
        if "fst (attemptLoop ?next rounds) = LoopWaiting n" for n
        using IH [THEN conjunct2, THEN conjunct2, THEN conjunct2] that by fastforce
      ultimately show ?thesis unfolding eq fst_conv snd_conv using IH True by auto
    next
      case False
      then show ?thesis using Blocked "3.prems" by auto
    qed
  qed (use "3.prems" in auto)
qed auto

section \<open>The interleaved system\<close>

text \<open>
  One execution row with everything that acts on it. \<open>reads\<close> are values read by activities whose
  results are still on their way to the workflow, \<open>picked\<close> the snapshots of the delivery loop
  whose call is under way, and \<open>sent\<close> the intents for which a signal call has ended without an
  error to retry.
\<close>

record ctlSystem =
  sys_row :: execRow
  sys_view :: executionController
  sys_reads :: "ExecutionControl list"
  sys_picked :: "pendingControl list"
  sys_sent :: "(string \<times> int) list"

definition initSystem :: "ctlSystem \<Rightarrow> bool" where
  "initSystem s \<longleftrightarrow> ex_ControlRevision (sys_row s) = 0 \<and> ex_DeliveredRevision (sys_row s) = 0 \<and> ex_ControlState (sys_row s) = ''active''
     \<and> \<not> TerminalExecutionPhase (ex_Phase (sys_row s)) \<and> sys_view s = newController \<and> sys_reads s = [] \<and> sys_picked s = [] \<and> sys_sent s = []"

inductive ctlStep :: "ctlSystem \<Rightarrow> ctlSystem \<Rightarrow> bool" where
  api_request:
    "controlTarget action = Some t \<Longrightarrow> controlConflict action (sys_row s) = None \<Longrightarrow>
     ctlStep s (s\<lparr>sys_row := applyControl now t (sys_row s)\<rparr>)"
| activity_read:
    "ctlStep s (s\<lparr>sys_reads := rowControl (sys_row s) # sys_reads s\<rparr>)"
| workflow_refresh:
    "v \<in> set (sys_reads s) \<Longrightarrow> ctlStep s (s\<lparr>sys_view := refresh v (sys_view s)\<rparr>)"
| blocked_cancel:
    "v \<in> set (sys_reads s) \<Longrightarrow> ctl_State v = ''cancel_requested'' \<or> TerminalExecutionPhase (ctl_Phase v) \<Longrightarrow>
     ctlStep s (s\<lparr>sys_view := (sys_view s)\<lparr>ec_Cancelled := True, ec_businessCancelled := True\<rparr>\<rparr>)"
| watch_failure:
    "ctlStep s (s\<lparr>sys_view := fst (watchStep nonfatal (Inl e) (sys_view s))\<rparr>)"
| delivery_pick:
    "deliverable now ns (sys_row s) \<Longrightarrow> ctlStep s (s\<lparr>sys_picked := pendingOf (sys_row s) # sys_picked s\<rparr>)"
| delivery_settle:
    "p \<in> set (sys_picked s) \<Longrightarrow> res = Signalled \<or> res = SignalNotFound \<Longrightarrow>
     settleDelivery now ns p res [sys_row s] = [r] \<Longrightarrow>
     ctlStep s (s\<lparr>sys_row := r, sys_sent := (pc_State p, pc_Revision p) # sys_sent s\<rparr>)"
| delivery_retry:
    "p \<in> set (sys_picked s) \<Longrightarrow> settleDelivery now ns p (SignalFailed e) [sys_row s] = [r] \<Longrightarrow> ctlStep s (s\<lparr>sys_row := r\<rparr>)"
| finalize:
    "TerminalExecutionPhase phase \<Longrightarrow> ctlStep s (s\<lparr>sys_row := finalizeRow now phase (sys_row s)\<rparr>)"
| mark:
    "ctlStep s (s\<lparr>sys_row := markRow now phase (sys_row s)\<rparr>)"

text \<open>A control value is an earlier version of the row: an older revision, or the same with the same
  intent.\<close>

definition earlier :: "ExecutionControl \<Rightarrow> execRow \<Rightarrow> bool" where
  "earlier v r \<longleftrightarrow> ctl_Revision v \<le> ex_ControlRevision r \<and> (ctl_Revision v = ex_ControlRevision r \<longrightarrow> ctl_State v = ex_ControlState r)"

definition stopped :: "execRow \<Rightarrow> bool" where
  "stopped r \<longleftrightarrow> ex_ControlState r = ''cancel_requested'' \<or> TerminalExecutionPhase (ex_Phase r)"

definition ctlInv :: "ctlSystem \<Rightarrow> bool" where
  "ctlInv s \<longleftrightarrow>
     (let r = sys_row s in
      0 \<le> ex_DeliveredRevision r \<and> ex_DeliveredRevision r \<le> ex_ControlRevision r
      \<and> ex_ControlState r \<in> {''active'', ''paused'', ''cancel_requested''}
      \<and> (\<forall>v\<in>set (sys_reads s). earlier v r \<and> ((ctl_State v = ''cancel_requested'' \<or> TerminalExecutionPhase (ctl_Phase v)) \<longrightarrow> stopped r))
      \<and> earlier (ec_control (sys_view s)) r
      \<and> (ec_Cancelled (sys_view s) \<longrightarrow> stopped r)
      \<and> (\<forall>p\<in>set (sys_picked s). pc_Revision p \<le> ex_ControlRevision r \<and> (pc_Revision p = ex_ControlRevision r \<longrightarrow> pc_State p = ex_ControlState r))
      \<and> (ex_DeliveredRevision r = ex_ControlRevision r \<longrightarrow> ex_ControlRevision r = 0 \<or> (ex_ControlState r, ex_ControlRevision r) \<in> set (sys_sent s)))"

lemma stopped_applyControl:
  "controlTarget action = Some t \<Longrightarrow> controlConflict action r = None \<Longrightarrow> stopped r \<Longrightarrow> stopped (applyControl now t r)"
  by (auto simp: stopped_def controlConflict_def applyControl_def controlTarget_def split: if_splits)

lemma earlier_applyControl: "earlier v r \<Longrightarrow> earlier v (applyControl now t r)"
  by (auto simp: earlier_def applyControl_def)

lemma row_keeps:
  "ex_ControlState (finalizeRow now p r) = ex_ControlState r" "ex_ControlRevision (finalizeRow now p r) = ex_ControlRevision r"
  "ex_DeliveredRevision (finalizeRow now p r) = ex_DeliveredRevision r"
  "ex_ControlState (markRow now p r) = ex_ControlState r" "ex_ControlRevision (markRow now p r) = ex_ControlRevision r"
  "ex_DeliveredRevision (markRow now p r) = ex_DeliveredRevision r"
  by (simp_all add: finalizeRow_def markRow_def)

lemma stopped_keeps: "stopped r \<Longrightarrow> stopped (finalizeRow now p r)" "stopped r \<Longrightarrow> stopped (markRow now p r)"
  by (auto simp: stopped_def finalizeRow_def markRow_def)

lemma settle_cases:
  assumes "settleDelivery now ns p res [r0] = [r]"
  shows "(ex_ControlState r = ex_ControlState r0 \<and> ex_ControlRevision r = ex_ControlRevision r0 \<and> ex_Phase r = ex_Phase r0)
    \<and> (ex_DeliveredRevision r = ex_DeliveredRevision r0
       \<or> (\<forall>e. res \<noteq> SignalFailed e) \<and> ex_DeliveredRevision r = ex_ControlRevision r0 \<and> pc_Revision p = ex_ControlRevision r0)"
  using assms by (cases res) (auto simp: settleDelivery_def updateWhere_def pendingRow_def split: if_splits)

lemma ctlInv_step:
  assumes inv: "ctlInv s" and step: "ctlStep s s'"
  shows "ctlInv s'"
  using step
proof cases
  case (api_request action t now)
  let ?r = "sys_row s" and ?r' = "applyControl now t (sys_row s)"
  have t: "t \<in> {''active'', ''paused'', ''cancel_requested''}" using api_request(2) by (auto simp: controlTarget_def split: if_splits)
  have "?r' = ?r \<or> ex_ControlRevision ?r' = ex_ControlRevision ?r + 1 \<and> ex_ControlState ?r' = t \<and> ex_DeliveredRevision ?r' = ex_DeliveredRevision ?r"
    by (simp add: applyControl_def)
  then show ?thesis
  proof
    assume "?r' = ?r"
    then show ?thesis using api_request inv by (simp add: ctlInv_def)
  next
    assume n: "ex_ControlRevision ?r' = ex_ControlRevision ?r + 1 \<and> ex_ControlState ?r' = t \<and> ex_DeliveredRevision ?r' = ex_DeliveredRevision ?r"
    have st: "stopped ?r \<Longrightarrow> stopped ?r'" using api_request(2,3) by (rule stopped_applyControl)
    note i = inv [unfolded ctlInv_def Let_def]
    have "\<forall>v\<in>set (sys_reads s). earlier v ?r' \<and> ((ctl_State v = ''cancel_requested'' \<or> TerminalExecutionPhase (ctl_Phase v)) \<longrightarrow> stopped ?r')"
      using i st earlier_applyControl by blast
    moreover have "earlier (ec_control (sys_view s)) ?r'" using i earlier_applyControl by blast
    moreover have "ec_Cancelled (sys_view s) \<longrightarrow> stopped ?r'" using i st by blast
    moreover have "\<forall>p\<in>set (sys_picked s). pc_Revision p \<le> ex_ControlRevision ?r'
        \<and> (pc_Revision p = ex_ControlRevision ?r' \<longrightarrow> pc_State p = ex_ControlState ?r')"
    proof
      fix p assume "p \<in> set (sys_picked s)"
      then have "pc_Revision p \<le> ex_ControlRevision ?r" using i by blast
      then show "pc_Revision p \<le> ex_ControlRevision ?r' \<and> (pc_Revision p = ex_ControlRevision ?r' \<longrightarrow> pc_State p = ex_ControlState ?r')"
        using n by simp
    qed
    moreover have "0 \<le> ex_DeliveredRevision ?r' \<and> ex_DeliveredRevision ?r' < ex_ControlRevision ?r'" using i n by simp
    moreover have "ex_ControlState ?r' \<in> {''active'', ''paused'', ''cancel_requested''}" using n t by simp
    ultimately show ?thesis unfolding api_request(1) ctlInv_def Let_def by simp
  qed
next
  case activity_read
  then show ?thesis using inv by (auto simp: ctlInv_def Let_def earlier_def rowControl_def stopped_def)
next
  case (workflow_refresh v)
  then show ?thesis using inv by (auto simp: ctlInv_def Let_def refresh_def)
next
  case (blocked_cancel v)
  then show ?thesis using inv by (auto simp: ctlInv_def Let_def)
next
  case (watch_failure nonfatal e)
  then show ?thesis using inv by (auto simp: ctlInv_def Let_def watchStep_def)
next
  case (delivery_pick now ns)
  then show ?thesis using inv by (auto simp: ctlInv_def Let_def pendingOf_def)
next
  case (delivery_settle p res now ns r)
  note c = settle_cases [OF delivery_settle(4)]
  have e: "earlier v r = earlier v (sys_row s)" "stopped r = stopped (sys_row s)" for v
    using c by (auto simp: earlier_def stopped_def)
  note i = inv [unfolded ctlInv_def Let_def]
  have p: "pc_Revision p = ex_ControlRevision (sys_row s) \<longrightarrow> pc_State p = ex_ControlState (sys_row s)"
    using i delivery_settle(2) by blast
  have "ex_DeliveredRevision r = ex_ControlRevision r \<longrightarrow> ex_ControlRevision r = 0
      \<or> (ex_ControlState r, ex_ControlRevision r) \<in> set ((pc_State p, pc_Revision p) # sys_sent s)"
  proof (cases "ex_DeliveredRevision r = ex_DeliveredRevision (sys_row s)")
    case True
    have "ex_DeliveredRevision (sys_row s) = ex_ControlRevision (sys_row s) \<longrightarrow> ex_ControlRevision (sys_row s) = 0
      \<or> (ex_ControlState (sys_row s), ex_ControlRevision (sys_row s)) \<in> set (sys_sent s)" using i by blast
    then show ?thesis using True c by auto
  next
    case False
    then show ?thesis using c p by simp
  qed
  moreover have "0 \<le> ex_DeliveredRevision r \<and> ex_DeliveredRevision r \<le> ex_ControlRevision r" using i c by (elim conjE disjE) simp_all
  ultimately show ?thesis using i c unfolding delivery_settle(1) ctlInv_def Let_def by (simp add: e)
next
  case (delivery_retry p now ns er r)
  note c = settle_cases [OF delivery_retry(3)]
  have e: "earlier v r = earlier v (sys_row s)" "stopped r = stopped (sys_row s)" for v
    using c by (auto simp: earlier_def stopped_def)
  show ?thesis using inv c unfolding delivery_retry(1) ctlInv_def Let_def by (auto simp: e)
next
  case (finalize phase now)
  have e: "earlier v (finalizeRow now phase (sys_row s)) = earlier v (sys_row s)" for v by (simp add: earlier_def row_keeps)
  show ?thesis using inv unfolding finalize(1) ctlInv_def Let_def by (auto simp: e row_keeps intro: stopped_keeps)
next
  case (mark now phase)
  have e: "earlier v (markRow now phase (sys_row s)) = earlier v (sys_row s)" for v by (simp add: earlier_def row_keeps)
  show ?thesis using inv unfolding mark(1) ctlInv_def Let_def by (auto simp: e row_keeps intro: stopped_keeps)
qed

lemma ctlInv_init: "initSystem s \<Longrightarrow> ctlInv s"
  by (auto simp: initSystem_def ctlInv_def Let_def newController_def earlier_def)

interpretation ctl: inv_system initSystem ctlStep ctlInv
  by unfold_locales (auto intro: ctlInv_init ctlInv_step)

text \<open>What no step takes back.\<close>

definition forward :: "ctlSystem \<Rightarrow> ctlSystem \<Rightarrow> bool" where
  "forward s s' \<longleftrightarrow>
     ex_ControlRevision (sys_row s) \<le> ex_ControlRevision (sys_row s')
     \<and> (ex_ControlState (sys_row s) = ''cancel_requested'' \<longrightarrow> ex_ControlState (sys_row s') = ''cancel_requested'')
     \<and> (TerminalExecutionPhase (ex_Phase (sys_row s)) \<longrightarrow> ex_Phase (sys_row s') = ex_Phase (sys_row s))
     \<and> ctl_Revision (ec_control (sys_view s)) \<le> ctl_Revision (ec_control (sys_view s'))
     \<and> (ec_Cancelled (sys_view s) \<longrightarrow> ec_Cancelled (sys_view s'))
     \<and> (ec_businessCancelled (sys_view s) \<longrightarrow> ec_businessCancelled (sys_view s'))"

lemma forward_step:
  assumes "ctlStep s s'"
  shows "forward s s'"
  using assms
proof cases
  case (api_request action t now)
  then show ?thesis
    by (auto simp: forward_def applyControl_def controlConflict_def controlTarget_def split: if_splits)
next
  case (delivery_settle p res now ns r)
  then show ?thesis using settle_cases [OF delivery_settle(4)] by (simp add: forward_def)
next
  case (delivery_retry p now ns e r)
  then show ?thesis using settle_cases [OF delivery_retry(3)] by (simp add: forward_def)
next
  case (workflow_refresh v)
  then show ?thesis by (auto simp: forward_def refresh_def Let_def)
next
  case (watch_failure nonfatal e)
  then show ?thesis by (simp add: forward_def watchStep_def)
next
  case (finalize phase now)
  then show ?thesis by (simp add: forward_def finalizeRow_def)
next
  case (mark now phase)
  then show ?thesis by (simp add: forward_def markRow_def)
qed (simp_all add: forward_def)

section \<open>Properties of execution control\<close>

definition sampleSystem :: ctlSystem where
  "sampleSystem = \<lparr>sys_row = sampleRow ''running'' ''active'' 0 0, sys_view = newController, sys_reads = [], sys_picked = [], sys_sent = []\<rparr>"

lemma sampleSystem_init: "initSystem sampleSystem"
  by (simp add: initSystem_def sampleSystem_def sampleRow_def TerminalExecutionPhase_def)

text \<open>C9: In every reachable state of the system, under any interleaving of API requests, delayed
  reads, deliveries and finalizations: the delivered revision never exceeds the revision; a revision counts
  as delivered only after a signal with exactly its intent; what the workflow holds is the intent of an
  earlier or of the current revision; and the workflow considers itself cancelled only if
  the row has a requested cancellation or a terminal phase.\<close>

theorem control_invariant:
  assumes "initSystem s" "ctlStep\<^sup>*\<^sup>* s s'"
  shows "ex_DeliveredRevision (sys_row s') \<le> ex_ControlRevision (sys_row s')
    \<and> (ex_DeliveredRevision (sys_row s') = ex_ControlRevision (sys_row s') \<longrightarrow> ex_ControlRevision (sys_row s') = 0
         \<or> (ex_ControlState (sys_row s'), ex_ControlRevision (sys_row s')) \<in> set (sys_sent s'))
    \<and> ctl_Revision (ec_control (sys_view s')) \<le> ex_ControlRevision (sys_row s')
    \<and> (ctl_Revision (ec_control (sys_view s')) = ex_ControlRevision (sys_row s') \<longrightarrow>
         ctl_State (ec_control (sys_view s')) = ex_ControlState (sys_row s'))
    \<and> (ec_Cancelled (sys_view s') \<longrightarrow>
         ex_ControlState (sys_row s') = ''cancel_requested'' \<or> TerminalExecutionPhase (ex_Phase (sys_row s')))"
  using ctl.reachable_inv [OF assms] by (simp add: ctlInv_def Let_def earlier_def stopped_def)

theorem control_invariant_witness:
  "\<exists>s'. ctlStep\<^sup>*\<^sup>* sampleSystem s' \<and> ex_ControlState (sys_row s') = ''paused''
     \<and> ex_DeliveredRevision (sys_row s') \<le> ex_ControlRevision (sys_row s')"
proof -
  let ?s = "sampleSystem\<lparr>sys_row := applyControl 5 ''paused'' (sys_row sampleSystem)\<rparr>"
  have "ctlStep sampleSystem ?s"
    by (rule ctlStep.api_request [of "''pause''"])
      (simp_all add: controlTarget_def controlConflict_def sampleSystem_def sampleRow_def TerminalExecutionPhase_def)
  then have r: "ctlStep\<^sup>*\<^sup>* sampleSystem ?s" by simp
  have "ex_ControlState (sys_row ?s) = ''paused''" by (simp add: applyControl_def sampleSystem_def sampleRow_def)
  with control_invariant [OF sampleSystem_init r] r show ?thesis by blast
qed

text \<open>C10: Nothing is taken back along any run of the system: the revision grows, a requested
  cancellation stays requested, a terminal phase never changes, the revision that the workflow
  holds grows although reads arrive late and out of order, and its cancellation is final.\<close>

theorem control_monotone:
  assumes "initSystem s0" "ctlStep\<^sup>*\<^sup>* s0 s" "ctlStep\<^sup>*\<^sup>* s s'"
  shows "ex_ControlRevision (sys_row s) \<le> ex_ControlRevision (sys_row s')
     \<and> (ex_ControlState (sys_row s) = ''cancel_requested'' \<longrightarrow> ex_ControlState (sys_row s') = ''cancel_requested'')
     \<and> (TerminalExecutionPhase (ex_Phase (sys_row s)) \<longrightarrow> ex_Phase (sys_row s') = ex_Phase (sys_row s))
     \<and> ctl_Revision (ec_control (sys_view s)) \<le> ctl_Revision (ec_control (sys_view s'))
     \<and> (ec_Cancelled (sys_view s) \<longrightarrow> ec_Cancelled (sys_view s'))"
proof -
  have "forward s s'"
    by (rule ctl.steps_rel [OF assms(3) ctl.reachable_inv [OF assms(1,2)]])
      (auto simp: forward_step, auto simp: forward_def)
  then show ?thesis by (simp add: forward_def)
qed

theorem control_monotone_witness:
  "ex_ControlRevision (sys_row sampleSystem) \<le> ex_ControlRevision (sys_row (sampleSystem\<lparr>sys_row := markRow 4 ''completed'' (sys_row sampleSystem)\<rparr>))"
proof -
  have "ctlStep sampleSystem (sampleSystem\<lparr>sys_row := markRow 4 ''completed'' (sys_row sampleSystem)\<rparr>)" by (rule ctlStep.mark)
  then show ?thesis using control_monotone [OF sampleSystem_init rtranclp.rtrancl_refl r_into_rtranclp] by blast
qed

text \<open>The attempt budget of a controlled activity: whatever the sequence of pauses and blocked
  attempts, every call is allowed at least one and at most the configured number of attempts, and
  all calls together run business code at most that many times; while it waits, the attempts left
  and the attempts used add up to the budget. A budget below one is refused without a call.\<close>

theorem attempt_budget:
  assumes "maximumAttempts \<le> maxInt32"
  shows "(\<forall>b\<in>set (snd (executeNodeActivity maximumAttempts rounds)). 1 \<le> b \<and> b \<le> maximumAttempts)
    \<and> (1 \<le> maximumAttempts \<longrightarrow> businessAttempts maximumAttempts rounds \<le> maximumAttempts
         \<and> (\<forall>n. fst (executeNodeActivity maximumAttempts rounds) = LoopWaiting n \<longrightarrow>
              1 \<le> n \<and> n + businessAttempts maximumAttempts rounds = maximumAttempts))
    \<and> (maximumAttempts < 1 \<longrightarrow> executeNodeActivity maximumAttempts rounds = (LoopError budgetError, []))"
  using attemptLoop_budgets [of maximumAttempts rounds] assms
  by (cases "1 \<le> maximumAttempts") (simp_all add: executeNodeActivity_def)

theorem attempt_budget_witness:
  "snd (executeNodeActivity 5 [(None, Blocked ''paused'' 3), (None, Blocked ''paused'' 1), (None, Returned RUnit)]) = [5, 3, 3]
   \<and> businessAttempts 5 [(None, Blocked ''paused'' 3), (None, Blocked ''paused'' 1), (None, Returned RUnit)] \<le> 5"
proof -
  have "snd (executeNodeActivity 5 [(None, Blocked ''paused'' 3), (None, Blocked ''paused'' 1), (None, Returned RUnit)]) = [5, 3, 3]" by code_simp
  then show ?thesis using attempt_budget [of 5] by simp
qed

end
