(* ===== verification/Records.thy ===== *)
theory Records
  imports Model
begin

text \<open>
  The helpers the connectors share (\<^verbatim>\<open>internal/connectors/errors.go\<close>, \<^verbatim>\<open>runtime.go\<close> and the helper
  functions of \<^verbatim>\<open>transforms.go\<close> and \<^verbatim>\<open>http.go\<close>): permanent errors, the conversion of dynamic values to
  numbers and text, checks of the shape of a record, and the parameters and results of sources and
  handlers.

  A \<^verbatim>\<open>map[string]interface{}\<close> is the list of its entries in the order of \<^verbatim>\<open>range\<close>. Errors of the
  packages the code calls are plain errors with their text.
\<close>

section \<open>Errors\<close>

datatype connError = PermanentError (pe_Type: string) (pe_Err: string) | PlainError string

abbreviation SchemaValidationError :: string where "SchemaValidationError \<equiv> ''SchemaValidationError''"
abbreviation UnknownActivityError :: string where "UnknownActivityError \<equiv> ''UnknownActivityError''"
abbreviation InvalidConfigError :: string where "InvalidConfigError \<equiv> ''InvalidConfigError''"

definition schemaError :: "string \<Rightarrow> connError" where
  "schemaError msg = PermanentError SchemaValidationError msg"

definition configError :: "string \<Rightarrow> connError" where
  "configError msg = PermanentError InvalidConfigError msg"

definition AsPermanent :: "connError \<Rightarrow> (string \<times> string) option" where
  "AsPermanent err = (case err of PermanentError t e \<Rightarrow> Some (t, e) | PlainError _ \<Rightarrow> None)"

section \<open>Parameters and results\<close>

record SourceParams =
  sp_Config :: obj
  sp_Cursor :: obj
  sp_Ingestion :: "IngestionConfig option"
  sp_TenantID :: string

record SourceResult =
  sr_Records :: "gv list"
  sr_NextCursor :: obj
  sr_HasMore :: bool
  sr_LagRecords :: int

record HandlerContext =
  hc_TenantID :: string
  hc_ExecutionID :: string
  hc_NodeID :: string
  hc_PipelineVersion :: int

text \<open>What a handler returns: its output, its metadata (\<open>None\<close> for \<^verbatim>\<open>nil\<close>), or an error.\<close>

type_synonym handled = "(connError, gv \<times> obj option) result"

section \<open>Strings\<close>

text \<open>\<^verbatim>\<open>strings.ReplaceAll\<close> for a non-empty \<open>old\<close>.\<close>

function replaceAll :: "string \<Rightarrow> string \<Rightarrow> string \<Rightarrow> string" where
  "replaceAll old new [] = []"
| "replaceAll old new (c # s) =
     (if old \<noteq> [] \<and> hasPrefix old (c # s) then new @ replaceAll old new (drop (length old) (c # s))
      else c # replaceAll old new s)"
  by pat_completeness auto
termination
  by (relation "measure (\<lambda>(old, new, s). length s)") (auto simp: neq_Nil_conv less_Suc_eq_le)

text \<open>\<^verbatim>\<open>strings.Index\<close> for one byte; \<open>None\<close> is -1.\<close>

fun indexByte :: "char \<Rightarrow> string \<Rightarrow> nat option" where
  "indexByte c [] = None"
| "indexByte c (x # xs) = (if x = c then Some 0 else map_option Suc (indexByte c xs))"

text \<open>\<^verbatim>\<open>strings.Trim\<close> with a cutset.\<close>

definition trimChars :: "string \<Rightarrow> string \<Rightarrow> string" where
  "trimChars cutset s = rev (dropWhile (\<lambda>c. c \<in> set cutset) (rev (dropWhile (\<lambda>c. c \<in> set cutset) s)))"

section \<open>Numbers\<close>

text \<open>
  \<^verbatim>\<open>strconv.ParseFloat\<close> on decimal text: an optional sign, digits with an optional point, an optional
  exponent; anything else is an error, and then the code uses 0. Texts of more than 15 significant
  digits (which are rounded), hexadecimal floats and the names of infinities are not represented.
\<close>

definition digitVal :: "char \<Rightarrow> int" where
  "digitVal c = int (of_char c) - 48"

definition digitsVal :: "string \<Rightarrow> int" where
  "digitsVal s = foldl (\<lambda>a c. a * 10 + digitVal c) 0 s"

fun splitSign :: "string \<Rightarrow> int \<times> string" where
  "splitSign [] = (1, [])"
| "splitSign (c # s) = (if c = CHR ''-'' then (-1, s) else if c = CHR ''+'' then (1, s) else (1, c # s))"

definition parseExponent :: "string \<Rightarrow> int option" where
  "parseExponent s =
     (case s of [] \<Rightarrow> Some 0
      | c # r \<Rightarrow>
          (if lowerChar c = CHR ''e'' then
             (case splitSign r of (sg, ds) \<Rightarrow> if ds \<noteq> [] \<and> list_all isDigit ds then Some (sg * digitsVal ds) else None)
           else None))"

definition parseFloat :: "string \<Rightarrow> float64 option" where
  "parseFloat s =
     (case splitSign s of (sg, r) \<Rightarrow>
      let whole = takeWhile isDigit r; r1 = dropWhile isDigit r;
          point = (case r1 of c # _ \<Rightarrow> c = CHR ''.'' | [] \<Rightarrow> False);
          frac = (if point then takeWhile isDigit (drop 1 r1) else []);
          r2 = (if point then dropWhile isDigit (drop 1 r1) else r1)
      in if whole @ frac = [] then None
         else map_option (\<lambda>e. normDec (length (whole @ frac)) (sg * digitsVal (whole @ frac)) (e - int (length frac)))
                (parseExponent r2))"

definition number :: "gv \<Rightarrow> float64" where
  "number value =
     (case value of VFloat f \<Rightarrow> f
      | VInt i \<Rightarrow> floatOfInt i
      | VStr s \<Rightarrow> (case parseFloat s of Some n \<Rightarrow> n | None \<Rightarrow> Dec 0 0)
      | _ \<Rightarrow> Dec 0 0)"

fun firstNumber :: "gv list \<Rightarrow> float64" where
  "firstNumber [] = Dec 0 0"
| "firstNumber (v # vs) = (let result = number v in if \<not> isZeroFloat result then result else firstNumber vs)"

fun firstString :: "gv list \<Rightarrow> string" where
  "firstString [] = []"
| "firstString (v # vs) = (let text = stringValue v in if text \<noteq> [] then text else firstString vs)"

definition truthy :: "gv \<Rightarrow> bool" where
  "truthy value = (case asBool value of Some b \<Rightarrow> b | None \<Rightarrow> False)"

lemma firstString_Nil_iff: "firstString vs = [] \<longleftrightarrow> (\<forall>v\<in>set vs. stringValue v = [])"
  by (induction vs) (auto simp: Let_def)

section \<open>Records\<close>

fun contains :: "string list \<Rightarrow> string \<Rightarrow> bool" where
  "contains [] wanted = False"
| "contains (value # vs) wanted = (if value = wanted then True else contains vs wanted)"

lemma contains_iff [simp]: "contains vs w \<longleftrightarrow> w \<in> set vs"
  by (induction vs) auto

definition records :: "gv \<Rightarrow> (connError, gv list) result" where
  "records input = (case asArr input of None \<Rightarrow> Err (schemaError ''input must be an array'') | Some rows \<Rightarrow> Ok rows)"

text \<open>\<^verbatim>\<open>objectRow(raw, step, i)\<close>.\<close>

definition objectRow :: "gv \<Rightarrow> string \<Rightarrow> nat \<Rightarrow> (connError, obj) result" where
  "objectRow raw step i =
     (case asObj raw of
        None \<Rightarrow> Err (schemaError (step @ '': record '' @ itoa (int i + 1) @ '' must be an object''))
      | Some row \<Rightarrow> Ok row)"

definition cloneMap :: "obj \<Rightarrow> obj" where
  "cloneMap m = fold (\<lambda>(key, item) out. objPut key item out) m []"

definition recordsMaps :: "gv \<Rightarrow> (connError, obj list) result" where
  "recordsMaps input =
     (case records input of Err e \<Rightarrow> Err e
      | Ok raw \<Rightarrow> forR (\<lambda>value. case asObj value of None \<Rightarrow> Err (PlainError ''records must be objects'') | Some row \<Rightarrow> Ok row) raw)"

definition keyFields :: "gv \<Rightarrow> string list" where
  "keyFields value =
     (case asArr value of
        Some list \<Rightarrow> map (\<lambda>v. trimSpace (stringValue v)) list
      | None \<Rightarrow> filter (\<lambda>p. p \<noteq> []) (map trimSpace (splitOn (CHR '','') (stringValue value))))"

lemma records_Ok [simp]: "records input = Ok rows \<longleftrightarrow> input = VArr rows"
  by (cases input) (auto simp: records_def)

lemma objectRow_Ok [simp]: "objectRow raw step i = Ok row \<longleftrightarrow> raw = VObj row"
  by (cases raw) (auto simp: objectRow_def)

lemma recordsMaps_Ok: "recordsMaps input = Ok rows \<longleftrightarrow> input = VArr (map VObj rows)"
proof -
  have "forR (\<lambda>value. case asObj value of None \<Rightarrow> Err (PlainError ''records must be objects'') | Some row \<Rightarrow> Ok row) raw
      = Ok rows \<longleftrightarrow> raw = map VObj rows" for raw
  proof -
    have "(case asObj x of None \<Rightarrow> Err (PlainError ''records must be objects'') | Some row \<Rightarrow> Ok row) = Ok y
        \<longleftrightarrow> x = VObj y" for x y
      by (cases x) auto
    then show ?thesis
      by (simp add: forR_Ok_iff list_all2_eq list.rel_map flip: list.rel_eq)
  qed
  then show ?thesis
    by (cases input) (auto simp: recordsMaps_def records_def)
qed

lemma fold_objPut_append:
  "distinct (map fst (out @ m)) \<Longrightarrow> fold (\<lambda>(key, item) out. objPut key item out) m out = out @ m"
proof (induction m arbitrary: out)
  case Nil
  then show ?case by simp
next
  case (Cons kv m)
  obtain k v where kv: "kv = (k, v)" by (cases kv)
  have "AList.update k v out = out @ [(k, v)]" if "k \<notin> fst ` set out" for out :: obj
    using that by (induction out) auto
  then have "objPut k v out = out @ [(k, v)]"
    using Cons.prems kv by (auto simp: objPut_def)
  then show ?case using Cons.IH [of "out @ [kv]"] Cons.prems kv by simp
qed

text \<open>The copy of a map has the same entries.\<close>

lemma cloneMap_eq [simp]: "distinct (map fst m) \<Longrightarrow> cloneMap m = m"
  using fold_objPut_append [of "[]" m] by (simp add: cloneMap_def)

lemma map_of_fold_objPut:
  "distinct (map fst m) \<Longrightarrow> map_of (fold (\<lambda>(key, item) out. objPut key item out) m out) = map_of out ++ map_of m"
proof (induction m arbitrary: out)
  case Nil
  then show ?case by simp
next
  case (Cons kv m)
  obtain k v where "kv = (k, v)" by (cases kv)
  moreover have "k \<notin> dom (map_of m)"
    using Cons.prems \<open>kv = (k, v)\<close> by (simp add: dom_map_of_conv_image_fst)
  ultimately show ?case using Cons by (simp add: map_add_upd_left del: fun_upd_apply)
qed

lemma distinct_fold_objPut:
  "distinct (map fst out) \<Longrightarrow> distinct (map fst (fold (\<lambda>(key, item) out. objPut (f key) (g item) out) m out))"
  by (induction m arbitrary: out) auto

end
