(* ===== verification/Transforms.thy ===== *)
theory Transforms
  imports Records
begin

text \<open>
  The transformation steps (\<^verbatim>\<open>internal/connectors/transforms.go\<close>): evaluation of expressions with the
  cache of compiled programs, the handlers \<^verbatim>\<open>transform.map\<close>, \<^verbatim>\<open>filter\<close>, \<^verbatim>\<open>formula\<close>, \<^verbatim>\<open>select\<close>,
  \<^verbatim>\<open>rename\<close>, \<^verbatim>\<open>dedupe\<close>, \<^verbatim>\<open>flatten\<close>, \<^verbatim>\<open>parse\<close> and \<^verbatim>\<open>contract\<close>, the hash of a dedupe key and the merge
  strategies of a fan-in.

  The expression language (\<^verbatim>\<open>expr-lang/expr\<close>) and \<^verbatim>\<open>jmespath\<close> are parameters: a library \<open>L\<close> compiles a
  text against the types of an environment and runs a program on an environment. \<^verbatim>\<open>json.Unmarshal\<close>
  is the parameter \<open>unmarshal\<close>, so that every theorem holds whatever it accepts.
\<close>

section \<open>Loops that thread a state\<close>

fun forS :: "('s \<Rightarrow> 'a \<Rightarrow> ('e, 'b) result \<times> 's) \<Rightarrow> 's \<Rightarrow> 'a list \<Rightarrow> ('e, 'b list) result \<times> 's" where
  "forS f s [] = (Ok [], s)"
| "forS f s (x # xs) =
     (case f s x of
        (Err e, s') \<Rightarrow> (Err e, s')
      | (Ok y, s') \<Rightarrow> (case forS f s' xs of (Err e, s'') \<Rightarrow> (Err e, s'') | (Ok ys, s'') \<Rightarrow> (Ok (y # ys), s'')))"

text \<open>
  An operation on a state that no result depends on: the contract of a cache. A client's loop over
  such operations computes what the stateless loop computes.
\<close>

locale transparent =
  fixes f :: "'s \<Rightarrow> 'a \<Rightarrow> ('e, 'b) result \<times> 's" and ok :: "'s \<Rightarrow> bool" and spec :: "'a \<Rightarrow> ('e, 'b) result"
  assumes result: "ok s \<Longrightarrow> fst (f s x) = spec x"
    and keeps: "ok s \<Longrightarrow> ok (snd (f s x))"
begin

lemma loop_spec: "ok s \<Longrightarrow> fst (forS f s xs) = forR spec xs \<and> ok (snd (forS f s xs))"
proof (induction xs arbitrary: s)
  case Nil
  then show ?case by simp
next
  case (Cons x xs)
  obtain r s' where r: "f s x = (r, s')" by (cases "f s x")
  have ok': "ok s'" and v: "spec x = r" using result [OF Cons.prems, of x] keeps [OF Cons.prems, of x] r by auto
  show ?case
  proof (cases r)
    case (Inl e)
    then show ?thesis using r v ok' by simp
  next
    case (Inr y)
    obtain q s'' where q: "forS f s' xs = (q, s'')" by (cases "forS f s' xs")
    then have "forR spec xs = q" "ok s''" using Cons.IH [OF ok'] by auto
    then show ?thesis using r v q Inr by (cases q) auto
  qed
qed

end

section \<open>Expressions\<close>

record 'p exprLib =
  lib_Compile :: "string \<Rightarrow> gv \<Rightarrow> gv list \<Rightarrow> (string, 'p) result"
  lib_Run :: "'p \<Rightarrow> gv \<Rightarrow> gv list \<Rightarrow> (string, gv) result"

type_synonym 'p programs = "(string \<times> 'p) list"

definition normalizeExpression :: "string \<Rightarrow> string" where
  "normalizeExpression value =
     (let value = replaceAll ''!=='' ''!='' value;
          value = replaceAll ''==='' ''=='' value
      in replaceAll ''records.length'' ''len(records)'' value)"

text \<open>\<^verbatim>\<open>%T\<close>.\<close>

fun typeName :: "gv \<Rightarrow> string" where
  "typeName VNil = ''<nil>''"
| "typeName (VBool _) = ''bool''"
| "typeName (VInt _) = ''int''"
| "typeName (VFloat _) = ''float64''"
| "typeName (VStr _) = ''string''"
| "typeName (VArr _) = ''[]interface {}''"
| "typeName (VObj _) = ''map[string]interface {}''"

definition maxCompiledPrograms :: nat where "maxCompiledPrograms = 1024"

definition programKey :: "string \<Rightarrow> gv \<Rightarrow> string" where
  "programKey normalized record = typeName record @ char_of (0 :: nat) # normalized"

text \<open>\<^verbatim>\<open>compileExpression\<close> with the worker's cache of programs.\<close>

definition compileExpression ::
  "'p exprLib \<Rightarrow> 'p programs \<Rightarrow> string \<Rightarrow> gv \<Rightarrow> gv list \<Rightarrow> (string, 'p) result \<times> 'p programs" where
  "compileExpression L cache value record rs =
     (let normalized = normalizeExpression value; key = programKey normalized record
      in case map_of cache key of
           Some p \<Rightarrow> (Ok p, cache)
         | None \<Rightarrow>
             (case lib_Compile L normalized record rs of
                Err e \<Rightarrow> (Err e, cache)
              | Ok p \<Rightarrow>
                  (Ok p, AList.update key p (if length cache \<ge> maxCompiledPrograms then [] else cache))))"

definition evalExpression ::
  "'p exprLib \<Rightarrow> 'p programs \<Rightarrow> string \<Rightarrow> gv \<Rightarrow> gv list \<Rightarrow> (string, gv) result \<times> 'p programs" where
  "evalExpression L cache value record rs =
     (case compileExpression L cache value record rs of
        (Err e, cache') \<Rightarrow> (Err e, cache')
      | (Ok p, cache') \<Rightarrow> (lib_Run L p record rs, cache'))"

definition EvaluatePredicate :: "'p exprLib \<Rightarrow> 'p programs \<Rightarrow> string \<Rightarrow> gv \<Rightarrow> (string, bool) result \<times> 'p programs" where
  "EvaluatePredicate L cache value data =
     (let rs = (case asArr data of Some rs \<Rightarrow> rs | None \<Rightarrow> [data]);
          record = (case rs of [] \<Rightarrow> VNil | r # _ \<Rightarrow> r)
      in case evalExpression L cache value record rs of
           (Err e, cache') \<Rightarrow> (Err e, cache')
         | (Ok result, cache') \<Rightarrow>
             (case asBool result of
                None \<Rightarrow> (Err ''predicate did not return boolean'', cache')
              | Some truth \<Rightarrow> (Ok truth, cache')))"

text \<open>
  \<^verbatim>\<open>splitProjection\<close>: the loop over the runes, with the open quote, the depth and the text since the
  last cut (reversed).
\<close>

fun splitProjectionLoop :: "char option \<Rightarrow> int \<Rightarrow> string \<Rightarrow> string \<Rightarrow> string list" where
  "splitProjectionLoop quote depth acc [] = [trimSpace (rev acc)]"
| "splitProjectionLoop quote depth acc (ch # cs) =
     (case quote of
        Some q \<Rightarrow> splitProjectionLoop (if ch = q then None else quote) depth (ch # acc) cs
      | None \<Rightarrow>
          (if ch = char_of (39 :: nat) \<or> ch = char_of (34 :: nat) then splitProjectionLoop (Some ch) depth (ch # acc) cs
           else if ch = CHR ''('' then splitProjectionLoop None (depth + 1) (ch # acc) cs
           else if ch = CHR '')'' then splitProjectionLoop None (depth - 1) (ch # acc) cs
           else if ch = CHR '','' \<and> depth = 0 then trimSpace (rev acc) # splitProjectionLoop None depth [] cs
           else splitProjectionLoop None depth (ch # acc) cs))"

definition splitProjection :: "string \<Rightarrow> string list" where
  "splitProjection value = splitProjectionLoop None 0 [] value"

text \<open>The key pattern \<^verbatim>\<open>^[A-Za-z_$][A-Za-z0-9_$-]*$\<close> of a projection.\<close>

definition projectionKeyOK :: "string \<Rightarrow> bool" where
  "projectionKeyOK key =
     (case key of [] \<Rightarrow> False
      | c # cs \<Rightarrow> (isLetter c \<or> c \<in> set ''_$'') \<and> list_all (\<lambda>c. isLetter c \<or> isDigit c \<or> c \<in> set ''_$-'') cs)"

definition projectField :: "'p exprLib \<Rightarrow> gv \<Rightarrow> 'p programs \<Rightarrow> string \<Rightarrow> (string, string \<times> gv) result \<times> 'p programs" where
  "projectField L record cache field =
     (case indexByte (CHR '':'') field of
        None \<Rightarrow> (Err (''invalid map projection field '' @ goQuote field), cache)
      | Some index \<Rightarrow>
          if index < 1 then (Err (''invalid map projection field '' @ goQuote field), cache)
          else
            let key = trimChars [char_of (39 :: nat), char_of (34 :: nat)] (trimSpace (take index field)) in
            if \<not> projectionKeyOK key then (Err (''invalid projection key '' @ goQuote key), cache)
            else (case evalExpression L cache (trimSpace (drop (index + 1) field)) record [] of
                    (Err e, cache') \<Rightarrow> (Err e, cache')
                  | (Ok v, cache') \<Rightarrow> (Ok (key, v), cache')))"

definition evalMap :: "'p exprLib \<Rightarrow> string \<Rightarrow> 'p programs \<Rightarrow> gv \<Rightarrow> (string, gv) result \<times> 'p programs" where
  "evalMap L value cache record =
     (let trimmed = trimSuffix '')'' (trimPrefix ''('' (trimSpace value)) in
      if hasPrefix ''{'' trimmed \<and> hasSuffix ''}'' trimmed then
        (case forS (projectField L record) cache (splitProjection (trimSpace (take (length trimmed - 2) (drop 1 trimmed)))) of
           (Err e, cache') \<Rightarrow> (Err e, cache')
         | (Ok pairs, cache') \<Rightarrow> (Ok (VObj (fold (\<lambda>(k, v) out. objPut k v out) pairs [])), cache'))
      else evalExpression L cache trimmed record [])"

section \<open>Handlers of expressions\<close>

definition plainErr :: "(string, 'a) result \<times> 's \<Rightarrow> (connError, 'a) result \<times> 's" where
  "plainErr rs = (case rs of (Err e, s) \<Rightarrow> (Err (PlainError e), s) | (Ok y, s) \<Rightarrow> (Ok y, s))"

definition handled :: "(connError, gv list) result \<times> 's \<Rightarrow> handled \<times> 's" where
  "handled rs = (case rs of (Err e, s) \<Rightarrow> (Err e, s) | (Ok ys, s) \<Rightarrow> (Ok (VArr ys, None), s))"

definition mapHandler :: "'p exprLib \<Rightarrow> 'p programs \<Rightarrow> gv \<Rightarrow> obj \<Rightarrow> handled \<times> 'p programs" where
  "mapHandler L cache input cfg =
     (case records input of
        Err e \<Rightarrow> (Err e, cache)
      | Ok rows \<Rightarrow>
          handled (plainErr (forS (\<lambda>c row. evalMap L (stringValue (objGet cfg ''expression'')) c row) cache rows)))"

definition filterRow :: "'p exprLib \<Rightarrow> string \<Rightarrow> 'p programs \<Rightarrow> gv \<Rightarrow> (string, gv list) result \<times> 'p programs" where
  "filterRow L predicate cache row =
     (case EvaluatePredicate L cache predicate row of
        (Err e, c) \<Rightarrow> (Err e, c) | (Ok b, c) \<Rightarrow> (Ok (if b then [row] else []), c))"

definition filterHandler :: "'p exprLib \<Rightarrow> 'p programs \<Rightarrow> gv \<Rightarrow> obj \<Rightarrow> handled \<times> 'p programs" where
  "filterHandler L cache input cfg =
     (case records input of
        Err e \<Rightarrow> (Err e, cache)
      | Ok rows \<Rightarrow>
          (case plainErr (forS (filterRow L (stringValue (objGet cfg ''predicate''))) cache rows) of
             (Err e, c) \<Rightarrow> (Err e, c)
           | (Ok kept, c) \<Rightarrow> (Ok (VArr (concat kept), None), c)))"

definition formulaRow :: "'p exprLib \<Rightarrow> obj \<Rightarrow> 'p programs \<Rightarrow> gv \<Rightarrow> (connError, gv) result \<times> 'p programs" where
  "formulaRow L cfg cache raw =
     (case asObj raw of
        None \<Rightarrow> (Err (schemaError ''formula input must be objects''), cache)
      | Some row \<Rightarrow>
          (case evalExpression L cache (stringValue (objGet cfg ''expression'')) (VObj row) [] of
             (Err e, c) \<Rightarrow> (Err (PlainError e), c)
           | (Ok value, c) \<Rightarrow> (Ok (VObj (objPut (stringValue (objGet cfg ''outputField'')) value (cloneMap row))), c)))"

definition formulaHandler :: "'p exprLib \<Rightarrow> 'p programs \<Rightarrow> gv \<Rightarrow> obj \<Rightarrow> handled \<times> 'p programs" where
  "formulaHandler L cache input cfg =
     (case records input of
        Err e \<Rightarrow> (Err e, cache)
      | Ok rows \<Rightarrow> handled (forS (formulaRow L cfg) cache rows))"

definition selectHandler :: "(string \<Rightarrow> gv \<Rightarrow> (string, gv) result) \<Rightarrow> gv \<Rightarrow> obj \<Rightarrow> handled" where
  "selectHandler search input cfg =
     (case records input of
        Err e \<Rightarrow> Err e
      | Ok rows \<Rightarrow>
          (case forR (search (stringValue (objGet cfg ''expression''))) rows of
             Err e \<Rightarrow> Err (PlainError e) | Ok out \<Rightarrow> Ok (VArr out, None)))"

section \<open>Rename and dedupe\<close>

text \<open>\<^verbatim>\<open>json.Unmarshal\<close> into a map: JSON \<^verbatim>\<open>null\<close> leaves it empty.\<close>

definition unmarshalObj :: "(string \<Rightarrow> gv option) \<Rightarrow> string \<Rightarrow> obj option" where
  "unmarshalObj unmarshal s =
     (case unmarshal s of Some (VObj m) \<Rightarrow> Some m | Some VNil \<Rightarrow> Some [] | _ \<Rightarrow> None)"

definition objOrJSON :: "(string \<Rightarrow> gv option) \<Rightarrow> gv \<Rightarrow> obj option" where
  "objOrJSON unmarshal v =
     (case v of VStr s \<Rightarrow> unmarshalObj unmarshal s | VObj m \<Rightarrow> Some m | _ \<Rightarrow> None)"

definition renameRow :: "obj \<Rightarrow> obj \<Rightarrow> obj" where
  "renameRow mapping row = fold (\<lambda>(from, dest) copy. objPut (stringValue dest) (objGet row from) copy) mapping (cloneMap row)"

definition objectRows :: "string \<Rightarrow> gv list \<Rightarrow> (connError, obj list) result" where
  "objectRows step rows = forR (\<lambda>(i, raw). objectRow raw step i) (enumerate 0 rows)"

definition renameHandler :: "(string \<Rightarrow> gv option) \<Rightarrow> gv \<Rightarrow> obj \<Rightarrow> handled" where
  "renameHandler unmarshal input cfg =
     (case records input of
        Err e \<Rightarrow> Err e
      | Ok rows \<Rightarrow>
          (case objOrJSON unmarshal (objGet cfg ''mapping'') of
             None \<Rightarrow> Err (configError ''transform.rename: mapping must be a JSON object'')
           | Some mapping \<Rightarrow>
               (case objectRows ''transform.rename'' rows of
                  Err e \<Rightarrow> Err e
                | Ok objs \<Rightarrow> Ok (VArr (map (\<lambda>row. VObj (renameRow mapping row)) objs), None))))"

text \<open>A record that is not an object reads every key field as \<^verbatim>\<open>nil\<close>.\<close>

definition rowObj :: "gv \<Rightarrow> obj" where
  "rowObj raw = (case asObj raw of Some row \<Rightarrow> row | None \<Rightarrow> [])"

definition keyHash :: "string list \<Rightarrow> gv \<Rightarrow> string" where
  "keyHash keys raw = jsonMarshal (VArr (map (objGet (rowObj raw)) keys))"

text \<open>The state of the loop of \<^verbatim>\<open>dedupeHandler\<close>: \<^verbatim>\<open>byKey\<close> and \<^verbatim>\<open>order\<close>.\<close>

definition dedupeStep :: "string list \<Rightarrow> bool \<Rightarrow> gv \<Rightarrow> obj \<times> string list \<Rightarrow> obj \<times> string list" where
  "dedupeStep keys keepLast raw st =
     (case st of (byKey, order) \<Rightarrow>
      let hash = keyHash keys raw;
          order' = (if map_of byKey hash = None then order @ [hash] else order)
      in (if keepLast \<or> objGet byKey hash = VNil then objPut hash raw byKey else byKey, order'))"

definition dedupeHandler :: "gv \<Rightarrow> obj \<Rightarrow> handled" where
  "dedupeHandler input cfg =
     (case records input of
        Err e \<Rightarrow> Err e
      | Ok rows \<Rightarrow>
          let keys = keyFields (objGet cfg ''key'') in
          if keys = [] then Ok (VArr rows, None)
          else case fold (dedupeStep keys (objGet cfg ''keep'' = VStr ''last'')) rows ([], []) of
                 (byKey, order) \<Rightarrow> Ok (VArr (map (objGet byKey) order), None))"

section \<open>Flatten and parse\<close>

record flattenConfig =
  fl_delimiter :: string
  fl_maxDepth :: int
  fl_arrayPolicy :: string

definition flatName :: "flattenConfig \<Rightarrow> string \<Rightarrow> string \<Rightarrow> string" where
  "flatName F pre key = (if pre \<noteq> [] then pre @ fl_delimiter F @ key else key)"

function flattenValue :: "flattenConfig \<Rightarrow> obj \<Rightarrow> string \<Rightarrow> int \<Rightarrow> obj \<Rightarrow> obj"
  and flattenItem :: "flattenConfig \<Rightarrow> gv \<Rightarrow> string \<Rightarrow> int \<Rightarrow> obj \<Rightarrow> obj"
  and flattenElements :: "flattenConfig \<Rightarrow> gv list \<Rightarrow> string \<Rightarrow> nat \<Rightarrow> int \<Rightarrow> obj \<Rightarrow> obj" where
  "flattenValue F [] pre depth out = out"
| "flattenValue F (kv # rest) pre depth out =
     flattenValue F rest pre depth (flattenItem F (snd kv) (flatName F pre (fst kv)) depth out)"
| "flattenItem F item name depth out =
     (case item of
        VObj m \<Rightarrow> (if depth \<ge> fl_maxDepth F then objPut name item out else flattenValue F m name (depth + 1) out)
      | VArr xs \<Rightarrow>
          (if fl_arrayPolicy F = ''stringify'' then objPut name (VStr (jsonMarshal item)) out
           else if fl_arrayPolicy F = ''keep'' \<or> depth \<ge> fl_maxDepth F then objPut name item out
           else flattenElements F xs name 0 depth out)
      | _ \<Rightarrow> objPut name item out)"
| "flattenElements F [] name i depth out = out"
| "flattenElements F (element # xs) name i depth out =
     flattenElements F xs name (i + 1) depth
       (let indexed = name @ fl_delimiter F @ itoa (int i)
        in case element of
             VObj child \<Rightarrow> flattenValue F child indexed (depth + 1) out
           | _ \<Rightarrow> objPut indexed element out)"
  by pat_completeness auto
termination
  by (relation "measure (\<lambda>x. case x of
        Inl (F, m, _) \<Rightarrow> 2 * size_list (size_prod (\<lambda>_. 0) size) m
      | Inr (Inl (F, item, _)) \<Rightarrow> 2 * size item + 1
      | Inr (Inr (F, xs, _)) \<Rightarrow> 2 * size_list size xs)") auto

definition flattenConfigOf :: "obj \<Rightarrow> flattenConfig" where
  "flattenConfigOf cfg =
     (let delimiter = stringValue (objGet cfg ''delimiter'');
          mx = truncFloat (number (objGet cfg ''maxDepth''));
          policy = stringValue (objGet cfg ''arrayPolicy'')
      in \<lparr>fl_delimiter = (if delimiter = [] then ''.'' else delimiter),
          fl_maxDepth = (if mx = 0 then 10 else mx),
          fl_arrayPolicy = (if policy = [] then ''index'' else policy)\<rparr>)"

definition flattenHandler :: "gv \<Rightarrow> obj \<Rightarrow> handled" where
  "flattenHandler input cfg =
     (case records input of
        Err e \<Rightarrow> Err e
      | Ok rows \<Rightarrow>
          (case objectRows ''transform.flatten'' rows of
             Err e \<Rightarrow> Err e
           | Ok objs \<Rightarrow> Ok (VArr (map (\<lambda>row. VObj (flattenValue (flattenConfigOf cfg) row [] 0 [])) objs), None)))"

fun parseFields :: "(string \<Rightarrow> gv option) \<Rightarrow> string \<Rightarrow> string list \<Rightarrow> obj \<Rightarrow> (connError, obj) result" where
  "parseFields unmarshal mode [] row = Ok row"
| "parseFields unmarshal mode (field # fs) row =
     (case asStr (objGet row field) of
        None \<Rightarrow> parseFields unmarshal mode fs row
      | Some value \<Rightarrow>
          (case unmarshal value of
             Some parsed \<Rightarrow> parseFields unmarshal mode fs (objPut field parsed row)
           | None \<Rightarrow>
               (if mode = ''fail'' then Err (schemaError (''transform.parse: field '' @ goQuote field @ '' is not valid JSON''))
                else parseFields unmarshal mode fs (if mode = ''null'' then objPut field VNil row else row))))"

definition parseRow :: "(string \<Rightarrow> gv option) \<Rightarrow> obj \<Rightarrow> nat \<times> gv \<Rightarrow> (connError, gv) result" where
  "parseRow unmarshal cfg iraw =
     (case objectRow (snd iraw) ''transform.parse'' (fst iraw) of
        Err e \<Rightarrow> Err e
      | Ok object \<Rightarrow>
          map_sum id VObj (parseFields unmarshal (stringValue (objGet cfg ''onError'')) (keyFields (objGet cfg ''fields'')) (cloneMap object)))"

definition parseHandler :: "(string \<Rightarrow> gv option) \<Rightarrow> gv \<Rightarrow> obj \<Rightarrow> handled" where
  "parseHandler unmarshal input cfg =
     (case records input of
        Err e \<Rightarrow> Err e
      | Ok rows \<Rightarrow> map_sum id (\<lambda>out. (VArr out, None)) (forR (parseRow unmarshal cfg) (enumerate 0 rows)))"

section \<open>Contracts\<close>

text \<open>
  \<^verbatim>\<open>time.Parse(time.RFC3339, s)\<close>: fixed-width fields, an hour of one or two digits, an optional fraction
  of a second after a point or comma, and \<^verbatim>\<open>Z\<close> or a numeric zone; ranges are checked at the end.
\<close>

definition twoDigits :: "string \<Rightarrow> (int \<times> string) option" where
  "twoDigits s = (case s of a # b # r \<Rightarrow> if isDigit a \<and> isDigit b then Some (digitsVal [a, b], r) else None | _ \<Rightarrow> None)"

definition oneOrTwoDigits :: "string \<Rightarrow> (int \<times> string) option" where
  "oneOrTwoDigits s =
     (case s of [] \<Rightarrow> None
      | a # r \<Rightarrow> if \<not> isDigit a then None
                 else (case r of b # r' \<Rightarrow> if isDigit b then Some (digitsVal [a, b], r') else Some (digitVal a, r)
                       | [] \<Rightarrow> Some (digitVal a, r)))"

definition skipByte :: "char \<Rightarrow> string \<Rightarrow> string option" where
  "skipByte c s = (case s of x # r \<Rightarrow> if x = c then Some r else None | [] \<Rightarrow> None)"

definition skipFraction :: "string \<Rightarrow> string" where
  "skipFraction s =
     (case s of c # d # r \<Rightarrow> if c \<in> set ''.,'' \<and> isDigit d then dropWhile isDigit r else s | _ \<Rightarrow> s)"

definition zoneOK :: "string \<Rightarrow> bool" where
  "zoneOK s =
     (s = ''Z'' \<or>
      (case s of
         [sg, a, b, c, d, e] \<Rightarrow>
           sg \<in> set ''+-'' \<and> isDigit a \<and> isDigit b \<and> c = CHR '':'' \<and> isDigit d \<and> isDigit e
             \<and> digitsVal [a, b] \<le> 24 \<and> digitsVal [d, e] \<le> 60
       | _ \<Rightarrow> False))"

definition daysIn :: "int \<Rightarrow> int \<Rightarrow> int" where
  "daysIn month year =
     (if month = 2 then (if year mod 4 = 0 \<and> (year mod 100 \<noteq> 0 \<or> year mod 400 = 0) then 29 else 28)
      else if month \<in> {4, 6, 9, 11} then 30 else 31)"

fun rfcRanges :: "int \<Rightarrow> int list \<Rightarrow> bool" where
  "rfcRanges year [month, day, hour, mins, secs] =
     (1 \<le> month \<and> month \<le> 12 \<and> 1 \<le> day \<and> day \<le> daysIn month year \<and> hour < 24 \<and> mins < 60 \<and> secs < 60)"
| "rfcRanges year _ = False"

text \<open>The fields after the year, each after its separator.\<close>

fun rfcFields :: "(char \<times> (string \<Rightarrow> (int \<times> string) option)) list \<Rightarrow> string \<Rightarrow> (int list \<times> string) option" where
  "rfcFields [] s = Some ([], s)"
| "rfcFields (f # fs) s =
     Option.bind (skipByte (fst f) s) (\<lambda>s1.
     Option.bind (snd f s1) (\<lambda>(n, s2).
     Option.bind (rfcFields fs s2) (\<lambda>(ns, s3). Some (n # ns, s3))))"

definition rfc3339 :: "string \<Rightarrow> bool" where
  "rfc3339 s =
     (length s \<ge> 4 \<and> list_all isDigit (take 4 s) \<and>
      (case rfcFields [(CHR ''-'', twoDigits), (CHR ''-'', twoDigits), (CHR ''T'', oneOrTwoDigits),
                       (CHR '':'', twoDigits), (CHR '':'', twoDigits)] (drop 4 s) of
         None \<Rightarrow> False
       | Some (ns, rest) \<Rightarrow> zoneOK (skipFraction rest) \<and> rfcRanges (digitsVal (take 4 s)) ns))"

definition contractMatches :: "gv \<Rightarrow> string \<Rightarrow> bool" where
  "contractMatches v kind =
     (if kind = ''any'' then True
      else if kind = ''string'' then (case v of VStr _ \<Rightarrow> True | _ \<Rightarrow> False)
      else if kind = ''number'' then (case v of VFloat _ \<Rightarrow> True | VInt _ \<Rightarrow> True | _ \<Rightarrow> False)
      else if kind = ''boolean'' then (case v of VBool _ \<Rightarrow> True | _ \<Rightarrow> False)
      else if kind = ''object'' then (case v of VObj _ \<Rightarrow> True | _ \<Rightarrow> False)
      else if kind = ''array'' then (case v of VArr _ \<Rightarrow> True | _ \<Rightarrow> False)
      else if kind = ''date'' then rfc3339 (stringValue v)
      else False)"

definition fieldProblem :: "obj \<Rightarrow> string \<times> gv \<Rightarrow> string list" where
  "fieldProblem row fs =
     (let field = fst fs; spec = stringValue (snd fs);
          optional = hasSuffix ''?'' spec; kind = trimSuffix ''?'' spec
      in if objGet row field = VNil then (if optional then [] else [field @ '' is required''])
         else if contractMatches (objGet row field) kind then [] else [field @ '' must be '' @ kind])"

definition rowProblems :: "obj \<Rightarrow> gv \<Rightarrow> string list" where
  "rowProblems schema raw =
     (case asObj raw of
        Some row \<Rightarrow> concat (map (fieldProblem row) schema)
      | None \<Rightarrow> ''record must be an object'' # concat (map (fieldProblem []) schema))"

text \<open>The loop over the rows: the valid rows so far and the number of rejected ones.\<close>

fun contractLoop :: "obj \<Rightarrow> bool \<Rightarrow> nat \<Rightarrow> gv list \<Rightarrow> gv list \<Rightarrow> int \<Rightarrow> (connError, gv list \<times> int) result" where
  "contractLoop schema failFast i [] valid rejected = Ok (valid, rejected)"
| "contractLoop schema failFast i (raw # rows) valid rejected =
     (let problems = rowProblems schema raw in
      if problems \<noteq> [] then
        (if failFast then
           Err (schemaError (''transform.contract: row '' @ itoa (int i + 1) @ '': '' @ join ''; '' problems))
         else contractLoop schema failFast (i + 1) rows valid (rejected + 1))
      else contractLoop schema failFast (i + 1) rows (valid @ [raw]) rejected)"

definition contractMeta :: "gv list \<Rightarrow> int \<Rightarrow> obj" where
  "contractMeta valid rejected =
     [(''qualityStatus'', VStr (if rejected > 0 then ''warning'' else ''passed'')),
      (''passedCount'', VInt (int (length valid))), (''failedCount'', VInt rejected)]"

definition contractHandler :: "(string \<Rightarrow> gv option) \<Rightarrow> gv \<Rightarrow> obj \<Rightarrow> handled" where
  "contractHandler unmarshal input cfg =
     (case records input of
        Err e \<Rightarrow> Err e
      | Ok rows \<Rightarrow>
          (case objOrJSON unmarshal (objGet cfg ''schemaJson'') of
             None \<Rightarrow> Err (configError ''transform.contract: schemaJson must be a JSON object'')
           | Some schema \<Rightarrow>
               (let mode = objGet cfg ''onViolation'' in
                case contractLoop schema (mode = VStr ''fail'' \<or> mode = VNil) 0 rows [] 0 of
                  Err e \<Rightarrow> Err e
                | Ok (valid, rejected) \<Rightarrow> Ok (VArr valid, Some (contractMeta valid rejected)))))"

section \<open>Dedupe keys and merges\<close>

text \<open>\<^verbatim>\<open>DedupeHash\<close>; \<open>sha\<close> is the hexadecimal SHA-256 digest.\<close>

definition DedupeHash :: "(string \<Rightarrow> string) \<Rightarrow> obj \<Rightarrow> string list \<Rightarrow> string" where
  "DedupeHash sha record keys = sha (jsonMarshal (VArr (map (objGet record) keys)))"

fun unionLoop :: "string list \<Rightarrow> gv list \<Rightarrow> gv list" where
  "unionLoop seen [] = []"
| "unionLoop seen (row # rows) =
     (let key = jsonMarshal row in
      if key \<in> set seen then unionLoop seen rows else row # unionLoop (key # seen) rows)"

definition tagRows :: "nat \<times> gv list \<Rightarrow> (connError, gv list) result" where
  "tagRows ia =
     forR (\<lambda>(j, raw). case objectRow raw ''merge'' j of Err e \<Rightarrow> Err e
                      | Ok object \<Rightarrow> Ok (VObj (objPut ''_source'' (VInt (int (fst ia))) (cloneMap object))))
       (enumerate 0 (snd ia))"

type_synonym rowIndex = "(string \<times> obj) list"

definition indexRows :: "string \<Rightarrow> gv list \<Rightarrow> (connError, rowIndex) result" where
  "indexRows joinKey rows =
     (case objectRows ''merge'' rows of Err e \<Rightarrow> Err e
      | Ok objs \<Rightarrow> Ok (fold (\<lambda>row out. AList.update (stringValue (objGet row joinKey)) row out) objs []))"

definition mergeObjs :: "obj option \<Rightarrow> obj option \<Rightarrow> obj" where
  "mergeObjs left right =
     (let put = fold (\<lambda>(k, v) out. objPut k v out)
      in put (case right of Some r \<Rightarrow> r | None \<Rightarrow> []) (put (case left of Some l \<Rightarrow> l | None \<Rightarrow> []) []))"

definition joinKeys :: "string \<Rightarrow> string \<Rightarrow> gv list \<Rightarrow> rowIndex \<Rightarrow> rowIndex \<Rightarrow> string list" where
  "joinKeys strategy joinKey a ai bi =
     (if strategy = ''outerJoin''
      then sort (map fst ai @ filter (\<lambda>key. map_of ai key = None) (map fst bi))
      else map (\<lambda>raw. stringValue (objGet (rowObj raw) joinKey)) a)"

definition joinRows :: "string \<Rightarrow> rowIndex \<Rightarrow> rowIndex \<Rightarrow> string list \<Rightarrow> gv list" where
  "joinRows strategy ai bi keys =
     map (\<lambda>key. VObj (mergeObjs (map_of ai key) (map_of bi key)))
       (filter (\<lambda>key. \<not> (strategy = ''innerJoin'' \<and> map_of bi key = None)) keys)"

definition MergeArrays :: "string \<Rightarrow> gv list list \<Rightarrow> string \<Rightarrow> (connError, gv list) result" where
  "MergeArrays strategy0 arrays joinKey =
     (let strategy = (if strategy0 = [] then ''concat'' else strategy0) in
      if strategy = ''concat'' then Ok (concat arrays)
      else if strategy = ''union'' then Ok (unionLoop [] (concat arrays))
      else if strategy = ''appendWithSourceTag'' then map_sum id concat (forR tagRows (enumerate 0 arrays))
      else if joinKey = [] then Err (configError (''merge strategy '' @ goQuote strategy @ '' requires a joinKey''))
      else
        let a = (if length arrays > 0 then arrays ! 0 else []);
            b = (if length arrays > 1 then arrays ! 1 else [])
        in case indexRows joinKey a of Err e \<Rightarrow> Err e
           | Ok ai \<Rightarrow>
               (case indexRows joinKey b of Err e \<Rightarrow> Err e
                | Ok bi \<Rightarrow> Ok (joinRows strategy ai bi (joinKeys strategy joinKey a ai bi))))"

section \<open>The registry of handlers\<close>

text \<open>\<^verbatim>\<open>Handle\<close>: \<open>others\<close> are the handlers registered by the other files of the package.\<close>

definition Handle ::
  "'p exprLib \<Rightarrow> (string \<Rightarrow> gv \<Rightarrow> (string, gv) result) \<Rightarrow> (string \<Rightarrow> gv option) \<Rightarrow>
   (string \<rightharpoonup> (gv \<Rightarrow> obj \<Rightarrow> handled)) \<Rightarrow> 'p programs \<Rightarrow> string \<Rightarrow> gv \<Rightarrow> obj \<Rightarrow> handled \<times> 'p programs" where
  "Handle L search unmarshal others cache name input cfg =
     (if name = ''transform.map'' then mapHandler L cache input cfg
      else if name = ''transform.filter'' then filterHandler L cache input cfg
      else if name = ''transform.formula'' then formulaHandler L cache input cfg
      else if name = ''transform.select'' then (selectHandler search input cfg, cache)
      else if name = ''transform.rename'' then (renameHandler unmarshal input cfg, cache)
      else if name = ''transform.dedupe'' then (dedupeHandler input cfg, cache)
      else if name = ''transform.flatten'' then (flattenHandler input cfg, cache)
      else if name = ''transform.parse'' then (parseHandler unmarshal input cfg, cache)
      else if name = ''transform.contract'' then (contractHandler unmarshal input cfg, cache)
      else (case others name of
              Some h \<Rightarrow> (h input cfg, cache)
            | None \<Rightarrow> (Err (PermanentError UnknownActivityError (''Unknown activity: '' @ name)), cache)))"

end
