(* ===== verification/TransformLaws.thy ===== *)
theory TransformLaws
  imports Transforms
begin

text \<open>
  What the transformation steps guarantee: the cache of compiled programs is transparent and bounded,
  dedupe keeps one row per key, a contract splits its input, flattening writes every leaf, and the
  merge strategies combine rows as their names say.
\<close>

section \<open>The program cache\<close>

text \<open>
  What the cache key relies on: compilation depends on the record only through its type, as the
  type checker of the expression library documents.
\<close>

definition exprByType :: "'p exprLib \<Rightarrow> bool" where
  "exprByType L \<longleftrightarrow>
     (\<forall>n r r' rs rs'. typeName r = typeName r' \<longrightarrow> lib_Compile L n r rs = lib_Compile L n r' rs')"

definition cacheOk :: "'p exprLib \<Rightarrow> 'p programs \<Rightarrow> bool" where
  "cacheOk L c \<longleftrightarrow>
     exprByType L \<and> distinct (map fst c) \<and> length c \<le> maxCompiledPrograms \<and>
     (\<forall>(k, p)\<in>set c. \<exists>n r rs. k = programKey n r \<and> lib_Compile L n r rs = Ok p)"

lemma typeName_no_nul: "char_of (0 :: nat) \<notin> set (typeName r)"
  by (cases r) (auto simp: char_of_def)

lemma append_sep_eq:
  "x \<notin> set a \<Longrightarrow> x \<notin> set b \<Longrightarrow> a @ x # c = b @ x # d \<Longrightarrow> a = b \<and> c = d"
proof (induction a arbitrary: b)
  case Nil
  then show ?case by (cases b) auto
next
  case (Cons y a)
  then show ?case by (cases b) auto
qed

lemma programKey_inj: "programKey n r = programKey n' r' \<Longrightarrow> n = n' \<and> typeName r = typeName r'"
  using append_sep_eq [OF typeName_no_nul typeName_no_nul, of r n r' n'] by (auto simp: programKey_def)

lemma cacheOk_update:
  assumes "cacheOk L c" "lib_Compile L n r rs = Ok p" "length c < maxCompiledPrograms"
  shows "cacheOk L (AList.update (programKey n r) p c)"
proof -
  let ?u = "AList.update (programKey n r) p c"
  have sub: "set ?u \<subseteq> insert (programKey n r, p) (set c)"
    by (induction c) auto
  have len: "length ?u \<le> Suc (length c)"
    by (induction c) auto
  have "\<exists>n r rs. fst kp = programKey n r \<and> lib_Compile L n r rs = Ok (snd kp)" if "kp \<in> set ?u" for kp
  proof (cases "kp = (programKey n r, p)")
    case True
    then show ?thesis using assms(2) by auto
  next
    case False
    then have "kp \<in> set c" using sub that by blast
    then show ?thesis using assms(1) unfolding cacheOk_def by (auto split: prod.splits)
  qed
  moreover have "distinct (map fst ?u)"
    using assms(1) by (simp add: cacheOk_def distinct_update)
  ultimately show ?thesis
    using assms(1,3) len unfolding cacheOk_def by (auto split: prod.splits)
qed

lemma compile_result:
  assumes "cacheOk L c"
  shows "fst (compileExpression L c v r rs) = lib_Compile L (normalizeExpression v) r rs"
proof (cases "map_of c (programKey (normalizeExpression v) r)")
  case None
  then show ?thesis by (simp add: compileExpression_def Let_def split: sum.split)
next
  case (Some p)
  then have "(programKey (normalizeExpression v) r, p) \<in> set c" by (rule map_of_SomeD)
  then obtain n r' rs' where k: "programKey (normalizeExpression v) r = programKey n r'"
    and p: "lib_Compile L n r' rs' = Ok p"
    using assms by (fastforce simp: cacheOk_def)
  have "lib_Compile L n r' rs' = lib_Compile L (normalizeExpression v) r rs"
    using programKey_inj [OF k] assms by (auto simp: cacheOk_def exprByType_def)
  then show ?thesis using Some p by (simp add: compileExpression_def Let_def)
qed

lemma compile_keeps:
  assumes "cacheOk L c"
  shows "cacheOk L (snd (compileExpression L c v r rs))"
proof -
  define d where "d = (if length c \<ge> maxCompiledPrograms then [] else c)"
  have "cacheOk L d" "length d < maxCompiledPrograms"
    using assms by (auto simp: d_def cacheOk_def maxCompiledPrograms_def)
  then show ?thesis
    using assms unfolding compileExpression_def Let_def d_def [symmetric]
    by (auto intro: cacheOk_update split: option.split sum.split)
qed

interpretation ce: transparent "\<lambda>c (v, r, rs). evalExpression L c v r rs" "cacheOk L"
    "\<lambda>(v, r, rs). fst (evalExpression L [] v r rs)" for L
proof
  fix s :: "'a programs" and x :: "string \<times> gv \<times> gv list"
  obtain v r rs where x: "x = (v, r, rs)" by (cases x)
  assume ok: "cacheOk L s"
  then have "cacheOk L []" by (simp add: cacheOk_def)
  then have "fst (compileExpression L s v r rs) = fst (compileExpression L [] v r rs)"
    using ok by (simp add: compile_result)
  then show "fst (case x of (v, r, rs) \<Rightarrow> evalExpression L s v r rs)
      = (case x of (v, r, rs) \<Rightarrow> fst (evalExpression L [] v r rs))"
    by (auto simp: x evalExpression_def split: prod.split sum.split)
  show "cacheOk L (snd (case x of (v, r, rs) \<Rightarrow> evalExpression L s v r rs))"
    using compile_keeps [OF ok, of v r rs] by (auto simp: x evalExpression_def split: prod.split sum.split)
qed

lemma cacheOk_Nil: "cacheOk L c \<Longrightarrow> cacheOk L []"
  by (simp add: cacheOk_def)

lemma eval_result: "cacheOk L c \<Longrightarrow> fst (evalExpression L c v r rs) = fst (evalExpression L [] v r rs)"
  using ce.result [of L c "(v, r, rs)"] by simp

lemma eval_keeps: "cacheOk L c \<Longrightarrow> cacheOk L (snd (evalExpression L c v r rs))"
  using ce.keeps [of L c "(v, r, rs)"] by simp

text \<open>Each evaluation of the handlers is transparent as well.\<close>

lemma pair_eqI: "fst x = fst y \<Longrightarrow> \<exists>s. x = (fst y, s)"
  by (cases x) auto

interpretation pf: transparent "projectField L r" "cacheOk L" "\<lambda>f. fst (projectField L r [] f)" for L r
proof
  fix s :: "'a programs" and x :: string
  assume ok: "cacheOk L s"
  note e = eval_result [OF ok] and k = eval_keeps [OF ok]
  show "fst (projectField L r s x) = fst (projectField L r [] x)"
    using e [of _ r "[]"] unfolding projectField_def
    by (auto simp: Let_def split: option.split sum.split prod.split) (metis fst_conv sum.distinct(1) sum.inject)+
  show "cacheOk L (snd (projectField L r s x))"
    using ok k [of _ r "[]"] unfolding projectField_def
    by (auto simp: Let_def split: option.split sum.split prod.split) (metis snd_conv)+
qed

interpretation em: transparent "evalMap L v" "cacheOk L" "\<lambda>r. fst (evalMap L v [] r)" for L v
proof
  fix s :: "'a programs" and x :: gv
  assume ok: "cacheOk L s"
  note nil = cacheOk_Nil [OF ok]
  define t where "t = trimSuffix '')'' (trimPrefix ''('' (trimSpace v))"
  define fs where "fs = splitProjection (trimSpace (take (length t - 2) (drop 1 t)))"
  have l: "fst (forS (projectField L x) s fs) = fst (forS (projectField L x) [] fs)"
    using pf.loop_spec [OF ok] pf.loop_spec [OF nil] by simp
  show "fst (evalMap L v s x) = fst (evalMap L v [] x)"
    using l eval_result [OF ok, of t x "[]"]
    unfolding evalMap_def Let_def t_def [symmetric] fs_def [symmetric]
    by (auto split: prod.split sum.split)
  show "cacheOk L (snd (evalMap L v s x))"
    using pf.loop_spec [OF ok, of x fs] eval_keeps [OF ok, of t x "[]"]
    unfolding evalMap_def Let_def t_def [symmetric] fs_def [symmetric]
    by (auto split: prod.split sum.split)
qed

interpretation fr: transparent "filterRow L p" "cacheOk L" "\<lambda>r. fst (filterRow L p [] r)" for L p
proof
  fix s :: "'a programs" and x :: gv
  assume ok: "cacheOk L s"
  define rs where "rs = (case asArr x of Some rs \<Rightarrow> rs | None \<Rightarrow> [x])"
  define r where "r = (case rs of [] \<Rightarrow> VNil | r # _ \<Rightarrow> r)"
  show "fst (filterRow L p s x) = fst (filterRow L p [] x)"
    using eval_result [OF ok, of p r rs]
    unfolding filterRow_def EvaluatePredicate_def Let_def rs_def [symmetric] r_def [symmetric]
    by (auto split: prod.split sum.split option.split)
  show "cacheOk L (snd (filterRow L p s x))"
    using eval_keeps [OF ok, of p r rs]
    unfolding filterRow_def EvaluatePredicate_def Let_def rs_def [symmetric] r_def [symmetric]
    by (auto split: prod.split sum.split option.split)
qed

interpretation fo: transparent "formulaRow L cfg" "cacheOk L" "\<lambda>r. fst (formulaRow L cfg [] r)" for L cfg
proof
  fix s :: "'a programs" and x :: gv
  assume ok: "cacheOk L s"
  note e = eval_result [OF ok, of _ x "[]"] and k = eval_keeps [OF ok, of _ x "[]"]
  show "fst (formulaRow L cfg s x) = fst (formulaRow L cfg [] x)"
    using e [of "stringValue (objGet cfg ''expression'')"]
    by (auto simp: formulaRow_def split: prod.split sum.split option.split)
  show "cacheOk L (snd (formulaRow L cfg s x))"
    using ok k [of "stringValue (objGet cfg ''expression'')"]
    by (auto simp: formulaRow_def split: prod.split sum.split option.split)
qed

lemma handled_cong:
  "fst x = fst y \<Longrightarrow> ok (snd x) \<Longrightarrow> fst (handled x) = fst (handled y) \<and> ok (snd (handled x))"
  by (auto simp: handled_def split: prod.split sum.split)

lemma plainErr_cong:
  "fst x = fst y \<Longrightarrow> ok (snd x) \<Longrightarrow> fst (plainErr x) = fst (plainErr y) \<and> ok (snd (plainErr x))"
  by (auto simp: plainErr_def split: prod.split sum.split)

lemma mapHandler_transparent:
  assumes ok: "cacheOk L c"
  shows "fst (mapHandler L c input cfg) = fst (mapHandler L [] input cfg) \<and> cacheOk L (snd (mapHandler L c input cfg))"
proof (cases "records input")
  case (Inr rows)
  let ?f = "evalMap L (stringValue (objGet cfg ''expression''))"
  have "fst (forS ?f c rows) = fst (forS ?f [] rows)" "cacheOk L (snd (forS ?f c rows))"
    using em.loop_spec [OF ok] em.loop_spec [OF cacheOk_Nil [OF ok]] by simp_all
  then have "fst (plainErr (forS ?f c rows)) = fst (plainErr (forS ?f [] rows))" "cacheOk L (snd (plainErr (forS ?f c rows)))"
    using plainErr_cong [where ok = "cacheOk L"] by blast+
  then show ?thesis unfolding mapHandler_def Inr sum.case by (rule handled_cong)
qed (use ok in \<open>simp add: mapHandler_def\<close>)

lemma filterHandler_transparent:
  assumes ok: "cacheOk L c"
  shows "fst (filterHandler L c input cfg) = fst (filterHandler L [] input cfg) \<and> cacheOk L (snd (filterHandler L c input cfg))"
proof (cases "records input")
  case (Inr rows)
  let ?f = "filterRow L (stringValue (objGet cfg ''predicate''))"
  have "fst (forS ?f c rows) = fst (forS ?f [] rows)" "cacheOk L (snd (forS ?f c rows))"
    using fr.loop_spec [OF ok] fr.loop_spec [OF cacheOk_Nil [OF ok]] by simp_all
  then have "fst (plainErr (forS ?f c rows)) = fst (plainErr (forS ?f [] rows))" "cacheOk L (snd (plainErr (forS ?f c rows)))"
    using plainErr_cong [where ok = "cacheOk L"] by blast+
  then show ?thesis unfolding filterHandler_def Inr sum.case by (auto split: prod.split sum.split)
qed (use ok in \<open>simp add: filterHandler_def\<close>)

lemma formulaHandler_transparent:
  assumes ok: "cacheOk L c"
  shows "fst (formulaHandler L c input cfg) = fst (formulaHandler L [] input cfg) \<and> cacheOk L (snd (formulaHandler L c input cfg))"
proof (cases "records input")
  case (Inr rows)
  have "fst (forS (formulaRow L cfg) c rows) = fst (forS (formulaRow L cfg) [] rows)"
    "cacheOk L (snd (forS (formulaRow L cfg) c rows))"
    using fo.loop_spec [OF ok] fo.loop_spec [OF cacheOk_Nil [OF ok]] by simp_all
  then show ?thesis unfolding formulaHandler_def Inr sum.case by (rule handled_cong)
qed (use ok in \<open>simp add: formulaHandler_def\<close>)

text \<open>The cache of compiled programs changes nothing but time. When compilation depends on a record
  only through its type, then for every cache that the worker can hold, a step returns exactly what it
  returns with an empty cache, and the cache it leaves is again such a cache: every entry is the
  program that compiling its text gives, and there are at most 1024 entries.\<close>

theorem program_cache_transparent:
  assumes "cacheOk L cache"
  shows "fst (Handle L search unmarshal others cache name input cfg) = fst (Handle L search unmarshal others [] name input cfg)
    \<and> cacheOk L (snd (Handle L search unmarshal others cache name input cfg))
    \<and> length (snd (Handle L search unmarshal others cache name input cfg)) \<le> 1024"
proof -
  have "fst (Handle L search unmarshal others cache name input cfg) = fst (Handle L search unmarshal others [] name input cfg)
    \<and> cacheOk L (snd (Handle L search unmarshal others cache name input cfg))"
    using mapHandler_transparent [OF assms] filterHandler_transparent [OF assms] formulaHandler_transparent [OF assms] assms
    unfolding Handle_def by (auto split: option.split)
  then show ?thesis by (simp add: cacheOk_def maxCompiledPrograms_def)
qed

text \<open>A library whose only expressions are field names, for the witnesses.\<close>

definition fieldLib :: "string exprLib" where
  "fieldLib = \<lparr>lib_Compile = (\<lambda>e r rs. if hasPrefix ''r.'' e then Ok (drop 2 e) else Err ''syntax''),
     lib_Run = (\<lambda>p r rs. Ok (objGet (rowObj r) p))\<rparr>"

lemma fieldLib_ok: "cacheOk fieldLib [(programKey ''r.a'' (VObj []), ''a'')]"
proof -
  have "lib_Compile fieldLib ''r.a'' (VObj []) [] = Ok ''a''"
    by (simp add: fieldLib_def hasPrefix_def)
  then show ?thesis
    by (auto simp: cacheOk_def exprByType_def maxCompiledPrograms_def) (simp add: fieldLib_def)
qed

theorem program_cache_transparent_witness:
  "fst (Handle fieldLib (\<lambda>_ _. Err []) (\<lambda>_. None) Map.empty [(programKey ''r.a'' (VObj []), ''a'')]
      ''transform.map'' (VArr [VObj [(''a'', VInt 7)]]) [(''expression'', VStr ''r.a'')])
    = Ok (VArr [VInt 7], None)"
proof -
  have "fst (Handle fieldLib (\<lambda>_ _. Err []) (\<lambda>_. None) Map.empty []
      ''transform.map'' (VArr [VObj [(''a'', VInt 7)]]) [(''expression'', VStr ''r.a'')])
    = Ok (VArr [VInt 7], None)"
    by code_simp
  then show ?thesis
    using program_cache_transparent [OF fieldLib_ok, of "\<lambda>_ _. Err []" "\<lambda>_. None" Map.empty "''transform.map''"
        "VArr [VObj [(''a'', VInt 7)]]" "[(''expression'', VStr ''r.a'')]"]
    by (rule conjunct1 [THEN trans, rotated])
qed

section \<open>Dedupe\<close>

text \<open>The distinct elements of a list in the order of their first occurrence.\<close>

definition firsts :: "'a list \<Rightarrow> 'a list" where
  "firsts xs = rev (remdups (rev xs))"

lemma firsts_snoc: "firsts (xs @ [x]) = (if x \<in> set xs then firsts xs else firsts xs @ [x])"
  by (simp add: firsts_def)

lemma set_firsts [simp]: "set (firsts xs) = set xs"
  by (simp add: firsts_def)

lemma distinct_firsts [simp]: "distinct (firsts xs)"
  by (simp add: firsts_def)

text \<open>The row of a group that is kept: the last one, or the first that is not \<^verbatim>\<open>nil\<close>.\<close>

definition pickRow :: "bool \<Rightarrow> gv list \<Rightarrow> gv" where
  "pickRow keepLast rows =
     (if keepLast then last rows else (case filter (\<lambda>r. r \<noteq> VNil) rows of [] \<Rightarrow> VNil | r # _ \<Rightarrow> r))"

abbreviation sameKey :: "string list \<Rightarrow> string \<Rightarrow> gv list \<Rightarrow> gv list" where
  "sameKey keys k rows \<equiv> filter (\<lambda>r. keyHash keys r = k) rows"

lemma pickRow_snoc:
  "pickRow keepLast (rs @ [r]) = (if keepLast \<or> rs = [] \<or> pickRow keepLast rs = VNil then r else pickRow keepLast rs)"
proof (cases keepLast)
  case True
  then show ?thesis by (simp add: pickRow_def)
next
  case False
  show ?thesis
  proof (cases "filter (\<lambda>r. r \<noteq> VNil) rs")
    case Nil
    then show ?thesis using False by (simp add: pickRow_def)
  next
    case (Cons h t)
    then have "h \<in> set (filter (\<lambda>r. r \<noteq> VNil) rs)" by simp
    then have "h \<noteq> VNil" "rs \<noteq> []" by auto
    then show ?thesis using False Cons by (simp add: pickRow_def)
  qed
qed

lemma dedupe_fold:
  "fold (dedupeStep keys keepLast) rows ([], []) = (byKey, order) \<Longrightarrow>
     order = firsts (map (keyHash keys) rows) \<and>
     (\<forall>k. map_of byKey k = (if k \<in> keyHash keys ` set rows then Some (pickRow keepLast (sameKey keys k rows)) else None))"
proof (induction rows arbitrary: byKey order rule: rev_induct)
  case Nil
  then show ?case by (simp add: firsts_def)
next
  case (snoc x rows)
  obtain bk od where st: "fold (dedupeStep keys keepLast) rows ([], []) = (bk, od)" by fastforce
  note IH = snoc.IH [OF st]
  let ?k = "keyHash keys x"
  have step: "(byKey, order) = dedupeStep keys keepLast x (bk, od)" using snoc.prems st by simp
  have seen: "map_of bk ?k = None \<longleftrightarrow> ?k \<notin> keyHash keys ` set rows" using IH by simp
  have "order = firsts (map (keyHash keys) (rows @ [x]))"
    using step IH seen by (auto simp: dedupeStep_def Let_def firsts_snoc)
  moreover have "map_of byKey k =
      (if k \<in> keyHash keys ` set (rows @ [x]) then Some (pickRow keepLast (sameKey keys k (rows @ [x]))) else None)" for k
  proof (cases "k = ?k")
    case False
    then have "map_of byKey k = map_of bk k" using step by (auto simp: dedupeStep_def Let_def)
    then show ?thesis using False IH by auto
  next
    case True
    have get: "objGet bk ?k = (if ?k \<in> keyHash keys ` set rows then pickRow keepLast (sameKey keys ?k rows) else VNil)"
      using IH by (simp add: objGet_def)
    have emp: "sameKey keys ?k rows = [] \<longleftrightarrow> ?k \<notin> keyHash keys ` set rows"
      by (auto simp: filter_empty_conv) (metis imageI)
    show ?thesis
      using step get emp IH True by (auto simp: dedupeStep_def Let_def pickRow_snoc split: if_splits)
  qed
  ultimately show ?case by blast
qed

text \<open>Deduplication within a batch: with key fields configured, the output has exactly one row for
  every combination of key values, in the order in which the combinations first occur; the row kept
  is the last of its group when the step keeps the last one, and otherwise the first that is not null.\<close>

theorem dedupe_one_row_per_key:
  assumes "keyFields (objGet cfg ''key'') = keys" "keys \<noteq> []"
  shows "dedupeHandler (VArr rows) cfg =
      Ok (VArr (map (\<lambda>k. pickRow (objGet cfg ''keep'' = VStr ''last'') (sameKey keys k rows))
                  (firsts (map (keyHash keys) rows))), None)
    \<and> map (\<lambda>k. keyHash keys (pickRow (objGet cfg ''keep'' = VStr ''last'') (sameKey keys k rows)))
        (firsts (map (keyHash keys) rows)) = firsts (map (keyHash keys) rows)"
proof -
  let ?last = "objGet cfg ''keep'' = VStr ''last''"
  obtain byKey order where st: "fold (dedupeStep keys ?last) rows ([], []) = (byKey, order)" by fastforce
  note D = dedupe_fold [OF st]
  have "map (objGet byKey) order = map (\<lambda>k. pickRow ?last (sameKey keys k rows)) (firsts (map (keyHash keys) rows))"
    using D by (auto simp: objGet_def)
  moreover have "keyHash keys (pickRow ?last (sameKey keys k rows)) = k" if "k \<in> keyHash keys ` set rows" for k
  proof -
    have ne: "sameKey keys k rows \<noteq> []" using that by (auto simp: filter_empty_conv)
    have "pickRow ?last rs \<in> set rs" if "rs \<noteq> []" for rs
    proof (cases "filter (\<lambda>r. r \<noteq> VNil) rs")
      case Nil
      then show ?thesis using that by (cases rs) (auto simp: pickRow_def split: if_splits)
    next
      case (Cons h t)
      then have "h \<in> set rs" by (metis filter_is_subset list.set_intros(1) subsetD)
      then show ?thesis using that Cons by (auto simp: pickRow_def)
    qed
    from this [OF ne] show ?thesis by simp
  qed
  then have "map (\<lambda>k. keyHash keys (pickRow ?last (sameKey keys k rows))) (firsts (map (keyHash keys) rows))
      = firsts (map (keyHash keys) rows)"
    by (intro map_idI) simp
  ultimately show ?thesis
    using assms st by (simp add: dedupeHandler_def records_def Let_def)
qed

theorem dedupe_one_row_per_key_witness:
  "dedupeHandler (VArr [VObj [(''id'', VInt 1), (''v'', VInt 1)], VObj [(''id'', VInt 2)], VObj [(''id'', VInt 1), (''v'', VInt 2)]])
      [(''key'', VStr ''id''), (''keep'', VStr ''last'')]
    = Ok (VArr [VObj [(''id'', VInt 1), (''v'', VInt 2)], VObj [(''id'', VInt 2)]], None)"
proof -
  let ?rows = "[VObj [(''id'', VInt 1), (''v'', VInt 1)], VObj [(''id'', VInt 2)], VObj [(''id'', VInt 1), (''v'', VInt 2)]]"
  let ?cfg = "[(''key'', VStr ''id''), (''keep'', VStr ''last'')]"
  have k: "keyFields (objGet ?cfg ''key'') = [''id'']" by code_simp
  have "map (\<lambda>k. pickRow (objGet ?cfg ''keep'' = VStr ''last'') (sameKey [''id''] k ?rows)) (firsts (map (keyHash [''id'']) ?rows))
      = [VObj [(''id'', VInt 1), (''v'', VInt 2)], VObj [(''id'', VInt 2)]]"
    by code_simp
  then show ?thesis
    using dedupe_one_row_per_key [OF k, of ?rows] by simp
qed

section \<open>Contracts\<close>

text \<open>What a contract asks of a record, as the schema is read.\<close>

definition conforms :: "obj \<Rightarrow> gv \<Rightarrow> bool" where
  "conforms schema raw \<longleftrightarrow>
     (\<exists>row. raw = VObj row \<and>
       (\<forall>(field, spec)\<in>set schema.
          if objGet row field = VNil then hasSuffix ''?'' (stringValue spec)
          else contractMatches (objGet row field) (trimSuffix ''?'' (stringValue spec))))"

lemma rowProblems_conforms: "rowProblems schema raw = [] \<longleftrightarrow> conforms schema raw"
proof (cases raw)
  case (VObj row)
  have "fieldProblem row fs = [] \<longleftrightarrow>
      (if objGet row (fst fs) = VNil then hasSuffix ''?'' (stringValue (snd fs))
       else contractMatches (objGet row (fst fs)) (trimSuffix ''?'' (stringValue (snd fs))))" for fs
    by (simp add: fieldProblem_def Let_def)
  then show ?thesis
    by (simp add: VObj rowProblems_def conforms_def case_prod_beta)
qed (simp_all add: rowProblems_def conforms_def)

lemma contractLoop_warn:
  "contractLoop schema False i rows valid rejected =
     Ok (valid @ filter (conforms schema) rows, rejected + int (length (filter (\<lambda>r. \<not> conforms schema r) rows)))"
  by (induction rows arbitrary: i valid rejected) (simp_all add: Let_def rowProblems_conforms)

lemma contractLoop_fail:
  "(\<forall>r\<in>set rows. conforms schema r) \<Longrightarrow> contractLoop schema True i rows valid rejected = Ok (valid @ rows, rejected)"
  "\<not> (\<forall>r\<in>set rows. conforms schema r) \<Longrightarrow>
     \<exists>msg. contractLoop schema True i rows valid rejected = Err (schemaError msg)"
  by (induction rows arbitrary: i valid rejected) (auto simp: Let_def rowProblems_conforms)

text \<open>C11: A contract step that does not fail on violations passes exactly the conforming records on, in
  order, and its quality counts add up to the number of input records; a step that fails on violations
  returns all records when every one conforms, and otherwise the permanent schema error, never a part.\<close>

theorem contract_partition:
  assumes "objOrJSON unmarshal (objGet cfg ''schemaJson'') = Some schema"
  shows "(if objGet cfg ''onViolation'' \<in> {VStr ''fail'', VNil} then
       (if \<forall>r\<in>set rows. conforms schema r
        then contractHandler unmarshal (VArr rows) cfg = Ok (VArr rows, Some (contractMeta rows 0))
        else \<exists>msg. contractHandler unmarshal (VArr rows) cfg = Err (PermanentError SchemaValidationError msg))
     else \<exists>failed. contractHandler unmarshal (VArr rows) cfg
            = Ok (VArr (filter (conforms schema) rows), Some (contractMeta (filter (conforms schema) rows) failed))
          \<and> int (length (filter (conforms schema) rows)) + failed = int (length rows))"
proof -
  have len: "int (length (filter (conforms schema) rows)) + int (length (filter (\<lambda>r. \<not> conforms schema r) rows)) = int (length rows)"
    using sum_length_filter_compl [of "conforms schema" rows] by linarith
  show ?thesis
  proof (cases "objGet cfg ''onViolation'' \<in> {VStr ''fail'', VNil}")
    case True
    have h: "contractHandler unmarshal (VArr rows) cfg =
        (case contractLoop schema True 0 rows [] 0 of Err e \<Rightarrow> Err e
         | Ok (valid, rejected) \<Rightarrow> Ok (VArr valid, Some (contractMeta valid rejected)))"
      using assms True by (auto simp: contractHandler_def records_def Let_def)
    show ?thesis
    proof (cases "\<forall>r\<in>set rows. conforms schema r")
      case all: True
      then show ?thesis using h True contractLoop_fail(1) [OF all, of 0 "[]" 0] by simp
    next
      case some: False
      from contractLoop_fail(2) [OF some, of 0 "[]" 0] obtain msg
        where "contractLoop schema True 0 rows [] 0 = Err (schemaError msg)" ..
      then show ?thesis using h True some by (simp add: schemaError_def)
    qed
  next
    case False
    then show ?thesis
      using assms contractLoop_warn [of schema 0 rows "[]" 0] len
      by (auto simp: contractHandler_def records_def Let_def)
  qed
qed

theorem contract_partition_witness:
  "contractHandler (\<lambda>_. None) (VArr [VObj [(''id'', VInt 1)], VObj [], VInt 3])
      [(''schemaJson'', VObj [(''id'', VStr ''number'')]), (''onViolation'', VStr ''drop'')]
    = Ok (VArr [VObj [(''id'', VInt 1)]], Some (contractMeta [VObj [(''id'', VInt 1)]] 2))"
proof -
  let ?cfg = "[(''schemaJson'', VObj [(''id'', VStr ''number'')]), (''onViolation'', VStr ''drop'')]"
  let ?rows = "[VObj [(''id'', VInt 1)], VObj [], VInt 3]"
  have s: "objOrJSON (\<lambda>_. None) (objGet ?cfg ''schemaJson'') = Some [(''id'', VStr ''number'')]" by code_simp
  have f: "filter (conforms [(''id'', VStr ''number'')]) ?rows = [VObj [(''id'', VInt 1)]]"
    by (simp add: conforms_def objGet_def hasSuffix_def contractMatches_def trimSuffix_def)
  have v: "objGet ?cfg ''onViolation'' \<notin> {VStr ''fail'', VNil}" by code_simp
  show ?thesis
    using contract_partition [OF s, of ?rows] v unfolding f by auto
qed

section \<open>Merges\<close>

lemma unionLoop_json:
  "distinct (map jsonMarshal (unionLoop seen rows))
   \<and> jsonMarshal ` set (unionLoop seen rows) = jsonMarshal ` set rows - set seen
   \<and> subseq (unionLoop seen rows) rows"
proof (induction rows arbitrary: seen)
  case Nil
  then show ?case by simp
next
  case (Cons row rows)
  show ?case
  proof (cases "jsonMarshal row \<in> set seen")
    case True
    then show ?thesis using Cons.IH [of seen] by (auto simp: Let_def)
  next
    case False
    then show ?thesis using Cons.IH [of "jsonMarshal row # seen"] by (auto simp: Let_def)
  qed
qed

text \<open>Fan-in of branches without a key: \<^verbatim>\<open>concat\<close>, also when no strategy is set, returns every row of
  every branch in order; \<^verbatim>\<open>union\<close> returns a subsequence of those rows in which no two have the same
  JSON text and in which the text of every row occurs.\<close>

theorem merge_concat_union:
  "MergeArrays [] arrays joinKey = Ok (concat arrays)
   \<and> MergeArrays ''concat'' arrays joinKey = Ok (concat arrays)
   \<and> (\<exists>out. MergeArrays ''union'' arrays joinKey = Ok out \<and> subseq out (concat arrays)
        \<and> distinct (map jsonMarshal out) \<and> jsonMarshal ` set out = jsonMarshal ` set (concat arrays))"
  using unionLoop_json [of "[]" "concat arrays"] by (simp add: MergeArrays_def)

text \<open>The last row of a side that has a given join key; the index of a side is that function.\<close>

definition lastWith :: "string \<Rightarrow> string \<Rightarrow> obj list \<Rightarrow> obj option" where
  "lastWith joinKey k rows =
     (let found = filter (\<lambda>row. stringValue (objGet row joinKey) = k) rows
      in if found = [] then None else Some (last found))"

lemma lastWith_snoc:
  "lastWith joinKey k (rows @ [row]) =
     (if stringValue (objGet row joinKey) = k then Some row else lastWith joinKey k rows)"
  by (simp add: lastWith_def Let_def)

lemma forR_objectRow: "forR (\<lambda>(i, raw). objectRow raw step i) (enumerate n (map VObj rows)) = Ok rows"
  by (induction rows arbitrary: n) (auto simp: objectRow_def)

lemma objectRows_VObj: "objectRows step (map VObj rows) = Ok rows"
  by (simp add: objectRows_def forR_objectRow)

lemma map_of_index:
  "map_of (fold (\<lambda>row out. AList.update (stringValue (objGet row joinKey)) row out) rows []) k = lastWith joinKey k rows"
proof (induction rows rule: rev_induct)
  case Nil
  then show ?case by (simp add: lastWith_def Let_def)
next
  case (snoc row rows)
  then show ?case by (simp add: update_conv' lastWith_snoc)
qed

lemma distinct_index:
  "distinct (map fst (fold (\<lambda>row out. AList.update (f row) row out) rows ([] :: rowIndex)))"
  by (induction rows rule: rev_induct) (auto intro: distinct_update)

lemma indexRows_VObj:
  obtains ix where "indexRows joinKey (map VObj rows) = Ok ix" "\<And>k. map_of ix k = lastWith joinKey k rows"
    "distinct (map fst ix)"
  using map_of_index distinct_index [of "\<lambda>row. stringValue (objGet row joinKey)" rows]
  by (simp add: indexRows_def objectRows_VObj)

abbreviation rowKey :: "string \<Rightarrow> obj \<Rightarrow> string" where
  "rowKey joinKey row \<equiv> stringValue (objGet row joinKey)"

lemma lastWith_None_iff: "lastWith joinKey k rows = None \<longleftrightarrow> k \<notin> rowKey joinKey ` set rows"
  by (auto simp: lastWith_def Let_def filter_empty_conv)

lemma lastWith_distinct:
  assumes "distinct (map (rowKey joinKey) rows)" "row \<in> set rows"
  shows "lastWith joinKey (rowKey joinKey row) rows = Some row"
  using assms
proof (induction rows rule: rev_induct)
  case Nil
  then show ?case by simp
next
  case (snoc r rows)
  then show ?case by (auto simp: lastWith_snoc)
qed

lemma merge_join_eq:
  assumes "joinKey \<noteq> []" "strategy \<in> {''leftJoin'', ''innerJoin''}"
  shows "MergeArrays strategy [map VObj as, map VObj bs] joinKey =
     Ok (map (\<lambda>row. VObj (mergeObjs (lastWith joinKey (rowKey joinKey row) as) (lastWith joinKey (rowKey joinKey row) bs)))
          (filter (\<lambda>row. \<not> (strategy = ''innerJoin'' \<and> lastWith joinKey (rowKey joinKey row) bs = None)) as))"
proof -
  obtain ai where a: "indexRows joinKey (map VObj as) = Ok ai" "\<And>k. map_of ai k = lastWith joinKey k as"
    using indexRows_VObj [of joinKey as] by metis
  obtain bi where b: "indexRows joinKey (map VObj bs) = Ok bi" "\<And>k. map_of bi k = lastWith joinKey k bs"
    using indexRows_VObj [of joinKey bs] by metis
  have keys: "joinKeys strategy joinKey (map VObj as) ai bi = map (rowKey joinKey) as"
    using assms(2) by (auto simp: joinKeys_def rowObj_def)
  have "MergeArrays strategy [map VObj as, map VObj bs] joinKey = Ok (joinRows strategy ai bi (map (rowKey joinKey) as))"
    using assms a(1) b(1) keys unfolding MergeArrays_def by (auto simp: Let_def)
  then show ?thesis
    by (simp add: joinRows_def a(2) b(2) filter_map o_def)
qed

lemma map_of_mergeObjs:
  assumes "\<And>l. left = Some l \<Longrightarrow> wf_obj l" "\<And>r. right = Some r \<Longrightarrow> wf_obj r"
  shows "map_of (mergeObjs left right) = map_of (case left of Some l \<Rightarrow> l | None \<Rightarrow> []) ++ map_of (case right of Some r \<Rightarrow> r | None \<Rightarrow> [])"
  using assms by (cases left; cases right) (auto simp: mergeObjs_def Let_def map_of_fold_objPut)

text \<open>A join of two branches whose left rows have distinct keys returns, in the order of the left
  branch, one row for every left row (left join) or for every left row that has a match (inner join);
  the row holds the fields of the left row, overridden by those of the last right row with the key.\<close>

theorem merge_join_distinct:
  assumes "joinKey \<noteq> []" "strategy \<in> {''leftJoin'', ''innerJoin''}"
    and "distinct (map (rowKey joinKey) as)" "\<forall>row\<in>set as \<union> set bs. wf_obj row"
  shows "\<exists>out. MergeArrays strategy [map VObj as, map VObj bs] joinKey = Ok (map VObj out)
    \<and> list_all2 (\<lambda>row res. map_of res = map_of row ++
          (case lastWith joinKey (rowKey joinKey row) bs of None \<Rightarrow> Map.empty | Some r \<Rightarrow> map_of r))
        (filter (\<lambda>row. strategy = ''leftJoin'' \<or> rowKey joinKey row \<in> rowKey joinKey ` set bs) as) out"
proof -
  define kept where "kept = filter (\<lambda>row. strategy = ''leftJoin'' \<or> rowKey joinKey row \<in> rowKey joinKey ` set bs) as"
  have in_bs: "r \<in> set bs" if "lastWith joinKey k bs = Some r" for k r
  proof -
    let ?found = "filter (\<lambda>row. rowKey joinKey row = k) bs"
    have "?found \<noteq> []" "r = last ?found" using that by (auto simp: lastWith_def Let_def split: if_splits)
    then have "r \<in> set ?found" using last_in_set by metis
    then show ?thesis by simp
  qed
  have kept: "filter (\<lambda>row. \<not> (strategy = ''innerJoin'' \<and> lastWith joinKey (rowKey joinKey row) bs = None)) as = kept"
    using assms(2) unfolding kept_def lastWith_None_iff by (intro filter_cong) auto
  define out where "out = map (\<lambda>row. mergeObjs (Some row) (lastWith joinKey (rowKey joinKey row) bs)) kept"
  have "MergeArrays strategy [map VObj as, map VObj bs] joinKey = Ok (map VObj out)"
    unfolding merge_join_eq [OF assms(1,2)] kept out_def
    using lastWith_distinct [OF assms(3)] by (auto simp: kept_def)
  moreover have "list_all2 (\<lambda>row res. map_of res = map_of row ++
      (case lastWith joinKey (rowKey joinKey row) bs of None \<Rightarrow> Map.empty | Some r \<Rightarrow> map_of r)) kept out"
  proof -
    have "map_of (mergeObjs (Some row) (lastWith joinKey (rowKey joinKey row) bs)) = map_of row ++
        (case lastWith joinKey (rowKey joinKey row) bs of None \<Rightarrow> Map.empty | Some r \<Rightarrow> map_of r)" if "row \<in> set kept" for row
    proof -
      have "row \<in> set as" using that by (simp add: kept_def)
      then show ?thesis
        using assms(4) in_bs by (subst map_of_mergeObjs) (auto split: option.split)
    qed
    then show ?thesis by (simp add: out_def list_all2_map2 list.rel_refl_strong)
  qed
  ultimately show ?thesis unfolding kept_def by blast
qed

theorem merge_join_distinct_witness:
  "MergeArrays ''innerJoin''
     [map VObj [[(''id'', VInt 1), (''o'', VStr ''A'')], [(''id'', VInt 2)]], map VObj [[(''id'', VInt 1), (''c'', VStr ''Z'')]]] ''id''
    = Ok [VObj [(''id'', VInt 1), (''o'', VStr ''A''), (''c'', VStr ''Z'')]]"
proof -
  let ?as = "[[(''id'', VInt 1), (''o'', VStr ''A'')], [(''id'', VInt 2)]]" and ?bs = "[[(''id'', VInt 1), (''c'', VStr ''Z'')]]"
  have d: "distinct (map (rowKey ''id'') ?as)" by code_simp
  have f: "filter (\<lambda>row. ''innerJoin'' = ''leftJoin'' \<or> rowKey ''id'' row \<in> rowKey ''id'' ` set ?bs) ?as
      = [[(''id'', VInt 1), (''o'', VStr ''A'')]]"
    by code_simp
  have "\<exists>out. MergeArrays ''innerJoin'' [map VObj ?as, map VObj ?bs] ''id'' = Ok (map VObj out) \<and> length out = 1"
    using merge_join_distinct [of "''id''" "''innerJoin''" ?as ?bs] d unfolding f
    by (auto dest!: list_all2_lengthD)
  moreover have "MergeArrays ''innerJoin'' [map VObj ?as, map VObj ?bs] ''id''
      = Ok [VObj [(''id'', VInt 1), (''o'', VStr ''A''), (''c'', VStr ''Z'')]]" by code_simp
  ultimately show ?thesis by blast
qed

text \<open>When two left rows share a key, both output rows of a left join are built from the last of them:
  the other row is lost and the last one is repeated.\<close>

theorem join_repeats_last_left_row:
  "MergeArrays ''leftJoin''
     [[VObj [(''customer'', VInt 7), (''order'', VStr ''A'')], VObj [(''customer'', VInt 7), (''order'', VStr ''B'')]],
      [VObj [(''customer'', VInt 7), (''name'', VStr ''Ann'')]]] ''customer''
   = Ok [VObj [(''customer'', VInt 7), (''order'', VStr ''B''), (''name'', VStr ''Ann'')],
         VObj [(''customer'', VInt 7), (''order'', VStr ''B''), (''name'', VStr ''Ann'')]]"
  by code_simp

section \<open>Flattening\<close>

lemma size_entry: "kv \<in> set m \<Longrightarrow> size (snd kv) < size_list (size_prod (\<lambda>_. 0) size) m"
  by (induction m) (auto simp: size_prod_def)

lemma size_element: "(i, x) \<in> set (enumerate n xs) \<Longrightarrow> size x < Suc (size_list size xs)"
  by (induction xs arbitrary: n) fastforce+

text \<open>
  The reference for \<^verbatim>\<open>flattenValue\<close>: the list of the leaves of a value with their names, in the order
  in which they are visited. It does not accumulate into a map.
\<close>

function leavesObj :: "flattenConfig \<Rightarrow> obj \<Rightarrow> string \<Rightarrow> int \<Rightarrow> obj"
  and leaves :: "flattenConfig \<Rightarrow> gv \<Rightarrow> string \<Rightarrow> int \<Rightarrow> obj" where
  "leavesObj F m pre depth = concat (map (\<lambda>kv. leaves F (snd kv) (flatName F pre (fst kv)) depth) m)"
| "leaves F item name depth =
     (case item of
        VObj m \<Rightarrow> (if depth \<ge> fl_maxDepth F then [(name, item)] else leavesObj F m name (depth + 1))
      | VArr xs \<Rightarrow>
          (if fl_arrayPolicy F = ''stringify'' then [(name, VStr (jsonMarshal item))]
           else if fl_arrayPolicy F = ''keep'' \<or> depth \<ge> fl_maxDepth F then [(name, item)]
           else concat (map (\<lambda>(i, x). case x of
                     VObj child \<Rightarrow> leavesObj F child (name @ fl_delimiter F @ itoa (int i)) (depth + 1)
                   | _ \<Rightarrow> [(name @ fl_delimiter F @ itoa (int i), x)]) (enumerate 0 xs)))
      | _ \<Rightarrow> [(name, item)])"
  by pat_completeness auto

termination
  by (relation "measure (\<lambda>x. case x of
        Inl (F, m, _) \<Rightarrow> 2 * size_list (size_prod (\<lambda>_. 0) size) m + 1
      | Inr (F, item, _) \<Rightarrow> 2 * size item + 1)")
    (auto dest: size_entry size_element)

declare leavesObj.simps [simp del] leaves.simps [simp del] flattenItem.simps [simp del]

abbreviation putAll :: "obj \<Rightarrow> obj \<Rightarrow> obj" where
  "putAll \<equiv> fold (\<lambda>(key, item) out. objPut key item out)"

text \<open>The leaves of one element of an array.\<close>

abbreviation elementLeaves :: "flattenConfig \<Rightarrow> string \<Rightarrow> int \<Rightarrow> nat \<times> gv \<Rightarrow> obj" where
  "elementLeaves F name depth \<equiv> \<lambda>(i, x). case x of
     VObj child \<Rightarrow> leavesObj F child (name @ fl_delimiter F @ itoa (int i)) (depth + 1)
   | _ \<Rightarrow> [(name @ fl_delimiter F @ itoa (int i), x)]"

lemma flatten_is_putAll:
  "flattenValue F m pre depth out = putAll (leavesObj F m pre depth) out"
  "flattenItem F item name depth out = putAll (leaves F item name depth) out"
  "flattenElements F xs name i depth out = putAll (concat (map (elementLeaves F name depth) (enumerate i xs))) out"
proof (induction F m pre depth out and F item name depth out and F xs name i depth out
    rule: flattenValue_flattenItem_flattenElements.induct)
  case (1 F pre depth out)
  then show ?case by (simp add: leavesObj.simps)
next
  case (2 F kv rest pre depth out)
  then show ?case by (simp add: leavesObj.simps)
next
  case (3 F item name depth out)
  show ?case
  proof (cases item)
    case (VArr xs)
    then show ?thesis using "3.IH"
      by (auto simp: flattenItem.simps [of F "VArr xs"] leaves.simps [of F "VArr xs"])
  next
    case (VObj m)
    then show ?thesis using "3.IH"
      by (auto simp: flattenItem.simps [of F "VObj m"] leaves.simps [of F "VObj m"])
  qed (simp_all add: flattenItem.simps leaves.simps)
next
  case (4 F name i depth out)
  then show ?case by simp
next
  case (5 F element xs name i depth out)
  show ?case
    using "5.IH"(2) "5.IH"(1) [OF refl] by (cases element) (auto simp: Let_def)
qed

lemma putAll_keys: "fst ` set (putAll ls out) = fst ` set ls \<union> fst ` set out"
proof (induction ls arbitrary: out)
  case Nil
  then show ?case by simp
next
  case (Cons kv ls)
  then show ?case using dom_objPut by (cases kv) (simp add: dom_objPut)
qed

lemma putAll_subset: "set (putAll ls out) \<subseteq> set ls \<union> set out"
proof (induction ls arbitrary: out)
  case Nil
  then show ?case by simp
next
  case (Cons kv ls)
  obtain k v where "kv = (k, v)" by (cases kv)
  then show ?case using Cons.IH [of "objPut k v out"] set_objPut_subset [of k v out] by auto
qed

lemma putAll_distinct: "distinct (map fst (putAll ls []))"
  using distinct_fold_objPut [of "[]" "\<lambda>k. k" "\<lambda>v. v" ls] by simp

definition flatOf :: "obj \<Rightarrow> obj \<Rightarrow> bool" where
  "flatOf ls out \<longleftrightarrow> distinct (map fst out) \<and> set out \<subseteq> set ls \<and> fst ` set out = fst ` set ls
     \<and> (distinct (map fst ls) \<longrightarrow> out = ls)"

lemma flatOf_putAll: "flatOf ls (putAll ls [])"
  using putAll_subset [of ls "[]"] putAll_keys [of ls "[]"] fold_objPut_append [of "[]" ls] putAll_distinct [of ls]
  by (simp add: flatOf_def)

text \<open>Flattening a record writes its leaves and nothing else: for every row the output has one entry for
  the name of every leaf, every entry is a leaf, and when no two leaves have the same name the output
  is exactly the list of the leaves.\<close>

theorem flatten_writes_leaves:
  "\<exists>outs. flattenHandler (VArr (map VObj rows)) cfg = Ok (VArr (map VObj outs), None)
    \<and> list_all2 (\<lambda>row out. flatOf (leavesObj (flattenConfigOf cfg) row [] 0) out) rows outs"
proof (intro exI conjI)
  let ?out = "\<lambda>row. putAll (leavesObj (flattenConfigOf cfg) row [] 0) []"
  show "flattenHandler (VArr (map VObj rows)) cfg = Ok (VArr (map VObj (map ?out rows)), None)"
    by (simp add: flattenHandler_def records_def objectRows_VObj flatten_is_putAll)
  show "list_all2 (\<lambda>row out. flatOf (leavesObj (flattenConfigOf cfg) row [] 0) out) rows (map ?out rows)"
    by (simp add: list_all2_map2 list.rel_refl_strong flatOf_putAll)
qed

end
