(* ===== verification/Sql.thy ===== *)
theory Sql
  imports Transforms
begin

text \<open>
  The database connectors (\<^verbatim>\<open>internal/connectors/databases.go\<close>): identifiers and quoting, the page query
  of a cursor-paged source and the cut of its result, the fetch handlers of the SQL sources and of
  MongoDB, and the sinks with their batches and transactions.

  A database is a parameter: \<open>connect\<close> yields a connection for a connector instance, \<open>query\<close> the
  rows of a query text with its arguments, and a transaction is a state that \<open>execTx\<close> advances and
  \<open>commitTx\<close> makes permanent. A \<^verbatim>\<open>time.Time\<close> that a driver returns is represented by its text.
\<close>

section \<open>Identifiers\<close>

text \<open>\<^verbatim>\<open>^[A-Za-z_][A-Za-z0-9_]*$\<close>\<close>

definition identifierOK :: "string \<Rightarrow> bool" where
  "identifierOK s =
     (case s of [] \<Rightarrow> False
      | c # cs \<Rightarrow> (isLetter c \<or> c = CHR ''_'') \<and> list_all (\<lambda>c. isLetter c \<or> isDigit c \<or> c = CHR ''_'') cs)"

definition snowflakePathOK :: "string \<Rightarrow> bool" where
  "snowflakePathOK s = list_all identifierOK (splitOn (CHR ''.'') s)"

text \<open>The table pattern of the ClickHouse sink: one or two identifiers.\<close>

definition clickhouseTableOK :: "string \<Rightarrow> bool" where
  "clickhouseTableOK s = (snowflakePathOK s \<and> length (splitOn (CHR ''.'') s) \<le> 2)"

abbreviation dquote :: string where "dquote \<equiv> [char_of (34 :: nat)]"
abbreviation backtick :: string where "backtick \<equiv> [char_of (96 :: nat)]"

definition quoteIdentifier :: "string \<Rightarrow> (string, string) result" where
  "quoteIdentifier v =
     (if \<not> identifierOK v then Err (''invalid identifier '' @ goQuote v) else Ok (dquote @ v @ dquote))"

definition quotePath :: "string \<Rightarrow> (string, string) result" where
  "quotePath v = map_sum id (join ''.'') (forR quoteIdentifier (splitOn (CHR ''.'') v))"

text \<open>\<^verbatim>\<open>envInt32\<close>: \<open>v\<close> is the variable; a value that is not a positive 32-bit number is ignored.\<close>

definition parseInt :: "string \<Rightarrow> int option" where
  "parseInt s = (case splitSign s of (sg, ds) \<Rightarrow> if ds \<noteq> [] \<and> list_all isDigit ds then Some (sg * digitsVal ds) else None)"

definition envInt32 :: "string \<Rightarrow> int \<Rightarrow> int" where
  "envInt32 v fallback =
     (case parseInt v of
        Some n \<Rightarrow> if n \<le> maxInt32 \<and> n > 0 then n else fallback
      | None \<Rightarrow> fallback)"

section \<open>Sizes\<close>

definition dbBatchSize :: int where "dbBatchSize = 500"
definition postgresMaxBindParams :: int where "postgresMaxBindParams = 65535"

definition postgresBatchRows :: "int \<Rightarrow> (string, int) result" where
  "postgresBatchRows columnCount =
     (if columnCount < 1 then Err ''sink.postgres: records must contain at least one column''
      else let rows = postgresMaxBindParams div columnCount in
        if rows < 1 then Err (''sink.postgres: '' @ itoa columnCount @ '' columns exceed the bind-parameter limit'')
        else Ok (min dbBatchSize rows))"

definition boundedPageSize :: "gv list \<Rightarrow> int" where
  "boundedPageSize vs =
     (let page = truncFloat (firstNumber (vs @ [VInt 1000])) in
      if page < 1 then 1 else if page > 10000 then 10000 else page)"

section \<open>Page queries\<close>

record incrementalPlan =
  plan_query :: string
  plan_args :: "gv list"
  plan_keyed :: bool

record sqlDialect =
  dia_quote :: "string \<Rightarrow> (string, string) result"
  dia_placeholder :: "nat \<Rightarrow> string"

definition postgresDialect :: sqlDialect where
  "postgresDialect = \<lparr>dia_quote = quoteIdentifier, dia_placeholder = (\<lambda>n. CHR ''$'' # itoa (int n))\<rparr>"

definition mysqlDialect :: sqlDialect where
  "mysqlDialect = \<lparr>dia_quote = (\<lambda>v. if \<not> identifierOK v then Err (''invalid identifier '' @ goQuote v) else Ok (backtick @ v @ backtick)),
     dia_placeholder = (\<lambda>_. ''?'')\<rparr>"

text \<open>The first condition of a page with its arguments: where the page resumes.\<close>

definition resumeCondition ::
  "sqlDialect \<Rightarrow> string \<Rightarrow> string \<Rightarrow> obj \<Rightarrow> IngestionConfig option \<Rightarrow> string list \<times> gv list" where
  "resumeCondition d quotedCursor quotedKey cursor ingestion =
     (if objGet cursor ''value'' \<noteq> VNil \<and> quotedKey \<noteq> [] \<and> objGet cursor ''key'' \<noteq> VNil then
        ([''('' @ quotedCursor @ '','' @ quotedKey @ '')>('' @ dia_placeholder d 1 @ '','' @ dia_placeholder d 2 @ '')''],
         [objGet cursor ''value'', objGet cursor ''key''])
      else if objGet cursor ''value'' \<noteq> VNil \<and> quotedKey \<noteq> [] then
        ([quotedCursor @ ''>='' @ dia_placeholder d 1], [objGet cursor ''value''])
      else if objGet cursor ''value'' \<noteq> VNil then
        ([quotedCursor @ ''>'' @ dia_placeholder d 1], [objGet cursor ''value''])
      else case ingestion of
        Some ing \<Rightarrow>
          (if ing_Mode ing = ''backfill'' then ([quotedCursor @ ''>='' @ dia_placeholder d 1], [VStr (ing_BackfillStart ing)])
           else ([], []))
      | None \<Rightarrow> ([], []))"

definition windowEnd ::
  "sqlDialect \<Rightarrow> string \<Rightarrow> IngestionConfig option \<Rightarrow> string list \<times> gv list \<Rightarrow> string list \<times> gv list" where
  "windowEnd d quotedCursor ingestion wa =
     (case ingestion of
        Some ing \<Rightarrow>
          (if ing_BackfillEnd ing \<noteq> [] then
             (fst wa @ [quotedCursor @ ''<'' @ dia_placeholder d (length (snd wa) + 1)], snd wa @ [VStr (ing_BackfillEnd ing)])
           else wa)
      | None \<Rightarrow> wa)"

definition planIncrementalPage ::
  "sqlDialect \<Rightarrow> string \<Rightarrow> string \<Rightarrow> string \<Rightarrow> string \<Rightarrow> obj \<Rightarrow> IngestionConfig option \<Rightarrow> int \<Rightarrow> (connError, incrementalPlan) result" where
  "planIncrementalPage d columns table cursorColumn keyColumn cursor ingestion page =
     (case dia_quote d cursorColumn of
        Err _ \<Rightarrow> Err (configError ''cursorColumn must be a column name'')
      | Ok quotedCursor \<Rightarrow>
          (case (if keyColumn \<noteq> [] then dia_quote d keyColumn else Ok []) of
             Err _ \<Rightarrow> Err (configError ''keyColumn must be a column name'')
           | Ok quotedKey \<Rightarrow>
               (case windowEnd d quotedCursor ingestion (resumeCondition d quotedCursor quotedKey cursor ingestion) of
                  (conds, args) \<Rightarrow>
                    let order = quotedCursor @ '' ASC'' @ (if quotedKey \<noteq> [] then '','' @ quotedKey @ '' ASC'' else [])
                    in Ok \<lparr>plan_query =
                            ''SELECT '' @ columns @ '' FROM '' @ table
                              @ (if conds \<noteq> [] then '' WHERE '' @ join '' AND '' conds else [])
                              @ '' ORDER BY '' @ order @ '' LIMIT '' @ dia_placeholder d (length args + 1),
                          plan_args = args @ [VInt (page + 1)],
                          plan_keyed = (quotedKey \<noteq> [])\<rparr>)))"

section \<open>Cutting a page\<close>

definition rowValue :: "gv \<Rightarrow> string \<Rightarrow> gv" where
  "rowValue row column =
     (case map_of (rowObj row) column of
        Some v \<Rightarrow> v
      | None \<Rightarrow> (case filter (\<lambda>kv. equalFold (fst kv) column) (rowObj row) of [] \<Rightarrow> VNil | kv # _ \<Rightarrow> snd kv))"

definition hasColumn :: "gv \<Rightarrow> string \<Rightarrow> bool" where
  "hasColumn row column = list_ex (\<lambda>kv. fst kv = column \<or> equalFold (fst kv) column) (rowObj row)"

definition sameCursorValue :: "gv \<Rightarrow> gv \<Rightarrow> bool" where
  "sameCursorValue a b = (if a = VNil \<or> b = VNil then a = VNil \<and> b = VNil else sprint a = sprint b)"

text \<open>The loop that moves the cut before the rows that tie with the first row of the next page.\<close>

fun cutTies :: "(gv \<Rightarrow> bool) \<Rightarrow> gv list \<Rightarrow> nat \<Rightarrow> nat" where
  "cutTies tie rows 0 = 0"
| "cutTies tie rows (Suc n) = (if tie (rows ! n) then cutTies tie rows n else Suc n)"

definition nextCursor :: "gv list \<Rightarrow> string \<Rightarrow> string \<Rightarrow> obj \<Rightarrow> bool \<Rightarrow> obj" where
  "nextCursor rows cursorColumn keyColumn cursor keyed =
     (if rows = [] then cloneMap cursor
      else let next1 = objPut ''value'' (rowValue (last rows) cursorColumn) (cloneMap cursor)
           in if keyed then objPut ''key'' (rowValue (last rows) keyColumn) next1 else next1)"

definition finishIncrementalPage ::
  "gv list \<Rightarrow> int \<Rightarrow> string \<Rightarrow> string \<Rightarrow> obj \<Rightarrow> bool \<Rightarrow> (connError, gv list \<times> obj \<times> bool) result" where
  "finishIncrementalPage rows page cursorColumn keyColumn cursor keyed =
     (let hasMore = int (length rows) > page in
      if rows \<noteq> [] \<and> \<not> hasColumn (rows ! 0) cursorColumn
      then Err (configError (''cursorColumn '' @ goQuote cursorColumn @ '' is not in the query result''))
      else if hasMore then
        let lookahead = rowValue (rows ! nat page) cursorColumn; cut = take (nat page) rows in
        if keyed then Ok (cut, nextCursor cut cursorColumn keyColumn cursor keyed, True)
        else
          let n = cutTies (\<lambda>row. sameCursorValue (rowValue row cursorColumn) lookahead) cut (length cut) in
          if n = 0 then
            Err (configError (''more than '' @ itoa page @ '' rows share '' @ cursorColumn @ '' value '' @ sprint lookahead
                   @ ''; set keyColumn to a unique column or raise pageSize''))
          else Ok (take n cut, nextCursor (take n cut) cursorColumn keyColumn cursor keyed, True)
      else Ok (rows, nextCursor rows cursorColumn keyColumn cursor keyed, False))"

section \<open>The SQL sources\<close>

definition fetched :: "(connError, gv list \<times> obj \<times> bool) result \<Rightarrow> (connError, SourceResult) result" where
  "fetched r = map_sum id (\<lambda>(rows, nxt, more). \<lparr>sr_Records = rows, sr_NextCursor = nxt, sr_HasMore = more, sr_LagRecords = 0\<rparr>) r"

definition selectColumns :: "string \<Rightarrow> (string, string) result" where
  "selectColumns v =
     (if v \<noteq> [] \<and> v \<noteq> ''*''
      then map_sum id (join '','') (forR (\<lambda>item. quoteIdentifier (trimSpace item)) (splitOn (CHR '','') v))
      else Ok ''*'')"

definition runPage ::
  "(string \<Rightarrow> (connError, 'db) result) \<Rightarrow> ('db \<Rightarrow> string \<Rightarrow> gv list \<Rightarrow> (connError, gv list) result) \<Rightarrow> string \<Rightarrow>
   incrementalPlan \<Rightarrow> (connError, gv list) result" where
  "runPage connect query connId plan =
     (case connect connId of Err e \<Rightarrow> Err e | Ok db \<Rightarrow> query db (plan_query plan) (plan_args plan))"

definition postgresFetch ::
  "(string \<Rightarrow> (connError, 'db) result) \<Rightarrow> ('db \<Rightarrow> string \<Rightarrow> gv list \<Rightarrow> (connError, gv list) result) \<Rightarrow>
   SourceParams \<Rightarrow> (connError, SourceResult) result" where
  "postgresFetch connect query p =
     (let cfg = sp_Config p; cursorColumn = stringValue (objGet cfg ''cursorColumn'');
          keyColumn = stringValue (objGet cfg ''keyColumn'')
      in case quotePath (stringValue (objGet cfg ''table'')) of
           Err e \<Rightarrow> Err (configError (''postgres.fetch: '' @ e))
         | Ok table \<Rightarrow>
             if cursorColumn = [] then Err (configError ''postgres.fetch: cursorColumn required'')
             else
               let page = boundedPageSize [case sp_Ingestion p of Some ing \<Rightarrow> VInt (ing_PageSize ing) | None \<Rightarrow> VNil,
                                           objGet cfg ''pageSize'']
               in case selectColumns (stringValue (objGet cfg ''columns'')) of
                    Err e \<Rightarrow> Err (configError (''postgres.fetch: '' @ e))
                  | Ok columns \<Rightarrow>
                      (case planIncrementalPage postgresDialect columns table cursorColumn keyColumn (sp_Cursor p) (sp_Ingestion p) page of
                         Err e \<Rightarrow> Err e
                       | Ok plan \<Rightarrow>
                           (case runPage connect query (stringValue (objGet cfg ''connectionId'')) plan of
                              Err e \<Rightarrow> Err e
                            | Ok rows \<Rightarrow> fetched (finishIncrementalPage rows page cursorColumn keyColumn (sp_Cursor p) (plan_keyed plan)))))"

definition mysqlFetch ::
  "(string \<Rightarrow> (connError, 'db) result) \<Rightarrow> ('db \<Rightarrow> string \<Rightarrow> gv list \<Rightarrow> (connError, gv list) result) \<Rightarrow>
   SourceParams \<Rightarrow> (connError, SourceResult) result" where
  "mysqlFetch connect query p =
     (let cfg = sp_Config p; table = stringValue (objGet cfg ''table''); column = stringValue (objGet cfg ''cursorColumn'');
          page = boundedPageSize [objGet cfg ''pageSize'']; keyColumn = stringValue (objGet cfg ''keyColumn'')
      in if \<not> identifierOK table \<or> \<not> identifierOK column
         then Err (configError ''mysql.fetch: invalid table or cursor column'')
         else case planIncrementalPage mysqlDialect ''*'' (backtick @ table @ backtick) column keyColumn (sp_Cursor p) None page of
                Err e \<Rightarrow> Err e
              | Ok plan \<Rightarrow>
                  (case runPage connect query (stringValue (objGet cfg ''connectionId'')) plan of
                     Err e \<Rightarrow> Err e
                   | Ok rows \<Rightarrow> fetched (finishIncrementalPage rows page column keyColumn (sp_Cursor p) (plan_keyed plan))))"

definition snowflakeQuery :: "string \<Rightarrow> string \<Rightarrow> obj \<Rightarrow> int \<Rightarrow> string \<times> gv list" where
  "snowflakeQuery table column cursor page =
     (let resume = (column \<noteq> [] \<and> objGet cursor ''value'' \<noteq> VNil)
      in (''SELECT * FROM '' @ table @ (if resume then '' WHERE '' @ column @ ''>?'' else [])
            @ (if column \<noteq> [] then '' ORDER BY '' @ column else []) @ '' LIMIT '' @ itoa (page + 1),
          if resume then [objGet cursor ''value''] else []))"

definition snowflakeFetch ::
  "(string \<Rightarrow> (connError, 'db) result) \<Rightarrow> ('db \<Rightarrow> string \<Rightarrow> gv list \<Rightarrow> (connError, gv list) result) \<Rightarrow>
   SourceParams \<Rightarrow> (connError, SourceResult) result" where
  "snowflakeFetch connect query p =
     (let cfg = sp_Config p; table = stringValue (objGet cfg ''table''); column = stringValue (objGet cfg ''cursorColumn'');
          page = boundedPageSize [objGet cfg ''pageSize'']
      in if \<not> snowflakePathOK table then Err (PlainError ''snowflake.fetch: invalid table'')
         else if column \<noteq> [] \<and> \<not> identifierOK column then Err (PlainError ''snowflake.fetch: invalid cursor column'')
         else case connect (stringValue (objGet cfg ''connectionId'')) of
                Err e \<Rightarrow> Err e
              | Ok db \<Rightarrow>
                  (case query db (fst (snowflakeQuery table column (sp_Cursor p) page)) (snd (snowflakeQuery table column (sp_Cursor p) page)) of
                     Err e \<Rightarrow> Err e
                   | Ok rows \<Rightarrow>
                       if column = [] then
                         (if int (length rows) > page
                          then Err (configError (''snowflake.fetch: table has more than '' @ itoa page
                                 @ '' rows; set cursorColumn so pages can be read in order''))
                          else Ok \<lparr>sr_Records = rows, sr_NextCursor = cloneMap (sp_Cursor p), sr_HasMore = False, sr_LagRecords = 0\<rparr>)
                       else fetched (finishIncrementalPage rows page column [] (sp_Cursor p) False)))"

section \<open>MongoDB\<close>

text \<open>
  BSON documents: a value is a JSON value or an ObjectID by its hexadecimal text; a filter is a document
  of comparisons. \<open>toExt\<close> and \<open>fromExt\<close> are the Extended JSON codec, \<open>oid\<close> parses an ObjectID.
\<close>

datatype bson = BVal gv | BObjectID string

datatype mongoFilter =
    MAll
  | MGreater string bson
  | MEqGreater string bson string bson
  | MOr mongoFilter mongoFilter

definition mongoPageFilter ::
  "(string \<Rightarrow> bson option) \<Rightarrow> (string \<Rightarrow> (connError, bson) result) \<Rightarrow> string \<Rightarrow> obj \<Rightarrow> (connError, mongoFilter) result" where
  "mongoPageFilter oid fromExt field cursor =
     (let valueJSON = stringValue (objGet cursor ''valueExtJson''); idJSON = stringValue (objGet cursor ''idExtJson'')
      in if valueJSON = [] then
           (if objGet cursor ''value'' \<noteq> VNil then
              Ok (MGreater field
                   (case objGet cursor ''value'' of
                      VStr hex \<Rightarrow> (if field = ''_id'' then (case oid hex of Some i \<Rightarrow> i | None \<Rightarrow> BVal (VStr hex)) else BVal (VStr hex))
                    | v \<Rightarrow> BVal v))
            else Ok MAll)
         else case fromExt valueJSON of
                Err e \<Rightarrow> Err e
              | Ok v \<Rightarrow>
                  if field = ''_id'' \<or> idJSON = [] then Ok (MGreater field v)
                  else (case fromExt idJSON of
                          Err e \<Rightarrow> Err e
                        | Ok i \<Rightarrow> Ok (MOr (MGreater field v) (MEqGreater field v ''_id'' i))))"

definition mongoSort :: "string \<Rightarrow> string list" where
  "mongoSort field = (if field \<noteq> ''_id'' then [field, ''_id''] else [field])"

text \<open>
  \<open>docsOf filter sort limit\<close> are the documents the collection returns; a document is its fields, and
  \<open>toJSON\<close> is the value that \<^verbatim>\<open>json.Marshal\<close> followed by \<^verbatim>\<open>json.Unmarshal\<close> makes of it.
\<close>

definition docField :: "(string \<times> bson) list \<Rightarrow> string \<Rightarrow> bson" where
  "docField doc field = (case map_of doc field of Some b \<Rightarrow> b | None \<Rightarrow> BVal VNil)"

definition mongoNext ::
  "(bson \<Rightarrow> (connError, string) result) \<Rightarrow> ((string \<times> bson) list \<Rightarrow> obj) \<Rightarrow> string \<Rightarrow> obj \<Rightarrow> (string \<times> bson) list list \<Rightarrow>
   (connError, obj) result" where
  "mongoNext toExt toJSON field cursor docs =
     (if docs = [] then Ok (cloneMap cursor)
      else case toExt (docField (last docs) field) of
        Err e \<Rightarrow> Err e
      | Ok v \<Rightarrow>
          (case toExt (docField (last docs) ''_id'') of
             Err e \<Rightarrow> Err e
           | Ok i \<Rightarrow> Ok (objPut ''idExtJson'' (VStr i) (objPut ''valueExtJson'' (VStr v)
                          (objPut ''value'' (objGet (toJSON (last docs)) field) (cloneMap cursor))))))"

definition mongoFetch ::
  "(string \<Rightarrow> (connError, mongoFilter \<Rightarrow> string list \<Rightarrow> int \<Rightarrow> (connError, (string \<times> bson) list list) result) result) \<Rightarrow>
   (string \<Rightarrow> bson option) \<Rightarrow> (string \<Rightarrow> (connError, bson) result) \<Rightarrow> (bson \<Rightarrow> (connError, string) result) \<Rightarrow>
   ((string \<times> bson) list \<Rightarrow> obj) \<Rightarrow> SourceParams \<Rightarrow> (connError, SourceResult) result" where
  "mongoFetch connect oid fromExt toExt toJSON p =
     (let cfg = sp_Config p in
      case connect (stringValue (objGet cfg ''connectionId'')) of
        Err e \<Rightarrow> Err e
      | Ok docsOf \<Rightarrow>
          let field = firstString [objGet cfg ''cursorField'', VStr ''_id'']; page = boundedPageSize [objGet cfg ''pageSize'']
          in case mongoPageFilter oid fromExt field (sp_Cursor p) of
               Err e \<Rightarrow> Err e
             | Ok filt \<Rightarrow>
                 (case docsOf filt (mongoSort field) (page + 1) of
                    Err e \<Rightarrow> Err e
                  | Ok found \<Rightarrow>
                      let hasMore = int (length found) > page; docs = (if hasMore then take (nat page) found else found)
                      in case mongoNext toExt toJSON field (sp_Cursor p) docs of
                           Err e \<Rightarrow> Err e
                         | Ok nxt \<Rightarrow> Ok \<lparr>sr_Records = map (\<lambda>d. VObj (toJSON d)) docs, sr_NextCursor = nxt,
                                          sr_HasMore = hasMore, sr_LagRecords = 0\<rparr>))"

section \<open>Sinks\<close>

definition allColumns :: "obj list \<Rightarrow> string list" where
  "allColumns rows = sort (remdups (concat (map (map fst) rows)))"

definition rowArgs :: "string list \<Rightarrow> obj \<Rightarrow> gv list" where
  "rowArgs columns row = map (objGet row) columns"

text \<open>The groups of placeholders of a PostgreSQL batch: \<open>$n\<close> counts the arguments so far.\<close>

definition dollarGroup :: "nat \<Rightarrow> nat \<Rightarrow> string" where
  "dollarGroup width i =
     ''('' @ join '','' (map (\<lambda>j. CHR ''$'' # itoa (int (i * width + j + 1))) [0..<width]) @ '')''"

definition postgresBatch :: "string \<Rightarrow> string list \<Rightarrow> string list \<Rightarrow> string \<Rightarrow> obj list \<Rightarrow> string \<times> gv list" where
  "postgresBatch table columns quoted conflictClause batch =
     (''INSERT INTO '' @ table @ '' ('' @ join '','' quoted @ '') VALUES ''
        @ join '','' (map (dollarGroup (length columns)) [0..<length batch]) @ conflictClause,
      concat (map (rowArgs columns) batch))"

text \<open>\<^verbatim>\<open>quotedKey, _ := quoteIdentifier(key)\<close>: the empty text for a name that is not an identifier.\<close>

definition quoteOrEmpty :: "string \<Rightarrow> string" where
  "quoteOrEmpty v = (case quoteIdentifier v of Ok q \<Rightarrow> q | Err _ \<Rightarrow> [])"

definition conflictClause :: "string list \<Rightarrow> string list \<Rightarrow> string" where
  "conflictClause conflict columns =
     (if conflict = [] then []
      else let updates = map (\<lambda>c. quoteOrEmpty c @ ''=EXCLUDED.'' @ quoteOrEmpty c) (filter (\<lambda>c. \<not> contains conflict c) columns)
           in '' ON CONFLICT ('' @ join '','' (map quoteOrEmpty conflict) @ '') DO ''
                @ (if updates \<noteq> [] then ''UPDATE SET '' @ join '','' updates else ''NOTHING''))"

text \<open>The rows in batches of \<open>n\<close>.\<close>

function batches :: "nat \<Rightarrow> 'a list \<Rightarrow> 'a list list" where
  "batches n xs = (if xs = [] \<or> n = 0 then [] else take n xs # batches n (drop n xs))"
  by pat_completeness auto
termination
  by (relation "measure (\<lambda>(n, xs). length xs)") auto

declare batches.simps [simp del]

text \<open>
  A database with transactions: \<^verbatim>\<open>Begin\<close>, \<^verbatim>\<open>Exec\<close> of a statement with arguments, and \<^verbatim>\<open>Commit\<close>, which
  returns the new database; an aborted transaction leaves the database as it was.
\<close>

record ('db, 'tx) txDB =
  tx_Begin :: "'db \<Rightarrow> (connError, 'tx) result"
  tx_Exec :: "'tx \<Rightarrow> string \<Rightarrow> gv list \<Rightarrow> (connError, 'tx) result"
  tx_Commit :: "'tx \<Rightarrow> (connError, 'db) result"

fun execAll :: "('db, 'tx) txDB \<Rightarrow> 'tx \<Rightarrow> (string \<times> gv list) list \<Rightarrow> (connError, 'tx) result" where
  "execAll D tx [] = Ok tx"
| "execAll D tx (st # sts) = (case tx_Exec D tx (fst st) (snd st) of Err e \<Rightarrow> Err e | Ok tx' \<Rightarrow> execAll D tx' sts)"

text \<open>\<^verbatim>\<open>insertBatchesInTx\<close>: the error, if any, and the database afterwards.\<close>

definition insertInTx :: "('db, 'tx) txDB \<Rightarrow> 'db \<Rightarrow> (string \<times> gv list) list \<Rightarrow> connError option \<times> 'db" where
  "insertInTx D db sts =
     (case tx_Begin D db of
        Err e \<Rightarrow> (Some e, db)
      | Ok tx \<Rightarrow>
          (case execAll D tx sts of
             Err e \<Rightarrow> (Some e, db)
           | Ok tx' \<Rightarrow> (case tx_Commit D tx' of Err e \<Rightarrow> (Some e, db) | Ok db' \<Rightarrow> (None, db'))))"

definition postgresStatements :: "gv \<Rightarrow> obj \<Rightarrow> (connError, (string \<times> gv list) list) result" where
  "postgresStatements input cfg =
     (case recordsMaps input of
        Err e \<Rightarrow> Err e
      | Ok rows \<Rightarrow>
          if rows = [] then Ok []
          else case quotePath (stringValue (objGet cfg ''table'')) of
                 Err e \<Rightarrow> Err (PlainError e)
               | Ok table \<Rightarrow>
                   (case postgresBatchRows (int (length (allColumns rows))) of
                      Err e \<Rightarrow> Err (PlainError e)
                    | Ok batchSize \<Rightarrow>
                        (case forR quoteIdentifier (allColumns rows) of
                           Err e \<Rightarrow> Err (PlainError e)
                         | Ok quoted \<Rightarrow>
                             Ok (map (postgresBatch table (allColumns rows) quoted
                                        (conflictClause (keyFields (objGet cfg ''conflictKey'')) (allColumns rows)))
                                     (batches (nat batchSize) rows)))))"

definition postgresSink :: "('db, 'tx) txDB \<Rightarrow> (string \<Rightarrow> connError option) \<Rightarrow> 'db \<Rightarrow> gv \<Rightarrow> obj \<Rightarrow> connError option \<times> 'db" where
  "postgresSink D connect db input cfg =
     (case postgresStatements input cfg of
        Err e \<Rightarrow> (Some e, db)
      | Ok sts \<Rightarrow>
          if sts = [] then (None, db)
          else (case connect (stringValue (objGet cfg ''connectionId'')) of
                  Some e \<Rightarrow> (Some e, db)
                | None \<Rightarrow> insertInTx D db sts))"

definition questionGroup :: "nat \<Rightarrow> string" where
  "questionGroup width = ''('' @ join '','' (replicate width ''?'') @ '')''"

definition mysqlUpdateClause :: "string list \<Rightarrow> string list \<Rightarrow> string" where
  "mysqlUpdateClause keys columns =
     (let updates = map (\<lambda>c. backtick @ c @ backtick @ ''=VALUES('' @ backtick @ c @ backtick @ '')'') (filter (\<lambda>c. \<not> contains keys c) columns)
      in if updates \<noteq> [] then '' ON DUPLICATE KEY UPDATE '' @ join '','' updates else [])"

definition questionBatch :: "string \<Rightarrow> string list \<Rightarrow> string list \<Rightarrow> string \<Rightarrow> obj list \<Rightarrow> string \<times> gv list" where
  "questionBatch table columns quoted clause batch =
     (''INSERT INTO '' @ table @ '' ('' @ join '','' quoted @ '') VALUES ''
        @ join '','' (map (\<lambda>_. questionGroup (length columns)) batch) @ clause,
      concat (map (rowArgs columns) batch))"

definition mysqlStatements :: "string \<Rightarrow> string list \<Rightarrow> string list \<Rightarrow> obj list \<Rightarrow> (string \<times> gv list) list" where
  "mysqlStatements table keys columns rows =
     map (questionBatch (backtick @ table @ backtick) columns (map (\<lambda>c. backtick @ c @ backtick) columns)
            (mysqlUpdateClause keys columns))
       (batches (nat dbBatchSize) rows)"

definition mysqlSink :: "('db, 'tx) txDB \<Rightarrow> (string \<Rightarrow> connError option) \<Rightarrow> 'db \<Rightarrow> gv \<Rightarrow> obj \<Rightarrow> connError option \<times> 'db" where
  "mysqlSink D connect db input cfg =
     (case recordsMaps input of
        Err e \<Rightarrow> (Some e, db)
      | Ok rows \<Rightarrow>
          let table = stringValue (objGet cfg ''table''); columns = allColumns rows in
          if rows = [] then (None, db)
          else if \<not> identifierOK table then (Some (PlainError ''sink.mysql: invalid table''), db)
          else (case connect (stringValue (objGet cfg ''connectionId'')) of
                  Some e \<Rightarrow> (Some e, db)
                | None \<Rightarrow>
                    if \<not> list_all identifierOK columns then (Some (PlainError ''invalid column''), db)
                    else insertInTx D db (mysqlStatements table (keyFields (objGet cfg ''primaryKey'')) columns rows)))"

definition snowflakeStatements :: "gv \<Rightarrow> obj \<Rightarrow> (connError, (string \<times> gv list) list) result" where
  "snowflakeStatements input cfg =
     (case recordsMaps input of
        Err e \<Rightarrow> Err e
      | Ok rows \<Rightarrow>
          let table = stringValue (objGet cfg ''table''); columns = allColumns rows in
          if rows = [] then Ok []
          else if \<not> snowflakePathOK table then Err (PlainError ''sink.snowflake: invalid table'')
          else if \<not> list_all identifierOK columns then Err (PlainError ''sink.snowflake: invalid column'')
          else Ok (map (questionBatch table columns columns []) (batches (nat dbBatchSize) rows)))"

definition snowflakeSink :: "('db, 'tx) txDB \<Rightarrow> (string \<Rightarrow> connError option) \<Rightarrow> 'db \<Rightarrow> gv \<Rightarrow> obj \<Rightarrow> connError option \<times> 'db" where
  "snowflakeSink D connect db input cfg =
     (case snowflakeStatements input cfg of
        Err e \<Rightarrow> (Some e, db)
      | Ok sts \<Rightarrow>
          if sts = [] then (None, db)
          else (case connect (stringValue (objGet cfg ''connectionId'')) of
                  Some e \<Rightarrow> (Some e, db) | None \<Rightarrow> insertInTx D db sts))"

text \<open>
  \<^verbatim>\<open>mongoSink\<close>: one bulk write of upserts per 500 rows, not in a transaction; a bulk write is a map from
  the collection to the new one.
\<close>

fun mongoWrites ::
  "('coll \<Rightarrow> (string \<times> gv \<times> obj) list \<Rightarrow> (connError, 'coll) result) \<Rightarrow> 'coll \<Rightarrow> (string \<times> gv \<times> obj) list list \<Rightarrow> connError option \<times> 'coll" where
  "mongoWrites bulk coll [] = (None, coll)"
| "mongoWrites bulk coll (models # rest) =
     (case bulk coll models of Err e \<Rightarrow> (Some e, coll) | Ok coll' \<Rightarrow> mongoWrites bulk coll' rest)"

definition mongoSink ::
  "(string \<Rightarrow> connError option) \<Rightarrow> ('coll \<Rightarrow> (string \<times> gv \<times> obj) list \<Rightarrow> (connError, 'coll) result) \<Rightarrow> 'coll \<Rightarrow> gv \<Rightarrow> obj \<Rightarrow>
   connError option \<times> 'coll" where
  "mongoSink connect bulk coll input cfg =
     (case recordsMaps input of
        Err e \<Rightarrow> (Some e, coll)
      | Ok rows \<Rightarrow>
          if rows = [] then (None, coll)
          else case connect (stringValue (objGet cfg ''connectionId'')) of
                 Some e \<Rightarrow> (Some e, coll)
               | None \<Rightarrow>
                   let key = firstString [objGet cfg ''keyField'', VStr ''_id''] in
                   mongoWrites bulk coll (batches (nat dbBatchSize) (map (\<lambda>row. (key, objGet row key, row)) rows)))"

text \<open>
  \<^verbatim>\<open>clickhouseSink\<close>: the endpoint and the body of the one request; \<open>escape\<close> is \<^verbatim>\<open>url.QueryEscape\<close> and
  \<open>validate\<close> the egress check of the endpoint.
\<close>

definition clickhouseRequest ::
  "(string \<Rightarrow> string) \<Rightarrow> (string \<Rightarrow> string option) \<Rightarrow> (string \<Rightarrow> (connError, obj) result) \<Rightarrow> gv \<Rightarrow> obj \<Rightarrow>
   (connError, (string \<times> string) option) result" where
  "clickhouseRequest escape validate credential input cfg =
     (case recordsMaps input of
        Err e \<Rightarrow> Err e
      | Ok rows \<Rightarrow>
          if rows = [] then Ok None
          else case credential (stringValue (objGet cfg ''connectionId'')) of
                 Err e \<Rightarrow> Err e
               | Ok inst \<Rightarrow>
                   let extra = rowObj (objGet inst ''extra''); table = stringValue (objGet cfg ''table'');
                       endpoint = trimSuffix ''/'' (stringValue (objGet extra ''url'')) @ ''/?query=''
                                    @ escape (''INSERT INTO '' @ table @ '' FORMAT JSONEachRow'')
                   in if \<not> clickhouseTableOK table then Err (PlainError ''sink.clickhouse: invalid table'')
                      else case validate endpoint of
                             Some e \<Rightarrow> Err (PlainError (''sink.clickhouse: '' @ e))
                           | None \<Rightarrow> Ok (Some (endpoint, concat (map (\<lambda>row. jsonMarshal (VObj row) @ [char_of (10 :: nat)]) rows))))"

end
