(* ===== verification/SqlLaws.thy ===== *)
theory SqlLaws
  imports Sql
begin

text \<open>
  What the database connectors guarantee: page queries whose text never depends on data, bounds of
  pages and batches, sinks that write all or nothing, and paging that returns every row exactly once.
\<close>

section \<open>Quoting and query texts\<close>

lemma quoteIdentifier_Ok: "quoteIdentifier v = Ok q \<longleftrightarrow> identifierOK v \<and> q = dquote @ v @ dquote"
  by (auto simp: quoteIdentifier_def)

lemma list_all2_guarded: "list_all2 (\<lambda>x y. A x \<and> y = f x) xs ys \<longleftrightarrow> list_all A xs \<and> ys = map f xs"
  by (induction xs arbitrary: ys) (auto simp: list_all2_Cons1)

lemma forR_quote: "forR quoteIdentifier vs = Ok qs \<longleftrightarrow> list_all identifierOK vs \<and> qs = map (\<lambda>v. dquote @ v @ dquote) vs"
  unfolding forR_Ok_iff quoteIdentifier_Ok by (rule list_all2_guarded)

text \<open>The characters of an identifier: letters, digits and the underscore.\<close>

definition wordChar :: "char \<Rightarrow> bool" where
  "wordChar c \<longleftrightarrow> isLetter c \<or> isDigit c \<or> c = CHR ''_''"

lemma identifier_chars: "identifierOK v \<Longrightarrow> v \<noteq> [] \<and> list_all wordChar v"
  by (cases v) (auto simp: identifierOK_def wordChar_def list_all_iff)

text \<open>A table path that is accepted consists of identifiers; the text put into the query is these
  identifiers, each in double quotes, joined by points, so it contains no quote, space, comment or
  other character of the input than letters, digits and underscores.\<close>

theorem quoted_path_safe:
  assumes "quotePath v = Ok q"
  shows "q = join ''.'' (map (\<lambda>p. dquote @ p @ dquote) (splitOn (CHR ''.'') v))
    \<and> (\<forall>p\<in>set (splitOn (CHR ''.'') v). p \<noteq> [] \<and> list_all wordChar p)"
proof -
  obtain qs where "forR quoteIdentifier (splitOn (CHR ''.'') v) = Ok qs" "q = join ''.'' qs"
    using assms by (cases "forR quoteIdentifier (splitOn (CHR ''.'') v)") (auto simp: quotePath_def)
  then show ?thesis using identifier_chars by (auto simp: forR_quote list_all_iff)
qed

theorem quoted_path_safe_witness: "\<exists>q. quotePath ''public.orders'' = Ok q \<and> length q = 17"
proof -
  have q: "quotePath ''public.orders'' = Ok (dquote @ ''public'' @ dquote @ ''.'' @ dquote @ ''orders'' @ dquote)" by code_simp
  then show ?thesis using quoted_path_safe [OF q] by simp
qed

text \<open>
  The part of a cursor and a window that a query text may depend on: which values are present, and the
  mode of the run.
\<close>

definition pageShape :: "obj \<Rightarrow> IngestionConfig option \<Rightarrow> bool \<times> bool \<times> bool \<times> bool" where
  "pageShape cursor ingestion =
     (objGet cursor ''value'' = VNil, objGet cursor ''key'' = VNil,
      (case ingestion of Some ing \<Rightarrow> ing_Mode ing = ''backfill'' | None \<Rightarrow> False),
      (case ingestion of Some ing \<Rightarrow> ing_BackfillEnd ing \<noteq> [] | None \<Rightarrow> False))"

lemma windowEnd_shape:
  assumes "pageShape c i = pageShape c' i'" "fst wa = fst wa'" "length (snd wa) = length (snd wa')"
  shows "fst (windowEnd d qc i wa) = fst (windowEnd d qc i' wa')
    \<and> length (snd (windowEnd d qc i wa)) = length (snd (windowEnd d qc i' wa'))"
  using assms by (cases i; cases i') (auto simp: windowEnd_def pageShape_def split: if_splits)

lemma resume_shape:
  assumes "pageShape c i = pageShape c' i'"
  shows "fst (resumeCondition d qc qk c i) = fst (resumeCondition d qc qk c' i')
    \<and> length (snd (resumeCondition d qc qk c i)) = length (snd (resumeCondition d qc qk c' i'))"
  using assms by (cases i; cases i') (auto simp: resumeCondition_def pageShape_def split: if_splits)

text \<open>Cursor values, window bounds and the page size never reach the text of a page query: two
  requests that have the same values present and the same mode get the same text, whatever the values
  are; the values are its arguments, the row limit last.\<close>

theorem query_text_independent_of_data:
  assumes "planIncrementalPage d columns table cc kc cursor ing page = Ok plan"
    and "pageShape cursor ing = pageShape cursor' ing'"
  shows "\<exists>plan'. planIncrementalPage d columns table cc kc cursor' ing' page' = Ok plan'
    \<and> plan_query plan' = plan_query plan \<and> length (plan_args plan') = length (plan_args plan)
    \<and> last (plan_args plan') = VInt (page' + 1)"
proof -
  obtain qc where qc: "dia_quote d cc = Ok qc" using assms(1) by (auto simp: planIncrementalPage_def split: sum.splits)
  obtain qk where qk: "(if kc \<noteq> [] then dia_quote d kc else Ok []) = Ok qk"
    using assms(1) qc by (auto simp: planIncrementalPage_def split: sum.splits)
  let ?w = "windowEnd d qc ing (resumeCondition d qc qk cursor ing)"
  let ?w' = "windowEnd d qc ing' (resumeCondition d qc qk cursor' ing')"
  have "fst ?w = fst ?w' \<and> length (snd ?w) = length (snd ?w')"
    using windowEnd_shape [OF assms(2)] resume_shape [OF assms(2), of d qc qk] by blast
  then show ?thesis
    using assms(1) unfolding planIncrementalPage_def qc qk sum.case by (auto simp: Let_def split: prod.splits)
qed

theorem query_text_independent_of_data_witness:
  "\<exists>p p'. planIncrementalPage postgresDialect ''*'' ''t'' ''c'' [] [(''value'', VInt 3)] None 10 = Ok p
    \<and> planIncrementalPage postgresDialect ''*'' ''t'' ''c'' [] [(''value'', VStr ''1; DROP TABLE t'')] None 10 = Ok p'
    \<and> plan_query p' = plan_query p"
proof -
  have "\<exists>p. planIncrementalPage postgresDialect ''*'' ''t'' ''c'' [] [(''value'', VInt 3)] None 10 = Ok p"
    by (simp add: planIncrementalPage_def postgresDialect_def quoteIdentifier_def identifierOK_def isLetter_def
        windowEnd_def split: prod.split)
  then obtain p where p: "planIncrementalPage postgresDialect ''*'' ''t'' ''c'' [] [(''value'', VInt 3)] None 10 = Ok p" ..
  have s: "pageShape [(''value'', VInt 3)] None = pageShape [(''value'', VStr ''1; DROP TABLE t'')] None"
    by (simp add: pageShape_def objGet_def)
  show ?thesis using query_text_independent_of_data [OF p s, of 10] p by blast
qed

section \<open>Bounds and batches\<close>

lemma boundedPageSize_bounds: "1 \<le> boundedPageSize vs \<and> boundedPageSize vs \<le> 10000"
  by (simp add: boundedPageSize_def Let_def)

lemma concat_batches: "n \<noteq> 0 \<Longrightarrow> concat (batches n xs) = xs"
  by (induction n xs rule: batches.induct) (subst batches.simps, auto)

lemma batches_length: "b \<in> set (batches n xs) \<Longrightarrow> b \<noteq> [] \<and> length b \<le> n"
  by (induction n xs rule: batches.induct) (subst (asm) batches.simps, auto split: if_splits)

lemma batches_map: "batches n (map f xs) = map (map f) (batches n xs)"
  by (induction n xs rule: batches.induct) (subst batches.simps, subst (2) batches.simps, auto simp: take_map drop_map)

lemma batches_Nil_iff: "batches n xs = [] \<longleftrightarrow> xs = [] \<or> n = 0"
  by (subst batches.simps) auto

lemma length_rowArgs: "length (concat (map (rowArgs columns) rows)) = length rows * length columns"
  by (induction rows) (auto simp: rowArgs_def)

lemma concat_map_concat: "concat (map f (concat xss)) = concat (map (\<lambda>xs. concat (map f xs)) xss)"
  by (induction xss) auto

lemma postgresBatchRows_bounds:
  "postgresBatchRows n = Ok m \<Longrightarrow> 1 \<le> n \<and> 1 \<le> m \<and> m \<le> 500 \<and> m * n \<le> 65535"
proof -
  assume a: "postgresBatchRows n = Ok m"
  then have n: "1 \<le> n" "m = min 500 (65535 div n)" "1 \<le> 65535 div n"
    by (auto simp: postgresBatchRows_def Let_def postgresMaxBindParams_def dbBatchSize_def split: if_splits)
  have "m * n \<le> 65535 div n * n" using n by (intro mult_right_mono) auto
  also have "\<dots> \<le> 65535"
    using pos_mod_sign [of n 65535] div_mult_mod_eq [of 65535 n] n(1) by linarith
  finally show ?thesis using n by auto
qed

text \<open>The statements of the PostgreSQL sink carry every cell of every row once, row by row in the order
  of the input, and no statement has more than 65535 arguments or 500 rows' worth of them.\<close>

theorem postgres_batches_complete:
  assumes "postgresStatements (VArr (map VObj rows)) cfg = Ok sts"
  shows "concat (map snd sts) = concat (map (rowArgs (allColumns rows)) rows)
    \<and> (\<forall>st\<in>set sts. 0 < length (snd st) \<and> length (snd st) \<le> 65535 \<and> length (snd st) \<le> 500 * length (allColumns rows))"
proof (cases "rows = []")
  case True
  then have "recordsMaps (VArr (map VObj rows)) = Ok []" by (simp add: recordsMaps_Ok)
  then show ?thesis using assms True by (auto simp: postgresStatements_def)
next
  case False
  have r: "recordsMaps (VArr (map VObj rows)) = Ok rows" by (simp add: recordsMaps_Ok)
  obtain m table quoted where m: "postgresBatchRows (int (length (allColumns rows))) = Ok m"
    and sts: "sts = map (postgresBatch table (allColumns rows) quoted
        (conflictClause (keyFields (objGet cfg ''conflictKey'')) (allColumns rows))) (batches (nat m) rows)"
    using assms False r by (auto simp: postgresStatements_def split: sum.splits)
  note b = postgresBatchRows_bounds [OF m]
  have "concat (map snd sts) = concat (map (rowArgs (allColumns rows)) (concat (batches (nat m) rows)))"
    unfolding sts by (simp add: postgresBatch_def o_def concat_map_concat)
  then have "concat (map snd sts) = concat (map (rowArgs (allColumns rows)) rows)"
    using b by (simp add: concat_batches)
  moreover have "0 < length (snd st) \<and> length (snd st) \<le> 65535 \<and> length (snd st) \<le> 500 * length (allColumns rows)"
    if st: "st \<in> set sts" for st
  proof -
    obtain batch where batch: "batch \<in> set (batches (nat m) rows)" "snd st = concat (map (rowArgs (allColumns rows)) batch)"
      using st unfolding sts by (auto simp: postgresBatch_def)
    then have l: "batch \<noteq> []" "length batch \<le> nat m" using batches_length by blast+
    have "length batch * length (allColumns rows) \<le> nat m * length (allColumns rows)" using l(2) by simp
    moreover have "nat m * length (allColumns rows) = nat (m * int (length (allColumns rows)))"
      using b by (simp add: nat_mult_distrib)
    then have "nat m * length (allColumns rows) \<le> 65535" using b by linarith
    moreover have "nat m * length (allColumns rows) \<le> 500 * length (allColumns rows)" using b by (intro mult_right_mono) auto
    ultimately have "length batch * length (allColumns rows) \<le> 65535"
      "length batch * length (allColumns rows) \<le> 500 * length (allColumns rows)" by linarith+
    moreover have "0 < length batch" "0 < length (allColumns rows)" using l(1) b by auto
    ultimately show ?thesis unfolding batch(2) length_rowArgs by simp
  qed
  ultimately show ?thesis by blast
qed

theorem postgres_batches_complete_witness:
  "\<exists>sts. postgresStatements (VArr (map VObj [[(''id'', VInt 1)], [(''id'', VInt 2)]])) [(''table'', VStr ''t'')] = Ok sts
    \<and> concat (map snd sts) = [VInt 1, VInt 2]"
proof -
  let ?rows = "[[(''id'', VInt 1)], [(''id'', VInt 2)]]"
  have "isOk (postgresStatements (VArr (map VObj ?rows)) [(''table'', VStr ''t'')])" by code_simp
  then obtain sts where s: "postgresStatements (VArr (map VObj ?rows)) [(''table'', VStr ''t'')] = Ok sts" by (auto simp: isOk_iff)
  have "concat (map (rowArgs (allColumns ?rows)) ?rows) = [VInt 1, VInt 2]" by code_simp
  then show ?thesis using postgres_batches_complete [OF s] s by auto
qed

lemma insertInTx_atomic:
  assumes "insertInTx D db sts = (err, db')"
  shows "if err = None then (\<exists>tx tx'. tx_Begin D db = Ok tx \<and> execAll D tx sts = Ok tx' \<and> tx_Commit D tx' = Ok db') else db' = db"
  using assms by (auto simp: insertInTx_def split: sum.splits)


section \<open>Paging\<close>

text \<open>
  Reading a source to its end: fetch, continue from the checkpoint while there is more. The fuel bounds
  the number of pages.
\<close>

fun drain :: "(obj \<Rightarrow> ('e, SourceResult) result) \<Rightarrow> nat \<Rightarrow> obj \<Rightarrow> gv list option" where
  "drain fetch 0 c = None"
| "drain fetch (Suc n) c =
     (case fetch c of
        Err e \<Rightarrow> None
      | Ok r \<Rightarrow> if sr_HasMore r then map_option ((@) (sr_Records r)) (drain fetch n (sr_NextCursor r))
               else Some (sr_Records r))"

text \<open>
  The contract of a paged source: from a checkpoint that is \<open>ok\<close>, a page is the beginning of the rows
  that remain, and the checkpoint it returns leaves exactly the rest.
\<close>

locale paged_source =
  fixes fetch :: "obj \<Rightarrow> ('e, SourceResult) result" and remaining :: "obj \<Rightarrow> gv list" and ok :: "obj \<Rightarrow> bool"
  assumes page: "ok c \<Longrightarrow> \<exists>r. fetch c = Ok r \<and>
    (if sr_HasMore r then remaining c = sr_Records r @ remaining (sr_NextCursor r) \<and> sr_Records r \<noteq> [] \<and> ok (sr_NextCursor r)
     else remaining c = sr_Records r)"
begin

lemma drain_remaining: "ok c \<Longrightarrow> length (remaining c) < n \<Longrightarrow> drain fetch n c = Some (remaining c)"
proof (induction n arbitrary: c)
  case 0
  then show ?case by simp
next
  case (Suc n)
  obtain r where r: "fetch c = Ok r"
    and p: "if sr_HasMore r then remaining c = sr_Records r @ remaining (sr_NextCursor r) \<and> sr_Records r \<noteq> [] \<and> ok (sr_NextCursor r)
     else remaining c = sr_Records r"
    using page [OF Suc.prems(1)] by blast
  show ?case
  proof (cases "sr_HasMore r")
    case True
    then have s: "remaining c = sr_Records r @ remaining (sr_NextCursor r)" "sr_Records r \<noteq> []" "ok (sr_NextCursor r)"
      using p by auto
    then have "length (remaining (sr_NextCursor r)) < n"
      using Suc.prems(2) by (cases "sr_Records r") auto
    then show ?thesis using Suc.IH [of "sr_NextCursor r"] s r True by simp
  next
    case False
    then show ?thesis using p r by simp
  qed
qed

end

text \<open>
  What is assumed of the database: it orders the values of a column (by \<open>rank\<close>), the table is
  given in the order of the query, and the answer to a planned page query is the first \<open>page + 1\<close>
  rows of the table that satisfy its conditions.
\<close>

record pagedTable =
  tab_rank :: "gv \<Rightarrow> int"
  tab_rows :: "gv list"
  tab_cursor :: string
  tab_key :: string
  tab_page :: int

abbreviation cur :: "pagedTable \<Rightarrow> gv \<Rightarrow> int" where "cur t row \<equiv> tab_rank t (rowValue row (tab_cursor t))"
abbreviation keyRank :: "pagedTable \<Rightarrow> gv \<Rightarrow> int" where "keyRank t row \<equiv> tab_rank t (rowValue row (tab_key t))"

definition afterRow :: "pagedTable \<Rightarrow> int \<Rightarrow> int \<Rightarrow> gv \<Rightarrow> bool" where
  "afterRow t a k row \<longleftrightarrow> a < cur t row \<or> (a = cur t row \<and> k < keyRank t row)"

text \<open>The meaning of the conditions that \<open>planIncrementalPage\<close> writes.\<close>

definition resumes :: "pagedTable \<Rightarrow> obj \<Rightarrow> IngestionConfig option \<Rightarrow> gv \<Rightarrow> bool" where
  "resumes t c ing row =
     (if objGet c ''value'' \<noteq> VNil \<and> tab_key t \<noteq> [] \<and> objGet c ''key'' \<noteq> VNil
      then afterRow t (tab_rank t (objGet c ''value'')) (tab_rank t (objGet c ''key'')) row
      else if objGet c ''value'' \<noteq> VNil \<and> tab_key t \<noteq> [] then tab_rank t (objGet c ''value'') \<le> cur t row
      else if objGet c ''value'' \<noteq> VNil then tab_rank t (objGet c ''value'') < cur t row
      else case ing of
        Some i \<Rightarrow> if ing_Mode i = ''backfill'' then tab_rank t (VStr (ing_BackfillStart i)) \<le> cur t row else True
      | None \<Rightarrow> True)"

definition withinWindow :: "pagedTable \<Rightarrow> IngestionConfig option \<Rightarrow> gv \<Rightarrow> bool" where
  "withinWindow t ing row =
     (case ing of Some i \<Rightarrow> if ing_BackfillEnd i \<noteq> [] then cur t row < tab_rank t (VStr (ing_BackfillEnd i)) else True
      | None \<Rightarrow> True)"

definition pageRows :: "pagedTable \<Rightarrow> IngestionConfig option \<Rightarrow> obj \<Rightarrow> gv list" where
  "pageRows t ing c = filter (\<lambda>row. resumes t c ing row \<and> withinWindow t ing row) (tab_rows t)"

text \<open>
  A table that can be paged: every row has the cursor column, cursor and key values are present, the
  rows are in order, keys are unique per cursor value, and without a key column no more than a page of
  rows shares a cursor value; equal ranks of cursor values are equal texts.
\<close>

definition pageable :: "pagedTable \<Rightarrow> bool" where
  "pageable t \<longleftrightarrow>
     1 \<le> tab_page t
     \<and> (\<forall>row\<in>set (tab_rows t). hasColumn row (tab_cursor t) \<and> rowValue row (tab_cursor t) \<noteq> VNil
          \<and> (tab_key t \<noteq> [] \<longrightarrow> rowValue row (tab_key t) \<noteq> VNil))
     \<and> (if tab_key t \<noteq> [] then sorted_wrt (\<lambda>a b. afterRow t (cur t a) (keyRank t a) b) (tab_rows t)
        else sorted_wrt (\<lambda>a b. cur t a \<le> cur t b) (tab_rows t)
          \<and> (\<forall>row\<in>set (tab_rows t). int (length (filter (\<lambda>r. cur t r = cur t row) (tab_rows t))) \<le> tab_page t)
          \<and> (\<forall>a\<in>set (tab_rows t). \<forall>b\<in>set (tab_rows t).
               sameCursorValue (rowValue a (tab_cursor t)) (rowValue b (tab_cursor t)) = (cur t a = cur t b)))"

lemma filter_threshold:
  assumes "n \<le> length xs" "\<And>j. j < n \<Longrightarrow> \<not> S (xs ! j)" "\<And>j. n \<le> j \<Longrightarrow> j < length xs \<Longrightarrow> S (xs ! j)"
  shows "filter S xs = drop n xs"
proof -
  have "filter S (take n xs) = []" using assms(1,2) by (auto simp: filter_empty_conv in_set_conv_nth)
  moreover have "filter S (drop n xs) = drop n xs" using assms(3) by (auto simp: filter_id_conv in_set_conv_nth)
  ultimately show ?thesis by (metis append_take_drop_id filter_append self_append_conv2)
qed

lemma length_filter_conj: "length (filter (\<lambda>x. P x \<and> Q x) xs) \<le> length (filter Q xs)"
  by (induction xs) auto

lemma cutTies_spec:
  "cutTies tie rows m \<le> m \<and> (\<forall>j. cutTies tie rows m \<le> j \<and> j < m \<longrightarrow> tie (rows ! j))
   \<and> (0 < cutTies tie rows m \<longrightarrow> \<not> tie (rows ! (cutTies tie rows m - 1)))"
  by (induction m) (auto simp: less_Suc_eq)

text \<open>The rows after a row of a page, once the checkpoint is that row.\<close>

lemma resumes_up:
  "resumes t c ing a \<Longrightarrow> cur t a < cur t b \<or> (tab_key t \<noteq> [] \<and> afterRow t (cur t a) (keyRank t a) b) \<Longrightarrow> resumes t c ing b"
  by (cases ing) (auto simp: resumes_def afterRow_def split: if_splits)

lemma pageRows_next:
  assumes nx: "\<And>row. row \<in> set (tab_rows t) \<Longrightarrow> resumes t nxt ing row = S row"
    and up: "\<And>row. row \<in> set (tab_rows t) \<Longrightarrow> S row \<Longrightarrow> resumes t c ing row"
  shows "pageRows t ing nxt = filter S (pageRows t ing c)"
  using assms unfolding pageRows_def filter_filter by (auto intro!: filter_cong)

lemma length_filter_pageRows: "length (filter E (pageRows t ing c)) \<le> length (filter E (tab_rows t))"
  unfolding pageRows_def filter_filter by (rule length_filter_conj)

lemma set_pageRows: "set (pageRows t ing c) \<subseteq> set (tab_rows t)"
  by (auto simp: pageRows_def)

lemma next_value:
  "rows \<noteq> [] \<Longrightarrow> objGet (nextCursor rows cc kc c keyed) ''value'' = rowValue (last rows) cc"
  "rows \<noteq> [] \<Longrightarrow> keyed \<Longrightarrow> objGet (nextCursor rows cc kc c keyed) ''key'' = rowValue (last rows) kc"
  by (simp_all add: nextCursor_def Let_def)

lemma keyed_rest:
  assumes t: "pageable t" "tab_key t \<noteq> []" and F: "F = pageRows t ing c" and i: "i < length F"
    and nv: "objGet nxt ''value'' = rowValue (F ! i) (tab_cursor t)" "objGet nxt ''key'' = rowValue (F ! i) (tab_key t)"
  shows "pageRows t ing nxt = drop (Suc i) F"
proof -
  let ?R = "\<lambda>a b. afterRow t (cur t a) (keyRank t a) b"
  have "F ! i \<in> set F" using i by simp
  then have mem: "F ! i \<in> set (tab_rows t)" "resumes t c ing (F ! i)" using F by (auto simp: pageRows_def)
  have res: "resumes t nxt ing row = ?R (F ! i) row" for row
    using t mem(1) nv by (simp add: resumes_def pageable_def)
  have "pageRows t ing nxt = filter (?R (F ! i)) F"
    unfolding F by (rule pageRows_next) (use res F mem t(2) resumes_up in auto)
  also have "\<dots> = drop (Suc i) F"
  proof (rule filter_threshold)
    have s: "sorted_wrt ?R F" using t F by (simp add: pageable_def pageRows_def sorted_wrt_filter)
    show "Suc i \<le> length F" using i by simp
    show "\<not> ?R (F ! i) (F ! j)" if "j < Suc i" for j
      using that i s sorted_wrt_nth_less [OF s, of j i] by (cases "j = i") (auto simp: afterRow_def)
    show "?R (F ! i) (F ! j)" if "Suc i \<le> j" "j < length F" for j
      using that sorted_wrt_nth_less [OF s, of i j] by simp
  qed
  finally show ?thesis .
qed

lemma unkeyed_rest:
  assumes t: "pageable t" "tab_key t = []" and F: "F = pageRows t ing c" and i: "i < length F"
    and cut: "\<And>j. i < j \<Longrightarrow> j < length F \<Longrightarrow> cur t (F ! i) < cur t (F ! j)"
    and nv: "objGet nxt ''value'' = rowValue (F ! i) (tab_cursor t)"
  shows "pageRows t ing nxt = drop (Suc i) F"
proof -
  have "F ! i \<in> set F" using i by simp
  then have mem: "F ! i \<in> set (tab_rows t)" "resumes t c ing (F ! i)" using F by (auto simp: pageRows_def)
  have res: "resumes t nxt ing row = (cur t (F ! i) < cur t row)" for row
    using t mem(1) nv by (simp add: resumes_def pageable_def)
  have "pageRows t ing nxt = filter (\<lambda>row. cur t (F ! i) < cur t row) F"
    unfolding F by (rule pageRows_next) (use res F mem resumes_up in auto)
  also have "\<dots> = drop (Suc i) F"
  proof (rule filter_threshold)
    have s: "sorted_wrt (\<lambda>a b. cur t a \<le> cur t b) F" using t F by (simp add: pageable_def pageRows_def sorted_wrt_filter)
    show "Suc i \<le> length F" using i by simp
    show "\<not> cur t (F ! i) < cur t (F ! j)" if "j < Suc i" for j
      using that i sorted_wrt_nth_less [OF s, of j i] by (cases "j = i") auto
    show "cur t (F ! i) < cur t (F ! j)" if "Suc i \<le> j" "j < length F" for j
      using that cut by simp
  qed
  finally show ?thesis .
qed

text \<open>One page of the answer, cut: what \<open>finishIncrementalPage\<close> returns.\<close>

abbreviation cutPage :: "pagedTable \<Rightarrow> gv list \<Rightarrow> obj \<Rightarrow> (connError, gv list \<times> obj \<times> bool) result" where
  "cutPage t rows c \<equiv> finishIncrementalPage rows (tab_page t) (tab_cursor t) (tab_key t) c (tab_key t \<noteq> [])"

lemma cut_ties_nonempty:
  assumes t: "pageable t" "tab_key t = []" and F: "F = pageRows t ing c" and len: "nat (tab_page t) < length F"
  defines "tie \<equiv> (\<lambda>row. sameCursorValue (rowValue row (tab_cursor t)) (rowValue (F ! nat (tab_page t)) (tab_cursor t)))"
  defines "n \<equiv> cutTies tie (take (nat (tab_page t)) F) (length (take (nat (tab_page t)) F))"
  shows "0 < n" "n \<le> nat (tab_page t)" "\<And>j. n - 1 < j \<Longrightarrow> j < length F \<Longrightarrow> cur t (F ! (n - 1)) < cur t (F ! j)"
proof -
  let ?p = "nat (tab_page t)"
  have sub: "set F \<subseteq> set (tab_rows t)" using F set_pageRows by blast
  have s: "sorted_wrt (\<lambda>a b. cur t a \<le> cur t b) F" using t F by (simp add: pageable_def pageRows_def sorted_wrt_filter)
  have le: "cur t (F ! i) \<le> cur t (F ! j)" if "i \<le> j" "j < length F" for i j
    using that sorted_wrt_nth_less [OF s, of i j] by (cases "i = j") auto
  have same: "tie (F ! j) = (cur t (F ! j) = cur t (F ! ?p))" if "j < length F" for j
  proof -
    have m: "F ! j \<in> set (tab_rows t)" "F ! ?p \<in> set (tab_rows t)" using sub that len nth_mem by blast+
    have "\<forall>a\<in>set (tab_rows t). \<forall>b\<in>set (tab_rows t).
        sameCursorValue (rowValue a (tab_cursor t)) (rowValue b (tab_cursor t)) = (cur t a = cur t b)"
      using t by (simp add: pageable_def)
    then show ?thesis unfolding tie_def using m by blast
  qed
  have l: "length (take ?p F) = ?p" using len by simp
  note cs = cutTies_spec [of tie "take ?p F" ?p]
  have n_eq: "n = cutTies tie (take ?p F) ?p" unfolding n_def l ..
  have n: "n \<le> ?p" "\<And>j. n \<le> j \<Longrightarrow> j < ?p \<Longrightarrow> cur t (F ! j) = cur t (F ! ?p)"
    using cs same len unfolding n_eq by auto
  have n0: "cur t (F ! (n - 1)) \<noteq> cur t (F ! ?p)" if "0 < n"
  proof -
    have "\<not> tie (take ?p F ! (n - 1))" using cs that unfolding n_eq by blast
    moreover have "n - 1 < ?p" using that n(1) by linarith
    ultimately show ?thesis using same [of "n - 1"] len by simp
  qed
  show "0 < n"
  proof (rule ccontr)
    assume "\<not> 0 < n"
    then have all: "cur t (F ! j) = cur t (F ! ?p)" if "j < Suc ?p" for j
      using n(2) that by (cases "j = ?p") auto
    let ?E = "\<lambda>r. cur t r = cur t (F ! ?p)"
    have fe: "filter ?E (take (Suc ?p) F) = take (Suc ?p) F"
    proof (rule filter_True, rule ballI)
      fix r assume "r \<in> set (take (Suc ?p) F)"
      then obtain j where "j < Suc ?p" "r = F ! j" by (auto simp: in_set_conv_nth)
      then show "?E r" using all by blast
    qed
    have "Suc ?p \<le> length (filter ?E F)"
    proof -
      have "length (filter ?E (take (Suc ?p) F @ drop (Suc ?p) F)) = Suc ?p + length (filter ?E (drop (Suc ?p) F))"
        unfolding filter_append fe using len by simp
      then show ?thesis by simp
    qed
    also have "\<dots> \<le> length (filter ?E (tab_rows t))"
      using length_filter_pageRows [of ?E t ing c] unfolding F [symmetric] .
    finally have "tab_page t < int (length (filter ?E (tab_rows t)))" by linarith
    moreover have "F ! ?p \<in> set (tab_rows t)" using sub len nth_mem by blast
    then have "int (length (filter ?E (tab_rows t))) \<le> tab_page t" using t by (auto simp: pageable_def)
    ultimately show False by simp
  qed
  then have last: "cur t (F ! (n - 1)) < cur t (F ! ?p)"
    using n(1) n0 [OF \<open>0 < n\<close>] le [of "n - 1" ?p] len by linarith
  show "n \<le> ?p" by (rule n(1))
  show "cur t (F ! (n - 1)) < cur t (F ! j)" if "n - 1 < j" "j < length F" for j
  proof (cases "j < ?p")
    case True
    then have "cur t (F ! j) = cur t (F ! ?p)" using n(2) that by simp
    then show ?thesis using last by simp
  next
    case False
    then show ?thesis using le [of ?p j] that last by simp
  qed
qed

lemma last_take: "0 < n \<Longrightarrow> n \<le> length xs \<Longrightarrow> last (take n xs) = xs ! (n - 1)"
  by (subst last_conv_nth) auto

lemma cutPage_law:
  assumes t: "pageable t" and F: "F = pageRows t ing c"
  shows "\<exists>recs nxt more. cutPage t (take (nat (tab_page t + 1)) F) c = Ok (recs, nxt, more)
    \<and> (if more then F = recs @ pageRows t ing nxt \<and> recs \<noteq> [] else F = recs)"
proof -
  let ?p = "nat (tab_page t)"
  have p: "nat (tab_page t + 1) = Suc ?p" "0 < ?p" "int ?p = tab_page t" using t by (auto simp: pageable_def)
  have has: "hasColumn (F ! 0) (tab_cursor t)" if "F \<noteq> []"
    using t F that set_pageRows nth_mem [of 0 F] unfolding pageable_def by blast
  show ?thesis
  proof (cases "?p < length F")
    case False
    then have "take (Suc ?p) F = F" "\<not> tab_page t < int (length F)" using p by auto
    then have "cutPage t (take (Suc ?p) F) c = Ok (F, nextCursor F (tab_cursor t) (tab_key t) c (tab_key t \<noteq> []), False)"
      using has by (auto simp: finishIncrementalPage_def Let_def)
    then show ?thesis unfolding p(1) by (intro exI [of _ False] exI conjI) auto
  next
    case True
    then have len: "int (length (take (Suc ?p) F)) > tab_page t" "take (Suc ?p) F \<noteq> []" "take (Suc ?p) F ! 0 = F ! 0"
      "take (Suc ?p) F ! ?p = F ! ?p" "take ?p (take (Suc ?p) F) = take ?p F" using p by auto
    have h: "hasColumn (F ! 0) (tab_cursor t)" using has True by (cases F) auto
    show ?thesis
    proof (cases "tab_key t = []")
      case False
      let ?nxt = "nextCursor (take ?p F) (tab_cursor t) (tab_key t) c True"
      have ne: "take ?p F \<noteq> []" using True p by auto
      have "cutPage t (take (Suc ?p) F) c = Ok (take ?p F, ?nxt, True)"
        using False len h by (simp add: finishIncrementalPage_def Let_def)
      moreover have "pageRows t ing ?nxt = drop (Suc (?p - 1)) F"
        using keyed_rest [OF t False F, of "?p - 1" ?nxt] next_value [OF ne] True p(2) by (simp add: last_take)
      ultimately show ?thesis unfolding p(1) using p(2) ne by (intro exI conjI) auto
    next
      case key: True
      define n where "n = cutTies (\<lambda>row. sameCursorValue (rowValue row (tab_cursor t)) (rowValue (F ! ?p) (tab_cursor t)))
                 (take ?p F) (length (take ?p F))"
      define nxt where "nxt = nextCursor (take n F) (tab_cursor t) (tab_key t) c False"
      note n = cut_ties_nonempty [OF t key F True, folded n_def]
      have ne: "take n F \<noteq> []" "take n (take ?p F) = take n F" "n \<le> length F" using n(1,2) True by auto
      have c: "cutPage t (take (Suc ?p) F) c = Ok (take n F, nxt, True)"
        using key len h n(1) ne(2) unfolding finishIncrementalPage_def Let_def nxt_def
        by (simp add: n_def [symmetric] del: length_take take_take)
      have v: "objGet nxt ''value'' = rowValue (F ! (n - 1)) (tab_cursor t)"
        unfolding nxt_def next_value(1) [OF ne(1)] last_take [OF n(1) ne(3)] ..
      have "n - 1 < length F" using n(1) ne(3) by linarith
      from unkeyed_rest [OF t key F this n(3) v] have "pageRows t ing nxt = drop n F" using n(1) by simp
      then show ?thesis unfolding p(1) using c ne(1) by (intro exI [of _ "take n F"] exI [of _ nxt] exI [of _ True]) simp
    qed
  qed
qed

section \<open>The SQL sources are paged sources\<close>

text \<open>
  A configured PostgreSQL source over a pageable table: the configuration names the columns of the table
  and the page size, and the database answers every planned page query as described above.
\<close>

definition answers ::
  "('db \<Rightarrow> string \<Rightarrow> gv list \<Rightarrow> (connError, gv list) result) \<Rightarrow> 'db \<Rightarrow> sqlDialect \<Rightarrow> string \<Rightarrow> string \<Rightarrow> pagedTable \<Rightarrow>
   IngestionConfig option \<Rightarrow> bool" where
  "answers query db d columns table t ing \<longleftrightarrow>
     (\<forall>c plan. planIncrementalPage d columns table (tab_cursor t) (tab_key t) c ing (tab_page t) = Ok plan \<longrightarrow>
        query db (plan_query plan) (plan_args plan) = Ok (take (nat (tab_page t + 1)) (pageRows t ing c)))"

definition pgSource ::
  "(string \<Rightarrow> (connError, 'db) result) \<Rightarrow> ('db \<Rightarrow> string \<Rightarrow> gv list \<Rightarrow> (connError, gv list) result) \<Rightarrow> SourceParams \<Rightarrow> pagedTable \<Rightarrow> bool" where
  "pgSource connect query p t \<longleftrightarrow>
     pageable t \<and> identifierOK (tab_cursor t) \<and> (tab_key t = [] \<or> identifierOK (tab_key t))
     \<and> stringValue (objGet (sp_Config p) ''cursorColumn'') = tab_cursor t
     \<and> stringValue (objGet (sp_Config p) ''keyColumn'') = tab_key t
     \<and> boundedPageSize [case sp_Ingestion p of Some ing \<Rightarrow> VInt (ing_PageSize ing) | None \<Rightarrow> VNil, objGet (sp_Config p) ''pageSize''] = tab_page t
     \<and> (\<exists>table columns db. quotePath (stringValue (objGet (sp_Config p) ''table'')) = Ok table
          \<and> selectColumns (stringValue (objGet (sp_Config p) ''columns'')) = Ok columns
          \<and> connect (stringValue (objGet (sp_Config p) ''connectionId'')) = Ok db
          \<and> answers query db postgresDialect columns table t (sp_Ingestion p))"

definition mySource ::
  "(string \<Rightarrow> (connError, 'db) result) \<Rightarrow> ('db \<Rightarrow> string \<Rightarrow> gv list \<Rightarrow> (connError, gv list) result) \<Rightarrow> SourceParams \<Rightarrow> pagedTable \<Rightarrow> bool" where
  "mySource connect query p t \<longleftrightarrow>
     pageable t \<and> identifierOK (tab_cursor t) \<and> (tab_key t = [] \<or> identifierOK (tab_key t))
     \<and> identifierOK (stringValue (objGet (sp_Config p) ''table''))
     \<and> stringValue (objGet (sp_Config p) ''cursorColumn'') = tab_cursor t
     \<and> stringValue (objGet (sp_Config p) ''keyColumn'') = tab_key t
     \<and> boundedPageSize [objGet (sp_Config p) ''pageSize''] = tab_page t
     \<and> (\<exists>db. connect (stringValue (objGet (sp_Config p) ''connectionId'')) = Ok db
          \<and> answers query db mysqlDialect ''*'' (backtick @ stringValue (objGet (sp_Config p) ''table'') @ backtick) t None)"

lemma plan_Ok:
  assumes "dia_quote d cc = Ok qc" "kc = [] \<or> (\<exists>qk. dia_quote d kc = Ok qk \<and> qk \<noteq> [])"
  shows "\<exists>plan. planIncrementalPage d columns table cc kc c ing page = Ok plan \<and> plan_keyed plan = (kc \<noteq> [])"
  using assms by (auto simp: planIncrementalPage_def Let_def split: prod.split)

lemma dialect_quote:
  "identifierOK v \<Longrightarrow> dia_quote postgresDialect v = Ok (dquote @ v @ dquote)"
  "identifierOK v \<Longrightarrow> dia_quote mysqlDialect v = Ok (backtick @ v @ backtick)"
  by (simp_all add: postgresDialect_def mysqlDialect_def quoteIdentifier_def)

lemma fetched_law:
  assumes "\<exists>recs nxt more. q = Ok (recs, nxt, more) \<and> (if more then F = recs @ rest nxt \<and> recs \<noteq> [] else F = recs)"
  shows "\<exists>r. fetched q = Ok r \<and>
    (if sr_HasMore r then F = sr_Records r @ rest (sr_NextCursor r) \<and> sr_Records r \<noteq> [] else F = sr_Records r)"
  using assms by (auto simp: fetched_def)

interpretation pgs: paged_source "\<lambda>c. postgresFetch connect query (p\<lparr>sp_Cursor := c\<rparr>)" "pageRows t (sp_Ingestion p)"
    "\<lambda>c. pgSource connect query p t" for connect query p t
proof
  fix c :: obj
  assume ok: "pgSource connect query p t"
  let ?cfg = "sp_Config p" and ?ing = "sp_Ingestion p"
  obtain table columns db where tb: "quotePath (stringValue (objGet ?cfg ''table'')) = Ok table"
    and co: "selectColumns (stringValue (objGet ?cfg ''columns'')) = Ok columns"
    and db: "connect (stringValue (objGet ?cfg ''connectionId'')) = Ok db"
    and an: "answers query db postgresDialect columns table t ?ing"
    using ok unfolding pgSource_def by blast
  have t: "pageable t" and ids: "identifierOK (tab_cursor t)" "tab_key t = [] \<or> identifierOK (tab_key t)"
    and cc: "stringValue (objGet ?cfg ''cursorColumn'') = tab_cursor t" "stringValue (objGet ?cfg ''keyColumn'') = tab_key t"
    and pg: "boundedPageSize [case ?ing of Some ing \<Rightarrow> VInt (ing_PageSize ing) | None \<Rightarrow> VNil, objGet ?cfg ''pageSize''] = tab_page t"
    using ok unfolding pgSource_def by blast+
  have ne: "tab_cursor t \<noteq> []" using ids(1) identifier_chars by blast
  obtain plan where plan: "planIncrementalPage postgresDialect columns table (tab_cursor t) (tab_key t) c ?ing (tab_page t) = Ok plan"
    and keyed: "plan_keyed plan = (tab_key t \<noteq> [])"
  proof -
    have "tab_key t = [] \<or> (\<exists>qk. dia_quote postgresDialect (tab_key t) = Ok qk \<and> qk \<noteq> [])"
      using ids(2) dialect_quote(1) by force
    from plan_Ok [OF dialect_quote(1) [OF ids(1)] this] that show ?thesis by blast
  qed
  have q: "query db (plan_query plan) (plan_args plan) = Ok (take (nat (tab_page t + 1)) (pageRows t ?ing c))"
    using an plan unfolding answers_def by blast
  have "postgresFetch connect query (p\<lparr>sp_Cursor := c\<rparr>)
      = fetched (cutPage t (take (nat (tab_page t + 1)) (pageRows t ?ing c)) c)"
    unfolding postgresFetch_def Let_def using tb co db plan keyed q cc pg ne by (simp add: runPage_def)
  moreover obtain r where "fetched (cutPage t (take (nat (tab_page t + 1)) (pageRows t ?ing c)) c) = Ok r"
    "if sr_HasMore r then pageRows t ?ing c = sr_Records r @ pageRows t ?ing (sr_NextCursor r) \<and> sr_Records r \<noteq> []
     else pageRows t ?ing c = sr_Records r"
    using fetched_law [OF cutPage_law [OF t refl [of "pageRows t ?ing c"]]] by blast
  ultimately show "\<exists>r. postgresFetch connect query (p\<lparr>sp_Cursor := c\<rparr>) = Ok r \<and>
      (if sr_HasMore r then pageRows t ?ing c = sr_Records r @ pageRows t ?ing (sr_NextCursor r) \<and> sr_Records r \<noteq> [] \<and> pgSource connect query p t
       else pageRows t ?ing c = sr_Records r)"
    using ok by (cases "sr_HasMore r") simp_all
qed

interpretation mys: paged_source "\<lambda>c. mysqlFetch connect query (p\<lparr>sp_Cursor := c\<rparr>)" "pageRows t None"
    "\<lambda>c. mySource connect query p t" for connect query p t
proof
  fix c :: obj
  assume ok: "mySource connect query p t"
  let ?cfg = "sp_Config p"
  let ?table = "stringValue (objGet ?cfg ''table'')"
  obtain db where db: "connect (stringValue (objGet ?cfg ''connectionId'')) = Ok db"
    and an: "answers query db mysqlDialect ''*'' (backtick @ ?table @ backtick) t None"
    using ok unfolding mySource_def by blast
  have t: "pageable t" and ids: "identifierOK (tab_cursor t)" "tab_key t = [] \<or> identifierOK (tab_key t)" "identifierOK ?table"
    and cc: "stringValue (objGet ?cfg ''cursorColumn'') = tab_cursor t" "stringValue (objGet ?cfg ''keyColumn'') = tab_key t"
    and pg: "boundedPageSize [objGet ?cfg ''pageSize''] = tab_page t"
    using ok unfolding mySource_def by blast+
  obtain plan where plan: "planIncrementalPage mysqlDialect ''*'' (backtick @ ?table @ backtick) (tab_cursor t) (tab_key t) c None (tab_page t) = Ok plan"
    and keyed: "plan_keyed plan = (tab_key t \<noteq> [])"
  proof -
    have "tab_key t = [] \<or> (\<exists>qk. dia_quote mysqlDialect (tab_key t) = Ok qk \<and> qk \<noteq> [])"
      using ids(2) dialect_quote(2) by force
    from plan_Ok [OF dialect_quote(2) [OF ids(1)] this] that show ?thesis by blast
  qed
  have q: "query db (plan_query plan) (plan_args plan) = Ok (take (nat (tab_page t + 1)) (pageRows t None c))"
    using an plan unfolding answers_def by blast
  have "mysqlFetch connect query (p\<lparr>sp_Cursor := c\<rparr>)
      = fetched (cutPage t (take (nat (tab_page t + 1)) (pageRows t None c)) c)"
    unfolding mysqlFetch_def Let_def using db plan keyed q cc pg ids by (simp add: runPage_def)
  moreover obtain r where "fetched (cutPage t (take (nat (tab_page t + 1)) (pageRows t None c)) c) = Ok r"
    "if sr_HasMore r then pageRows t None c = sr_Records r @ pageRows t None (sr_NextCursor r) \<and> sr_Records r \<noteq> []
     else pageRows t None c = sr_Records r"
    using fetched_law [OF cutPage_law [OF t refl [of "pageRows t None c"]]] by blast
  ultimately show "\<exists>r. mysqlFetch connect query (p\<lparr>sp_Cursor := c\<rparr>) = Ok r \<and>
      (if sr_HasMore r then pageRows t None c = sr_Records r @ pageRows t None (sr_NextCursor r) \<and> sr_Records r \<noteq> [] \<and> mySource connect query p t
       else pageRows t None c = sr_Records r)"
    using ok by (cases "sr_HasMore r") simp_all
qed

lemma length_pageRows: "length (pageRows t ing c) < Suc (length (tab_rows t))"
  by (simp add: pageRows_def less_Suc_eq_le)


text \<open>A table of three rows, two of which share the cursor value, read one row at a time.\<close>

definition intRank :: "gv \<Rightarrow> int" where
  "intRank v = (case v of VInt i \<Rightarrow> i | _ \<Rightarrow> 0)"

definition demoTable :: pagedTable where
  "demoTable = \<lparr>tab_rank = intRank,
     tab_rows = [VObj [(''c'', VInt 1), (''k'', VInt 1)], VObj [(''c'', VInt 1), (''k'', VInt 2)], VObj [(''c'', VInt 2), (''k'', VInt 1)]],
     tab_cursor = ''c'', tab_key = ''k'', tab_page = 1\<rparr>"

definition demoQuery :: "unit \<Rightarrow> string \<Rightarrow> gv list \<Rightarrow> (connError, gv list) result" where
  "demoQuery db q args = Ok (take 2 (filter (\<lambda>row.
     if length args = 1 then True
     else if length args = 2 then intRank (args ! 0) \<le> cur demoTable row
     else afterRow demoTable (intRank (args ! 0)) (intRank (args ! 1)) row) (tab_rows demoTable)))"

definition demoParams :: SourceParams where
  "demoParams = \<lparr>sp_Config = [(''table'', VStr ''t''), (''cursorColumn'', VStr ''c''), (''keyColumn'', VStr ''k''), (''pageSize'', VInt 1)],
     sp_Cursor = [], sp_Ingestion = None, sp_TenantID = ''a''\<rparr>"

lemma demo_pageable: "pageable demoTable"
  by (simp add: pageable_def demoTable_def intRank_def hasColumn_def rowValue_def rowObj_def afterRow_def)

lemma demo_answers: "answers demoQuery () postgresDialect ''*'' (dquote @ ''t'' @ dquote) demoTable None"
  unfolding answers_def
proof (intro allI impI)
  fix c plan
  assume p: "planIncrementalPage postgresDialect ''*'' (dquote @ ''t'' @ dquote) (tab_cursor demoTable) (tab_key demoTable) c None
      (tab_page demoTable) = Ok plan"
  have k: "identifierOK ''c''" "identifierOK ''k''" by (simp_all add: identifierOK_def isLetter_def)
  have args: "plan_args plan = (if objGet c ''value'' = VNil then [VInt 2]
      else if objGet c ''key'' = VNil then [objGet c ''value'', VInt 2] else [objGet c ''value'', objGet c ''key'', VInt 2])"
    using p by (auto simp: planIncrementalPage_def demoTable_def dialect_quote k resumeCondition_def windowEnd_def Let_def)
  have two: "nat (tab_page demoTable + 1) = 2" "tab_key demoTable \<noteq> []" "tab_rank demoTable = intRank" by (simp_all add: demoTable_def)
  show "demoQuery () (plan_query plan) (plan_args plan) = Ok (take (nat (tab_page demoTable + 1)) (pageRows demoTable None c))"
    unfolding demoQuery_def args two(1) pageRows_def resumes_def withinWindow_def using two(2,3) by simp
qed

lemma demo_source: "pgSource (\<lambda>_. Ok ()) demoQuery demoParams demoTable"
  unfolding pgSource_def
proof (intro conjI)
  show "pageable demoTable" by (rule demo_pageable)
  show "\<exists>table columns db. quotePath (stringValue (objGet (sp_Config demoParams) ''table'')) = Ok table
      \<and> selectColumns (stringValue (objGet (sp_Config demoParams) ''columns'')) = Ok columns
      \<and> Ok () = Ok db \<and> answers demoQuery db postgresDialect columns table demoTable (sp_Ingestion demoParams)"
  proof (intro exI conjI)
    show "answers demoQuery () postgresDialect ''*'' (dquote @ ''t'' @ dquote) demoTable (sp_Ingestion demoParams)"
      using demo_answers by (simp add: demoParams_def)
  qed (simp_all add: demoParams_def objGet_def quotePath_def quoteIdentifier_def identifierOK_def isLetter_def selectColumns_def)
qed (simp_all add: demoTable_def demoParams_def objGet_def identifierOK_def isLetter_def boundedPageSize_def number_def
      isZeroFloat_def floatOfInt_zero_iff [unfolded isZeroFloat_def] Let_def)


text \<open>A page that ends with a row whose cursor column is null leaves a checkpoint without a value, so the
  next page (or the next run) is planned as if there were no checkpoint: the source is read again from
  the beginning.\<close>

theorem null_cursor_restarts:
  assumes "rows \<noteq> []" "rowValue (last rows) cc = VNil"
  shows "planIncrementalPage d columns table cc kc (nextCursor rows cc kc c keyed) ing page
    = planIncrementalPage d columns table cc kc [] ing page"
proof -
  have v: "objGet (nextCursor rows cc kc c keyed) ''value'' = VNil" using assms by (simp add: next_value)
  have "resumeCondition d qc qk (nextCursor rows cc kc c keyed) ing = resumeCondition d qc qk [] ing" for qc qk
    by (simp add: resumeCondition_def v) (simp add: objGet_def)
  then show ?thesis unfolding planIncrementalPage_def by presburger
qed

theorem null_cursor_restarts_witness:
  "planIncrementalPage postgresDialect ''*'' ''t'' ''c'' [] (nextCursor [VObj [(''c'', VNil)]] ''c'' [] [(''value'', VInt 5)] False) None 10
    = planIncrementalPage postgresDialect ''*'' ''t'' ''c'' [] [] None 10"
  by (rule null_cursor_restarts) (simp_all add: rowValue_def rowObj_def)

text \<open>A database that is the list of executed statements.\<close>

definition logDB :: "(string list, string list) txDB" where
  "logDB = \<lparr>tx_Begin = Ok, tx_Exec = (\<lambda>tx q args. Ok (tx @ [q])), tx_Commit = Ok\<rparr>"


end
