(* ===== verification/Ssrf.thy ===== *)
theory Ssrf
  imports Prelude "HOL-Library.Word"
begin

text \<open>
  The egress policy for addresses that a tenant supplies (\<^verbatim>\<open>internal/security/ssrf.go\<close>): the denied
  networks and the membership test of \<^verbatim>\<open>net.IPNet\<close>, the check of a URL, the dialer that checks every
  resolved address right before it connects, and the redirect policy of the shared client.

  \<^verbatim>\<open>url.Parse\<close>, name resolution and the connection attempt are parameters.
\<close>

unbundle bit_operations_syntax

section \<open>Addresses and networks\<close>

datatype netIP = IPv4 "32 word" | IPv6 "128 word"

definition ip4 :: "nat \<Rightarrow> nat \<Rightarrow> nat \<Rightarrow> nat \<Rightarrow> 32 word" where
  "ip4 a b c d = of_nat (((a * 256 + b) * 256 + c) * 256 + d)"

text \<open>\<^verbatim>\<open>To4\<close>: an IPv4-mapped IPv6 address is the IPv4 address it holds.\<close>

definition To4 :: "netIP \<Rightarrow> 32 word option" where
  "To4 ip =
     (case ip of IPv4 w \<Rightarrow> Some w
      | IPv6 w \<Rightarrow> if drop_bit 32 w = 0xFFFF then Some (ucast w) else None)"

datatype IPNet = Net4 "32 word" nat | Net6 "128 word" nat

definition netMask :: "nat \<Rightarrow> nat \<Rightarrow> 'a::len word" where
  "netMask bits ones = NOT (mask (bits - ones))"

definition netContains :: "IPNet \<Rightarrow> netIP \<Rightarrow> bool" where
  "netContains n ip =
     (case (n, To4 ip) of
        (Net4 nn ones, Some x) \<Rightarrow> nn AND netMask 32 ones = x AND netMask 32 ones
      | (Net4 nn ones, None) \<Rightarrow> False
      | (Net6 nn ones, Some x) \<Rightarrow> False
      | (Net6 nn ones, None) \<Rightarrow> (case ip of IPv6 x \<Rightarrow> nn AND netMask 128 ones = x AND netMask 128 ones | _ \<Rightarrow> False))"

definition deniedNetworks :: "IPNet list" where
  "deniedNetworks =
     [Net4 (ip4 10 0 0 0) 8, Net4 (ip4 172 16 0 0) 12, Net4 (ip4 192 168 0 0) 16, Net4 (ip4 127 0 0 0) 8,
      Net4 (ip4 169 254 0 0) 16, Net6 1 128, Net6 (push_bit 120 0xFC) 7, Net6 (push_bit 112 0xFE80) 10]"

fun anyContains :: "IPNet list \<Rightarrow> netIP \<Rightarrow> bool" where
  "anyContains [] ip = False"
| "anyContains (n # ns) ip = (if netContains n ip then True else anyContains ns ip)"

definition IsDenied :: "netIP \<Rightarrow> bool" where
  "IsDenied ip = anyContains deniedNetworks ip"

section \<open>URLs and redirects\<close>

record urlParts =
  url_Scheme :: string
  url_Hostname :: string
  url_Port :: string

definition ValidateURL :: "(string \<Rightarrow> (string, urlParts) result) \<Rightarrow> string \<Rightarrow> (string, urlParts) result" where
  "ValidateURL parse raw =
     (if raw = [] then Err ''URL is required''
      else case parse raw of
        Err e \<Rightarrow> Err (''invalid URL: '' @ e)
      | Ok parsed \<Rightarrow>
          if url_Scheme parsed \<noteq> ''https'' then Err ''URL must use https''
          else if url_Hostname parsed = [] then Err ''URL must have a host''
          else Ok parsed)"

definition effectivePort :: "urlParts \<Rightarrow> string" where
  "effectivePort u =
     (if url_Port u \<noteq> [] then url_Port u
      else if equalFold (url_Scheme u) ''https'' then ''443''
      else if equalFold (url_Scheme u) ''http'' then ''80''
      else [])"

definition sameOrigin :: "urlParts \<Rightarrow> urlParts \<Rightarrow> bool" where
  "sameOrigin left right \<longleftrightarrow>
     equalFold (url_Scheme left) (url_Scheme right) \<and> equalFold (url_Hostname left) (url_Hostname right)
     \<and> effectivePort left = effectivePort right"

definition maxRedirects :: nat where "maxRedirects = 10"

text \<open>
  \<^verbatim>\<open>CheckRedirect(req, via)\<close>: \<open>text\<close> is \<^verbatim>\<open>req.URL.String()\<close>, \<open>via\<close> the requests already made, the
  first one first. \<open>None\<close> lets the redirect through.
\<close>

definition CheckRedirect ::
  "(string \<Rightarrow> (string, urlParts) result) \<Rightarrow> string \<Rightarrow> urlParts \<Rightarrow> urlParts list \<Rightarrow> string option" where
  "CheckRedirect parse text u via =
     (if length via \<ge> maxRedirects then Some (''stopped after '' @ itoa (int maxRedirects) @ '' redirects'')
      else case ValidateURL parse text of
        Err e \<Rightarrow> Some (''redirect target: '' @ e)
      | Ok _ \<Rightarrow>
          if length via > 0 \<and> \<not> sameOrigin (via ! 0) u
          then Some ''redirect target must remain on the original origin'' else None)"

text \<open>A chain of redirects as \<^verbatim>\<open>http.Client\<close> follows it: it stops at the first refusal.\<close>

fun follow :: "(string \<Rightarrow> (string, urlParts) result) \<Rightarrow> urlParts list \<Rightarrow> (string \<times> urlParts) list \<Rightarrow> urlParts list" where
  "follow parse via [] = via"
| "follow parse via ((text, u) # rest) =
     (case CheckRedirect parse text u via of Some _ \<Rightarrow> via | None \<Rightarrow> follow parse (via @ [u]) rest)"

section \<open>The dialer\<close>

text \<open>
  The loop of \<^verbatim>\<open>dialContext\<close> over the resolved addresses. \<open>dial ip\<close> is the outcome of connecting;
  \<open>showIP\<close> its text; the result is the connection or the last error, with the addresses dialed, in order.
\<close>

fun dialLoop :: "(netIP \<Rightarrow> string) \<Rightarrow> (netIP \<Rightarrow> (string, 'c) result) \<Rightarrow> string option \<Rightarrow> netIP list \<Rightarrow> (string option, 'c) result \<times> netIP list" where
  "dialLoop showIP dial lastErr [] = (Err lastErr, [])"
| "dialLoop showIP dial lastErr (ip # ips) =
     (if IsDenied ip then dialLoop showIP dial (Some (''target address '' @ showIP ip @ '' is not allowed'')) ips
      else case dial ip of
        Ok conn \<Rightarrow> (Ok conn, [ip])
      | Err e \<Rightarrow> (case dialLoop showIP dial (Some e) ips of (r, dialed) \<Rightarrow> (r, ip # dialed)))"

definition dialContext ::
  "(netIP \<Rightarrow> string) \<Rightarrow> (string \<Rightarrow> (string, netIP list) result) \<Rightarrow> (netIP \<Rightarrow> (string, 'c) result) \<Rightarrow> string \<Rightarrow> (string, 'c) result \<times> netIP list" where
  "dialContext showIP lookup dial host =
     (case lookup host of
        Err e \<Rightarrow> (Err e, [])
      | Ok ips \<Rightarrow>
          (case dialLoop showIP dial None ips of
             (Ok conn, dialed) \<Rightarrow> (Ok conn, dialed)
           | (Err (Some e), dialed) \<Rightarrow> (Err e, dialed)
           | (Err None, dialed) \<Rightarrow> (Err (''no addresses found for '' @ host), dialed)))"

section \<open>Properties\<close>

lemma and_netMask_eq_iff:
  "a AND NOT (mask k) = b AND NOT (mask k) \<longleftrightarrow> drop_bit k a = drop_bit k b" for a b :: "'a::len word"
proof
  assume eq: "a AND NOT (mask k) = b AND NOT (mask k)"
  have "drop_bit k (x AND NOT (mask k)) = drop_bit k x" for x :: "'a word"
    by (rule bit_word_eqI) (auto simp: bit_simps dest: bit_imp_le_length)
  then show "drop_bit k a = drop_bit k b" using eq by metis
next
  assume eq: "drop_bit k a = drop_bit k b"
  have "push_bit k (drop_bit k x) = x AND NOT (mask k)" for x :: "'a word"
    by (rule bit_word_eqI) (auto simp: bit_simps)
  then show "a AND NOT (mask k) = b AND NOT (mask k)" using eq by metis
qed

lemma same_prefix_iff:
  "a AND netMask bits ones = b AND netMask bits ones \<longleftrightarrow> unat a div 2 ^ (bits - ones) = unat b div 2 ^ (bits - ones)"
  for a b :: "'a::len word"
  unfolding netMask_def and_netMask_eq_iff
  by (metis unat_drop_bit_eq drop_bit_eq_div word_unat_eq_iff)

lemma net4_contains:
  "netContains (Net4 nn ones) ip \<longleftrightarrow> (\<exists>x. To4 ip = Some x \<and> unat nn div 2 ^ (32 - ones) = unat x div 2 ^ (32 - ones))"
  by (auto simp: netContains_def same_prefix_iff split: option.split)

lemma net6_contains:
  "netContains (Net6 nn ones) ip \<longleftrightarrow>
     (\<exists>x. ip = IPv6 x \<and> To4 ip = None \<and> unat nn div 2 ^ (128 - ones) = unat x div 2 ^ (128 - ones))"
  by (cases ip) (auto simp: netContains_def same_prefix_iff split: option.split)

lemma anyContains_iff: "anyContains ns ip \<longleftrightarrow> (\<exists>n\<in>set ns. netContains n ip)"
  by (induction ns) auto

text \<open>The octets of an IPv4 address.\<close>

definition octet1 :: "32 word \<Rightarrow> nat" where "octet1 x = unat x div 16777216"
definition octet2 :: "32 word \<Rightarrow> nat" where "octet2 x = unat x div 65536 mod 256"

lemma prefix4:
  "unat (ip4 10 0 0 0) = 167772160" "unat (ip4 172 16 0 0) = 2886729728" "unat (ip4 192 168 0 0) = 3232235520"
  "unat (ip4 127 0 0 0) = 2130706432" "unat (ip4 169 254 0 0) = 2851995648"
  by (simp_all add: ip4_def)

lemma prefix6:
  "unat (push_bit 120 0xFC :: 128 word) div 2 ^ 121 = 126" "unat (push_bit 112 0xFE80 :: 128 word) div 2 ^ 118 = 1018"
  by (simp_all add: push_bit_eq_mult)

lemma denied_iff:
  "IsDenied ip \<longleftrightarrow>
     (case To4 ip of
        Some x \<Rightarrow> octet1 x = 10 \<or> (octet1 x = 172 \<and> octet2 x \<in> {16..31}) \<or> (octet1 x = 192 \<and> octet2 x = 168)
               \<or> octet1 x = 127 \<or> (octet1 x = 169 \<and> octet2 x = 254)
      | None \<Rightarrow> (\<exists>x. ip = IPv6 x \<and> (x = 1 \<or> unat x div 2 ^ 121 = 126 \<or> unat x div 2 ^ 118 = 1018)))"
proof (cases "To4 ip")
  case None
  have one: "Suc 0 = unat x \<longleftrightarrow> x = 1" for x :: "128 word"
    by (auto simp: word_unat_eq_iff)
  show ?thesis
    using None by (auto simp: IsDenied_def anyContains_iff deniedNetworks_def net4_contains net6_contains one prefix6)
next
  case (Some x)
  define m where "m = unat x div 65536"
  have o: "octet1 x = m div 256" "unat x div 1048576 = m div 16" "octet2 x = m mod 256"
    unfolding octet1_def octet2_def m_def by (simp_all flip: div_mult2_eq)
  have "m mod (16 * 16) = 16 * (m div 16 mod 16) + m mod 16" by (rule mod_mult2_eq)
  then have "m mod 256 div 16 = m div 16 mod 16" by simp
  moreover have "m div 16 = m div 16 div 16 * 16 + m div 16 mod 16" by simp
  moreover have "m div 16 div 16 = m div 256" by (simp flip: div_mult2_eq)
  ultimately have "m div 16 = m div 256 * 16 + m mod 256 div 16" "m = m div 256 * 256 + m mod 256"
    by simp_all
  then have d: "unat x div 1048576 = octet1 x * 16 + octet2 x div 16" "unat x div 65536 = octet1 x * 256 + octet2 x"
    "octet2 x < 256"
    using o m_def by simp_all
  define a b c where abc: "a = octet1 x" "b = octet2 x" "c = b div 16"
  have "b < 256" "16 * c \<le> b" "b < 16 * c + 16" using d(3) abc by auto
  then have c: "c < 16" by linarith
  have q: "n = x * k + y \<longleftrightarrow> x = n div k \<and> y = n mod k" if "y < k" for n x y k :: nat
    using that by auto
  have "c = 1 \<longleftrightarrow> b \<in> {16..31}" using \<open>16 * c \<le> b\<close> \<open>b < 16 * c + 16\<close> by auto
  then have e: "2753 = a * 16 + c \<longleftrightarrow> a = 172 \<and> b \<in> {16..31}" "49320 = a * 256 + b \<longleftrightarrow> a = 192 \<and> b = 168"
    "43518 = a * 256 + b \<longleftrightarrow> a = 169 \<and> b = 254"
    unfolding q [OF c] q [OF \<open>b < 256\<close>] by simp_all
  have "IsDenied ip \<longleftrightarrow> 10 = unat x div 16777216 \<or> 2753 = unat x div 1048576 \<or> 49320 = unat x div 65536
      \<or> 127 = unat x div 16777216 \<or> 43518 = unat x div 65536"
    using Some by (simp add: IsDenied_def anyContains_iff deniedNetworks_def net4_contains net6_contains prefix4)
  also have "\<dots> \<longleftrightarrow> 10 = a \<or> 2753 = a * 16 + c \<or> 49320 = a * 256 + b \<or> 127 = a \<or> 43518 = a * 256 + b"
    unfolding d(1) d(2) unfolding abc octet1_def [symmetric] by simp
  finally show ?thesis using Some unfolding e by (auto simp: abc)
qed

text \<open>The denylist is exactly: 10.x.x.x, 172.16.x.x to 172.31.x.x, 192.168.x.x, 127.x.x.x and 169.254.x.x
  for IPv4 addresses, also when they are written as IPv4-mapped IPv6 addresses, and ::1, fc00::/7 and
  fe80::/10 for the other IPv6 addresses.\<close>

theorem denied_ranges:
  "IsDenied ip \<longleftrightarrow>
     (case To4 ip of
        Some x \<Rightarrow> octet1 x = 10 \<or> (octet1 x = 172 \<and> octet2 x \<in> {16..31}) \<or> (octet1 x = 192 \<and> octet2 x = 168)
               \<or> octet1 x = 127 \<or> (octet1 x = 169 \<and> octet2 x = 254)
      | None \<Rightarrow> (\<exists>x. ip = IPv6 x \<and> (x = 1 \<or> unat x div 2 ^ 121 = 126 \<or> unat x div 2 ^ 118 = 1018)))"
  by (rule denied_iff)

lemma public_not_denied:
  "\<not> IsDenied (IPv4 (ip4 93 184 216 34))" "\<not> IsDenied (IPv4 (ip4 0 0 0 0))" "\<not> IsDenied (IPv6 0)"
  by (simp_all add: denied_iff To4_def octet1_def octet2_def ip4_def)

lemma private_denied: "IsDenied (IPv4 (ip4 10 0 0 (Suc 0)))"
  by (simp add: denied_iff To4_def octet1_def octet2_def ip4_def)

lemma dialLoop_safe:
  "dialLoop showIP dial e ips = (r, dialed) \<Longrightarrow>
     (\<forall>ip\<in>set dialed. ip \<in> set ips \<and> \<not> IsDenied ip)
     \<and> (\<forall>conn. r = Ok conn \<longrightarrow> dialed \<noteq> [] \<and> dial (last dialed) = Ok conn)
     \<and> ((\<exists>ip\<in>set ips. \<not> IsDenied ip \<and> isOk (dial ip)) \<longrightarrow> isOk r)"
proof (induction ips arbitrary: e r dialed)
  case Nil
  then show ?case by (cases r) auto
next
  case (Cons ip ips)
  show ?case
  proof (cases "IsDenied ip")
    case True
    then show ?thesis using Cons.IH Cons.prems by fastforce
  next
    case False
    show ?thesis
    proof (cases "dial ip")
      case (Inr conn)
      then show ?thesis using False Cons.prems by (auto simp: isOk_def)
    next
      case (Inl d)
      obtain r' ds where l: "dialLoop showIP dial (Some d) ips = (r', ds)" by fastforce
      then have "r = r'" "dialed = ip # ds" using Cons.prems False Inl by auto
      then show ?thesis using Cons.IH [OF l] False Inl by (auto simp: isOk_def)
    qed
  qed
qed

text \<open>C14: Whatever a name resolves to, the dialer of the shared client attempts a connection only to
  addresses the lookup returned and the denylist allows; a connection it returns is to the last of
  them; and it returns one whenever some allowed address accepts.\<close>

theorem dial_only_allowed:
  assumes "dialContext showIP lookup dial host = (r, dialed)"
  shows "(\<forall>ip\<in>set dialed. \<not> IsDenied ip \<and> (\<exists>ips. lookup host = Ok ips \<and> ip \<in> set ips))
    \<and> (\<forall>conn. r = Ok conn \<longrightarrow> dialed \<noteq> [] \<and> dial (last dialed) = Ok conn)
    \<and> (\<forall>ips. lookup host = Ok ips \<and> (\<exists>ip\<in>set ips. \<not> IsDenied ip \<and> isOk (dial ip)) \<longrightarrow> isOk r)"
proof (cases "lookup host")
  case (Inl e)
  then have e: "(r, dialed) = (Err e, [])" using assms by (simp add: dialContext_def)
  then have "r = Err e" "dialed = []" by blast+
  then show ?thesis unfolding \<open>r = Err e\<close> \<open>dialed = []\<close> using Inl by simp
next
  case (Inr ips)
  obtain q ds where l: "dialLoop showIP dial None ips = (q, ds)" by fastforce
  have s: "dialed = ds \<and> (\<forall>conn. r = Ok conn \<longleftrightarrow> q = Ok conn)"
    using assms Inr l by (cases q) (auto simp: dialContext_def split: option.splits)
  then have "isOk r = isOk q" by (simp add: isOk_iff)
  with s show ?thesis using dialLoop_safe [OF l] Inr by simp
qed

theorem dial_only_allowed_witness:
  "dialContext (\<lambda>_. ''?'') (\<lambda>_. Ok [IPv4 (ip4 10 0 0 1), IPv4 (ip4 93 184 216 34)]) (\<lambda>ip. Ok ip) ''h''
     = (Ok (IPv4 (ip4 93 184 216 34)), [IPv4 (ip4 93 184 216 34)]) \<and> \<not> IsDenied (IPv4 (ip4 93 184 216 34))"
proof -
  have d: "dialContext (\<lambda>_. ''?'') (\<lambda>_. Ok [IPv4 (ip4 10 0 0 1), IPv4 (ip4 93 184 216 34)]) (\<lambda>ip. Ok ip) ''h''
     = (Ok (IPv4 (ip4 93 184 216 34)), [IPv4 (ip4 93 184 216 34)])"
    by (simp add: dialContext_def private_denied public_not_denied)
  then show ?thesis using dial_only_allowed [OF d] by simp
qed

lemma follow_origin:
  assumes "via \<noteq> []" "\<forall>u\<in>set via. sameOrigin (hd via) u" "length via \<le> maxRedirects"
  shows "(\<forall>u\<in>set (follow parse via steps). sameOrigin (hd via) u) \<and> length (follow parse via steps) \<le> maxRedirects
    \<and> prefix via (follow parse via steps)"
  using assms
proof (induction parse via steps rule: follow.induct)
  case (1 parse via)
  then show ?case by simp
next
  case (2 parse via t u rest)
  show ?case
  proof (cases "CheckRedirect parse t u via")
    case None
    then have "length via < maxRedirects" "sameOrigin (hd via) u"
      using "2.prems"(1) by (auto simp: CheckRedirect_def hd_conv_nth split: sum.splits if_splits)
    then show ?thesis using "2.IH" [OF None] "2.prems" None by (auto simp: prefix_def)
  next
    case (Some e)
    then show ?thesis using "2.prems" by simp
  qed
qed

lemma sameOrigin_refl: "sameOrigin u u"
  by (simp add: sameOrigin_def)

text \<open>However a server redirects the shared client, every request of the chain stays on the scheme,
  host and port of the first one, and there are at most ten requests.\<close>

theorem redirects_stay_on_origin:
  "(\<forall>u\<in>set (follow parse [start] steps). sameOrigin start u) \<and> length (follow parse [start] steps) \<le> 10"
  using follow_origin [of "[start]" parse steps] by (simp add: sameOrigin_refl maxRedirects_def)

definition demoURL :: "string \<Rightarrow> urlParts" where
  "demoURL host = \<lparr>url_Scheme = ''https'', url_Hostname = host, url_Port = []\<rparr>"

theorem redirects_stay_on_origin_witness:
  "follow (\<lambda>h. Ok (demoURL h)) [demoURL ''a''] [(''A'', demoURL ''A''), (''b'', demoURL ''b'')] = [demoURL ''a'', demoURL ''A'']
   \<and> sameOrigin (demoURL ''a'') (demoURL ''A'')"
proof -
  have f: "follow (\<lambda>h. Ok (demoURL h)) [demoURL ''a''] [(''A'', demoURL ''A''), (''b'', demoURL ''b'')] = [demoURL ''a'', demoURL ''A'']"
    by code_simp
  show ?thesis
    using redirects_stay_on_origin [where start = "demoURL ''a''" and parse = "\<lambda>h. Ok (demoURL h)" and steps = "[(''A'', demoURL ''A''), (''b'', demoURL ''b'')]"]
    unfolding f by simp
qed

text \<open>The unspecified addresses 0.0.0.0 and :: are not on the denylist, so the dialer connects to them;
  on Linux such a connection reaches the local host.\<close>

theorem unspecified_address_allowed:
  "\<not> IsDenied (IPv4 (ip4 0 0 0 0)) \<and> \<not> IsDenied (IPv6 0)
   \<and> dialContext showIP (\<lambda>_. Ok [IPv4 (ip4 0 0 0 0)]) Ok host = (Ok (IPv4 (ip4 0 0 0 0)), [IPv4 (ip4 0 0 0 0)])"
  by (simp add: dialContext_def public_not_denied)

end
