(* ===== verification/Payloads.thy ===== *)
theory Payloads
  imports Records
begin

text \<open>
  Payloads between the steps of a run (\<^verbatim>\<open>internal/activities/payloads.go\<close> and \<^verbatim>\<open>crypto.go\<close>): the choice of
  the place of a payload (inline in its reference, in the object store, in a database row), its
  encryption, the size limit on reads, and the keys.

  AES-GCM and the Base64 codecs of the standard library are the functions of a record \<open>cryptoLib\<close>;
  \<open>cryptoLaws\<close> states what they promise. Random bytes are an argument.
\<close>

section \<open>Encryption\<close>

record cryptoLib =
  cr_Seal :: "string \<Rightarrow> string \<Rightarrow> string \<Rightarrow> string"
  cr_Open :: "string \<Rightarrow> string \<Rightarrow> string \<Rightarrow> string option"
  cr_RawEncode :: "string \<Rightarrow> string"
  cr_RawDecode :: "string \<Rightarrow> string option"
  cr_StdEncode :: "string \<Rightarrow> string"
  cr_StdDecode :: "string \<Rightarrow> string option"

definition cryptoLaws :: "cryptoLib \<Rightarrow> bool" where
  "cryptoLaws C \<longleftrightarrow>
     (\<forall>k n d. cr_Open C k n (cr_Seal C k n d) = Some d)
     \<and> (\<forall>s. cr_RawDecode C (cr_RawEncode C s) = Some s) \<and> (\<forall>s. cr_StdDecode C (cr_StdEncode C s) = Some s)
     \<and> (\<forall>s. cr_RawEncode C s = [] \<longrightarrow> s = [])"

text \<open>\<^verbatim>\<open>aes.NewCipher\<close> accepts keys of 16, 24 and 32 bytes; the nonce of GCM has 12.\<close>

definition aesKeyOK :: "string \<Rightarrow> bool" where
  "aesKeyOK key \<longleftrightarrow> length key \<in> {16, 24, 32}"

abbreviation gcmNonceSize :: nat where "gcmNonceSize \<equiv> 12"

definition keySizeError :: "string \<Rightarrow> connError" where
  "keySizeError key = PlainError (''crypto/aes: invalid key size '' @ itoa (int (length key)))"

definition EncryptPayload :: "cryptoLib \<Rightarrow> string \<Rightarrow> string \<Rightarrow> string \<Rightarrow> (connError, string \<times> string) result" where
  "EncryptPayload C nonce data key =
     (if \<not> aesKeyOK key then Err (keySizeError key)
      else Ok (cr_RawEncode C (cr_Seal C key nonce data), cr_RawEncode C nonce))"

definition DecryptPayload :: "cryptoLib \<Rightarrow> string \<Rightarrow> string \<Rightarrow> string \<Rightarrow> (connError, string) result" where
  "DecryptPayload C ciphertext iv key =
     (case cr_RawDecode C ciphertext of
        None \<Rightarrow> Err (PlainError ''illegal base64 data'')
      | Some sealed \<Rightarrow>
          (case cr_RawDecode C iv of
             None \<Rightarrow> Err (PlainError ''illegal base64 data'')
           | Some nonce \<Rightarrow>
               if \<not> aesKeyOK key then Err (keySizeError key)
               else if length nonce \<noteq> gcmNonceSize
               then Err (PlainError (''invalid GCM nonce length '' @ itoa (int (length nonce))))
               else (case cr_Open C key nonce sealed of
                       None \<Rightarrow> Err (PlainError ''cipher: message authentication failed'')
                     | Some data \<Rightarrow> Ok data)))"

definition DecodePlatformKey :: "cryptoLib \<Rightarrow> string \<Rightarrow> (connError, string) result" where
  "DecodePlatformKey C encoded =
     (if encoded = [] then Ok []
      else case cr_StdDecode C encoded of
        None \<Rightarrow> Err (PlainError ''illegal base64 data'')
      | Some key \<Rightarrow>
          if length key \<noteq> 32 then Err (PlainError ''TEMPORAL_PAYLOAD_ENCRYPTION_KEY must decode to 32 bytes'')
          else Ok key)"

text \<open>
  \<^verbatim>\<open>UnwrapDEK\<close>: \<open>readKey\<close> reads and parses the worker's private key, the result is the decryption
  function of the key, if it is an RSA key.
\<close>

definition UnwrapDEK ::
  "cryptoLib \<Rightarrow> (connError, string \<Rightarrow> (connError, string) result) result \<Rightarrow> string \<Rightarrow> (connError, string) result" where
  "UnwrapDEK C readKey encoded =
     (if encoded = [] then Ok []
      else case readKey of
        Err e \<Rightarrow> Err e
      | Ok decrypt \<Rightarrow>
          (case cr_RawDecode C encoded of
             None \<Rightarrow> Err (PlainError ''illegal base64 data'')
           | Some ciphertext \<Rightarrow> decrypt ciphertext))"

section \<open>Places of a payload\<close>

definition inlineMax :: nat where "inlineMax = 4096"
abbreviation PayloadTooLargeError :: string where "PayloadTooLargeError \<equiv> ''PayloadTooLargeError''"

text \<open>The configuration of a worker: the bucket of its object store, if any, its key and the limit on reads.\<close>

record payloadConfig =
  pc_Bucket :: "string option"
  pc_PlatformKey :: string
  pc_MaxPayloadBytes :: int

record payloadRow =
  pw_Payload :: string
  pw_Encrypted :: bool
  pw_IV :: "string option"

text \<open>The object store (by bucket and key) and the table \<^verbatim>\<open>node_payloads\<close> (by id).\<close>

record payloadStore =
  ps_Objects :: "((string \<times> string) \<times> string) list"
  ps_Rows :: "(string \<times> payloadRow) list"

text \<open>What is written: a value, or text that is JSON already. Only an array of values is counted.\<close>

datatype payloadData = PValue gv | PStrings "string list" | PRaw string

fun payloadBody :: "payloadData \<Rightarrow> string" where
  "payloadBody (PValue v) = jsonMarshal v"
| "payloadBody (PStrings ss) = jsonMarshal (VArr (map VStr ss))"
| "payloadBody (PRaw s) = s"

fun payloadCount :: "payloadData \<Rightarrow> int" where
  "payloadCount (PValue (VArr xs)) = int (length xs)"
| "payloadCount _ = 0"

definition payloadKey :: "payloadConfig \<Rightarrow> string \<Rightarrow> string" where
  "payloadKey P dek = (if dek = [] then pc_PlatformKey P else dek)"

definition baseRef :: "string \<Rightarrow> payloadData \<Rightarrow> DataRef" where
  "baseRef tenant data = \<lparr>ref_Type = [], ref_Key = [], ref_Bucket = [], ref_TenantID = tenant,
     ref_SizeBytes = int (length (payloadBody data)), ref_RecordCount = payloadCount data, ref_Encrypted = False, ref_IV = []\<rparr>"

definition writeInline :: "cryptoLib \<Rightarrow> string \<Rightarrow> string \<Rightarrow> string \<Rightarrow> DataRef \<Rightarrow> (connError, DataRef) result" where
  "writeInline C nonce key body ref =
     (if key \<noteq> [] then
        (case EncryptPayload C nonce body key of
           Err e \<Rightarrow> Err e
         | Ok (c, iv) \<Rightarrow> Ok (ref\<lparr>ref_Type := ''inline'', ref_Key := c, ref_IV := iv, ref_Encrypted := True\<rparr>))
      else Ok (ref\<lparr>ref_Type := ''inline'', ref_Key := cr_StdEncode C body\<rparr>))"

definition writeObject ::
  "cryptoLib \<Rightarrow> string \<Rightarrow> string \<Rightarrow> string \<Rightarrow> string \<Rightarrow> string \<Rightarrow> DataRef \<Rightarrow> payloadStore \<Rightarrow> (connError, DataRef) result \<times> payloadStore" where
  "writeObject C nonce key bucket objectKey body ref s =
     (if key = [] then (Err (PlainError ''PAYLOAD_S3_BUCKET requires TEMPORAL_PAYLOAD_ENCRYPTION_KEY or an execution DEK''), s)
      else case EncryptPayload C nonce body key of
        Err e \<Rightarrow> (Err e, s)
      | Ok (c, iv) \<Rightarrow>
          (Ok (ref\<lparr>ref_Type := ''s3'', ref_Key := objectKey, ref_Bucket := bucket, ref_IV := iv, ref_Encrypted := True\<rparr>),
           s\<lparr>ps_Objects := AList.update (bucket, objectKey) c (ps_Objects s)\<rparr>))"

definition writeRow ::
  "cryptoLib \<Rightarrow> string \<Rightarrow> string \<Rightarrow> string \<Rightarrow> string \<Rightarrow> DataRef \<Rightarrow> payloadStore \<Rightarrow> (connError, DataRef) result \<times> payloadStore" where
  "writeRow C nonce key rowId body ref s =
     (if key \<noteq> [] then
        (case EncryptPayload C nonce body key of
           Err e \<Rightarrow> (Err e, s)
         | Ok (c, iv) \<Rightarrow>
             (Ok (ref\<lparr>ref_Type := ''pg'', ref_Key := rowId, ref_IV := iv, ref_Encrypted := True\<rparr>),
              s\<lparr>ps_Rows := AList.update rowId
                   \<lparr>pw_Payload = jsonString c, pw_Encrypted = True, pw_IV = (if iv = [] then None else Some iv)\<rparr> (ps_Rows s)\<rparr>))
      else (Ok (ref\<lparr>ref_Type := ''pg'', ref_Key := rowId\<rparr>),
            s\<lparr>ps_Rows := AList.update rowId \<lparr>pw_Payload = body, pw_Encrypted = False, pw_IV = None\<rparr> (ps_Rows s)\<rparr>))"

text \<open>\<open>objectKey\<close> is the key of the object, \<open>rowId\<close> the id the database gives the row, both fresh.\<close>

definition writePayload ::
  "cryptoLib \<Rightarrow> payloadConfig \<Rightarrow> string \<Rightarrow> string \<Rightarrow> string \<Rightarrow> payloadData \<Rightarrow> string \<Rightarrow> string \<Rightarrow> payloadStore \<Rightarrow>
   (connError, DataRef) result \<times> payloadStore" where
  "writePayload C P nonce objectKey rowId data tenant dek s =
     (let body = payloadBody data; key = payloadKey P dek; ref = baseRef tenant data
      in if length body \<le> inlineMax then (writeInline C nonce key body ref, s)
         else case pc_Bucket P of
                Some bucket \<Rightarrow> writeObject C nonce key bucket objectKey body ref s
              | None \<Rightarrow> writeRow C nonce key rowId body ref s)"

definition gcmTagSize :: int where "gcmTagSize = 16"

text \<open>\<^verbatim>\<open>base64.RawURLEncoding.EncodedLen\<close>.\<close>

definition rawEncodedLen :: "int \<Rightarrow> int" where
  "rawEncodedLen n = n div 3 * 4 + (n mod 3 * 8 + 5) div 6"

definition ciphertextSizeCap :: "int \<Rightarrow> int" where
  "ciphertextSizeCap maxPlaintextBytes =
     (if maxPlaintextBytes \<le> 0 then 0 else rawEncodedLen (maxPlaintextBytes + gcmTagSize))"

text \<open>\<^verbatim>\<open>Store.Get\<close>: no bucket means the configured one; an object over the cap (0 is no cap) is refused.\<close>

definition storeGet :: "string \<Rightarrow> payloadStore \<Rightarrow> string \<Rightarrow> string \<Rightarrow> int \<Rightarrow> (connError, string) result" where
  "storeGet configured s bucket key maxBytes =
     (case map_of (ps_Objects s) (if bucket = [] then configured else bucket, key) of
        None \<Rightarrow> Err (PlainError ''NoSuchKey'')
      | Some body \<Rightarrow>
          if maxBytes > 0 \<and> int (length body) > maxBytes
          then Err (PlainError (''object '' @ key @ '' is larger than max payload size of '' @ itoa maxBytes @ '' bytes''))
          else Ok body)"

definition readRow :: "(string \<Rightarrow> gv option) \<Rightarrow> cryptoLib \<Rightarrow> string \<Rightarrow> string \<Rightarrow> payloadStore \<Rightarrow> (connError, string) result" where
  "readRow unmarshal C key rowId s =
     (case map_of (ps_Rows s) rowId of
        None \<Rightarrow> Err (PlainError ''no rows in result set'')
      | Some row \<Rightarrow>
          if pw_Encrypted row then
            (case pw_IV row of
               None \<Rightarrow> Err (PlainError (''encrypted DataRef '' @ rowId @ '' is missing its encryption key or IV''))
             | Some iv \<Rightarrow>
                 if key = [] then Err (PlainError (''encrypted DataRef '' @ rowId @ '' is missing its encryption key or IV''))
                 else (case unmarshal (pw_Payload row) of
                         Some (VStr ciphertext) \<Rightarrow> DecryptPayload C ciphertext iv key
                       | Some VNil \<Rightarrow> DecryptPayload C [] iv key
                       | _ \<Rightarrow> Err (PlainError ''json: cannot unmarshal'')))
          else Ok (pw_Payload row))"

definition readBody :: "(string \<Rightarrow> gv option) \<Rightarrow> cryptoLib \<Rightarrow> payloadConfig \<Rightarrow> DataRef \<Rightarrow> string \<Rightarrow> payloadStore \<Rightarrow> (connError, string) result" where
  "readBody unmarshal C P ref key s =
     (if ref_Type ref = ''inline'' then
        (if ref_Encrypted ref then
           (if key = [] \<or> ref_IV ref = [] then Err (PlainError ''encrypted inline DataRef is missing its encryption key or IV'')
            else DecryptPayload C (ref_Key ref) (ref_IV ref) key)
         else (case cr_StdDecode C (ref_Key ref) of None \<Rightarrow> Err (PlainError ''illegal base64 data'') | Some b \<Rightarrow> Ok b))
      else if ref_Type ref = ''s3'' then
        (case (\<not> ref_Encrypted ref \<or> key = [] \<or> ref_IV ref = [], pc_Bucket P) of
           (False, Some bucket) \<Rightarrow>
              (case storeGet bucket s (ref_Bucket ref) (ref_Key ref) (ciphertextSizeCap (pc_MaxPayloadBytes P)) of
                 Err e \<Rightarrow> Err e
               | Ok c \<Rightarrow> DecryptPayload C c (ref_IV ref) key)
         | _ \<Rightarrow> Err (PlainError (''encrypted DataRef '' @ ref_Key ref @ '' is missing its object store, encryption key, or IV'')))
      else if ref_Type ref = ''pg'' then readRow unmarshal C key (ref_Key ref) s
      else Err (PlainError (''unsupported DataRef type '' @ goQuote (ref_Type ref))))"

definition tooLarge :: "int \<Rightarrow> int \<Rightarrow> connError" where
  "tooLarge bytes lim = PermanentError PayloadTooLargeError
     (''upstream output is '' @ itoa bytes @ '' bytes, over the MAX_PAYLOAD_BYTES limit of '' @ itoa lim
       @ ''; raise MAX_PAYLOAD_BYTES on the activity worker or lower the source pageSize'')"

definition readPayload ::
  "(string \<Rightarrow> gv option) \<Rightarrow> cryptoLib \<Rightarrow> payloadConfig \<Rightarrow> DataRef option \<Rightarrow> string \<Rightarrow> payloadStore \<Rightarrow> (connError, gv) result" where
  "readPayload unmarshal C P ref dek s =
     (case ref of
        None \<Rightarrow> Ok VNil
      | Some r \<Rightarrow>
          if pc_MaxPayloadBytes P > 0 \<and> ref_SizeBytes r > pc_MaxPayloadBytes P
          then Err (tooLarge (ref_SizeBytes r) (pc_MaxPayloadBytes P))
          else (case readBody unmarshal C P r (payloadKey P dek) s of
                  Err e \<Rightarrow> Err e
                | Ok body \<Rightarrow> (case unmarshal body of None \<Rightarrow> Err (PlainError ''invalid JSON'') | Some v \<Rightarrow> Ok v)))"

section \<open>Round trip\<close>

lemma decrypt_encrypt:
  assumes "cryptoLaws C" "length nonce = gcmNonceSize" "EncryptPayload C nonce data key = Ok (c, iv)"
  shows "DecryptPayload C c iv key = Ok data" "iv \<noteq> []"
  using assms by (auto simp: EncryptPayload_def DecryptPayload_def cryptoLaws_def split: if_splits)

text \<open>The sealed text of a body within the limit is within the cap of the object store.\<close>

definition sealedSizes :: "cryptoLib \<Rightarrow> bool" where
  "sealedSizes C \<longleftrightarrow>
     (\<forall>k n d. length (cr_Seal C k n d) = length d + nat gcmTagSize)
     \<and> (\<forall>s. int (length (cr_RawEncode C s)) = rawEncodedLen (int (length s)))"

lemma rawEncodedLen_mono: "0 \<le> m \<Longrightarrow> m \<le> n \<Longrightarrow> rawEncodedLen m \<le> rawEncodedLen n"
proof -
  assume a: "0 \<le> m" "m \<le> n"
  have *: "rawEncodedLen x \<le> rawEncodedLen (x + 1)" for x
  proof -
    define q where "q = x div 3"
    have x: "x = 3 * q + x mod 3" by (simp add: q_def)
    consider "x mod 3 = 0" | "x mod 3 = 1" | "x mod 3 = 2" by linarith
    then show ?thesis
    proof cases
      case 1
      then have "x = 3 * q" using x by simp
      then show ?thesis by (simp add: rawEncodedLen_def)
    next
      case 2
      then have "x = 3 * q + 1" using x by simp
      then show ?thesis by (simp add: rawEncodedLen_def)
    next
      case 3
      then have "x = 3 * q + 2" "x + 1 = 3 * (q + 1)" using x by simp_all
      then have "rawEncodedLen x = q * 4 + 3" "rawEncodedLen (x + 1) = (q + 1) * 4"
        by (simp_all only: rawEncodedLen_def) simp_all
      then show ?thesis by simp
    qed
  qed
  have "rawEncodedLen m \<le> rawEncodedLen (m + int k)" for k
  proof (induction k)
    case 0
    then show ?case by simp
  next
    case (Suc k)
    then show ?case using * [of "m + int k"] by (simp add: add.assoc add.commute [of 1])
  qed
  from this [of "nat (n - m)"] show ?thesis using a by simp
qed

lemma cap_covers:
  assumes "sealedSizes C" "limit > 0" "int (length data) \<le> limit"
  shows "int (length (cr_RawEncode C (cr_Seal C k n data))) \<le> ciphertextSizeCap limit"
  using assms rawEncodedLen_mono [of "int (length data) + 16" "limit + 16"]
  by (auto simp: sealedSizes_def ciphertextSizeCap_def gcmTagSize_def)

lemma write_read:
  assumes laws: "cryptoLaws C" "sealedSizes C" "length nonce = gcmNonceSize"
    and json: "unmarshal (payloadBody data) = Some v" "\<And>c iv. EncryptPayload C nonce (payloadBody data) (payloadKey P dek) = Ok (c, iv) \<Longrightarrow> unmarshal (jsonString c) = Some (VStr c)"
    and w: "writePayload C P nonce objectKey rowId data tenant dek s = (Ok ref, s')"
    and lim: "pc_MaxPayloadBytes P \<le> 0 \<or> int (length (payloadBody data)) \<le> pc_MaxPayloadBytes P"
  shows "readPayload unmarshal C P (Some ref) dek s' = Ok v \<and> ref_SizeBytes ref = int (length (payloadBody data))"
proof -
  let ?b = "payloadBody data" and ?k = "payloadKey P dek"
  have size: "ref_SizeBytes ref = int (length ?b)"
    using w by (auto simp: writePayload_def writeInline_def writeObject_def writeRow_def baseRef_def Let_def
        split: if_splits sum.splits option.splits)
  have "readBody unmarshal C P ref ?k s' = Ok ?b"
  proof (cases "length ?b \<le> inlineMax")
    case True
    then have i: "writeInline C nonce ?k ?b (baseRef tenant data) = Ok ref" using w by (simp add: writePayload_def Let_def)
    show ?thesis
    proof (cases "?k = []")
      case True
      then have "ref_Type ref = ''inline''" "\<not> ref_Encrypted ref" "ref_Key ref = cr_StdEncode C ?b"
        using i by (auto simp: writeInline_def baseRef_def)
      then show ?thesis using laws(1) by (simp add: readBody_def cryptoLaws_def)
    next
      case False
      then obtain c iv where e: "EncryptPayload C nonce ?b ?k = Ok (c, iv)"
        and r: "ref_Type ref = ''inline''" "ref_Encrypted ref" "ref_Key ref = c" "ref_IV ref = iv"
        using i by (auto simp: writeInline_def split: sum.splits)
      then show ?thesis using decrypt_encrypt [OF laws(1,3) e] False by (simp add: readBody_def)
    qed
  next
    case big: False
    show ?thesis
    proof (cases "pc_Bucket P")
      case (Some bucket)
      then have o: "writeObject C nonce ?k bucket objectKey ?b (baseRef tenant data) s = (Ok ref, s')"
        using w big by (simp add: writePayload_def Let_def)
      then obtain c iv where k: "?k \<noteq> []" and e: "EncryptPayload C nonce ?b ?k = Ok (c, iv)"
        and r: "ref_Type ref = ''s3''" "ref_Encrypted ref" "ref_Key ref = objectKey" "ref_Bucket ref = bucket" "ref_IV ref = iv"
        and s': "ps_Objects s' = AList.update (bucket, objectKey) c (ps_Objects s)"
        by (auto simp: writeObject_def split: if_splits sum.splits)
      have c: "c = cr_RawEncode C (cr_Seal C ?k nonce ?b)" using e by (auto simp: EncryptPayload_def split: if_splits)
      have cap: "\<not> (ciphertextSizeCap (pc_MaxPayloadBytes P) > 0 \<and> int (length c) > ciphertextSizeCap (pc_MaxPayloadBytes P))"
      proof (cases "pc_MaxPayloadBytes P > 0")
        case True
        then show ?thesis using cap_covers [OF laws(2) True, of ?b ?k nonce] lim c by simp
      next
        case False
        then show ?thesis by (simp add: ciphertextSizeCap_def)
      qed
      have get: "storeGet bucket s' bucket objectKey (ciphertextSizeCap (pc_MaxPayloadBytes P)) = Ok c"
        unfolding storeGet_def s' using cap by (simp add: update_conv')
      show ?thesis unfolding readBody_def r using decrypt_encrypt [OF laws(1,3) e] k Some get r by simp
    next
      case None
      then have o: "writeRow C nonce ?k rowId ?b (baseRef tenant data) s = (Ok ref, s')"
        using w big by (simp add: writePayload_def Let_def)
      show ?thesis
      proof (cases "?k = []")
        case True
        then have "ref_Type ref = ''pg''" "ref_Key ref = rowId"
          "map_of (ps_Rows s') rowId = Some \<lparr>pw_Payload = ?b, pw_Encrypted = False, pw_IV = None\<rparr>"
          using o by (auto simp: writeRow_def update_conv')
        then show ?thesis by (simp add: readBody_def readRow_def)
      next
        case False
        then obtain c iv where e: "EncryptPayload C nonce ?b ?k = Ok (c, iv)"
          and r: "ref_Type ref = ''pg''" "ref_Key ref = rowId"
          and s': "map_of (ps_Rows s') rowId
              = Some \<lparr>pw_Payload = jsonString c, pw_Encrypted = True, pw_IV = (if iv = [] then None else Some iv)\<rparr>"
          using o False by (auto simp: writeRow_def update_conv' split: sum.splits)
        then show ?thesis using decrypt_encrypt [OF laws(1,3) e] False json(2) [OF e] by (simp add: readBody_def readRow_def)
      qed
    qed
  qed
  then show ?thesis using size json(1) lim by (auto simp: readPayload_def)
qed

text \<open>C15: What a step writes the next step reads: for a value whose JSON decodes to \<open>v\<close>, every reference
  that \<^verbatim>\<open>Write\<close> returns, inline, in the object store or in a row, encrypted or not, is read back as
  \<open>v\<close> with the same key, provided its size is within the read limit; in particular the download
  cap of the object store never cuts a payload that the limit allows.\<close>

theorem payload_roundtrip:
  assumes laws: "cryptoLaws C" "sealedSizes C" "length nonce = gcmNonceSize"
    and json: "unmarshal (payloadBody data) = Some v" "\<And>c iv. EncryptPayload C nonce (payloadBody data) (payloadKey P dek) = Ok (c, iv) \<Longrightarrow> unmarshal (jsonString c) = Some (VStr c)"
    and w: "writePayload C P nonce objectKey rowId data tenant dek s = (Ok ref, s')"
    and lim: "pc_MaxPayloadBytes P \<le> 0 \<or> int (length (payloadBody data)) \<le> pc_MaxPayloadBytes P"
  shows "readPayload unmarshal C P (Some ref) dek s' = Ok v \<and> ref_SizeBytes ref = int (length (payloadBody data))"
  by (rule write_read [OF assms])

text \<open>A codec with the right sizes, for the witness: the tag is padding, and so is the Base64 overhead.\<close>

definition padCrypto :: cryptoLib where
  "padCrypto = \<lparr>cr_Seal = (\<lambda>k n d. d @ replicate 16 (CHR ''t'')),
     cr_Open = (\<lambda>k n s. Some (take (length s - 16) s)),
     cr_RawEncode = (\<lambda>s. s @ replicate (nat (rawEncodedLen (int (length s))) - length s) (CHR ''A'')),
     cr_RawDecode = (\<lambda>s. Some (take (length s * 3 div 4) s)),
     cr_StdEncode = (\<lambda>s. s), cr_StdDecode = Some\<rparr>"

lemma rawEncodedLen_nat:
  "nat (rawEncodedLen (int n)) \<ge> n \<and> nat (rawEncodedLen (int n)) * 3 div 4 = n \<and> (nat (rawEncodedLen (int n)) = 0 \<longrightarrow> n = 0)"
proof -
  define q r where "q = n div 3" and "r = n mod 3"
  have n: "n = 3 * q + r" "r < 3" by (simp_all add: q_def r_def)
  have "int n div 3 = int q" "int n mod 3 = int r" unfolding q_def r_def by (simp_all add: zdiv_int zmod_int)
  then have "nat (rawEncodedLen (int n)) = 4 * q + (8 * r + 5) div 6"
    by (simp add: rawEncodedLen_def nat_add_distrib zdiv_int [symmetric] nat_mult_distrib nat_div_distrib mult.commute)
  moreover have "r = 0 \<or> r = 1 \<or> r = 2" using n(2) by linarith
  ultimately show ?thesis using n(1) by (elim disjE) simp_all
qed

lemma padCrypto_laws: "cryptoLaws padCrypto" "sealedSizes padCrypto"
  using rawEncodedLen_nat by (auto simp: cryptoLaws_def sealedSizes_def padCrypto_def gcmTagSize_def rawEncodedLen_def)

theorem payload_roundtrip_witness:
  "\<exists>ref s'. writePayload padCrypto \<lparr>pc_Bucket = None, pc_PlatformKey = replicate 16 (CHR ''k''), pc_MaxPayloadBytes = 0\<rparr>
        (replicate 12 (CHR ''n'')) ''o'' ''r'' (PValue (VArr [VInt 1])) ''t'' [] \<lparr>ps_Objects = [], ps_Rows = []\<rparr> = (Ok ref, s')
     \<and> readPayload (\<lambda>b. if b = ''[1]'' then Some (VArr [VInt 1]) else Some (VStr (take (length b - 2) (drop 1 b)))) padCrypto
        \<lparr>pc_Bucket = None, pc_PlatformKey = replicate 16 (CHR ''k''), pc_MaxPayloadBytes = 0\<rparr> (Some ref) [] s' = Ok (VArr [VInt 1])"
proof -
  let ?P = "\<lparr>pc_Bucket = None, pc_PlatformKey = replicate 16 (CHR ''k''), pc_MaxPayloadBytes = 0\<rparr>"
  let ?n = "replicate 12 (CHR ''n'')" and ?v = "VArr [VInt 1]" and ?s = "\<lparr>ps_Objects = [], ps_Rows = []\<rparr>"
  let ?u = "\<lambda>b. if b = ''[1]'' then Some (VArr [VInt 1]) else Some (VStr (take (length b - 2) (drop 1 b)))"
  have body: "payloadBody (PValue ?v) = ''[1]''" by code_simp
  have "EncryptPayload padCrypto ?n (payloadBody (PValue ?v)) (payloadKey ?P []) = Ok (c, iv) \<Longrightarrow> ?u (jsonString c) = Some (VStr c)" for c iv
  proof -
    assume "EncryptPayload padCrypto ?n (payloadBody (PValue ?v)) (payloadKey ?P []) = Ok (c, iv)"
    moreover have "map_sum id fst (EncryptPayload padCrypto ?n (payloadBody (PValue ?v)) (payloadKey ?P [])) = Ok ''[1]ttttttttttttttttAAAAAAA''"
      by code_simp
    ultimately have c: "c = ''[1]ttttttttttttttttAAAAAAA''" by simp
    show ?thesis unfolding c by code_simp
  qed
  note j = this
  have u: "?u (payloadBody (PValue ?v)) = Some ?v" unfolding body by simp
  have len: "length ?n = gcmNonceSize" by simp
  have w: "fst (writePayload padCrypto ?P ?n ''o'' ''r'' (PValue ?v) ''t'' [] ?s) \<in> range Ok"
    unfolding writePayload_def Let_def body
    by (simp add: inlineMax_def writeInline_def EncryptPayload_def payloadKey_def aesKeyOK_def)
  then obtain ref s' where r: "writePayload padCrypto ?P ?n ''o'' ''r'' (PValue ?v) ''t'' [] ?s = (Ok ref, s')"
    by (cases "writePayload padCrypto ?P ?n ''o'' ''r'' (PValue ?v) ''t'' [] ?s") auto
  have "readPayload ?u padCrypto ?P (Some ref) [] s' = Ok ?v"
    by (rule payload_roundtrip [OF padCrypto_laws len u j r, THEN conjunct1]) simp_all
  then show ?thesis using r by blast
qed

end
