(* ===== verification/Redact.thy ===== *)
theory Redact
  imports Records
begin

text \<open>
  Errors of activities (\<^verbatim>\<open>internal/activities/errors.go\<close>): the redaction of credentials in error texts,
  with its three patterns as matchers, and the conversion of connector errors into errors of the
  workflow service. The patterns are matched on ASCII text; case is folded for ASCII letters.
\<close>

section \<open>Replacement of all matches\<close>

text \<open>
  \<open>m prev s\<close> is the match of a pattern at the start of \<open>s\<close>, where \<open>prev\<close> is the byte before it: the
  length of the match and its replacement. Matches are the leftmost ones and do not overlap.
\<close>

function replaceMatches :: "(char option \<Rightarrow> string \<Rightarrow> (nat \<times> string) option) \<Rightarrow> char option \<Rightarrow> string \<Rightarrow> string" where
  "replaceMatches m prev [] = []"
| "replaceMatches m prev (c # s) =
     (case m prev (c # s) of
        Some (n, by') \<Rightarrow>
          (if 0 < n then by' @ replaceMatches m (Some ((c # s) ! (min n (length (c # s)) - 1))) (drop n (c # s))
           else c # replaceMatches m (Some c) s)
      | None \<Rightarrow> c # replaceMatches m (Some c) s)"
  by pat_completeness auto
termination
  by (relation "measure (\<lambda>(m, prev, s). length s)") auto

text \<open>\<^verbatim>\<open>\s\<close> of a pattern.\<close>

definition reSpace :: "char \<Rightarrow> bool" where
  "reSpace c \<longleftrightarrow> (let n = of_char c :: nat in n \<in> {9, 10, 12, 13, 32})"

definition hasPrefixFold :: "string \<Rightarrow> string \<Rightarrow> bool" where
  "hasPrefixFold p s \<longleftrightarrow> length p \<le> length s \<and> equalFold p (take (length p) s)"

section \<open>The patterns\<close>

text \<open>User information of a URL: a scheme, \<^verbatim>\<open>://\<close>, text without slash, space or at sign, and an at sign.\<close>

definition matchUserinfo :: "char option \<Rightarrow> string \<Rightarrow> (nat \<times> string) option" where
  "matchUserinfo prev s =
     (case s of [] \<Rightarrow> None
      | c # _ \<Rightarrow>
          if \<not> isLetter c then None
          else
            let scheme = takeWhile (\<lambda>c. isLetter c \<or> isDigit c \<or> c \<in> set ''+.-'') s;
                rest = drop (length scheme) s;
                info = takeWhile (\<lambda>c. c \<noteq> CHR ''/'' \<and> \<not> reSpace c \<and> c \<noteq> CHR ''@'') (drop 3 rest)
            in if hasPrefix ''://'' rest \<and> info \<noteq> [] \<and> hasPrefix ''@'' (drop (3 + length info) rest)
               then Some (length scheme + 3 + length info + 1, scheme @ ''://[REDACTED]@'') else None)"

text \<open>The words that announce a secret; the dash or underscore in the two-part words is optional.\<close>

definition secretWords :: "string list" where
  "secretWords = [''password'', ''passwd'', ''pwd'', ''secret'', ''token'', ''authorization''] @
     concat (map (\<lambda>a. map (\<lambda>sep. a @ sep @ ''key'') [''-'', ''_'', []]) [''api'', ''access'', ''private''])"

definition skipQuote :: "string \<Rightarrow> string" where
  "skipQuote s = (if hasPrefix [char_of (34 :: nat)] s then drop 1 s else s)"

definition secretChar :: "char \<Rightarrow> bool" where
  "secretChar c \<longleftrightarrow> \<not> reSpace c \<and> c \<notin> set '',;}'' \<and> c \<noteq> char_of (34 :: nat) \<and> c \<noteq> CHR ''&''"

text \<open>The scheme word of an authorization header with the white space after it.\<close>

definition authWord :: "string \<Rightarrow> string option" where
  "authWord s =
     (case find (\<lambda>w. hasPrefixFold w s) [''bearer'', ''basic''] of
        None \<Rightarrow> None
      | Some w \<Rightarrow> let sp = takeWhile reSpace (drop (length w) s) in if sp = [] then None else Some (take (length w) s @ sp))"

text \<open>The secret itself, after an optional scheme word: its length.\<close>

definition secretLength :: "string \<Rightarrow> nat" where
  "secretLength s =
     (let plain = length (takeWhile secretChar s) in
      case authWord s of
        None \<Rightarrow> plain
      | Some w \<Rightarrow> let n = length (takeWhile secretChar (drop (length w) s)) in if n = 0 then plain else length w + n)"

definition matchSensitive :: "char option \<Rightarrow> string \<Rightarrow> (nat \<times> string) option" where
  "matchSensitive prev s =
     (case find (\<lambda>w. hasPrefixFold w s) secretWords of
        None \<Rightarrow> None
      | Some w \<Rightarrow>
          let s1 = dropWhile reSpace (skipQuote (drop (length w) s))
          in case s1 of [] \<Rightarrow> None
             | c # r \<Rightarrow>
                 if c \<noteq> CHR ''='' \<and> c \<noteq> CHR '':'' then None
                 else let s2 = skipQuote (dropWhile reSpace r); k = length s - length s2; n = secretLength s2
                      in if n = 0 then None else Some (k + n, take k s @ ''[REDACTED]''))"

definition isWord :: "char \<Rightarrow> bool" where
  "isWord c \<longleftrightarrow> isLetter c \<or> isDigit c \<or> c = CHR ''_''"

definition matchBearer :: "char option \<Rightarrow> string \<Rightarrow> (nat \<times> string) option" where
  "matchBearer prev s =
     (if (case prev of Some c \<Rightarrow> isWord c | None \<Rightarrow> False) then None
      else case authWord s of
        None \<Rightarrow> None
      | Some w \<Rightarrow>
          let n = length (takeWhile (\<lambda>c. isLetter c \<or> isDigit c \<or> c \<in> set ''._~+/=-'') (drop (length w) s))
          in if n = 0 then None else Some (length w + n, takeWhile (\<lambda>c. \<not> reSpace c) w @ '' [REDACTED]''))"

section \<open>Redaction and errors\<close>

definition maxErrorTextLength :: nat where "maxErrorTextLength = 2000"

text \<open>\<^verbatim>\<open>utf8.RuneStart\<close>: not a continuation byte.\<close>

definition runeStart :: "char \<Rightarrow> bool" where
  "runeStart c \<longleftrightarrow> (of_char c :: nat) div 64 \<noteq> 2"

fun cutRune :: "string \<Rightarrow> nat \<Rightarrow> nat" where
  "cutRune v 0 = 0"
| "cutRune v (Suc n) = (if \<not> runeStart (v ! Suc n) then cutRune v n else Suc n)"

text \<open>The ellipsis in UTF-8.\<close>

definition ellipsis :: string where
  "ellipsis = map char_of [0xE2, 0x80, 0xA6 :: nat]"

definition redactText :: "string \<Rightarrow> string" where
  "redactText v0 =
     (let v1 = replaceMatches matchUserinfo None v0;
          v2 = replaceMatches matchSensitive None v1;
          v = replaceMatches matchBearer None v2
      in if length v > maxErrorTextLength then take (cutRune v maxErrorTextLength) v @ ellipsis else v)"

text \<open>
  The errors an activity meets: a cancelled or expired context, an error of the workflow service, or an
  error of a connector.
\<close>

datatype appError = AppError (ae_Type: string) (ae_Text: string) (ae_NonRetryable: bool)
datatype goError = EContext string | EApp appError | EConn connError

fun connText :: "connError \<Rightarrow> string" where
  "connText (PermanentError t e) = e"
| "connText (PlainError e) = e"

definition activityError :: "goError \<Rightarrow> goError" where
  "activityError e =
     (case e of
        EContext _ \<Rightarrow> e
      | EApp _ \<Rightarrow> e
      | EConn c \<Rightarrow>
          (case AsPermanent c of
             Some (t, _) \<Rightarrow> EApp (AppError t (redactText (connText c)) True)
           | None \<Rightarrow> EApp (AppError ''ConnectorError'' (redactText (connText c)) False)))"

lemma cutRune_le: "cutRune v n \<le> n"
  by (induction n) auto

text \<open>A stored error text is bounded.\<close>

lemma redactText_length: "length (redactText v) \<le> maxErrorTextLength + 3"
  by (simp add: redactText_def Let_def ellipsis_def) (meson cutRune_le le_trans min.cobounded2 add_le_mono1 min.coboundedI2)

text \<open>Errors that retrying cannot fix become non-retryable, and only they.\<close>

lemma activityError_retryable:
  "activityError (EConn c) = EApp (AppError t m nr) \<Longrightarrow> nr = (AsPermanent c \<noteq> None)"
  by (cases c) (auto simp: activityError_def AsPermanent_def)

end
