(* ===== verification/Activities.thy ===== *)
theory Activities
  imports Transforms Payloads Redact Executions
begin

text \<open>
  The activity bodies (\<^verbatim>\<open>internal/activities/activities.go\<close>): preparation of a scheduled run with its quota,
  fetching a page of a source, dispatching a step, merging branches, evaluating a condition, committing
  cursors and dedupe keys.

  The tables these activities use are in a record \<open>actDB\<close>; the rows of executions and node runs are
  those of the theory \<open>Executions\<close>. A statement of the database succeeds; when it fails, the
  transaction or the activity returns the error and the tables are those of the last commit. Times are
  arguments.
\<close>

section \<open>State\<close>

record planRow =
  bp_FreeTierLimit :: int
  bp_ExtraQuota :: int

record qualityRow =
  qr_TenantID :: string
  qr_PipelineID :: string
  qr_ExecutionID :: string
  qr_NodeID :: string
  qr_Status :: string
  qr_Passed :: int
  qr_Failed :: int

record actDB =
  ad_Ctl :: ctlDB
  ad_Plans :: "(string \<times> planRow) list"
  ad_Usage :: "((string \<times> string) \<times> int) list"
  ad_Entitlements :: "((string \<times> string) \<times> bool) list"
  ad_Instances :: "(string \<times> string) list"
  ad_Cursors :: "((string \<times> string) \<times> obj) list"
  ad_DedupeKeys :: "(string \<times> string \<times> string \<times> string) list"
  ad_Quality :: "qualityRow list"
  ad_Payloads :: payloadStore

text \<open>A worker: its payload configuration and codecs, its key, the merge limit, and the decoder of JSON.\<close>

record worker =
  wk_Payload :: payloadConfig
  wk_Crypto :: cryptoLib
  wk_PrivateKey :: "(connError, string \<Rightarrow> (connError, string) result) result"
  wk_MaxMerge :: int
  wk_Unmarshal :: "string \<Rightarrow> gv option"
  wk_Sha :: "string \<Rightarrow> string"

text \<open>Fresh randomness and identifiers of one write.\<close>

record freshness =
  fr_Nonce :: string
  fr_ObjectKey :: string
  fr_RowID :: string

definition dekOf :: "worker \<Rightarrow> string \<Rightarrow> (connError, string) result" where
  "dekOf W encoded = (if encoded = [] then Ok [] else UnwrapDEK (wk_Crypto W) (wk_PrivateKey W) encoded)"

definition readRef :: "worker \<Rightarrow> DataRef option \<Rightarrow> string \<Rightarrow> actDB \<Rightarrow> (connError, gv) result" where
  "readRef W ref dek db = readPayload (wk_Unmarshal W) (wk_Crypto W) (wk_Payload W) ref dek (ad_Payloads db)"

definition writeRef ::
  "worker \<Rightarrow> freshness \<Rightarrow> payloadData \<Rightarrow> string \<Rightarrow> string \<Rightarrow> actDB \<Rightarrow> (connError, DataRef) result \<times> actDB" where
  "writeRef W f data tenant dek db =
     (case writePayload (wk_Crypto W) (wk_Payload W) (fr_Nonce f) (fr_ObjectKey f) (fr_RowID f) data tenant dek (ad_Payloads db) of
        (r, s) \<Rightarrow> (r, db\<lparr>ad_Payloads := s\<rparr>))"

section \<open>Quota\<close>

definition quotaError :: goError where
  "quotaError = EApp (AppError ''QuotaExceededError'' ''scheduled execution quota exceeded'' True)"

text \<open>
  \<^verbatim>\<open>PrepareScheduledExecution\<close>: \<open>month\<close> is the current month, \<open>defaults\<close> the plan of a tenant
  without a row. All statements are one transaction.
\<close>

definition prepareScheduledExecution ::
  "bool \<Rightarrow> string \<Rightarrow> planRow \<Rightarrow> execRow \<Rightarrow> actDB \<Rightarrow> goError option \<times> actDB" where
  "prepareScheduledExecution billing month defaults row db =
     (let tenant = ex_TenantID row;
          plans = (if map_of (ad_Plans db) tenant = None then (tenant, defaults) # ad_Plans db else ad_Plans db);
          usage = (if map_of (ad_Usage db) (tenant, month) = None then ((tenant, month), 0) # ad_Usage db else ad_Usage db);
          plan = the (map_of plans tenant); lim = bp_FreeTierLimit plan + bp_ExtraQuota plan;
          used = the (map_of usage (tenant, month));
          execs = db_Executions (ad_Ctl db)
      in if billing \<and> used \<ge> lim then (Some quotaError, db)
         else (None, db\<lparr>ad_Plans := plans, ad_Usage := AList.update (tenant, month) (used + 1) usage,
                 ad_Ctl := (ad_Ctl db)\<lparr>db_Executions :=
                    (if list_ex (\<lambda>r. ex_ID r = ex_ID row) execs then execs else execs @ [row])\<rparr>\<rparr>))"

section \<open>Guards\<close>

definition requiredFeature :: "string \<Rightarrow> obj \<Rightarrow> string" where
  "requiredFeature activityType config =
     (let f1 = (if activityType = ''kafka.fetch'' \<or> activityType = ''sink.kafka'' \<or> stringValue (objGet config ''syncMode'') = ''cdc''
                   \<or> stringValue (objGet config ''writeMode'') = ''apply-cdc'' then ''realtime'' else []);
          f2 = (if activityType = ''transform.dedupe'' \<and> stringValue (objGet config ''scope'') = ''pipeline'' then ''statefulProcessing'' else f1)
      in if contains [''sftp.fetch'', ''sink.sftp'', ''snowflake.fetch'', ''sink.snowflake'', ''iceberg.fetch'', ''sink.iceberg''] activityType
         then ''advancedConnectors'' else f2)"

definition requireEntitlement :: "actDB \<Rightarrow> string \<Rightarrow> string \<Rightarrow> obj \<Rightarrow> goError option" where
  "requireEntitlement db tenant activityType config =
     (let feature = requiredFeature activityType config in
      if feature = [] then None
      else if map_of (ad_Entitlements db) (tenant, feature) = Some True then None
      else Some (EApp (AppError ''FeatureNotEnabled'' (feature @ '' is not enabled for this workspace'') True)))"

definition verifyConnectorOwnership :: "actDB \<Rightarrow> string \<Rightarrow> obj \<Rightarrow> goError option" where
  "verifyConnectorOwnership db tenant config =
     (let cid = stringValue (objGet config ''connectionId'') in
      if cid = [] then None
      else if (cid, tenant) \<in> set (ad_Instances db) then None
      else Some (EApp (AppError ''ConnectorNotFound'' ''connector not found'' True)))"

definition controlGoError :: "control_error \<Rightarrow> goError" where
  "controlGoError e = (case e of
     InvalidExecutionIdentity \<Rightarrow> EApp (AppError ''InvalidExecutionIdentity'' ''execution identity is required'' True)
   | ExecutionNotReady \<Rightarrow> EApp (AppError ''ExecutionNotReady'' ''execution metadata is not ready'' False)
   | ExecutionControlBlocked state attempt \<Rightarrow> EApp (AppError ''ExecutionControlBlocked'' ''execution admission is blocked'' True))"

definition admit :: "actDB \<Rightarrow> int \<Rightarrow> string \<Rightarrow> string \<Rightarrow> bool \<Rightarrow> goError option" where
  "admit db attempt tenant eid required =
     map_option controlGoError (admitControlledActivity (ad_Ctl db) attempt tenant eid required)"

text \<open>The clock of one activity: when it started, the milliseconds it took, and the time of the write.\<close>

record clock =
  ck_Started :: int
  ck_Duration :: int
  ck_Now :: int

definition noteNodeRun ::
  "clock \<Rightarrow> string \<Rightarrow> string \<Rightarrow> string \<Rightarrow> string \<Rightarrow> int \<Rightarrow> string \<Rightarrow> bool \<Rightarrow> actDB \<Rightarrow> actDB" where
  "noteNodeRun T eid nid tenant status cnt errorText appendRecords db =
     db\<lparr>ad_Ctl := (ad_Ctl db)\<lparr>db_NodeRuns :=
        recordNodeRun redactText (ck_Now T) eid nid tenant status (ck_Started T) (ck_Duration T) cnt errorText appendRecords
          (db_NodeRuns (ad_Ctl db))\<rparr>\<rparr>"

section \<open>Fetching a page\<close>

record fetchParams =
  fp_ControlRequired :: bool
  fp_ActivityType :: string
  fp_Config :: obj
  fp_Ingestion :: "IngestionConfig option"
  fp_TenantID :: string
  fp_ConnectionID :: string
  fp_ExecutionID :: string
  fp_NodeID :: string
  fp_Cursor :: "obj option"
  fp_EncryptedDEK :: string

record fetchResult =
  fs_OutputRef :: DataRef
  fs_HasMore :: bool
  fs_RecordCount :: int
  fs_Checkpoint :: obj
  fs_LagRecords :: int

text \<open>The cursor of the call, else the committed one, else the empty one.\<close>

definition startCursor :: "actDB \<Rightarrow> fetchParams \<Rightarrow> obj" where
  "startCursor db p =
     (case fp_Cursor p of Some c \<Rightarrow> c
      | None \<Rightarrow> (case map_of (ad_Cursors db) (fp_TenantID p, fp_ConnectionID p) of Some c \<Rightarrow> c | None \<Rightarrow> []))"

definition fetchSourcePage ::
  "worker \<Rightarrow> (string \<Rightarrow> SourceParams \<Rightarrow> (connError, SourceResult) result) \<Rightarrow> freshness \<Rightarrow> clock \<Rightarrow> int \<Rightarrow> fetchParams \<Rightarrow> actDB \<Rightarrow>
   (goError, fetchResult) result \<times> actDB" where
  "fetchSourcePage W fetch f T attempt p db =
     (case requireEntitlement db (fp_TenantID p) (fp_ActivityType p) (fp_Config p) of Some e \<Rightarrow> (Err e, db) | None \<Rightarrow>
      case verifyConnectorOwnership db (fp_TenantID p) (fp_Config p) of Some e \<Rightarrow> (Err e, db) | None \<Rightarrow>
      case admit db attempt (fp_TenantID p) (fp_ExecutionID p) (fp_ControlRequired p) of Some e \<Rightarrow> (Err e, db) | None \<Rightarrow>
      case fetch (fp_ActivityType p) \<lparr>sp_Config = fp_Config p, sp_Cursor = startCursor db p, sp_Ingestion = fp_Ingestion p,
             sp_TenantID = fp_TenantID p\<rparr> of
        Err e \<Rightarrow> (Err (activityError (EConn e)),
                  noteNodeRun T (fp_ExecutionID p) (fp_NodeID p) (fp_TenantID p) ''failed'' 0 (connText e) False db)
      | Ok r \<Rightarrow>
          (case dekOf W (fp_EncryptedDEK p) of
             Err e \<Rightarrow> (Err (EConn e), db)
           | Ok dek \<Rightarrow>
               (case writeRef W f (PValue (VArr (sr_Records r))) (fp_TenantID p) dek db of
                  (Err e, db') \<Rightarrow> (Err (EConn e), db')
                | (Ok ref, db') \<Rightarrow>
                    (Ok \<lparr>fs_OutputRef = ref, fs_HasMore = sr_HasMore r, fs_RecordCount = int (length (sr_Records r)),
                         fs_Checkpoint = sr_NextCursor r, fs_LagRecords = sr_LagRecords r\<rparr>,
                     noteNodeRun T (fp_ExecutionID p) (fp_NodeID p) (fp_TenantID p) ''success'' (int (length (sr_Records r))) [] True db'))))"

section \<open>Committing cursors\<close>

text \<open>\<^verbatim>\<open>fmt.Sscan\<close> of a number: the longest numeric text after white space.\<close>

definition floatToken :: "string \<Rightarrow> string" where
  "floatToken s0 =
     (let s = dropWhile isSpace s0;
          sgn = takeWhile (\<lambda>c. c \<in> set ''+-'') (take 1 s); s1 = drop (length sgn) s;
          ds = takeWhile isDigit s1; s2 = drop (length ds) s1;
          fr = (if hasPrefix ''.'' s2 then CHR ''.'' # takeWhile isDigit (drop 1 s2) else []); s3 = drop (length fr) s2;
          ex = (case s3 of c # r \<Rightarrow> (if c \<in> set ''eEpP'' then
                   c # takeWhile (\<lambda>c. c \<in> set ''+-'') (take 1 r)
                     @ takeWhile isDigit (drop (length (takeWhile (\<lambda>c. c \<in> set ''+-'') (take 1 r))) r) else []) | [] \<Rightarrow> [])
      in sgn @ ds @ fr @ ex)"

definition numberValue :: "gv \<Rightarrow> float64" where
  "numberValue v =
     (case v of VFloat x \<Rightarrow> x | VInt i \<Rightarrow> floatOfInt i
      | VStr s \<Rightarrow> (case parseFloat (floatToken s) of Some x \<Rightarrow> x | None \<Rightarrow> Dec 0 0)
      | _ \<Rightarrow> Dec 0 0)"

text \<open>The merge of incoming partition offsets: an offset only moves forward.\<close>

definition mergeOffset :: "string \<times> gv \<Rightarrow> obj \<Rightarrow> obj" where
  "mergeOffset pv merged =
     (case map_of merged (fst pv) of
        None \<Rightarrow> objPut (fst pv) (snd pv) merged
      | Some current \<Rightarrow>
          if lessFloat (numberValue current) (numberValue (snd pv)) then objPut (fst pv) (snd pv) merged else merged)"

definition mergedOffsets :: "obj \<Rightarrow> obj \<Rightarrow> obj \<Rightarrow> obj" where
  "mergedOffsets existing checkpoint incoming =
     (let base = (if stringValue (objGet existing ''topic'') = stringValue (objGet checkpoint ''topic'')
                  then (case asObj (objGet existing ''offsets'') of Some vs \<Rightarrow> cloneMap vs | None \<Rightarrow> []) else [])
      in fold mergeOffset incoming base)"

definition nextStored :: "obj option \<Rightarrow> obj \<Rightarrow> obj" where
  "nextStored stored checkpoint =
     (case asObj (objGet checkpoint ''offsets'') of
        None \<Rightarrow> checkpoint
      | Some incoming \<Rightarrow>
          objPut ''offsets'' (VObj (mergedOffsets (case stored of Some c \<Rightarrow> c | None \<Rightarrow> []) checkpoint incoming)) (cloneMap checkpoint))"

definition commitCursor :: "string \<Rightarrow> string \<times> obj \<Rightarrow> actDB \<Rightarrow> actDB" where
  "commitCursor tenant cc db =
     db\<lparr>ad_Cursors := AList.update (tenant, fst cc) (nextStored (map_of (ad_Cursors db) (tenant, fst cc)) (snd cc)) (ad_Cursors db)\<rparr>"

definition commitSourceCursors :: "string \<Rightarrow> (string \<times> obj) list \<Rightarrow> actDB \<Rightarrow> actDB" where
  "commitSourceCursors tenant cursors db = fold (commitCursor tenant) cursors db"

section \<open>Dedupe across runs\<close>

definition insertKey :: "string \<times> string \<times> string \<times> string \<Rightarrow> actDB \<Rightarrow> actDB" where
  "insertKey k db = (if k \<in> set (ad_DedupeKeys db) then db else db\<lparr>ad_DedupeKeys := ad_DedupeKeys db @ [k]\<rparr>)"

record dedupeCheckpoint =
  dc_PipelineID :: string
  dc_NodeID :: string
  dc_Hashes :: "string list"
  dc_HashesRef :: "DataRef option"
  dc_EncryptedDEK :: string

definition dedupeHashes :: "worker \<Rightarrow> actDB \<Rightarrow> dedupeCheckpoint \<Rightarrow> (connError, string list) result" where
  "dedupeHashes W db c =
     (case dc_HashesRef c of
        None \<Rightarrow> Ok (dc_Hashes c)
      | Some ref \<Rightarrow>
          (case dekOf W (dc_EncryptedDEK c) of
             Err e \<Rightarrow> Err e
           | Ok dek \<Rightarrow>
               (case readRef W (Some ref) dek db of
                  Err e \<Rightarrow> Err e
                | Ok v \<Rightarrow> Ok (List.map_filter asStr (case asArr v of Some xs \<Rightarrow> xs | None \<Rightarrow> [])))))"

fun commitDedupeKeys :: "worker \<Rightarrow> string \<Rightarrow> dedupeCheckpoint list \<Rightarrow> actDB \<Rightarrow> connError option \<times> actDB" where
  "commitDedupeKeys W tenant [] db = (None, db)"
| "commitDedupeKeys W tenant (c # cs) db =
     (case dedupeHashes W db c of
        Err e \<Rightarrow> (Some e, db)
      | Ok hashes \<Rightarrow>
          commitDedupeKeys W tenant cs (fold (\<lambda>h. insertKey (tenant, dc_PipelineID c, dc_NodeID c, h)) hashes db))"

record dispatchParams =
  dp_ControlRequired :: bool
  dp_ActivityType :: string
  dp_Config :: obj
  dp_InputRef :: "DataRef option"
  dp_TenantID :: string
  dp_ExecutionID :: string
  dp_NodeID :: string
  dp_PipelineVersion :: int
  dp_EncryptedDEK :: string

definition executionPipeline :: "actDB \<Rightarrow> string \<Rightarrow> string \<Rightarrow> string option" where
  "executionPipeline db tenant eid = map_option ex_PipelineID (find (isExecution tenant eid) (db_Executions (ad_Ctl db)))"

definition rowHashes :: "worker \<Rightarrow> string list \<Rightarrow> gv list \<Rightarrow> (connError, (string \<times> gv) list) result" where
  "rowHashes W keys rows =
     forR (\<lambda>raw. case asObj raw of
             None \<Rightarrow> Err (PlainError ''transform.dedupe: records must be objects'')
           | Some row \<Rightarrow> Ok (DedupeHash (wk_Sha W) row keys, raw)) rows"

definition refObj :: "DataRef \<Rightarrow> gv" where
  "refObj r = VObj [(''type'', VStr (ref_Type r)), (''key'', VStr (ref_Key r)), (''bucket'', VStr (ref_Bucket r)),
     (''tenantId'', VStr (ref_TenantID r)), (''sizeBytes'', VInt (ref_SizeBytes r)), (''recordCount'', VInt (ref_RecordCount r)),
     (''encrypted'', VBool (ref_Encrypted r)), (''iv'', VStr (ref_IV r))]"

definition freshRows :: "(string \<times> gv) list \<Rightarrow> (string \<Rightarrow> bool) \<Rightarrow> (string \<times> gv) list" where
  "freshRows hashed seen =
     (let byHash = fold (\<lambda>(h, raw). AList.update h raw) hashed []
      in map (\<lambda>h. (h, objGet byHash h)) (filter (\<lambda>h. \<not> seen h) (map fst hashed)))"

text \<open>The rows that are new to the pipeline, with the checkpoint that refers to their hashes.\<close>

definition filterCrossRunDedupe ::
  "worker \<Rightarrow> freshness \<Rightarrow> gv \<Rightarrow> dispatchParams \<Rightarrow> obj option \<Rightarrow> actDB \<Rightarrow> (connError, gv \<times> obj option) result \<times> actDB" where
  "filterCrossRunDedupe W f output p md db =
     (case asArr output of
        None \<Rightarrow> (Err (PlainError ''transform.dedupe: input must be an array''), db)
      | Some rows \<Rightarrow>
          (case executionPipeline db (dp_TenantID p) (dp_ExecutionID p) of
             None \<Rightarrow> (Err (PlainError ''transform.dedupe: execution pipeline not found''), db)
           | Some pid \<Rightarrow>
               (case rowHashes W (keyFields (objGet (dp_Config p) ''key'')) rows of
                  Err e \<Rightarrow> (Err e, db)
                | Ok hashed \<Rightarrow>
                    (case dekOf W (dp_EncryptedDEK p) of
                       Err e \<Rightarrow> (Err e, db)
                     | Ok dek \<Rightarrow>
                         (let new = freshRows hashed (\<lambda>h. (dp_TenantID p, pid, dp_NodeID p, h) \<in> set (ad_DedupeKeys db))
                          in case writeRef W f (PStrings (map fst new)) (dp_TenantID p) dek db of
                               (Err e, db') \<Rightarrow> (Err e, db')
                             | (Ok ref, db') \<Rightarrow>
                                 (Ok (VArr (map snd new),
                                    Some (objPut ''dedupeCheckpoint''
                                      (VObj [(''pipelineId'', VStr pid), (''nodeId'', VStr (dp_NodeID p)), (''hashesRef'', refObj ref),
                                             (''encryptedDek'', VStr (dp_EncryptedDEK p))])
                                      (case md of Some m \<Rightarrow> m | None \<Rightarrow> []))), db'))))))"

section \<open>Dispatching a step\<close>

definition recordQualityResult :: "dispatchParams \<Rightarrow> obj \<Rightarrow> actDB \<Rightarrow> actDB" where
  "recordQualityResult p md db =
     (let status = stringValue (objGet md ''qualityStatus'') in
      if status = [] then db
      else case find (\<lambda>e. ex_ID e = dp_ExecutionID p) (db_Executions (ad_Ctl db)) of
        None \<Rightarrow> db
      | Some e \<Rightarrow>
          let row = \<lparr>qr_TenantID = dp_TenantID p, qr_PipelineID = ex_PipelineID e, qr_ExecutionID = dp_ExecutionID p,
                 qr_NodeID = dp_NodeID p, qr_Status = status, qr_Passed = truncFloat (numberValue (objGet md ''passedCount'')),
                 qr_Failed = truncFloat (numberValue (objGet md ''failedCount''))\<rparr>;
              same = (\<lambda>q. qr_ExecutionID q = dp_ExecutionID p \<and> qr_NodeID q = dp_NodeID p)
          in db\<lparr>ad_Quality :=
               (if list_ex same (ad_Quality db)
                then updateWhere same (\<lambda>q. q\<lparr>qr_Status := qr_Status row, qr_Passed := qr_Passed row, qr_Failed := qr_Failed row\<rparr>) (ad_Quality db)
                else ad_Quality db @ [row])\<rparr>)"

text \<open>The handler call with the filter across runs.\<close>

definition runHandler ::
  "worker \<Rightarrow> (string \<Rightarrow> gv \<Rightarrow> obj \<Rightarrow> HandlerContext \<Rightarrow> handled) \<Rightarrow> freshness \<Rightarrow> dispatchParams \<Rightarrow> gv \<Rightarrow> actDB \<Rightarrow> handled \<times> actDB" where
  "runHandler W handle f p input db =
     (case handle (dp_ActivityType p) input (dp_Config p)
             \<lparr>hc_TenantID = dp_TenantID p, hc_ExecutionID = dp_ExecutionID p, hc_NodeID = dp_NodeID p, hc_PipelineVersion = dp_PipelineVersion p\<rparr> of
        Err e \<Rightarrow> (Err e, db)
      | Ok (output, md) \<Rightarrow>
          if dp_ActivityType p = ''transform.dedupe'' \<and> objGet (dp_Config p) ''scope'' = VStr ''pipeline''
          then filterCrossRunDedupe W f output p md db else (Ok (output, md), db))"

definition dispatchMeta :: "clock \<Rightarrow> int \<Rightarrow> obj \<Rightarrow> obj" where
  "dispatchMeta T cnt md =
     (let m1 = objPut ''durationMs'' (VInt (ck_Duration T)) md in if cnt > 0 then objPut ''recordCount'' (VInt cnt) m1 else m1)"

text \<open>The end of a successful step: the output is written, the node run and the quality result recorded.\<close>

definition finishDispatch ::
  "worker \<Rightarrow> freshness \<Rightarrow> clock \<Rightarrow> dispatchParams \<Rightarrow> string \<Rightarrow> gv \<Rightarrow> obj option \<Rightarrow> actDB \<Rightarrow> (goError, NodeResult) result \<times> actDB" where
  "finishDispatch W f T p dek output md db =
     (case (if output = VNil then (Ok None, db)
            else case writeRef W f (PValue output) (dp_TenantID p) dek db of
                   (Err e, db') \<Rightarrow> (Err e, db') | (Ok r, db') \<Rightarrow> (Ok (Some r), db')) of
        (Err e, db1) \<Rightarrow> (Err (EConn e), db1)
      | (Ok ref, db1) \<Rightarrow>
          let cnt = (case ref of Some r \<Rightarrow> ref_RecordCount r
                     | None \<Rightarrow> (case dp_InputRef p of Some r \<Rightarrow> ref_RecordCount r | None \<Rightarrow> 0));
              db2 = noteNodeRun T (dp_ExecutionID p) (dp_NodeID p) (dp_TenantID p) ''success'' cnt [] False db1;
              m = (case md of Some m \<Rightarrow> m | None \<Rightarrow> []);
              db3 = (if dp_ActivityType p = ''transform.contract'' then recordQualityResult p m db2 else db2)
          in (Ok \<lparr>res_NodeID = dp_NodeID p, res_Status = ''success'', res_OutputRef = ref, res_Meta = dispatchMeta T cnt m, res_Error = []\<rparr>, db3))"

definition dispatchNode ::
  "worker \<Rightarrow> (string \<Rightarrow> gv \<Rightarrow> obj \<Rightarrow> HandlerContext \<Rightarrow> handled) \<Rightarrow> freshness \<Rightarrow> freshness \<Rightarrow> clock \<Rightarrow> int \<Rightarrow> dispatchParams \<Rightarrow> actDB \<Rightarrow>
   (goError, NodeResult) result \<times> actDB" where
  "dispatchNode W handle f1 f2 T attempt p db =
     (let failed = (\<lambda>e. noteNodeRun T (dp_ExecutionID p) (dp_NodeID p) (dp_TenantID p) ''failed'' 0 (connText e) False) in
      case requireEntitlement db (dp_TenantID p) (dp_ActivityType p) (dp_Config p) of Some e \<Rightarrow> (Err e, db) | None \<Rightarrow>
      case verifyConnectorOwnership db (dp_TenantID p) (dp_Config p) of Some e \<Rightarrow> (Err e, db) | None \<Rightarrow>
      case dekOf W (dp_EncryptedDEK p) of Err e \<Rightarrow> (Err (EConn e), db) | Ok dek \<Rightarrow>
      case readRef W (dp_InputRef p) dek db of Err e \<Rightarrow> (Err (activityError (EConn e)), failed e db) | Ok input \<Rightarrow>
      case admit db attempt (dp_TenantID p) (dp_ExecutionID p) (dp_ControlRequired p) of Some e \<Rightarrow> (Err e, db) | None \<Rightarrow>
      case runHandler W handle f1 p input db of
        (Err e, db') \<Rightarrow> (Err (activityError (EConn e)), failed e db')
      | (Ok (output, md), db') \<Rightarrow> finishDispatch W f2 T p dek output md db')"

section \<open>Merging branches\<close>

record mergeParams =
  mp_InputRefs :: "DataRef option list"
  mp_Strategy :: string
  mp_JoinKey :: string
  mp_TenantID :: string
  mp_ExecutionID :: string
  mp_NodeID :: string
  mp_EncryptedDEK :: string

definition totalBytes :: "DataRef option list \<Rightarrow> int" where
  "totalBytes refs = sum_list (map (\<lambda>r. case r of Some r \<Rightarrow> ref_SizeBytes r | None \<Rightarrow> 0) refs)"

definition readArray :: "worker \<Rightarrow> string \<Rightarrow> actDB \<Rightarrow> DataRef option \<Rightarrow> (connError, gv list) result" where
  "readArray W dek db ref =
     (case readRef W ref dek db of
        Err e \<Rightarrow> Err e
      | Ok v \<Rightarrow> (case asArr v of None \<Rightarrow> Err (PlainError ''merge input must be an array'') | Some xs \<Rightarrow> Ok xs))"

text \<open>The spill file: its text, checked against the limit before every write.\<close>

definition spillWrite :: "int \<Rightarrow> string \<Rightarrow> string \<Rightarrow> (connError, string) result" where
  "spillWrite lim buf b =
     (if lim > 0 \<and> int (length buf + length b) > lim
      then Err (PlainError (''merge output exceeds MAX_MERGE_INMEMORY_BYTES limit of '' @ itoa lim)) else Ok (buf @ b))"

fun spillRecords :: "int \<Rightarrow> string \<times> nat \<Rightarrow> gv list \<Rightarrow> (connError, string \<times> nat) result" where
  "spillRecords lim (buf, cnt) [] = Ok (buf, cnt)"
| "spillRecords lim (buf, cnt) (r # rs) =
     (case (if cnt > 0 then spillWrite lim buf '','' else Ok buf) of
        Err e \<Rightarrow> Err e
      | Ok buf1 \<Rightarrow>
          (case spillWrite lim buf1 (jsonMarshal r) of
             Err e \<Rightarrow> Err e
           | Ok buf2 \<Rightarrow> spillRecords lim (buf2, cnt + 1) rs))"

fun spillRefs :: "worker \<Rightarrow> string \<Rightarrow> actDB \<Rightarrow> string \<times> nat \<Rightarrow> DataRef option list \<Rightarrow> (connError, string \<times> nat) result" where
  "spillRefs W dek db st [] = Ok st"
| "spillRefs W dek db st (ref # refs) =
     (case readArray W dek db ref of
        Err e \<Rightarrow> Err e
      | Ok xs \<Rightarrow> (case spillRecords (wk_MaxMerge W) st xs of Err e \<Rightarrow> Err e | Ok st' \<Rightarrow> spillRefs W dek db st' refs))"

definition streamConcatText :: "worker \<Rightarrow> string \<Rightarrow> actDB \<Rightarrow> DataRef option list \<Rightarrow> (connError, string \<times> nat) result" where
  "streamConcatText W dek db refs =
     (case spillWrite (wk_MaxMerge W) [] ''['' of
        Err e \<Rightarrow> Err e
      | Ok buf \<Rightarrow>
          (case spillRefs W dek db (buf, 0) refs of
             Err e \<Rightarrow> Err e
           | Ok (buf', cnt) \<Rightarrow> map_sum id (\<lambda>b. (b, cnt)) (spillWrite (wk_MaxMerge W) buf' '']'')))"

definition streamConcatMerge ::
  "worker \<Rightarrow> freshness \<Rightarrow> mergeParams \<Rightarrow> string \<Rightarrow> actDB \<Rightarrow> (connError, DataRef \<times> nat) result \<times> actDB" where
  "streamConcatMerge W f p dek db =
     (case streamConcatText W dek db (mp_InputRefs p) of
        Err e \<Rightarrow> (Err e, db)
      | Ok (text, cnt) \<Rightarrow>
          (case writeRef W f (PRaw text) (mp_TenantID p) dek db of
             (Err e, db') \<Rightarrow> (Err e, db') | (Ok r, db') \<Rightarrow> (Ok (r, cnt), db')))"

definition mergeInMemory ::
  "worker \<Rightarrow> freshness \<Rightarrow> mergeParams \<Rightarrow> string \<Rightarrow> actDB \<Rightarrow> (connError, DataRef \<times> nat) result \<times> actDB" where
  "mergeInMemory W f p dek db =
     (case forR (readArray W dek db) (mp_InputRefs p) of
        Err e \<Rightarrow> (Err e, db)
      | Ok arrays \<Rightarrow>
          (case MergeArrays (mp_Strategy p) arrays (mp_JoinKey p) of
             Err e \<Rightarrow> (Err e, db)
           | Ok merged \<Rightarrow>
               (case writeRef W f (PValue (VArr merged)) (mp_TenantID p) dek db of
                  (Err e, db') \<Rightarrow> (Err e, db') | (Ok r, db') \<Rightarrow> (Ok (r, length merged), db'))))"

definition mergeRefs :: "worker \<Rightarrow> freshness \<Rightarrow> clock \<Rightarrow> mergeParams \<Rightarrow> actDB \<Rightarrow> (goError, NodeResult) result \<times> actDB" where
  "mergeRefs W f T p db =
     (let failed = (\<lambda>e db. (Err (activityError (EConn e)),
             noteNodeRun T (mp_ExecutionID p) (mp_NodeID p) (mp_TenantID p) ''failed'' 0 (connText e) False db));
          strategy = (if mp_Strategy p = [] then ''concat'' else mp_Strategy p);
          bytes = totalBytes (mp_InputRefs p); lim = wk_MaxMerge W; oversized = (lim > 0 \<and> bytes > lim)
      in case dekOf W (mp_EncryptedDEK p) of
           Err e \<Rightarrow> failed e db
         | Ok dek \<Rightarrow>
             if oversized \<and> strategy \<noteq> ''concat'' then
               failed (PlainError (''merge inputs total '' @ itoa bytes @ '' bytes, exceeds MAX_MERGE_INMEMORY_BYTES limit of ''
                        @ itoa lim @ '' for strategy '' @ goQuote strategy)) db
             else (case (if oversized then streamConcatMerge W f p dek db else mergeInMemory W f p dek db) of
                     (Err e, db') \<Rightarrow> failed e db'
                   | (Ok (r, cnt), db') \<Rightarrow>
                       (Ok \<lparr>res_NodeID = mp_NodeID p, res_Status = ''success'',
                            res_OutputRef = Some (if oversized then r\<lparr>ref_RecordCount := int cnt\<rparr> else r),
                            res_Meta = [(''durationMs'', VInt (ck_Duration T)), (''recordCount'', VInt (int cnt))], res_Error = []\<rparr>,
                        noteNodeRun T (mp_ExecutionID p) (mp_NodeID p) (mp_TenantID p) ''success'' (int cnt) [] False db')))"

section \<open>Conditions\<close>

definition evalEdgeCondition ::
  "worker \<Rightarrow> 'p exprLib \<Rightarrow> 'p programs \<Rightarrow> string \<Rightarrow> DataRef option \<Rightarrow> string \<Rightarrow> actDB \<Rightarrow> (goError, bool) result \<times> 'p programs" where
  "evalEdgeCondition W L cache condition ref encryptedDEK db =
     (if ref = None then (Ok True, cache)
      else case dekOf W encryptedDEK of
        Err e \<Rightarrow> (Err (EConn e), cache)
      | Ok dek \<Rightarrow>
          (case readRef W ref dek db of
             Err e \<Rightarrow> (Err (activityError (EConn e)), cache)
           | Ok v \<Rightarrow>
               (case EvaluatePredicate L cache condition v of
                  (Err e, c) \<Rightarrow> (Err (EConn (PlainError e)), c) | (Ok b, c) \<Rightarrow> (Ok b, c))))"

end
