(* ===== verification/ActivityLaws.thy ===== *)
theory ActivityLaws
  imports Activities
begin

text \<open>
  Laws of the activity bodies: the order of decimal numbers and the offsets of a cursor, which only move
  forward; the filter of rows across runs; the quota of scheduled runs; the merge through a spill
  file; and the guards of the activities that call a connector.
\<close>

section \<open>The order of decimal numbers\<close>

text \<open>A decimal number as a multiple of a power of ten below its exponent.\<close>

definition scaled :: "int \<Rightarrow> float64 \<Rightarrow> int" where
  "scaled lo f = mant f * 10 ^ nat (dexp f - lo)"

lemma scaled_shift: "lo' \<le> lo \<Longrightarrow> lo \<le> dexp f \<Longrightarrow> scaled lo' f = scaled lo f * 10 ^ nat (lo - lo')"
proof -
  assume "lo' \<le> lo" "lo \<le> dexp f"
  then have "nat (dexp f - lo') = nat (dexp f - lo) + nat (lo - lo')" by (simp flip: nat_add_distrib)
  then show ?thesis by (simp add: scaled_def power_add)
qed

lemma lessFloat_scaled: "lo \<le> dexp a \<Longrightarrow> lo \<le> dexp b \<Longrightarrow> lessFloat a b \<longleftrightarrow> scaled lo a < scaled lo b"
  using scaled_shift [of lo "min (dexp a) (dexp b)" a] scaled_shift [of lo "min (dexp a) (dexp b)" b]
  by (simp add: lessFloat_def Let_def scaled_def [symmetric])

definition notAbove :: "float64 \<Rightarrow> float64 \<Rightarrow> bool" where
  "notAbove a b \<longleftrightarrow> \<not> lessFloat b a"

lemma notAbove_refl: "notAbove a a"
  by (simp add: notAbove_def lessFloat_def)

lemma notAbove_trans: "notAbove a b \<Longrightarrow> notAbove b c \<Longrightarrow> notAbove a c"
proof -
  let ?lo = "min (dexp a) (min (dexp b) (dexp c))"
  assume "notAbove a b" "notAbove b c"
  moreover have "?lo \<le> dexp a" "?lo \<le> dexp b" "?lo \<le> dexp c" by auto
  ultimately show ?thesis
    using lessFloat_scaled [of ?lo b a] lessFloat_scaled [of ?lo c b] lessFloat_scaled [of ?lo c a] by (simp add: notAbove_def)
qed

lemma lessFloat_notAbove: "lessFloat a b \<Longrightarrow> notAbove a b"
  using lessFloat_scaled [of "min (dexp a) (dexp b)" a b] lessFloat_scaled [of "min (dexp a) (dexp b)" b a]
  by (simp add: notAbove_def)

section \<open>Values that only move forward\<close>

text \<open>
  A store whose entries are replaced by later ones only: \<open>carries\<close> is what a step brings for a key,
  \<open>ok\<close> a condition the steps keep for each other.
\<close>

locale forward_only =
  fixes step :: "'a \<Rightarrow> 's \<Rightarrow> 's" and entry :: "'s \<Rightarrow> 'k \<Rightarrow> 'v option"
    and carries :: "'a \<Rightarrow> 'k \<Rightarrow> 'v option" and le :: "'v \<Rightarrow> 'v \<Rightarrow> bool" and ok :: "'a \<Rightarrow> 's \<Rightarrow> bool"
  assumes le_refl: "le v v" and le_trans: "le u v \<Longrightarrow> le v w \<Longrightarrow> le u w"
    and step_ok: "ok a s \<Longrightarrow> ok b s \<Longrightarrow> ok b (step a s)"
    and step_keeps: "ok a s \<Longrightarrow> entry s k = Some v \<Longrightarrow> \<exists>w. entry (step a s) k = Some w \<and> le v w"
    and step_takes: "ok a s \<Longrightarrow> carries a k = Some v \<Longrightarrow> \<exists>w. entry (step a s) k = Some w \<and> le v w"
begin

lemma fold_keeps:
  "\<forall>a\<in>set as. ok a s \<Longrightarrow> entry s k = Some v \<Longrightarrow> \<exists>w. entry (fold step as s) k = Some w \<and> le v w"
proof (induction as arbitrary: s v)
  case Nil
  then show ?case by (auto intro: le_refl)
next
  case (Cons a as)
  from step_keeps [of a s k v] Cons.prems obtain u where u: "entry (step a s) k = Some u" "le v u" by auto
  have "\<forall>b\<in>set as. ok b (step a s)" using Cons.prems by (auto intro: step_ok)
  from Cons.IH [OF this u(1)] u(2) show ?case by (auto intro: le_trans)
qed

lemma fold_takes:
  "\<forall>a\<in>set as. ok a s \<Longrightarrow> a \<in> set as \<Longrightarrow> carries a k = Some v \<Longrightarrow> \<exists>w. entry (fold step as s) k = Some w \<and> le v w"
proof (induction as arbitrary: s)
  case Nil
  then show ?case by simp
next
  case (Cons b as)
  have ok: "\<forall>c\<in>set as. ok c (step b s)" using Cons.prems(1) by (auto intro: step_ok)
  show ?case
  proof (cases "a = b")
    case True
    then obtain u where u: "entry (step b s) k = Some u" "le v u" using step_takes [of b s k v] Cons.prems by auto
    from fold_keeps [OF ok u(1)] u(2) show ?thesis by (auto intro: le_trans)
  next
    case False
    then show ?thesis using Cons.IH [OF ok] Cons.prems by simp
  qed
qed

end

definition offsetLe :: "gv \<Rightarrow> gv \<Rightarrow> bool" where
  "offsetLe a b \<longleftrightarrow> notAbove (numberValue a) (numberValue b)"

lemma offsetLe_refl: "offsetLe a a" and offsetLe_trans: "offsetLe a b \<Longrightarrow> offsetLe b c \<Longrightarrow> offsetLe a c"
  by (auto simp: offsetLe_def intro: notAbove_refl notAbove_trans)

text \<open>The offsets of one checkpoint, merged partition by partition.\<close>

interpretation offsets: forward_only mergeOffset map_of "\<lambda>pv k. if fst pv = k then Some (snd pv) else None" offsetLe "\<lambda>_ _. True"
proof (unfold_locales, goal_cases)
  case (4 pv s k v)
  then show ?case
    by (auto simp: mergeOffset_def offsetLe_def split: option.splits intro: notAbove_refl dest: lessFloat_notAbove)
next
  case (5 pv s k v)
  then show ?case
    by (auto simp: mergeOffset_def offsetLe_def split: option.splits if_splits intro: notAbove_refl dest: lessFloat_notAbove)
      (auto simp: notAbove_def)
qed (auto intro: offsetLe_refl offsetLe_trans)

text \<open>The offset of a partition in the stored cursor of a connection.\<close>

definition cursorOffset :: "obj \<Rightarrow> string \<Rightarrow> gv option" where
  "cursorOffset c k = Option.bind (asObj (objGet c ''offsets'')) (\<lambda>m. map_of m k)"

definition storedOffset :: "string \<Rightarrow> string \<Rightarrow> actDB \<Rightarrow> string \<Rightarrow> gv option" where
  "storedOffset tenant conn db k = Option.bind (map_of (ad_Cursors db) (tenant, conn)) (\<lambda>c. cursorOffset c k)"

text \<open>A checkpoint of the topic \<open>t\<close> with offsets; the keys of Go maps are distinct.\<close>

definition ofTopic :: "string \<Rightarrow> obj \<Rightarrow> bool" where
  "ofTopic t c \<longleftrightarrow> stringValue (objGet c ''topic'') = t \<and> distinct (map fst c)
     \<and> (case asObj (objGet c ''offsets'') of None \<Rightarrow> False | Some m \<Rightarrow> distinct (map fst m))"

definition storedTopic :: "string \<Rightarrow> string \<Rightarrow> string \<Rightarrow> actDB \<Rightarrow> bool" where
  "storedTopic tenant conn t db \<longleftrightarrow> (case map_of (ad_Cursors db) (tenant, conn) of None \<Rightarrow> True | Some c \<Rightarrow> ofTopic t c)"

lemma ofTopicE:
  assumes "ofTopic t c"
  obtains m where "objGet c ''offsets'' = VObj m" "distinct (map fst m)" "distinct (map fst c)" "stringValue (objGet c ''topic'') = t"
  using assms by (auto simp: ofTopic_def split: option.splits)

lemma distinct_mergeOffsets: "distinct (map fst base) \<Longrightarrow> distinct (map fst (fold mergeOffset incoming base))"
  by (induction incoming arbitrary: base) (auto simp: mergeOffset_def split: option.splits)

text \<open>What a commit stores for a checkpoint of the topic.\<close>

lemma nextStored_ofTopic:
  assumes c: "ofTopic t c" and s: "stored = None \<or> (\<exists>e. stored = Some e \<and> ofTopic t e)"
  shows "ofTopic t (nextStored stored c)"
    and "(case stored of Some e \<Rightarrow> cursorOffset e k = Some v | None \<Rightarrow> False) \<or> cursorOffset c k = Some v
         \<Longrightarrow> \<exists>w. cursorOffset (nextStored stored c) k = Some w \<and> offsetLe v w"
proof -
  from c obtain m where m: "objGet c ''offsets'' = VObj m" "distinct (map fst m)" "distinct (map fst c)"
      "stringValue (objGet c ''topic'') = t" by (rule ofTopicE)
  define e where "e = (case stored of Some c \<Rightarrow> c | None \<Rightarrow> [])"
  define base where "base = (if stringValue (objGet e ''topic'') = stringValue (objGet c ''topic'')
                  then (case asObj (objGet e ''offsets'') of Some vs \<Rightarrow> cloneMap vs | None \<Rightarrow> []) else [])"
  have next_eq: "nextStored stored c = objPut ''offsets'' (VObj (fold mergeOffset m base)) c"
    using m by (simp add: nextStored_def mergedOffsets_def base_def e_def)
  have b: "distinct (map fst base)" and be: "stored = Some e' \<Longrightarrow> cursorOffset e' k = Some v \<Longrightarrow> map_of base k = Some v" for e' v
    using s m(4) unfolding base_def e_def
    by (auto simp: cursorOffset_def objGet_def elim!: ofTopicE split: option.splits)
  show "ofTopic t (nextStored stored c)"
    using m b by (simp add: next_eq ofTopic_def distinct_mergeOffsets)
  assume "(case stored of Some e \<Rightarrow> cursorOffset e k = Some v | None \<Rightarrow> False) \<or> cursorOffset c k = Some v"
  then consider (old) e' where "stored = Some e'" "cursorOffset e' k = Some v" | (new) "(k, v) \<in> set m"
    using m(1) by (auto simp: cursorOffset_def split: option.splits dest: map_of_SomeD)
  then have "\<exists>w. map_of (fold mergeOffset m base) k = Some w \<and> offsetLe v w"
  proof cases
    case old
    then show ?thesis using offsets.fold_keeps [where as = m and s = base and k = k and v = v] be by simp
  next
    case new
    then show ?thesis using offsets.fold_takes [where as = m and s = base and a = "(k, v)" and k = k and v = v] by simp
  qed
  then show "\<exists>w. cursorOffset (nextStored stored c) k = Some w \<and> offsetLe v w"
    by (simp add: next_eq cursorOffset_def)
qed

lemma cursors_commitCursor:
  "map_of (ad_Cursors (commitCursor tenant cc db)) (tenant, conn) =
     (if fst cc = conn then Some (nextStored (map_of (ad_Cursors db) (tenant, conn)) (snd cc)) else map_of (ad_Cursors db) (tenant, conn))"
  by (simp add: commitCursor_def update_conv')

text \<open>The stored offsets of a connection, over a batch of commits of its topic.\<close>

interpretation commits: forward_only "commitCursor tenant" "storedOffset tenant conn"
  "\<lambda>cc k. if fst cc = conn then cursorOffset (snd cc) k else None" offsetLe
  "\<lambda>cc db. storedTopic tenant conn t db \<and> (fst cc = conn \<longrightarrow> ofTopic t (snd cc))" for tenant conn t
proof (unfold_locales, goal_cases)
  case (3 a s b)
  then show ?case using nextStored_ofTopic(1) [of t "snd a" "map_of (ad_Cursors s) (tenant, conn)"]
    by (auto simp: storedTopic_def cursors_commitCursor split: option.splits)
next
  case (4 a s k v)
  then show ?case using nextStored_ofTopic(2) [of t "snd a" "map_of (ad_Cursors s) (tenant, conn)" k v]
    by (auto simp: storedTopic_def storedOffset_def cursors_commitCursor intro: offsetLe_refl split: option.splits bind_splits)
next
  case (5 a s k v)
  then show ?case using nextStored_ofTopic(2) [of t "snd a" "map_of (ad_Cursors s) (tenant, conn)" k v]
    by (auto simp: storedTopic_def storedOffset_def cursors_commitCursor split: option.splits if_splits)
qed (auto intro: offsetLe_refl offsetLe_trans)

text \<open>C16: A batch of cursor commits of one topic, in whatever order the activities of a run report them,
  never moves a partition back: the stored offset of every partition is afterwards at least what it was
  and at least what every checkpoint of the batch carries for it.\<close>

theorem offsets_never_move_back:
  assumes "storedTopic tenant conn t db" "\<And>c. (conn, c) \<in> set cursors \<Longrightarrow> ofTopic t c"
    and "storedOffset tenant conn db k = Some v \<or> (\<exists>c. (conn, c) \<in> set cursors \<and> cursorOffset c k = Some v)"
  shows "\<exists>w. storedOffset tenant conn (commitSourceCursors tenant cursors db) k = Some w
           \<and> \<not> lessFloat (numberValue w) (numberValue v)"
proof -
  have ok: "\<forall>a\<in>set cursors. storedTopic tenant conn t db \<and> (fst a = conn \<longrightarrow> ofTopic t (snd a))"
    using assms(1,2) by auto
  from assms(3) have "\<exists>w. storedOffset tenant conn (fold (commitCursor tenant) cursors db) k = Some w \<and> offsetLe v w"
  proof (elim disjE exE conjE)
    assume "storedOffset tenant conn db k = Some v"
    from commits.fold_keeps [OF ok this] show ?thesis .
  next
    fix c assume "(conn, c) \<in> set cursors" "cursorOffset c k = Some v"
    with commits.fold_takes [OF ok this(1)] show ?thesis by simp
  qed
  then show ?thesis by (simp add: commitSourceCursors_def offsetLe_def notAbove_def)
qed

definition emptyActDB :: actDB where
  "emptyActDB = \<lparr>ad_Ctl = sampleDB [], ad_Plans = [], ad_Usage = [], ad_Entitlements = [], ad_Instances = [],
     ad_Cursors = [], ad_DedupeKeys = [], ad_Quality = [], ad_Payloads = \<lparr>ps_Objects = [], ps_Rows = []\<rparr>\<rparr>"

definition kafkaCheckpoint :: "int \<Rightarrow> obj" where
  "kafkaCheckpoint n = [(''topic'', VStr ''orders''), (''offsets'', VObj [(''0'', VInt n)])]"

theorem offsets_never_move_back_witness:
  "\<exists>w. storedOffset ''t'' ''c'' (commitSourceCursors ''t'' [(''c'', kafkaCheckpoint 7), (''c'', kafkaCheckpoint 5)] emptyActDB) ''0'' = Some w
     \<and> \<not> lessFloat (numberValue w) (numberValue (VInt 7))"
proof (rule offsets_never_move_back [where t = "''orders''"])
  show "storedTopic ''t'' ''c'' ''orders'' emptyActDB" by (simp add: storedTopic_def emptyActDB_def)
  show "ofTopic ''orders'' c" if "(''c'', c) \<in> set [(''c'', kafkaCheckpoint 7), (''c'', kafkaCheckpoint 5)]" for c
    using that by (auto simp: ofTopic_def kafkaCheckpoint_def objGet_def stringValue_def)
  show "storedOffset ''t'' ''c'' emptyActDB ''0'' = Some (VInt 7)
    \<or> (\<exists>c. (''c'', c) \<in> set [(''c'', kafkaCheckpoint 7), (''c'', kafkaCheckpoint 5)] \<and> cursorOffset c ''0'' = Some (VInt 7))"
    by (rule disjI2, rule exI [of _ "kafkaCheckpoint 7"]) (simp add: cursorOffset_def kafkaCheckpoint_def objGet_def)
qed

section \<open>The quota of scheduled runs\<close>

definition usedRuns :: "string \<Rightarrow> string \<Rightarrow> actDB \<Rightarrow> int" where
  "usedRuns tenant month db = (case map_of (ad_Usage db) (tenant, month) of None \<Rightarrow> 0 | Some n \<Rightarrow> n)"

definition runLimit :: "planRow \<Rightarrow> string \<Rightarrow> actDB \<Rightarrow> int" where
  "runLimit defaults tenant db =
     (let plan = (case map_of (ad_Plans db) tenant of None \<Rightarrow> defaults | Some p \<Rightarrow> p) in bp_FreeTierLimit plan + bp_ExtraQuota plan)"

definition tenantRuns :: "string \<Rightarrow> actDB \<Rightarrow> int" where
  "tenantRuns tenant db = int (length (filter (\<lambda>r. ex_TenantID r = tenant) (db_Executions (ad_Ctl db))))"

definition scheduleRuns :: "bool \<Rightarrow> string \<Rightarrow> planRow \<Rightarrow> execRow list \<Rightarrow> actDB \<Rightarrow> actDB" where
  "scheduleRuns billing month defaults rows db =
     fold (\<lambda>row db. snd (prepareScheduledExecution billing month defaults row db)) rows db"

lemma prepare_blocked:
  "billing \<Longrightarrow> runLimit defaults (ex_TenantID row) db \<le> usedRuns (ex_TenantID row) month db
     \<Longrightarrow> prepareScheduledExecution billing month defaults row db = (Some quotaError, db)"
  by (auto simp: prepareScheduledExecution_def runLimit_def usedRuns_def Let_def split: option.splits)

lemma prepare_admitted:
  assumes "\<not> billing \<or> usedRuns (ex_TenantID row) month db < runLimit defaults (ex_TenantID row) db"
  shows "fst (prepareScheduledExecution billing month defaults row db) = None"
    and "usedRuns tenant m (snd (prepareScheduledExecution billing month defaults row db))
           = usedRuns tenant m db + (if tenant = ex_TenantID row \<and> m = month then 1 else 0)"
    and "runLimit defaults tenant (snd (prepareScheduledExecution billing month defaults row db)) = runLimit defaults tenant db"
    and "tenantRuns tenant (snd (prepareScheduledExecution billing month defaults row db))
           = tenantRuns tenant db + (if tenant = ex_TenantID row \<and> \<not> list_ex (\<lambda>r. ex_ID r = ex_ID row) (db_Executions (ad_Ctl db)) then 1 else 0)"
  using assms
  by (auto simp: prepareScheduledExecution_def runLimit_def usedRuns_def tenantRuns_def Let_def update_conv' split: option.splits)

lemma scheduleRuns_bounds:
  "usedRuns tenant month (scheduleRuns True month defaults rows db) \<le> max (usedRuns tenant month db) (runLimit defaults tenant db)
   \<and> tenantRuns tenant (scheduleRuns True month defaults rows db) - tenantRuns tenant db
       \<le> usedRuns tenant month (scheduleRuns True month defaults rows db) - usedRuns tenant month db"
proof (induction rows arbitrary: db)
  case Nil
  then show ?case by (simp add: scheduleRuns_def)
next
  case (Cons row rows)
  let ?p = "snd (prepareScheduledExecution True month defaults row db)"
  have run: "scheduleRuns True month defaults (row # rows) db = scheduleRuns True month defaults rows ?p"
    by (simp add: scheduleRuns_def)
  show ?case
  proof (cases "usedRuns (ex_TenantID row) month db < runLimit defaults (ex_TenantID row) db")
    case False
    then show ?thesis using Cons.IH [of db] by (simp add: run prepare_blocked)
  next
    case True
    then have a: "\<not> True \<or> usedRuns (ex_TenantID row) month db < runLimit defaults (ex_TenantID row) db" by simp
    show ?thesis
      using Cons.IH [of ?p] True unfolding run prepare_admitted(2-4) [OF a] by (auto split: if_splits)
  qed
qed

text \<open>C17: With billing on, the counter of a tenant's scheduled runs never passes the larger of its limit
  and where it stood, over any sequence of firings in a month; every run that is recorded has been
  counted; and a firing is refused, changing nothing, exactly when the counter has reached the limit.\<close>

theorem run_quota:
  "usedRuns tenant month (scheduleRuns True month defaults rows db) \<le> max (usedRuns tenant month db) (runLimit defaults tenant db)
   \<and> tenantRuns tenant (scheduleRuns True month defaults rows db) - tenantRuns tenant db
       \<le> usedRuns tenant month (scheduleRuns True month defaults rows db) - usedRuns tenant month db
   \<and> prepareScheduledExecution billing month defaults row db =
       (if billing \<and> runLimit defaults (ex_TenantID row) db \<le> usedRuns (ex_TenantID row) month db then (Some quotaError, db)
        else (None, snd (prepareScheduledExecution billing month defaults row db)))"
proof (intro conjI)
  show "prepareScheduledExecution billing month defaults row db =
       (if billing \<and> runLimit defaults (ex_TenantID row) db \<le> usedRuns (ex_TenantID row) month db then (Some quotaError, db)
        else (None, snd (prepareScheduledExecution billing month defaults row db)))"
    using prepare_blocked [of billing defaults row db month] prepare_admitted(1) [of billing row month db defaults]
    by (cases "prepareScheduledExecution billing month defaults row db") auto
qed (simp_all add: scheduleRuns_bounds)

text \<open>A retry of a committed firing inserts nothing but is counted again.\<close>

lemma prepare_retry_counts_again:
  assumes "\<not> billing \<or> usedRuns (ex_TenantID row) month db + 1 < runLimit defaults (ex_TenantID row) db"
  shows "usedRuns (ex_TenantID row) month (scheduleRuns billing month defaults [row, row] db) = usedRuns (ex_TenantID row) month db + 2"
proof -
  have a: "\<not> billing \<or> usedRuns (ex_TenantID row) month db < runLimit defaults (ex_TenantID row) db" using assms by auto
  have b: "\<not> billing \<or> usedRuns (ex_TenantID row) month (snd (prepareScheduledExecution billing month defaults row db))
      < runLimit defaults (ex_TenantID row) (snd (prepareScheduledExecution billing month defaults row db))"
    using assms by (simp add: prepare_admitted(2,3) [OF a])
  show ?thesis by (simp add: scheduleRuns_def prepare_admitted(2) [OF b] prepare_admitted(2) [OF a])
qed

section \<open>The merge through a spill file\<close>

text \<open>The text of the records written so far, the first without a comma.\<close>

definition recordsText :: "nat \<Rightarrow> gv list \<Rightarrow> string" where
  "recordsText cnt rs = (if cnt > 0 \<and> rs \<noteq> [] then '','' else []) @ join '','' (map jsonMarshal rs)"

definition spillError :: "int \<Rightarrow> connError" where
  "spillError lim = PlainError (''merge output exceeds MAX_MERGE_INMEMORY_BYTES limit of '' @ itoa lim)"

definition fits :: "int \<Rightarrow> string \<Rightarrow> bool" where
  "fits lim text \<longleftrightarrow> \<not> (lim > 0 \<and> int (length text) > lim)"

lemma fits_prefix: "fits lim (a @ b) \<Longrightarrow> fits lim a"
  by (auto simp: fits_def)

lemma spillWrite_fits: "spillWrite lim buf b = (if fits lim (buf @ b) then Ok (buf @ b) else Err (spillError lim))"
  by (simp add: spillWrite_def fits_def spillError_def)

lemma recordsText_Cons:
  "recordsText cnt (r # rs) = (if cnt > 0 then '','' else []) @ jsonMarshal r @ recordsText (Suc cnt) rs"
  by (cases rs) (simp_all add: recordsText_def)

lemma recordsText_append: "recordsText cnt (xs @ ys) = recordsText cnt xs @ recordsText (cnt + length xs) ys"
  by (induction xs arbitrary: cnt) (simp_all add: recordsText_Cons recordsText_def [of _ "[]"])

lemma spillRecords_text:
  "fits lim buf \<Longrightarrow> spillRecords lim (buf, cnt) rs =
     (if fits lim (buf @ recordsText cnt rs) then Ok (buf @ recordsText cnt rs, cnt + length rs) else Err (spillError lim))"
proof (induction rs arbitrary: buf cnt)
  case Nil
  then show ?case by (simp add: recordsText_def)
next
  case (Cons r rs)
  let ?b1 = "buf @ (if cnt > 0 then '','' else [])" and ?b2 = "buf @ (if cnt > 0 then '','' else []) @ jsonMarshal r"
  have t: "buf @ recordsText cnt (r # rs) = ?b2 @ recordsText (Suc cnt) rs" by (simp add: recordsText_Cons)
  have w1: "(if cnt > 0 then spillWrite lim buf '','' else Ok buf) = (if fits lim ?b1 then Ok ?b1 else Err (spillError lim))"
    using Cons.prems by (simp add: spillWrite_fits)
  have step: "spillRecords lim (buf, cnt) (r # rs) =
      (if fits lim ?b1 \<and> fits lim ?b2 then spillRecords lim (?b2, Suc cnt) rs else Err (spillError lim))"
    by (simp only: spillRecords.simps w1) (simp add: spillWrite_fits)
  show ?case
  proof (cases "fits lim ?b1 \<and> fits lim ?b2")
    case True
    then show ?thesis using Cons.IH [of ?b2 "Suc cnt"] unfolding step t by simp
  next
    case False
    then have "\<not> fits lim (?b2 @ recordsText (Suc cnt) rs)" by (metis append_assoc fits_prefix)
    then show ?thesis unfolding step t if_not_P [OF False] by (rule if_not_P [symmetric])
  qed
qed

lemma spillRefs_text:
  "forR (readArray W dek db) refs = Ok arrays \<Longrightarrow> fits (wk_MaxMerge W) buf \<Longrightarrow> spillRefs W dek db (buf, cnt) refs =
     (if fits (wk_MaxMerge W) (buf @ recordsText cnt (concat arrays))
      then Ok (buf @ recordsText cnt (concat arrays), cnt + length (concat arrays)) else Err (spillError (wk_MaxMerge W)))"
proof (induction refs arbitrary: buf cnt arrays)
  case Nil
  then show ?case by (simp add: recordsText_def)
next
  case (Cons ref refs)
  then obtain xs rest where x: "readArray W dek db ref = Ok xs" "forR (readArray W dek db) refs = Ok rest" "arrays = xs # rest"
    by (auto split: sum.splits)
  show ?case
  proof (cases "fits (wk_MaxMerge W) (buf @ recordsText cnt xs)")
    case True
    then show ?thesis
      using Cons.IH [OF x(2) True, of "cnt + length xs"] Cons.prems(2)
      by (simp add: x(1,3) spillRecords_text recordsText_append add.assoc)
  next
    case False
    then have "\<not> fits (wk_MaxMerge W) (buf @ recordsText cnt (xs @ concat rest))"
      by (metis append_assoc fits_prefix recordsText_append)
    then show ?thesis using False Cons.prems(2) by (simp add: x(1,3) spillRecords_text)
  qed
qed

text \<open>A concatenation too large for memory is written through a spill file, with the text of the JSON
  array of all records of all branches in order, the text the in-memory merge would have written; and
  it is refused exactly when that text is longer than the limit.\<close>

theorem spill_is_concat:
  assumes "forR (readArray W dek db) refs = Ok arrays"
  shows "streamConcatText W dek db refs =
     (if wk_MaxMerge W > 0 \<and> int (length (jsonMarshal (VArr (concat arrays)))) > wk_MaxMerge W
      then Err (PlainError (''merge output exceeds MAX_MERGE_INMEMORY_BYTES limit of '' @ itoa (wk_MaxMerge W)))
      else Ok (jsonMarshal (VArr (concat arrays)), length (concat arrays)))
     \<and> MergeArrays ''concat'' arrays joinKey = Ok (concat arrays)"
proof
  let ?lim = "wk_MaxMerge W" and ?t = "''['' @ recordsText 0 (concat arrays)"
  have t: "jsonMarshal (VArr (concat arrays)) = ?t @ '']''" by (simp add: recordsText_def)
  have "streamConcatText W dek db refs =
      (if fits ?lim (?t @ '']'') then Ok (?t @ '']'', length (concat arrays)) else Err (spillError ?lim))"
  proof (cases "fits ?lim ''['' \<and> fits ?lim ?t")
    case True
    then show ?thesis
      by (simp add: streamConcatText_def spillWrite_fits spillRefs_text [OF assms])
  next
    case False
    then have "\<not> fits ?lim (?t @ '']'')" by (metis append_assoc fits_prefix)
    then show ?thesis using False
      by (auto simp: streamConcatText_def spillWrite_fits spillRefs_text [OF assms])
  qed
  then show "streamConcatText W dek db refs =
     (if wk_MaxMerge W > 0 \<and> int (length (jsonMarshal (VArr (concat arrays)))) > wk_MaxMerge W
      then Err (PlainError (''merge output exceeds MAX_MERGE_INMEMORY_BYTES limit of '' @ itoa (wk_MaxMerge W)))
      else Ok (jsonMarshal (VArr (concat arrays)), length (concat arrays)))"
    unfolding t fits_def spillError_def by (simp split: if_splits)
  show "MergeArrays ''concat'' arrays joinKey = Ok (concat arrays)" by (simp add: MergeArrays_def)
qed

definition listRef :: "DataRef" where
  "listRef = \<lparr>ref_Type = ''inline'', ref_Key = ''ab'', ref_Bucket = [], ref_TenantID = ''t'', ref_SizeBytes = 2, ref_RecordCount = 2,
     ref_Encrypted = False, ref_IV = []\<rparr>"

definition spillWorker :: "int \<Rightarrow> worker" where
  "spillWorker lim = \<lparr>wk_Payload = \<lparr>pc_Bucket = None, pc_PlatformKey = [], pc_MaxPayloadBytes = 0\<rparr>, wk_Crypto = padCrypto,
     wk_PrivateKey = Err (PlainError ''no key''), wk_MaxMerge = lim, wk_Unmarshal = (\<lambda>_. Some (VArr [VInt 1, VBool True])), wk_Sha = (\<lambda>s. s)\<rparr>"

theorem spill_is_concat_witness:
  "streamConcatText (spillWorker 20) [] emptyActDB [Some listRef, Some listRef] = Ok (''[1,true,1,true]'', 4)
   \<and> streamConcatText (spillWorker 10) [] emptyActDB [Some listRef, Some listRef]
       = Err (PlainError ''merge output exceeds MAX_MERGE_INMEMORY_BYTES limit of 10'')"
proof -
  have r: "forR (readArray (spillWorker lim) [] emptyActDB) [Some listRef, Some listRef] = Ok [[VInt 1, VBool True], [VInt 1, VBool True]]" for lim
    by (simp add: readArray_def readRef_def readPayload_def readBody_def spillWorker_def listRef_def padCrypto_def)
  have t: "jsonMarshal (VArr (concat [[VInt 1, VBool True], [VInt 1, VBool True]])) = ''[1,true,1,true]''" by code_simp
  have i: "itoa 10 = ''10''" by code_simp
  have l: "wk_MaxMerge (spillWorker lim) = lim" for lim by (simp add: spillWorker_def)
  from spill_is_concat [OF r [of 20], THEN conjunct1] spill_is_concat [OF r [of 10], THEN conjunct1] show ?thesis
    unfolding t l i by simp
qed

end
