(* ===== verification/DispatchLaws.thy ===== *)
theory DispatchLaws
  imports Activities
begin

text \<open>
  Laws of the activities that call connectors: the guards before every call and the tables a call leaves
  alone; and the filter of rows across runs, with the commit of the hashes it has seen.
\<close>

section \<open>Guards\<close>

text \<open>What must hold before a connector is called.\<close>

definition mayCall :: "actDB \<Rightarrow> string \<Rightarrow> string \<Rightarrow> obj \<Rightarrow> string \<Rightarrow> bool \<Rightarrow> bool" where
  "mayCall db tenant activityType config eid required \<longleftrightarrow>
     (requiredFeature activityType config = [] \<or> map_of (ad_Entitlements db) (tenant, requiredFeature activityType config) = Some True)
     \<and> (stringValue (objGet config ''connectionId'') = [] \<or> (stringValue (objGet config ''connectionId''), tenant) \<in> set (ad_Instances db))
     \<and> (\<not> required \<or> (\<exists>row\<in>set (db_Executions (ad_Ctl db)). ex_ID row = eid \<and> ex_TenantID row = tenant
           \<and> ex_ControlState row = ''active'' \<and> \<not> TerminalExecutionPhase (ex_Phase row)))"

lemma guards_mayCall:
  assumes "requireEntitlement db tenant activityType config = None" "verifyConnectorOwnership db tenant config = None"
    and "admit db attempt tenant eid required = None"
  shows "mayCall db tenant activityType config eid required"
  using assms admitted_row [of "ad_Ctl db" attempt tenant eid]
  by (auto simp: mayCall_def requireEntitlement_def verifyConnectorOwnership_def admit_def Let_def split: if_splits)

text \<open>The tables that only the commits and the control requests change.\<close>

definition sameTables :: "actDB \<Rightarrow> actDB \<Rightarrow> bool" where
  "sameTables db db' \<longleftrightarrow> ad_Cursors db' = ad_Cursors db \<and> ad_DedupeKeys db' = ad_DedupeKeys db \<and> ad_Usage db' = ad_Usage db
     \<and> ad_Entitlements db' = ad_Entitlements db \<and> ad_Instances db' = ad_Instances db \<and> db_Executions (ad_Ctl db') = db_Executions (ad_Ctl db)"

lemma sameTables_refl [simp]: "sameTables db db"
  by (simp add: sameTables_def)

lemma sameTables_trans: "sameTables a b \<Longrightarrow> sameTables b c \<Longrightarrow> sameTables a c"
  by (simp add: sameTables_def)

lemma sameTables_note [simp]: "sameTables db (noteNodeRun T eid nid tenant status cnt err app db') = sameTables db db'"
  by (simp add: sameTables_def noteNodeRun_def)

lemma sameTables_quality [simp]: "sameTables db (recordQualityResult p md db') = sameTables db db'"
  by (simp add: sameTables_def recordQualityResult_def Let_def split: option.splits)

lemma sameTables_write: "writeRef W f data tenant dek db = (r, db') \<Longrightarrow> sameTables db db'"
  by (auto simp: sameTables_def writeRef_def split: prod.splits)

lemma sameTables_filter: "filterCrossRunDedupe W f output p md db = (r, db') \<Longrightarrow> sameTables db db'"
  by (auto simp: filterCrossRunDedupe_def Let_def split: option.splits sum.splits prod.splits dest: sameTables_write)

lemma sameTables_runHandler: "runHandler W handle f p input db = (r, db') \<Longrightarrow> sameTables db db'"
  by (auto simp: runHandler_def split: sum.splits prod.splits if_splits dest: sameTables_filter)

lemma sameTables_finish: "sameTables db (snd (finishDispatch W f T p dek output md db))"
proof (cases "output = VNil")
  case True
  then show ?thesis by (simp add: finishDispatch_def Let_def)
next
  case False
  obtain r db' where w: "writeRef W f (PValue output) (dp_TenantID p) dek db = (r, db')" by force
  then show ?thesis using False sameTables_write [OF w] by (cases r) (simp_all add: finishDispatch_def Let_def)
qed

lemma sameTables_dispatch: "sameTables db (snd (dispatchNode W handle f1 f2 T attempt p db))"
proof -
  have fin: "sameTables db (snd (finishDispatch W f2 T p dek v md db'))" if "sameTables db db'" for dek v md db'
    using that sameTables_finish by (rule sameTables_trans)
  show ?thesis
    unfolding dispatchNode_def Let_def
    by (auto split: option.split sum.split prod.split dest: sameTables_runHandler intro: fin)
qed

lemma sameTables_fetch: "sameTables db (snd (fetchSourcePage W fetch f T attempt p db))"
  unfolding fetchSourcePage_def
  by (auto split: option.split sum.split prod.split dest: sameTables_write)

lemma dispatch_needs_guards:
  "dispatchNode W handle f1 f2 T attempt p db \<noteq> dispatchNode W handle' f1 f2 T attempt p db
     \<Longrightarrow> mayCall db (dp_TenantID p) (dp_ActivityType p) (dp_Config p) (dp_ExecutionID p) (dp_ControlRequired p)"
  unfolding dispatchNode_def Let_def
  by (rule guards_mayCall [of _ _ _ _ attempt]) (auto split: option.splits sum.splits)

lemma fetch_needs_guards:
  "fetchSourcePage W fetch f T attempt p db \<noteq> fetchSourcePage W fetch' f T attempt p db
     \<Longrightarrow> mayCall db (fp_TenantID p) (fp_ActivityType p) (fp_Config p) (fp_ExecutionID p) (fp_ControlRequired p)"
  unfolding fetchSourcePage_def
  by (rule guards_mayCall [of _ _ _ _ attempt]) (auto split: option.splits sum.splits)

text \<open>A connector is consulted only behind the guards: if what a step or a page fetch does depends on the
  connector at all, then the tenant has the feature the step needs, the connector instance is one of
  the tenant's, and a controlled execution is active in the tenant. And whatever the connector does,
  a step or a page fetch never moves cursors, dedupe keys, quota, entitlements or executions.\<close>

theorem connector_calls_guarded:
  "(dispatchNode W handle f1 f2 T attempt p db \<noteq> dispatchNode W handle' f1 f2 T attempt p db
      \<longrightarrow> mayCall db (dp_TenantID p) (dp_ActivityType p) (dp_Config p) (dp_ExecutionID p) (dp_ControlRequired p))
   \<and> (fetchSourcePage W fetch f1 T attempt q db \<noteq> fetchSourcePage W fetch' f1 T attempt q db
      \<longrightarrow> mayCall db (fp_TenantID q) (fp_ActivityType q) (fp_Config q) (fp_ExecutionID q) (fp_ControlRequired q))
   \<and> sameTables db (snd (dispatchNode W handle f1 f2 T attempt p db))
   \<and> sameTables db (snd (fetchSourcePage W fetch f1 T attempt q db))"
  by (intro conjI impI) (auto elim: dispatch_needs_guards fetch_needs_guards simp: sameTables_dispatch sameTables_fetch)

definition plainWorker :: "(string \<Rightarrow> gv option) \<Rightarrow> worker" where
  "plainWorker unmarshal = \<lparr>wk_Payload = \<lparr>pc_Bucket = None, pc_PlatformKey = [], pc_MaxPayloadBytes = 0\<rparr>, wk_Crypto = padCrypto,
     wk_PrivateKey = Err (PlainError ''no key''), wk_MaxMerge = 0, wk_Unmarshal = unmarshal, wk_Sha = (\<lambda>s. s)\<rparr>"

definition plainFresh :: freshness where
  "plainFresh = \<lparr>fr_Nonce = replicate 12 (CHR ''n''), fr_ObjectKey = ''o'', fr_RowID = ''r''\<rparr>"

definition plainClock :: clock where
  "plainClock = \<lparr>ck_Started = 0, ck_Duration = 5, ck_Now = 5\<rparr>"

definition sftpDB :: actDB where
  "sftpDB = \<lparr>ad_Ctl = sampleDB [sampleRow ''running'' ''active'' 3 1], ad_Plans = [], ad_Usage = [],
     ad_Entitlements = [((''t1'', ''advancedConnectors''), True)], ad_Instances = [(''c1'', ''t1'')], ad_Cursors = [],
     ad_DedupeKeys = [], ad_Quality = [], ad_Payloads = \<lparr>ps_Objects = [], ps_Rows = []\<rparr>\<rparr>"

definition sftpParams :: dispatchParams where
  "sftpParams = \<lparr>dp_ControlRequired = True, dp_ActivityType = ''sink.sftp'', dp_Config = [(''connectionId'', VStr ''c1'')],
     dp_InputRef = None, dp_TenantID = ''t1'', dp_ExecutionID = ''e1'', dp_NodeID = ''n1'', dp_PipelineVersion = 1, dp_EncryptedDEK = []\<rparr>"

definition dispatchStatus :: "(goError, NodeResult) result \<Rightarrow> bool" where
  "dispatchStatus r = isOk r"

theorem connector_calls_guarded_witness:
  "mayCall sftpDB ''t1'' ''sink.sftp'' [(''connectionId'', VStr ''c1'')] ''e1'' True"
proof -
  let ?d = "\<lambda>h. dispatchNode (plainWorker (\<lambda>_. None)) h plainFresh plainFresh plainClock 1 sftpParams sftpDB"
  have "isOk (fst (?d (\<lambda>_ _ _ _. Ok (VNil, None))))" by code_simp
  moreover have "\<not> isOk (fst (?d (\<lambda>_ _ _ _. Err (PlainError ''refused''))))" by code_simp
  ultimately have "?d (\<lambda>_ _ _ _. Ok (VNil, None)) \<noteq> ?d (\<lambda>_ _ _ _. Err (PlainError ''refused''))" by metis
  from connector_calls_guarded [THEN conjunct1, rule_format, OF this] show ?thesis by (simp add: sftpParams_def)
qed

section \<open>Dedupe across runs\<close>

text \<open>The hash of a row; the rows whose hash has not been committed.\<close>

definition rowHash :: "worker \<Rightarrow> dispatchParams \<Rightarrow> obj \<Rightarrow> string" where
  "rowHash W p row = DedupeHash (wk_Sha W) row (keyFields (objGet (dp_Config p) ''key''))"

definition newRows :: "worker \<Rightarrow> dispatchParams \<Rightarrow> string \<Rightarrow> actDB \<Rightarrow> obj list \<Rightarrow> obj list" where
  "newRows W p pid db rows = filter (\<lambda>r. (dp_TenantID p, pid, dp_NodeID p, rowHash W p r) \<notin> set (ad_DedupeKeys db)) rows"

text \<open>The checkpoint a step returns, and what the commit of a run reads of it.\<close>

definition checkpointObj :: "dispatchParams \<Rightarrow> string \<Rightarrow> DataRef \<Rightarrow> gv" where
  "checkpointObj p pid ref = VObj [(''pipelineId'', VStr pid), (''nodeId'', VStr (dp_NodeID p)),
     (''hashesRef'', refObj ref), (''encryptedDek'', VStr (dp_EncryptedDEK p))]"

definition checkpointOf :: "dispatchParams \<Rightarrow> string \<Rightarrow> DataRef \<Rightarrow> dedupeCheckpoint" where
  "checkpointOf p pid ref = \<lparr>dc_PipelineID = pid, dc_NodeID = dp_NodeID p, dc_Hashes = [], dc_HashesRef = Some ref,
     dc_EncryptedDEK = dp_EncryptedDEK p\<rparr>"

lemma rowHashes_rows:
  "rowHashes W (keyFields (objGet (dp_Config p) ''key'')) (map VObj rows) = Ok (map (\<lambda>r. (rowHash W p r, VObj r)) rows)"
  by (induction rows) (simp_all add: rowHashes_def rowHash_def)

lemma update_fold_distinct:
  "distinct (map fst kvs) \<Longrightarrow> map_of (fold (\<lambda>(h, raw). AList.update h raw) kvs m) = map_of m ++ map_of kvs"
proof (induction kvs arbitrary: m)
  case Nil
  then show ?case by simp
next
  case (Cons kv kvs)
  obtain k v where kv: "kv = (k, v)" by (cases kv)
  then have "k \<notin> dom (map_of kvs)" using Cons.prems by (simp add: dom_map_of_conv_image_fst)
  then show ?case using Cons kv by (simp add: update_conv' map_add_upd_left del: fun_upd_apply)
qed

lemma freshRows_distinct:
  assumes "distinct (map fst kvs)"
  shows "freshRows kvs seen = filter (\<lambda>kv. \<not> seen (fst kv)) kvs"
proof -
  let ?g = "objGet (fold (\<lambda>(h, raw). AList.update h raw) kvs [])"
  have g: "?g (fst kv) = snd kv" if "kv \<in> set kvs" for kv
  proof -
    have "map_of kvs (fst kv) = Some (snd kv)" using that assms by (intro map_of_is_SomeI) auto
    moreover have "map_of (fold (\<lambda>(h, raw). AList.update h raw) kvs []) = map_of kvs" using assms by (simp add: update_fold_distinct)
    ultimately show ?thesis by (simp only: objGet_def option.case)
  qed
  have "freshRows kvs seen = map (\<lambda>kv. (fst kv, ?g (fst kv))) (filter (\<lambda>kv. \<not> seen (fst kv)) kvs)"
    by (simp add: freshRows_def Let_def filter_map comp_def)
  also have "\<dots> = filter (\<lambda>kv. \<not> seen (fst kv)) kvs"
    using g by (intro map_idI) simp
  finally show ?thesis .
qed

text \<open>What the filter returns.\<close>

lemma filter_eq:
  assumes "distinct (map (rowHash W p) rows)" "executionPipeline db (dp_TenantID p) (dp_ExecutionID p) = Some pid"
    "dekOf W (dp_EncryptedDEK p) = Ok dek"
  shows "filterCrossRunDedupe W f (VArr (map VObj rows)) p md db =
     (case writeRef W f (PStrings (map (rowHash W p) (newRows W p pid db rows))) (dp_TenantID p) dek db of
        (Err e, db') \<Rightarrow> (Err e, db')
      | (Ok ref, db') \<Rightarrow> (Ok (VArr (map VObj (newRows W p pid db rows)),
          Some (objPut ''dedupeCheckpoint'' (checkpointObj p pid ref) (case md of Some m \<Rightarrow> m | None \<Rightarrow> []))), db'))"
proof -
  let ?kvs = "map (\<lambda>r. (rowHash W p r, VObj r)) rows"
  have "freshRows ?kvs (\<lambda>h. (dp_TenantID p, pid, dp_NodeID p, h) \<in> set (ad_DedupeKeys db))
      = map (\<lambda>r. (rowHash W p r, VObj r)) (newRows W p pid db rows)"
    using freshRows_distinct [of ?kvs] assms(1) by (simp add: comp_def filter_map newRows_def)
  then show ?thesis
    by (simp add: filterCrossRunDedupe_def assms(2,3) rowHashes_rows checkpointObj_def comp_def split: prod.split sum.split)
qed

lemma filter_inputs:
  assumes "filterCrossRunDedupe W f (VArr (map VObj rows)) p md db = (Ok r, db')"
  obtains pid dek where "executionPipeline db (dp_TenantID p) (dp_ExecutionID p) = Some pid" "dekOf W (dp_EncryptedDEK p) = Ok dek"
  using assms by (auto simp: filterCrossRunDedupe_def rowHashes_rows split: option.splits sum.splits)

lemma fold_insertKey:
  "set (ad_DedupeKeys (fold (\<lambda>h. insertKey (f h)) hs db)) = set (ad_DedupeKeys db) \<union> f ` set hs"
  "ad_Payloads (fold (\<lambda>h. insertKey (f h)) hs db) = ad_Payloads db" "ad_Ctl (fold (\<lambda>h. insertKey (f h)) hs db) = ad_Ctl db"
  by (induction hs arbitrary: db) (auto simp: insertKey_def)

lemma executionPipeline_ctl: "ad_Ctl db' = ad_Ctl db \<Longrightarrow> executionPipeline db' = executionPipeline db"
  by (simp add: executionPipeline_def fun_eq_iff)

lemma writeRef_Ok_again:
  assumes "writeRef W f data tenant dek db = (Ok ref, db')"
  shows "\<exists>ref2 db2. writeRef W f2 (PStrings []) tenant dek any = (Ok ref2, db2)"
proof -
  have b: "payloadBody (PStrings []) = ''[]''" by simp
  show ?thesis
  proof (cases "payloadKey (wk_Payload W) dek = []")
    case True
    then show ?thesis unfolding writeRef_def writePayload_def b by (simp add: inlineMax_def writeInline_def)
  next
    case False
    then have "aesKeyOK (payloadKey (wk_Payload W) dek)"
      using assms by (auto simp: writeRef_def writePayload_def writeInline_def writeObject_def writeRow_def EncryptPayload_def Let_def
          split: if_splits option.splits sum.splits prod.splits)
    then show ?thesis unfolding writeRef_def writePayload_def Let_def b
      by (simp add: inlineMax_def writeInline_def EncryptPayload_def)
  qed
qed


definition ordersParams :: dispatchParams where
  "ordersParams = \<lparr>dp_ControlRequired = False, dp_ActivityType = ''transform.dedupe'', dp_Config = [(''key'', VStr ''k'')],
     dp_InputRef = None, dp_TenantID = ''t1'', dp_ExecutionID = ''e1'', dp_NodeID = ''n1'', dp_PipelineVersion = 1, dp_EncryptedDEK = []\<rparr>"

definition hashesJSON :: "string \<Rightarrow> gv option" where
  "hashesJSON b = (if b = jsonMarshal (VArr [VStr ''[1]'']) then Some (VArr [VStr ''[1]'']) else Some (VArr []))"


text \<open>Without a key all rows have one hash: the first run repeats its last row, later runs give nothing.\<close>

lemma freshRows_one_hash:
  "freshRows (map (\<lambda>r. (h, r)) (rows @ [r])) seen = (if seen h then [] else replicate (Suc (length rows)) (h, r))"
proof -
  have b: "fold (\<lambda>(h, raw). AList.update h raw) (map (\<lambda>r. (h, r)) rows) m = (if rows = [] then m else AList.update h (last rows) m)" for m
    by (induction rows arbitrary: m) auto
  have "objGet (fold (\<lambda>(h, raw). AList.update h raw) (map (\<lambda>r. (h, r)) (rows @ [r])) []) h = r"
    by (simp add: b objGet_def update_conv')
  then show ?thesis by (simp add: freshRows_def Let_def comp_def filter_False map_replicate_const replicate_append_same)
qed

end
