(* ===== verification/GoTime.thy ===== *)
theory GoTime
  imports Records
begin

text \<open>
  The parts of the package \<^verbatim>\<open>time\<close> the code uses: an instant is the number of nanoseconds since the start
  of 1970 in UTC, the calendar is the proleptic Gregorian one, and RFC 3339 text is parsed and printed as
  \<^verbatim>\<open>time.Parse\<close> and \<^verbatim>\<open>Format\<close> do. A parsed time is in a zone with a fixed offset, so adding days adds
  multiples of 24 hours.
\<close>

section \<open>Calendar\<close>

definition nsDay :: int where "nsDay = 86400 * timeSecond"

definition daysFromCivil :: "int \<Rightarrow> int \<Rightarrow> int \<Rightarrow> int" where
  "daysFromCivil y m d =
     (let y1 = (if m \<le> 2 then y - 1 else y); era = y1 div 400; yoe = y1 mod 400;
          doy = (153 * (if m > 2 then m - 3 else m + 9) + 2) div 5 + d - 1
      in era * 146097 + yoe * 365 + yoe div 4 - yoe div 100 + doy - 719468)"

definition civilFromDays :: "int \<Rightarrow> int \<times> int \<times> int" where
  "civilFromDays z0 =
     (let z = z0 + 719468; era = z div 146097; doe = z mod 146097;
          yoe = (doe - doe div 1460 + doe div 36524 - doe div 146096) div 365;
          doy = doe - (365 * yoe + yoe div 4 - yoe div 100);
          mp = (5 * doy + 2) div 153;
          m = (if mp < 10 then mp + 3 else mp - 9)
      in (yoe + era * 400 + (if m \<le> 2 then 1 else 0), m, doy - (153 * mp + 2) div 5 + 1))"

definition leapYear :: "int \<Rightarrow> bool" where
  "leapYear y \<longleftrightarrow> y mod 4 = 0 \<and> (y mod 100 \<noteq> 0 \<or> y mod 400 = 0)"

definition daysIn :: "int \<Rightarrow> int \<Rightarrow> int" where
  "daysIn m y = (if m = 2 then (if leapYear y then 29 else 28) else if m \<in> {4, 6, 9, 11} then 30 else 31)"

section \<open>Printing\<close>

text \<open>A number with leading zeros.\<close>

definition padNum :: "nat \<Rightarrow> int \<Rightarrow> string" where
  "padNum n i = replicate (n - length (itoa i)) (CHR ''0'') @ itoa i"

definition secondText :: "int \<Rightarrow> string" where
  "secondText s =
     (case civilFromDays (s div 86400) of
        (y, m, d) \<Rightarrow> padNum 4 y @ ''-'' @ padNum 2 m @ ''-'' @ padNum 2 d @ ''T''
          @ padNum 2 (s mod 86400 div 3600) @ '':'' @ padNum 2 (s mod 3600 div 60) @ '':'' @ padNum 2 (s mod 60))"

text \<open>\<^verbatim>\<open>t.UTC().Format(time.RFC3339)\<close> and \<^verbatim>\<open>t.UTC().Format(time.RFC3339Nano)\<close>, which drops trailing zeros.\<close>

definition formatRFC3339 :: "int \<Rightarrow> string" where
  "formatRFC3339 t = secondText (t div timeSecond) @ ''Z''"

definition formatRFC3339Nano :: "int \<Rightarrow> string" where
  "formatRFC3339Nano t =
     (let frac = rev (dropWhile (\<lambda>c. c = CHR ''0'') (rev (padNum 9 (t mod timeSecond))))
      in secondText (t div timeSecond) @ (if frac = [] then [] else CHR ''.'' # frac) @ ''Z'')"

section \<open>Parsing\<close>

definition takeNum :: "nat \<Rightarrow> string \<Rightarrow> (int \<times> string) option" where
  "takeNum n s = (if n \<le> length s \<and> list_all isDigit (take n s) then Some (digitsVal (take n s), drop n s) else None)"

definition expectChar :: "char \<Rightarrow> string \<Rightarrow> string option" where
  "expectChar c s = (case s of x # r \<Rightarrow> if x = c then Some r else None | [] \<Rightarrow> None)"

text \<open>The hour may have one digit only.\<close>

definition takeHour :: "string \<Rightarrow> (int \<times> string) option" where
  "takeHour s = (case takeNum 2 s of Some r \<Rightarrow> Some r | None \<Rightarrow> takeNum 1 s)"

text \<open>A fraction of a second, in nanoseconds; digits after the ninth are dropped.\<close>

definition takeFraction :: "string \<Rightarrow> int \<times> string" where
  "takeFraction s =
     (case s of
        c # r \<Rightarrow>
          let ds = takeWhile isDigit r; used = take 9 ds in
          if (c = CHR ''.'' \<or> c = CHR '','') \<and> ds \<noteq> []
          then (digitsVal used * 10 ^ (9 - length used), drop (length ds) r) else (0, s)
      | [] \<Rightarrow> (0, s))"

text \<open>The zone, as the seconds east of UTC.\<close>

definition takeZone :: "string \<Rightarrow> (int \<times> string) option" where
  "takeZone s =
     (case s of
        [] \<Rightarrow> None
      | c # r \<Rightarrow>
          if c = CHR ''Z'' then Some (0, r)
          else if c \<noteq> CHR ''+'' \<and> c \<noteq> CHR ''-'' then None
          else Option.bind (takeNum 2 r) (\<lambda>(h, r1). Option.bind (expectChar (CHR '':'') r1) (\<lambda>r2.
               Option.bind (takeNum 2 r2) (\<lambda>(m, r3).
                 if h > 24 \<or> m > 60 then None else Some ((if c = CHR ''-'' then -1 else 1) * (h * 60 + m) * 60, r3)))))"

definition takeDate :: "string \<Rightarrow> (int \<times> string) option" where
  "takeDate s =
     Option.bind (takeNum 4 s) (\<lambda>(y, s1). Option.bind (expectChar (CHR ''-'') s1) (\<lambda>s2.
     Option.bind (takeNum 2 s2) (\<lambda>(m, s3). Option.bind (expectChar (CHR ''-'') s3) (\<lambda>s4.
     Option.bind (takeNum 2 s4) (\<lambda>(d, s5).
       if m < 1 \<or> m > 12 \<or> d < 1 \<or> d > daysIn m y then None else Some (daysFromCivil y m d, s5))))))"

definition takeClock :: "string \<Rightarrow> (int \<times> string) option" where
  "takeClock s =
     Option.bind (takeHour s) (\<lambda>(h, s1). Option.bind (expectChar (CHR '':'') s1) (\<lambda>s2.
     Option.bind (takeNum 2 s2) (\<lambda>(mi, s3). Option.bind (expectChar (CHR '':'') s3) (\<lambda>s4.
     Option.bind (takeNum 2 s4) (\<lambda>(sec, s5).
       if h > 23 \<or> mi > 59 \<or> sec > 59 then None else Some (h * 3600 + mi * 60 + sec, s5))))))"

text \<open>\<^verbatim>\<open>time.Parse(time.RFC3339, s)\<close>.\<close>

definition parseRFC3339 :: "string \<Rightarrow> int option" where
  "parseRFC3339 s =
     Option.bind (takeDate s) (\<lambda>(days, s1). Option.bind (expectChar (CHR ''T'') s1) (\<lambda>s2.
     Option.bind (takeClock s2) (\<lambda>(sec, s3).
       case takeFraction s3 of (ns, s4) \<Rightarrow>
         Option.bind (takeZone s4) (\<lambda>(off, s5).
           if s5 \<noteq> [] then None else Some ((days * 86400 + sec - off) * timeSecond + ns)))))"

section \<open>Facts\<close>

lemma takeNum_append: "length a = n \<Longrightarrow> list_all isDigit a \<Longrightarrow> takeNum n (a @ r) = Some (digitsVal a, r)"
  by (simp add: takeNum_def)

text \<open>A few instants.\<close>

lemma epoch_text: "formatRFC3339Nano 0 = ''1970-01-01T00:00:00Z''"
  and leap_text: "formatRFC3339 1709210096500000000 = ''2024-02-29T12:34:56Z''"
  and nano_text: "formatRFC3339Nano 1709210096500000000 = ''2024-02-29T12:34:56.5Z''"
  and parse_text: "parseRFC3339 ''2024-02-29T14:34:56.500+02:00'' = Some 1709210096500000000"
  and parse_bad: "parseRFC3339 ''2023-02-29T00:00:00Z'' = None"
  by code_simp+

end
