(* ===== verification/Backfills.thy ===== *)
theory Backfills
  imports GoTime Activities
begin

text \<open>
  Backfills (\<^verbatim>\<open>internal/api/backfills.go\<close>, the backfill routes of \<^verbatim>\<open>routes_pipelines.go\<close>, the claim function of
  \<^verbatim>\<open>db/016_backfills.sql\<close>) and the start of an execution with its quota (\<^verbatim>\<open>internal/api/temporal.go\<close>): the plan
  that cuts a range into partitions, the tables of jobs and partitions, and the dispatcher that claims a
  partition and fires it.
\<close>

section \<open>The plan\<close>

text \<open>\<^verbatim>\<open>stringValue\<close> of the package \<^verbatim>\<open>api\<close>, which prints \<^verbatim>\<open>nil\<close> as \<^verbatim>\<open>fmt.Sprint\<close> does, and its \<^verbatim>\<open>numberValue\<close>.\<close>

definition apiString :: "gv \<Rightarrow> string" where
  "apiString v = sprint v"

definition numberOr :: "gv \<Rightarrow> int \<Rightarrow> float64" where
  "numberOr v fallback = (case v of VFloat n \<Rightarrow> n | _ \<Rightarrow> floatOfInt fallback)"

record backfillPlan =
  plan_From :: int
  plan_To :: int
  plan_PartitionDays :: int
  plan_MaxConcurrency :: int
  plan_Partitions :: "(int \<times> int) list"

text \<open>
  The loop of partitions; \<open>k\<close> is the number of partitions it may still append before the limit. The
  instants are printed with \<^verbatim>\<open>RFC3339Nano\<close> in the response and the rows.
\<close>

fun planLoop :: "int \<Rightarrow> int \<Rightarrow> nat \<Rightarrow> int \<Rightarrow> (int \<times> int) list option" where
  "planLoop step to k cursor =
     (if \<not> cursor < to then Some []
      else case k of
        0 \<Rightarrow> None
      | Suc k' \<Rightarrow> map_option (Cons (cursor, min (cursor + step) to)) (planLoop step to k' (cursor + step)))"

declare planLoop.simps [simp del]

definition planBackfill :: "obj \<Rightarrow> (string, backfillPlan) result" where
  "planBackfill input =
     (case (parseRFC3339 (apiString (objGet input ''from'')), parseRFC3339 (apiString (objGet input ''to''))) of
        (Some from, Some to) \<Rightarrow>
          (let days = truncFloat (numberOr (objGet input ''partitionDays'') 1); conc = truncFloat (numberOr (objGet input ''maxConcurrency'') 1) in
           if \<not> from < to then Err ''from and to must be valid ISO timestamps with from before to''
           else if days < 1 \<or> days > 31 then Err ''partitionDays must be an integer between 1 and 31''
           else if conc < 1 \<or> conc > 5 then Err ''maxConcurrency must be an integer between 1 and 5''
           else case planLoop (days * nsDay) to 366 from of
             None \<Rightarrow> Err ''backfill exceeds the 366 partition limit''
           | Some parts \<Rightarrow> Ok \<lparr>plan_From = from, plan_To = to, plan_PartitionDays = days, plan_MaxConcurrency = conc, plan_Partitions = parts\<rparr>)
      | _ \<Rightarrow> Err ''from and to must be valid ISO timestamps with from before to'')"

definition backfillSourceError :: "Node \<Rightarrow> string option" where
  "backfillSourceError node =
     (let cfg = node_Config node; at = node_ActivityType node;
          field = objGet cfg (if at = ''mongodb.fetch'' then ''cursorField'' else ''cursorColumn'') in
      if \<not> contains [''postgres.fetch'', ''mysql.fetch'', ''mongodb.fetch''] at
      then Some (at @ '': partitioned backfill is supported only for PostgreSQL, MySQL, and MongoDB cursor sources'')
      else if objGet cfg ''syncMode'' \<noteq> VStr ''cursor'' then Some (at @ '': partitioned backfills require cursor mode'')
      else if objGet cfg ''cursorType'' \<noteq> VStr ''date'' then Some (at @ '': partitioned backfills require cursorType=date'')
      else if apiString field = [] then Some (at @ '': partitioned backfills require a cursor field'') else None)"

definition validateBackfillSources :: "PipelineDefinition \<Rightarrow> string option" where
  "validateBackfillSources def =
     (let sources = filter (\<lambda>n. node_Type n = ''source'') (def_Nodes def) in
      case checkAll backfillSourceError sources of
        Some e \<Rightarrow> Some e
      | None \<Rightarrow> if sources = [] then Some ''pipeline has no source'' else None)"

section \<open>Tables\<close>

text \<open>The error of a start; a row keeps it where the code keeps its text.\<close>

datatype fireError =
    FireAgent agent_error | FirePolicy policy_error | QuotaExceeded int int | FireStart string | FireInsert string

record bfPartition = partitionRow +
  bp_Ordinal :: nat
  bp_RangeStart :: int
  bp_RangeEnd :: int
  bp_ExecutionID :: "string option"
  bp_Error :: "fireError option"
  bp_StartedAt :: "int option"

record bfJob = jobRow +
  bj_PipelineID :: string
  bj_Environment :: string
  bj_MaxConcurrency :: int
  bj_CreatedAt :: int

record apiDB =
  as_Plans :: "(string \<times> planRow) list"
  as_Usage :: "((string \<times> string) \<times> int) list"
  as_Executions :: "execRow list"
  as_Jobs :: "bfJob list"
  as_Partitions :: "bfPartition list"
  as_Pipelines :: "(string \<times> PipelineDefinition) list"

section \<open>Quota\<close>

definition consumeQuota :: "bool \<Rightarrow> planRow \<Rightarrow> string \<Rightarrow> string \<Rightarrow> apiDB \<Rightarrow> fireError option \<times> apiDB" where
  "consumeQuota billing defaults month tenant db =
     (let plans = (if map_of (as_Plans db) tenant = None then (tenant, defaults) # as_Plans db else as_Plans db);
          usage = (if map_of (as_Usage db) (tenant, month) = None then ((tenant, month), 0) # as_Usage db else as_Usage db);
          plan = the (map_of plans tenant); lim = bp_FreeTierLimit plan + bp_ExtraQuota plan; used = the (map_of usage (tenant, month))
      in if billing \<and> used \<ge> lim then (Some (QuotaExceeded used lim), db)
         else (None, db\<lparr>as_Plans := plans, as_Usage := AList.update (tenant, month) (used + 1) usage\<rparr>))"

definition releaseQuota :: "string \<Rightarrow> string \<Rightarrow> apiDB \<Rightarrow> apiDB" where
  "releaseQuota month tenant db =
     db\<lparr>as_Usage := map (\<lambda>(k, n). (k, if k = (tenant, month) then max 0 (n - 1) else n)) (as_Usage db)\<rparr>"

section \<open>Starting an execution\<close>

text \<open>
  What one start meets: the ids minted for it, the clock before and after the call to the workflow
  service, and the answer of that service to a start.
\<close>

record fireEnv =
  fe_ExecutionID :: string
  fe_TraceID :: string
  fe_Now :: int
  fe_Later :: int
  fe_Start :: "string \<Rightarrow> WorkflowInput \<Rightarrow> (string, string) result"

text \<open>\<^verbatim>\<open>monthStart\<close>: the first day of the month in UTC, the key of the usage counters.\<close>

definition monthStart :: "int \<Rightarrow> string" where
  "monthStart now = take 7 (formatRFC3339 now) @ ''-01''"

definition fe_Month :: "fireEnv \<Rightarrow> string" where "fe_Month E = monthStart (fe_Now E)"
definition fe_ReleaseMonth :: "fireEnv \<Rightarrow> string" where "fe_ReleaseMonth E = monthStart (fe_Later E)"

text \<open>The trace id of an inbound \<^verbatim>\<open>traceparent\<close> header, or a fresh one.\<close>

definition hexLower :: "char \<Rightarrow> bool" where
  "hexLower c \<longleftrightarrow> isDigit c \<or> c \<in> set ''abcdef''"

definition traceparentMatch :: "string \<Rightarrow> string option" where
  "traceparentMatch s =
     (case splitOn (CHR ''-'') s of
        [v, t, p, f] \<Rightarrow>
          if length v = 2 \<and> length t = 32 \<and> length p = 16 \<and> length f = 2 \<and> list_all hexLower (v @ t @ p @ f) then Some t else None
      | _ \<Rightarrow> None)"

definition traceIDFromContext :: "string \<Rightarrow> string \<Rightarrow> string" where
  "traceIDFromContext fresh header =
     (case traceparentMatch (toLower (trimSpace header)) of
        Some t \<Rightarrow> if t \<noteq> replicate 32 (CHR ''0'') then t else fresh
      | None \<Rightarrow> fresh)"

record fireRequest =
  fr_Definition :: PipelineDefinition
  fr_PipelineRowID :: string
  fr_TriggerType :: string
  fr_Environment :: string
  fr_PayloadRef :: "DataRef option"
  fr_EncryptedDEK :: string
  fr_PartitionID :: string

definition workflowName :: "PipelineDefinition \<Rightarrow> string" where
  "workflowName def =
     (case def_Execution def of
        None \<Rightarrow> ''DynamicDAGWorkflow''
      | Some e \<Rightarrow>
          if exec_Engine e = ''stream-direct'' then ''StreamDirectWorkflow''
          else if exec_Engine e = ''spark-sql'' then ''SparkJobWorkflow''
          else if exec_Engine e = ''flink-sql'' then ''FlinkJobWorkflow'' else ''DynamicDAGWorkflow'')"

definition fireInput :: "fireEnv \<Rightarrow> fireRequest \<Rightarrow> WorkflowInput" where
  "fireInput E q = \<lparr>win_Definition = fr_Definition q, win_TenantID = def_TenantID (fr_Definition q), win_ExecutionID = fe_ExecutionID E,
     win_PipelineRowID = [], win_Environment = fr_Environment q, win_ExecutionPrepared = False,
     win_Trigger = \<lparr>tin_Type = fr_TriggerType q, tin_PayloadRef = fr_PayloadRef q, tin_FiredAt = formatRFC3339Nano (fe_Now E)\<rparr>,
     win_TraceID = fe_TraceID E, win_EncryptedDEK = fr_EncryptedDEK q, win_DEKIV = [], win_Stream = None, win_Flink = None\<rparr>"

definition nullString :: "string \<Rightarrow> string option" where
  "nullString s = (if s = [] then None else Some s)"

definition newExecution :: "fireEnv \<Rightarrow> fireRequest \<Rightarrow> string \<Rightarrow> execRow" where
  "newExecution E q run = \<lparr>ex_ID = fe_ExecutionID E, ex_TenantID = def_TenantID (fr_Definition q), ex_PipelineID = fr_PipelineRowID q,
     ex_Phase = ''running'', ex_Environment = fr_Environment q, ex_WorkflowID = Some (fe_ExecutionID E), ex_RunID = Some run,
     ex_ControlState = ''active'', ex_ControlRevision = 0, ex_DeliveredRevision = 0, ex_NextDeliveryAt = fe_Now E, ex_CompletedAt = None,
     ex_BackfillPartition = nullString (fr_PartitionID q)\<rparr>"

text \<open>The row is refused when its id is taken, or when the partition has an execution already (the unique index on \<^verbatim>\<open>backfill_partition_id\<close>).\<close>

definition executionClash :: "execRow \<Rightarrow> execRow list \<Rightarrow> bool" where
  "executionClash row rows \<longleftrightarrow>
     list_ex (\<lambda>r. ex_ID r = ex_ID row \<or> (ex_BackfillPartition row \<noteq> None \<and> ex_BackfillPartition r = ex_BackfillPartition row)) rows"

definition recordFired :: "fireEnv \<Rightarrow> fireRequest \<Rightarrow> string \<Rightarrow> apiDB \<Rightarrow> (fireError, apiDB) result" where
  "recordFired E q run db =
     (if executionClash (newExecution E q run) (as_Executions db)
      then Err (FireInsert ''duplicate key value violates unique constraint'')
      else Ok (db\<lparr>as_Executions := as_Executions db @ [newExecution E q run],
             as_Partitions := updateWhere (\<lambda>p. fr_PartitionID q \<noteq> [] \<and> bp_ID p = fr_PartitionID q \<and> bp_TenantID p = def_TenantID (fr_Definition q))
               (\<lambda>p. p\<lparr>bp_Status := ''running'', bp_ExecutionID := Some (fe_ExecutionID E)\<rparr>) (as_Partitions db)\<rparr>))"

text \<open>The result, the tables, and the workflow that was terminated again, if any.\<close>

definition fireExecution ::
  "(string \<Rightarrow> bool) \<Rightarrow> bool \<Rightarrow> planRow \<Rightarrow> fireEnv \<Rightarrow> fireRequest \<Rightarrow> apiDB \<Rightarrow> (fireError, string) result \<times> apiDB \<times> string option" where
  "fireExecution uuidOK billing defaults E q db =
     (let def = fr_Definition q; tenant = def_TenantID def in
      case ValidateAgentAdmission uuidOK def of Some e \<Rightarrow> (Err (FireAgent e), db, None) | None \<Rightarrow>
      case ValidateNodePolicies def of Some e \<Rightarrow> (Err (FirePolicy e), db, None) | None \<Rightarrow>
      case consumeQuota billing defaults (fe_Month E) tenant db of
        (Some e, _) \<Rightarrow> (Err e, db, None)
      | (None, db1) \<Rightarrow>
          (case fe_Start E (workflowName def) (fireInput E q) of
             Err e \<Rightarrow> (Err (FireStart e), releaseQuota (fe_ReleaseMonth E) tenant db1, None)
           | Ok run \<Rightarrow>
               (case recordFired E q run db1 of
                  Err e \<Rightarrow> (Err e, releaseQuota (fe_ReleaseMonth E) tenant db1, Some (fe_ExecutionID E))
                | Ok db2 \<Rightarrow> (Ok (fe_ExecutionID E), db2, None))))"

text \<open>
  \<^verbatim>\<open>syncSchedule\<close>: the calls to the schedule service, in order; the error of the deletion is dropped.
\<close>

datatype scheduleCall =
    DeleteSchedule string
  | CreateSchedule (sc_ID: string) (sc_Cron: string) (sc_WorkflowID: string) (sc_Workflow: string) (sc_Queue: string) (sc_Input: WorkflowInput)

definition scheduleInput :: "string \<Rightarrow> string \<Rightarrow> PipelineDefinition \<Rightarrow> WorkflowInput" where
  "scheduleInput env rowID def = \<lparr>win_Definition = def, win_TenantID = def_TenantID def, win_ExecutionID = [], win_PipelineRowID = rowID,
     win_Environment = env, win_ExecutionPrepared = False, win_Trigger = \<lparr>tin_Type = ''cron'', tin_PayloadRef = None, tin_FiredAt = []\<rparr>,
     win_TraceID = [], win_EncryptedDEK = [], win_DEKIV = [], win_Stream = None, win_Flink = None\<rparr>"

definition syncSchedule ::
  "(string \<Rightarrow> bool) \<Rightarrow> (scheduleCall \<Rightarrow> string option) \<Rightarrow> string \<Rightarrow> string \<Rightarrow> PipelineDefinition \<Rightarrow> fireError option \<times> scheduleCall list" where
  "syncSchedule uuidOK call rowID env def =
     (case ValidateAgentAdmission uuidOK def of Some e \<Rightarrow> (Some (FireAgent e), []) | None \<Rightarrow>
      if trig_Type (def_Trigger def) \<noteq> ''cron'' then (None, [])
      else case ValidateNodePolicies def of Some e \<Rightarrow> (Some (FirePolicy e), []) | None \<Rightarrow>
        let sid = ''sched-'' @ def_ID def @ ''-'' @ env;
            c = CreateSchedule sid (trig_Schedule (def_Trigger def)) (''schedule-'' @ def_ID def @ ''-'' @ env) ''DynamicDAGWorkflow''
                  (''dynamic-dag-'' @ env) (scheduleInput env rowID def)
        in (map_option FireStart (call c), [DeleteSchedule sid, c]))"

section \<open>Dispatching partitions\<close>

definition activeStatus :: "string \<Rightarrow> bool" where
  "activeStatus s \<longleftrightarrow> s = ''starting'' \<or> s = ''running''"

definition activeOf :: "string \<Rightarrow> bfPartition list \<Rightarrow> int" where
  "activeOf jid parts = int (length (filter (\<lambda>p. bp_JobID p = jid \<and> activeStatus (bp_Status p)) parts))"

text \<open>A claim that is not started after five minutes is open again.\<close>

definition requeueStale :: "int \<Rightarrow> bfPartition list \<Rightarrow> bfPartition list" where
  "requeueStale now = updateWhere
     (\<lambda>p. bp_Status p = ''starting'' \<and> (case bp_StartedAt p of Some t \<Rightarrow> t < now - 300 * timeSecond | None \<Rightarrow> False))
     (\<lambda>p. p\<lparr>bp_Status := ''pending'', bp_StartedAt := None\<rparr>)"

definition jobOf :: "bfJob list \<Rightarrow> bfPartition \<Rightarrow> bfJob option" where
  "jobOf jobs p = find (\<lambda>j. bj_ID j = bp_JobID p) jobs"

definition claimable :: "bfJob list \<Rightarrow> bfPartition list \<Rightarrow> bfPartition \<Rightarrow> bool" where
  "claimable jobs parts p \<longleftrightarrow> bp_Status p = ''pending'' \<and>
     (case jobOf jobs p of None \<Rightarrow> False
      | Some j \<Rightarrow> bj_Status j \<in> {''queued'', ''running''} \<and> activeOf (bj_ID j) parts < bj_MaxConcurrency j)"

definition claimOrder :: "bfJob list \<Rightarrow> bfPartition \<Rightarrow> int \<times> nat" where
  "claimOrder jobs p = (case jobOf jobs p of Some j \<Rightarrow> bj_CreatedAt j | None \<Rightarrow> 0, bp_Ordinal p)"

record claim =
  cl_Partition :: bfPartition
  cl_Job :: bfJob
  cl_Definition :: PipelineDefinition

text \<open>\<^verbatim>\<open>claim_next_backfill_partition\<close>.\<close>

definition claimNext :: "int \<Rightarrow> apiDB \<Rightarrow> claim option \<times> apiDB" where
  "claimNext now db =
     (let parts = requeueStale now (as_Partitions db); jobs = as_Jobs db in
      case sort_key (claimOrder jobs) (filter (claimable jobs parts) parts) of
        [] \<Rightarrow> (None, db\<lparr>as_Partitions := parts\<rparr>)
      | c # _ \<Rightarrow>
          let c' = c\<lparr>bp_Status := ''starting'', bp_StartedAt := Some now\<rparr>;
              db' = db\<lparr>as_Partitions := updateWhere (\<lambda>p. bp_ID p = bp_ID c) (\<lambda>p. p\<lparr>bp_Status := ''starting'', bp_StartedAt := Some now\<rparr>) parts,
                       as_Jobs := updateWhere (\<lambda>j. bj_ID j = bp_JobID c \<and> bj_Status j = ''queued'') (\<lambda>j. j\<lparr>bj_Status := ''running''\<rparr>) jobs\<rparr>
          in (Option.bind (jobOf jobs c) (\<lambda>j. map_option (\<lambda>d. \<lparr>cl_Partition = c', cl_Job = j, cl_Definition = d\<rparr>)
                 (map_of (as_Pipelines db) (bj_PipelineID j))), db'))"

definition backfillNode :: "bfPartition \<Rightarrow> Node \<Rightarrow> Node" where
  "backfillNode p n =
     (if node_Type n \<noteq> ''source'' then n
      else let ing = (case node_Ingestion n of Some i \<Rightarrow> i
                 | None \<Rightarrow> \<lparr>ing_Mode = [], ing_BackfillStart = [], ing_BackfillEnd = [], ing_StateKey = [], ing_PageSize = 0\<rparr>)
           in n\<lparr>node_Ingestion := Some (ing\<lparr>ing_Mode := ''backfill'', ing_BackfillStart := formatRFC3339Nano (bp_RangeStart p),
                  ing_BackfillEnd := formatRFC3339Nano (bp_RangeEnd p), ing_StateKey := bp_ID p, ing_PageSize := max (ing_PageSize ing) 10000\<rparr>)\<rparr>)"

definition backfillRequest :: "claim \<Rightarrow> fireRequest" where
  "backfillRequest c =
     \<lparr>fr_Definition = (cl_Definition c)\<lparr>def_Nodes := map (backfillNode (cl_Partition c)) (def_Nodes (cl_Definition c))\<rparr>,
      fr_PipelineRowID = bj_PipelineID (cl_Job c), fr_TriggerType = ''backfill'', fr_Environment = bj_Environment (cl_Job c),
      fr_PayloadRef = None, fr_EncryptedDEK = [], fr_PartitionID = bp_ID (cl_Partition c)\<rparr>"

definition failPartition :: "int \<Rightarrow> bfPartition \<Rightarrow> fireError \<Rightarrow> apiDB \<Rightarrow> apiDB" where
  "failPartition now c err db =
     db\<lparr>as_Partitions := updateWhere (\<lambda>p. bp_ID p = bp_ID c \<and> bp_TenantID p = bp_TenantID c)
        (\<lambda>p. p\<lparr>bp_Status := ''failed'', bp_Error := Some err, bp_CompletedAt := Some now\<rparr>) (as_Partitions db)\<rparr>"

text \<open>One round of \<^verbatim>\<open>dispatchBackfills\<close>; a list of \<open>fireEnv\<close> stands for the rounds, its length for the limit.\<close>

definition dispatchOne :: "(string \<Rightarrow> bool) \<Rightarrow> bool \<Rightarrow> planRow \<Rightarrow> fireEnv \<Rightarrow> apiDB \<Rightarrow> bool \<times> apiDB" where
  "dispatchOne uuidOK billing defaults E db =
     (case claimNext (fe_Now E) db of
        (None, db1) \<Rightarrow> (False, db1)
      | (Some c, db1) \<Rightarrow>
          (case fireExecution uuidOK billing defaults E (backfillRequest c) db1 of
             (Err e, db2, _) \<Rightarrow> (True, failPartition (fe_Now E) (cl_Partition c) e db2)
           | (Ok _, db2, _) \<Rightarrow> (True, db2)))"

fun dispatchBackfills :: "(string \<Rightarrow> bool) \<Rightarrow> bool \<Rightarrow> planRow \<Rightarrow> fireEnv list \<Rightarrow> apiDB \<Rightarrow> nat \<times> apiDB" where
  "dispatchBackfills uuidOK billing defaults [] db = (0, db)"
| "dispatchBackfills uuidOK billing defaults (E # Es) db =
     (case dispatchOne uuidOK billing defaults E db of
        (False, db1) \<Rightarrow> (0, db1)
      | (True, db1) \<Rightarrow> (case dispatchBackfills uuidOK billing defaults Es db1 of (n, db2) \<Rightarrow> (Suc n, db2)))"

section \<open>Requests\<close>

definition newJob :: "int \<Rightarrow> string \<Rightarrow> string \<Rightarrow> string \<Rightarrow> string \<Rightarrow> backfillPlan \<Rightarrow> bfJob" where
  "newJob now tenant pipeline env jid plan =
     \<lparr>bj_ID = jid, bj_TenantID = tenant, bj_Status = ''queued'', bj_CompletedAt = None,
      bj_PipelineID = pipeline, bj_Environment = env, bj_MaxConcurrency = plan_MaxConcurrency plan, bj_CreatedAt = now\<rparr>"

definition newPartition :: "string \<Rightarrow> string \<Rightarrow> (nat \<Rightarrow> string) \<Rightarrow> nat \<times> int \<times> int \<Rightarrow> bfPartition" where
  "newPartition tenant jid newID ip =
     \<lparr>bp_ID = newID (fst ip), bp_JobID = jid, bp_TenantID = tenant, bp_Status = ''pending'', bp_CompletedAt = None, bp_Ordinal = fst ip,
      bp_RangeStart = fst (snd ip), bp_RangeEnd = snd (snd ip), bp_ExecutionID = None, bp_Error = None, bp_StartedAt = None\<rparr>"

text \<open>The statements of \<^verbatim>\<open>backfillCreate\<close>; \<open>newID\<close> mints the ids of the partitions.\<close>

definition backfillCreate :: "int \<Rightarrow> string \<Rightarrow> string \<Rightarrow> string \<Rightarrow> string \<Rightarrow> (nat \<Rightarrow> string) \<Rightarrow> int \<Rightarrow> backfillPlan \<Rightarrow> apiDB \<Rightarrow> (string, apiDB) result" where
  "backfillCreate now tenant pipeline env jid newID maxParts plan db =
     (if int (length (plan_Partitions plan)) > maxParts
      then Err (''backfill has '' @ itoa (int (length (plan_Partitions plan))) @ '' partitions, exceeding the limit of '' @ itoa maxParts)
      else Ok (db\<lparr>as_Jobs := as_Jobs db @ [newJob now tenant pipeline env jid plan],
             as_Partitions := as_Partitions db @ map (newPartition tenant jid newID) (enumerate 0 (plan_Partitions plan))\<rparr>))"

text \<open>\<^verbatim>\<open>backfillCancel\<close> and \<^verbatim>\<open>backfillRetry\<close>: whether a job was cancelled, how many partitions are retried. The rows are those of the tenant.\<close>

definition backfillCancel :: "int \<Rightarrow> string \<Rightarrow> string \<Rightarrow> string \<Rightarrow> apiDB \<Rightarrow> bool \<times> apiDB" where
  "backfillCancel now tenant pipeline jid db =
     (let hit = (\<lambda>j. bj_ID j = jid \<and> bj_PipelineID j = pipeline \<and> bj_TenantID j = tenant \<and> bj_Status j \<in> {''queued'', ''running''}) in
      if \<not> list_ex hit (as_Jobs db) then (False, db)
      else (True, db\<lparr>as_Jobs := updateWhere hit (\<lambda>j. j\<lparr>bj_Status := ''cancelled'', bj_CompletedAt := Some now\<rparr>) (as_Jobs db),
             as_Partitions := updateWhere (\<lambda>p. bp_JobID p = jid \<and> bp_TenantID p = tenant \<and> bp_Status p \<in> {''pending'', ''starting''})
               (\<lambda>p. p\<lparr>bp_Status := ''cancelled'', bp_CompletedAt := Some now\<rparr>) (as_Partitions db)\<rparr>))"

definition backfillRetry :: "string \<Rightarrow> string \<Rightarrow> string \<Rightarrow> apiDB \<Rightarrow> nat \<times> apiDB" where
  "backfillRetry tenant pipeline jid db =
     (let hit = (\<lambda>p. bp_JobID p = jid \<and> bp_TenantID p = tenant \<and> bp_Status p = ''failed''); n = length (filter hit (as_Partitions db))
      in (n, db\<lparr>as_Partitions := updateWhere hit (\<lambda>p. p\<lparr>bp_Status := ''pending'', bp_Error := None, bp_StartedAt := None, bp_CompletedAt := None\<rparr>) (as_Partitions db),
            as_Jobs := (if n = 0 then as_Jobs db
              else updateWhere (\<lambda>j. bj_ID j = jid \<and> bj_PipelineID j = pipeline \<and> bj_TenantID j = tenant) (\<lambda>j. j\<lparr>bj_Status := ''running'', bj_CompletedAt := None\<rparr>) (as_Jobs db))\<rparr>))"

text \<open>What the end of an execution does to its partition (the statement of \<^verbatim>\<open>MarkExecution\<close>, on these rows).\<close>

definition markPartition :: "int \<Rightarrow> string \<Rightarrow> string \<Rightarrow> string \<Rightarrow> apiDB \<Rightarrow> apiDB" where
  "markPartition now tenant eid phase db =
     (let hit = (\<lambda>p. bp_TenantID p = tenant \<and> list_ex (\<lambda>e. isExecution tenant eid e \<and> ex_BackfillPartition e = Some (bp_ID p)) (as_Executions db));
          changed = map bp_JobID (filter hit (as_Partitions db));
          parts = (\<lambda>jid. filter (\<lambda>p. bp_JobID p = jid \<and> bp_TenantID p = tenant) (as_Partitions db));
          closes = (\<lambda>j. bj_ID j \<in> set changed \<and> bj_TenantID j = tenant \<and>
              \<not> list_ex (\<lambda>p. bp_Status p \<in> {''pending'', ''starting'', ''running''}) (parts (bj_ID j)));
          verdict = (\<lambda>j. if list_ex (\<lambda>p. bp_Status p = ''failed'') (parts (bj_ID j)) then ''failed''
              else if list_ex (\<lambda>p. bp_Status p = ''cancelled'') (parts (bj_ID j)) then ''cancelled'' else ''completed'')
      in db\<lparr>as_Partitions := updateWhere hit (\<lambda>p. p\<lparr>bp_Status := phase, bp_CompletedAt := Some now\<rparr>) (as_Partitions db),
            as_Jobs := updateWhere closes (\<lambda>j. j\<lparr>bj_Status := verdict j, bj_CompletedAt := Some now\<rparr>) (as_Jobs db)\<rparr>)"

end
