(* ===== verification/BackfillLaws.thy ===== *)
theory BackfillLaws
  imports Backfills
begin

text \<open>
  Laws of backfills: the partitions of a plan tile its range, a job never has more partitions in progress
  than it allows, a start that fails leaves no trace, and a partition that has run once cannot be run
  again.
\<close>

section \<open>The plan\<close>

definition partCount :: "int \<Rightarrow> int \<Rightarrow> int \<Rightarrow> nat" where
  "partCount step a to = nat ((to - a + step - 1) div step)"

definition segment :: "int \<Rightarrow> int \<Rightarrow> int \<Rightarrow> nat \<Rightarrow> int \<times> int" where
  "segment step a to i = (a + int i * step, min (a + (int i + 1) * step) to)"

lemma partCount_0: "0 < step \<Longrightarrow> to \<le> a \<Longrightarrow> partCount step a to = 0"
  using zdiv_mono1 [of "to - a + step - 1" "step - 1" step] by (simp add: partCount_def)

lemma partCount_step: "0 < step \<Longrightarrow> a < to \<Longrightarrow> partCount step a to = Suc (partCount step (a + step) to)"
proof -
  assume pos: "0 < step" "a < to"
  have "to - a + step - 1 = (to - (a + step) + step - 1) + step" by simp
  then have "(to - a + step - 1) div step = (to - (a + step) + step - 1) div step + 1"
    using pos(1) by (metis div_add_self2 less_irrefl)
  moreover have "0 \<le> (to - (a + step) + step - 1) div step" using pos by (intro pos_imp_zdiv_nonneg_iff [THEN iffD2]) auto
  ultimately show ?thesis by (simp add: partCount_def nat_add_distrib)
qed

text \<open>The partitions end where the range ends, and not before.\<close>

lemma partCount_bounds:
  assumes "0 < step" "a < to"
  shows "to - a \<le> int (partCount step a to) * step" "(int (partCount step a to) - 1) * step < to - a"
    "0 < partCount step a to"
proof -
  define x q where "x = to - a + step - 1" and "q = x div step"
  have x: "x = q * step + x mod step" "0 \<le> x mod step" "x mod step < step"
    using assms(1) by (simp_all add: q_def)
  have "0 < q" using assms pos_imp_zdiv_pos_iff [of step x] by (simp add: q_def x_def)
  then have n: "int (partCount step a to) = q" by (simp add: partCount_def q_def x_def)
  have e: "(q - 1) * step = q * step - step" by (simp add: algebra_simps)
  show "to - a \<le> int (partCount step a to) * step" unfolding n using x unfolding x_def by linarith
  show "(int (partCount step a to) - 1) * step < to - a" unfolding n e using x unfolding x_def by linarith
  show "0 < partCount step a to" using \<open>0 < q\<close> n by linarith
qed

lemma segment_shift: "segment step (a + step) to i = segment step a to (Suc i)"
  by (simp add: segment_def algebra_simps)

text \<open>The loop computes the partitions by their closed form, and fails exactly beyond the limit.\<close>

lemma planLoop_segments:
  "0 < step \<Longrightarrow> planLoop step to k a =
     (if partCount step a to \<le> k then Some (map (segment step a to) [0..<partCount step a to]) else None)"
proof (induction k arbitrary: a)
  case 0
  show ?case
    using partCount_bounds(3) [of step a to] partCount_0 [of step to a] "0" by (subst planLoop.simps) auto
next
  case (Suc k)
  show ?case
  proof (cases "a < to")
    case False
    then show ?thesis using partCount_0 [of step to a] Suc.prems by (subst planLoop.simps) auto
  next
    case True
    have "map (segment step a to) [0..<Suc n] = (a, min (a + step) to) # map (segment step (a + step) to) [0..<n]" for n
    proof -
      have "map (segment step a to) [0..<Suc n] = segment step a to 0 # map (\<lambda>i. segment step a to (Suc i)) [0..<n]"
        unfolding upt_conv_Cons [OF zero_less_Suc] by (simp add: map_Suc_upt [symmetric] comp_def del: upt_Suc)
      then show ?thesis by (simp add: segment_shift) (simp add: segment_def)
    qed
    then show ?thesis
      using True Suc.IH [OF Suc.prems, of "a + step"] by (subst planLoop.simps) (simp add: partCount_step [OF Suc.prems True] del: upt_Suc)
  qed
qed

lemma planBackfill_Ok:
  assumes "planBackfill input = Ok plan"
  shows "plan_From plan < plan_To plan" "1 \<le> plan_PartitionDays plan" "plan_PartitionDays plan \<le> 31"
    "1 \<le> plan_MaxConcurrency plan" "plan_MaxConcurrency plan \<le> 5"
    "planLoop (plan_PartitionDays plan * nsDay) (plan_To plan) 366 (plan_From plan) = Some (plan_Partitions plan)"
  using assms by (auto simp: planBackfill_def Let_def split: option.splits if_splits)

text \<open>C19: A backfill plan tiles its range: there are at most 366 partitions, none is empty or longer than
  the requested number of days, all but the last have exactly that length, and every instant of the
  range lies in exactly one of them.\<close>

theorem plan_tiles_range:
  assumes "planBackfill input = Ok plan"
  defines "ps \<equiv> plan_Partitions plan" and "step \<equiv> plan_PartitionDays plan * nsDay"
  shows "0 < length ps \<and> length ps \<le> 366
    \<and> (\<forall>i<length ps. plan_From plan \<le> fst (ps ! i) \<and> fst (ps ! i) < snd (ps ! i) \<and> snd (ps ! i) \<le> plan_To plan
          \<and> (if Suc i < length ps then snd (ps ! i) = fst (ps ! i) + step else snd (ps ! i) \<le> fst (ps ! i) + step))
    \<and> (\<forall>t. plan_From plan \<le> t \<and> t < plan_To plan \<longrightarrow> (\<exists>!i. i < length ps \<and> fst (ps ! i) \<le> t \<and> t < snd (ps ! i)))"
proof -
  let ?from = "plan_From plan" and ?to = "plan_To plan"
  note ok = planBackfill_Ok [OF assms(1)]
  have step: "0 < step" using ok(2) by (simp add: step_def nsDay_def)
  define n where "n = partCount step ?from ?to"
  note nb = partCount_bounds [OF step ok(1), folded n_def]
  have ps: "ps = map (segment step ?from ?to) [0..<n]" "n \<le> 366"
    using ok(6) unfolding planLoop_segments [OF step] ps_def step_def [symmetric] n_def [symmetric] by (auto split: if_splits)
  have mono: "int i * step \<le> (int n - 1) * step" if "i < n" for i
    using that step by (intro mult_right_mono) auto
  have seg: "fst (ps ! i) = ?from + int i * step" "snd (ps ! i) = min (?from + (int i + 1) * step) ?to" if "i < n" for i
    using that by (simp_all add: ps segment_def)
  have start: "?from + int i * step < ?to" if "i < n" for i using mono [OF that] nb(2) by linarith
  have full: "?from + (int i + 1) * step < ?to" if "Suc i < n" for i using start [OF that] by (simp add: add.commute)
  have each: "?from \<le> fst (ps ! i) \<and> fst (ps ! i) < snd (ps ! i) \<and> snd (ps ! i) \<le> ?to
      \<and> (if Suc i < n then snd (ps ! i) = fst (ps ! i) + step else snd (ps ! i) \<le> fst (ps ! i) + step)" if "i < n" for i
    using start [OF that] full [of i] step that by (auto simp: seg distrib_right)
  have cover: "\<exists>!i. i < n \<and> fst (ps ! i) \<le> t \<and> t < snd (ps ! i)" if t: "?from \<le> t" "t < ?to" for t
  proof -
    define j where "j = nat ((t - ?from) div step)"
    have j: "int j = (t - ?from) div step" using t step by (simp add: j_def pos_imp_zdiv_nonneg_iff)
    have b: "int j * step \<le> t - ?from" "t - ?from < (int j + 1) * step"
      using step unfolding j by (simp_all add: distrib_right) (metis add.commute div_mod_decomp_int add_le_cancel_left pos_mod_sign le_add_same_cancel2 minus_mod_eq_div_mult, metis add_less_cancel_left div_mod_decomp_int pos_mod_bound)
    have jn: "j < n"
    proof (rule ccontr)
      assume "\<not> j < n"
      then have "int n * step \<le> int j * step" using step by (intro mult_right_mono) auto
      then show False using b(1) nb(1) t by linarith
    qed
    have "i = j" if "i < n" "fst (ps ! i) \<le> t" "t < snd (ps ! i)" for i
    proof -
      have "int i * step \<le> t - ?from" "t - ?from < (int i + 1) * step" using that by (auto simp: seg)
      then have "int i * step < (int j + 1) * step" "int j * step < (int i + 1) * step" using b by linarith+
      then show ?thesis using step by (simp add: mult_less_cancel_right)
    qed
    moreover have "fst (ps ! j) \<le> t \<and> t < snd (ps ! j)" using b t by (auto simp: seg [OF jn])
    ultimately show ?thesis using jn by blast
  qed
  have len: "length ps = n" by (simp add: ps)
  show ?thesis unfolding len using nb(3) ps(2) each cover by blast
qed

theorem plan_tiles_range_witness:
  "\<exists>plan. planBackfill [(''from'', VStr ''2024-02-28T00:00:00Z''), (''to'', VStr ''2024-03-01T12:00:00Z'')] = Ok plan
     \<and> 0 < length (plan_Partitions plan) \<and> length (plan_Partitions plan) \<le> 366"
proof -
  let ?in = "[(''from'', VStr ''2024-02-28T00:00:00Z''), (''to'', VStr ''2024-03-01T12:00:00Z'')]"
  have "isOk (planBackfill ?in)" by code_simp
  then obtain plan where p: "planBackfill ?in = Ok plan" by (auto simp: isOk_iff)
  from plan_tiles_range [OF p] p show ?thesis by blast
qed

text \<open>A missing cursor column is not noticed: its text is \<^verbatim>\<open><nil>\<close>.\<close>

lemma missing_cursor_column_accepted:
  assumes "node_ActivityType n = ''postgres.fetch''" "map_of (node_Config n) ''cursorColumn'' = None"
    "objGet (node_Config n) ''syncMode'' = VStr ''cursor''" "objGet (node_Config n) ''cursorType'' = VStr ''date''"
  shows "backfillSourceError n = None"
proof -
  have "objGet (node_Config n) ''cursorColumn'' = VNil" unfolding objGet_def assms(2) by simp
  moreover have "contains [''postgres.fetch'', ''mysql.fetch'', ''mongodb.fetch''] ''postgres.fetch''" "apiString VNil \<noteq> []"
    by (simp_all add: apiString_def)
  moreover have "''postgres.fetch'' \<noteq> ''mongodb.fetch''" by simp
  ultimately show ?thesis unfolding backfillSourceError_def Let_def assms(1,3,4) by (simp only: if_False if_True simp_thms)
qed

section \<open>A start that fails\<close>

definition usedOf :: "string \<Rightarrow> string \<Rightarrow> apiDB \<Rightarrow> int" where
  "usedOf tenant month db = (case map_of (as_Usage db) (tenant, month) of None \<Rightarrow> 0 | Some n \<Rightarrow> n)"

lemma map_of_map_key: "map_of (map (\<lambda>(k, n). (k, g k n)) al) k = map_option (g k) (map_of al k)"
  by (induction al) auto

lemma used_consume:
  assumes "consumeQuota billing defaults month tenant db = (None, db')"
  shows "usedOf t m db' = usedOf t m db + (if t = tenant \<and> m = month then 1 else 0)"
    "as_Executions db' = as_Executions db" "as_Partitions db' = as_Partitions db" "as_Jobs db' = as_Jobs db" "as_Pipelines db' = as_Pipelines db"
proof -
  define usage where "usage = (if map_of (as_Usage db) (tenant, month) = None then ((tenant, month), 0) # as_Usage db else as_Usage db)"
  define plans where "plans = (if map_of (as_Plans db) tenant = None then (tenant, defaults) # as_Plans db else as_Plans db)"
  have db': "db' = db\<lparr>as_Plans := plans, as_Usage := AList.update (tenant, month) (the (map_of usage (tenant, month)) + 1) usage\<rparr>"
    using assms unfolding consumeQuota_def Let_def usage_def [symmetric] plans_def [symmetric] by (simp split: if_splits)
  have "the (map_of usage (tenant, month)) = usedOf tenant month db"
    "map_of usage (t, m) = (if map_of (as_Usage db) (t, m) = None \<and> t = tenant \<and> m = month then Some 0 else map_of (as_Usage db) (t, m))"
    by (auto simp: usage_def usedOf_def split: option.splits)
  then show "usedOf t m db' = usedOf t m db + (if t = tenant \<and> m = month then 1 else 0)"
    by (auto simp: db' usedOf_def update_conv' split: option.splits)
  show "as_Executions db' = as_Executions db" "as_Partitions db' = as_Partitions db" "as_Jobs db' = as_Jobs db" "as_Pipelines db' = as_Pipelines db"
    by (simp_all add: db')
qed

lemma used_release: "usedOf t m (releaseQuota month tenant db) = (if t = tenant \<and> m = month then max 0 (usedOf t m db - 1) else usedOf t m db)"
  by (simp add: releaseQuota_def usedOf_def map_of_map_key [where g = "\<lambda>k n. if k = (tenant, month) then max 0 (n - 1) else n"] split: option.splits)

lemma tables_release [simp]: "as_Executions (releaseQuota month tenant db) = as_Executions db" "as_Partitions (releaseQuota month tenant db) = as_Partitions db"
  "as_Jobs (releaseQuota month tenant db) = as_Jobs db" "as_Pipelines (releaseQuota month tenant db) = as_Pipelines db"
  by (simp_all add: releaseQuota_def)

lemma fire_cases:
  obtains (rejected) e where "fireExecution uuidOK billing defaults E q db = (Err e, db, None)"
  | (unstarted) db1 e where "consumeQuota billing defaults (fe_Month E) (def_TenantID (fr_Definition q)) db = (None, db1)"
      "fe_Start E (workflowName (fr_Definition q)) (fireInput E q) = Err e"
      "fireExecution uuidOK billing defaults E q db = (Err (FireStart e), releaseQuota (fe_ReleaseMonth E) (def_TenantID (fr_Definition q)) db1, None)"
  | (unrecorded) db1 run e where "consumeQuota billing defaults (fe_Month E) (def_TenantID (fr_Definition q)) db = (None, db1)"
      "fe_Start E (workflowName (fr_Definition q)) (fireInput E q) = Ok run" "recordFired E q run db1 = Err e"
      "fireExecution uuidOK billing defaults E q db = (Err e, releaseQuota (fe_ReleaseMonth E) (def_TenantID (fr_Definition q)) db1, Some (fe_ExecutionID E))"
  | (fired) db1 run db2 where "consumeQuota billing defaults (fe_Month E) (def_TenantID (fr_Definition q)) db = (None, db1)"
      "fe_Start E (workflowName (fr_Definition q)) (fireInput E q) = Ok run" "recordFired E q run db1 = Ok db2"
      "fireExecution uuidOK billing defaults E q db = (Ok (fe_ExecutionID E), db2, None)"
proof -
  let ?def = "fr_Definition q"
  obtain r db1 where c: "consumeQuota billing defaults (fe_Month E) (def_TenantID ?def) db = (r, db1)" by force
  show thesis
  proof (cases "ValidateAgentAdmission uuidOK ?def = None \<and> ValidateNodePolicies ?def = None \<and> r = None")
    case False
    then have "\<exists>e. fireExecution uuidOK billing defaults E q db = (Err e, db, None)"
      using c by (auto simp: fireExecution_def Let_def split: option.splits)
    then show ?thesis using rejected by blast
  next
    case True
    then have f: "fireExecution uuidOK billing defaults E q db =
        (case fe_Start E (workflowName ?def) (fireInput E q) of
             Err e \<Rightarrow> (Err (FireStart e), releaseQuota (fe_ReleaseMonth E) (def_TenantID ?def) db1, None)
           | Ok run \<Rightarrow>
               (case recordFired E q run db1 of
                  Err e \<Rightarrow> (Err e, releaseQuota (fe_ReleaseMonth E) (def_TenantID ?def) db1, Some (fe_ExecutionID E))
                | Ok db2 \<Rightarrow> (Ok (fe_ExecutionID E), db2, None)))"
      using c by (simp add: fireExecution_def Let_def)
    show ?thesis
    proof (cases "fe_Start E (workflowName ?def) (fireInput E q)")
      case (Inl e)
      then show ?thesis using c True f by (intro unstarted) auto
    next
      case (Inr run)
      then show ?thesis using c True f by (cases "recordFired E q run db1") (auto intro: unrecorded fired)
    qed
  qed
qed

text \<open>A start that fails leaves no trace: for whatever reason an execution is not started, the
  executions, partitions and jobs are unchanged, every usage counter is what it was (when the month
  does not change meanwhile), and a workflow that the service had started is terminated.\<close>

theorem failed_start_leaves_no_trace:
  assumes "fireExecution uuidOK billing defaults E q db = (Err e, db', terminated)"
    and "fe_ReleaseMonth E = fe_Month E" "\<And>t m. 0 \<le> usedOf t m db"
  shows "as_Executions db' = as_Executions db \<and> as_Partitions db' = as_Partitions db \<and> as_Jobs db' = as_Jobs db
    \<and> usedOf t m db' = usedOf t m db
    \<and> (terminated = None \<longrightarrow> db' = db \<or> fe_Start E (workflowName (fr_Definition q)) (fireInput E q) \<in> range Inl)
    \<and> (terminated \<noteq> None \<longrightarrow> terminated = Some (fe_ExecutionID E) \<and> fe_Start E (workflowName (fr_Definition q)) (fireInput E q) \<in> range Inr)"
proof (cases rule: fire_cases [of uuidOK billing defaults E q db])
  case rejected
  then show ?thesis using assms(1) by simp
next
  case (unstarted db1 e)
  then show ?thesis using assms used_consume [OF unstarted(1)] by (auto simp: used_release)
next
  case (unrecorded db1 run e)
  then show ?thesis using assms used_consume [OF unrecorded(1)] by (auto simp: used_release)
next
  case fired
  then show ?thesis using assms(1) by simp
qed

definition sampleEnv :: "string \<Rightarrow> (string, string) result \<Rightarrow> fireEnv" where
  "sampleEnv eid answer = \<lparr>fe_ExecutionID = eid, fe_TraceID = ''tr'', fe_Now = 1709210096500000000, fe_Later = 1709210096500000000,
     fe_Start = (\<lambda>_ _. answer)\<rparr>"

definition freePlan :: planRow where
  "freePlan = \<lparr>bp_FreeTierLimit = 10, bp_ExtraQuota = 0\<rparr>"

definition emptyAPI :: apiDB where
  "emptyAPI = \<lparr>as_Plans = [], as_Usage = [], as_Executions = [], as_Jobs = [], as_Partitions = [], as_Pipelines = [(''p1'', sampleDef [] [])]\<rparr>"

definition sampleFire :: fireRequest where
  "sampleFire = \<lparr>fr_Definition = sampleDef [] [], fr_PipelineRowID = ''p1'', fr_TriggerType = ''manual'', fr_Environment = ''test'',
     fr_PayloadRef = None, fr_EncryptedDEK = [], fr_PartitionID = []\<rparr>"

theorem failed_start_leaves_no_trace_witness:
  "\<exists>e db'. fireExecution (\<lambda>_. True) True freePlan (sampleEnv ''e1'' (Err ''unavailable'')) sampleFire emptyAPI = (Err e, db', None)
     \<and> usedOf (def_TenantID (sampleDef [] [])) ''2024-02-01'' db' = 0"
proof -
  let ?E = "sampleEnv ''e1'' (Err ''unavailable'')"
  obtain r db' t where f: "fireExecution (\<lambda>_. True) True freePlan ?E sampleFire emptyAPI = (r, db', t)" by (metis prod_cases3)
  have "\<not> isOk (fst (fireExecution (\<lambda>_. True) True freePlan ?E sampleFire emptyAPI))
      \<and> snd (snd (fireExecution (\<lambda>_. True) True freePlan ?E sampleFire emptyAPI)) = None" by code_simp
  then obtain e where r: "r = Err e" "t = None" using f by (cases r) (auto simp: isOk_def)
  from failed_start_leaves_no_trace [OF f [unfolded r], of "def_TenantID (sampleDef [] [])" "''2024-02-01''"] f r
  show ?thesis by (auto simp: sampleEnv_def usedOf_def emptyAPI_def fe_Month_def fe_ReleaseMonth_def)
qed

section \<open>Partitions in progress\<close>

text \<open>Updates that put no partition in progress that was not.\<close>

lemma activeOf_update:
  assumes "\<And>p. p \<in> set parts \<Longrightarrow> P p \<Longrightarrow> bp_JobID (f p) = bp_JobID p \<and> (activeStatus (bp_Status (f p)) \<longrightarrow> activeStatus (bp_Status p))"
  shows "activeOf jid (updateWhere P f parts) \<le> activeOf jid parts"
  using assms by (induction parts) (auto simp: activeOf_def updateWhere_def)

lemma activeOf_claim:
  assumes "distinct (map bp_ID parts)" "c \<in> set parts"
  shows "activeOf jid (updateWhere (\<lambda>p. bp_ID p = bp_ID c) (\<lambda>p. p\<lparr>bp_Status := st, bp_StartedAt := t\<rparr>) parts)
     \<le> activeOf jid parts + (if jid = bp_JobID c then 1 else 0)"
  using assms
proof (induction parts)
  case Nil
  then show ?case by simp
next
  case (Cons p parts)
  show ?case
  proof (cases "bp_ID p = bp_ID c")
    case True
    then have "p = c" using Cons.prems by (auto simp: image_iff)
    moreover have "updateWhere (\<lambda>p. bp_ID p = bp_ID c) (\<lambda>p. p\<lparr>bp_Status := st, bp_StartedAt := t\<rparr>) parts = parts"
    proof (rule updateWhere_same)
      fix r assume "r \<in> set parts" "bp_ID r = bp_ID c"
      then have "bp_ID p \<in> bp_ID ` set parts" unfolding True by (metis imageI)
      then show "r\<lparr>bp_Status := st, bp_StartedAt := t\<rparr> = r" using Cons.prems(1) by simp
    qed
    ultimately show ?thesis by (auto simp: activeOf_def updateWhere_def)
  next
    case False
    then have "c \<in> set parts" using Cons.prems(2) by auto
    then show ?thesis using Cons False by (auto simp: activeOf_def updateWhere_def)
  qed
qed

definition bfInv :: "apiDB \<Rightarrow> bool" where
  "bfInv db \<longleftrightarrow> distinct (map bp_ID (as_Partitions db)) \<and> distinct (map bj_ID (as_Jobs db))
     \<and> bp_JobID ` set (as_Partitions db) \<subseteq> bj_ID ` set (as_Jobs db)
     \<and> (\<forall>j\<in>set (as_Jobs db). activeOf (bj_ID j) (as_Partitions db) \<le> bj_MaxConcurrency j)"

text \<open>Rows that keep their ids and limits while no partition starts.\<close>

lemma bfInv_update:
  assumes "bfInv db" "as_Partitions db' = updateWhere P f (as_Partitions db)" "as_Jobs db' = updateWhere Q g (as_Jobs db)"
    and "\<And>p. p \<in> set (as_Partitions db) \<Longrightarrow> P p \<Longrightarrow> bp_ID (f p) = bp_ID p \<and> bp_JobID (f p) = bp_JobID p \<and> (activeStatus (bp_Status (f p)) \<longrightarrow> activeStatus (bp_Status p))"
    and "\<And>j. bj_ID (g j) = bj_ID j \<and> bj_MaxConcurrency (g j) = bj_MaxConcurrency j"
  shows "bfInv db'"
proof -
  have ids: "map bp_ID (as_Partitions db') = map bp_ID (as_Partitions db)" "map bp_JobID (as_Partitions db') = map bp_JobID (as_Partitions db)"
    "map bj_ID (as_Jobs db') = map bj_ID (as_Jobs db)"
    using assms(4,5) by (auto simp: assms(2,3) updateWhere_def)
  have "activeOf jid (as_Partitions db') \<le> activeOf jid (as_Partitions db)" for jid
    unfolding assms(2) using assms(4) by (intro activeOf_update) blast
  then have "activeOf (bj_ID j) (as_Partitions db') \<le> bj_MaxConcurrency j" if "j \<in> set (as_Jobs db')" for j
    using that assms(1,5) unfolding assms(3) set_updateWhere bfInv_def by (fastforce intro: order_trans split: if_splits)
  moreover have "bp_JobID ` set (as_Partitions db') = bp_JobID ` set (as_Partitions db)" "bj_ID ` set (as_Jobs db') = bj_ID ` set (as_Jobs db)"
    using ids by (metis list.set_map)+
  ultimately show ?thesis using assms(1) ids unfolding bfInv_def by simp
qed

text \<open>The operations on the tables, in any order. A dispatch claims a partition and fires it.\<close>

inductive bfStep :: "apiDB \<Rightarrow> apiDB \<Rightarrow> bool" where
  Dispatch: "bfStep db (snd (dispatchOne uuidOK billing defaults E db))"
| Cancel: "bfStep db (snd (backfillCancel now tenant pipeline jid db))"
| Retry: "bfStep db (snd (backfillRetry tenant pipeline jid db))"
| Mark: "TerminalExecutionPhase phase \<Longrightarrow> bfStep db (markPartition now tenant eid phase db)"
| Create: "planBackfill input = Ok plan \<Longrightarrow> jid \<notin> bj_ID ` set (as_Jobs db) \<Longrightarrow> inj newID
    \<Longrightarrow> range newID \<inter> bp_ID ` set (as_Partitions db) = {}
    \<Longrightarrow> backfillCreate now tenant pipeline env jid newID maxParts plan db = Ok db' \<Longrightarrow> bfStep db db'"

lemma updateWhere_False [simp]: "updateWhere (\<lambda>_. False) f xs = xs"
  by (simp add: updateWhere_def)

lemma bfInv_cancel: "bfInv db \<Longrightarrow> bfInv (snd (backfillCancel now tenant pipeline jid db))"
  by (auto simp: backfillCancel_def Let_def activeStatus_def intro: bfInv_update)

lemma bfInv_retry: "bfInv db \<Longrightarrow> bfInv (snd (backfillRetry tenant pipeline jid db))"
proof -
  assume inv: "bfInv db"
  let ?hit = "\<lambda>p. bp_JobID p = jid \<and> bp_TenantID p = tenant \<and> bp_Status p = ''failed''"
  let ?Q = "\<lambda>j. filter ?hit (as_Partitions db) \<noteq> [] \<and> bj_ID j = jid \<and> bj_PipelineID j = pipeline \<and> bj_TenantID j = tenant"
  show ?thesis
    by (rule bfInv_update [OF inv, where P = ?hit and Q = ?Q
          and f = "\<lambda>p. p\<lparr>bp_Status := ''pending'', bp_Error := None, bp_StartedAt := None, bp_CompletedAt := None\<rparr>"
          and g = "\<lambda>j. j\<lparr>bj_Status := ''running'', bj_CompletedAt := None\<rparr>"])
      (auto simp: backfillRetry_def Let_def activeStatus_def)
qed

lemma bfInv_mark:
  assumes "TerminalExecutionPhase phase" "bfInv db"
  shows "bfInv (markPartition now tenant eid phase db)"
proof -
  obtain P where P: "as_Partitions (markPartition now tenant eid phase db)
      = updateWhere P (\<lambda>p. p\<lparr>bp_Status := phase, bp_CompletedAt := Some now\<rparr>) (as_Partitions db)"
    by (simp add: markPartition_def Let_def)
  obtain Q v where Q: "as_Jobs (markPartition now tenant eid phase db)
      = updateWhere Q (\<lambda>j. j\<lparr>bj_Status := v j, bj_CompletedAt := Some now\<rparr>) (as_Jobs db)"
    by (simp add: markPartition_def Let_def)
  show ?thesis
    by (rule bfInv_update [OF assms(2) P Q]) (use assms(1) in \<open>auto simp: activeStatus_def TerminalExecutionPhase_def\<close>)
qed

lemma activeOf_append: "activeOf jid (xs @ ys) = activeOf jid xs + activeOf jid ys"
  by (simp add: activeOf_def)

lemma activeOf_none: "(\<And>p. p \<in> set ps \<Longrightarrow> bp_JobID p = jid \<Longrightarrow> \<not> activeStatus (bp_Status p)) \<Longrightarrow> activeOf jid ps = 0"
  by (auto simp: activeOf_def filter_empty_conv)

lemma bfInv_create:
  assumes inv: "bfInv db" and plan: "planBackfill input = Ok plan" and fresh: "jid \<notin> bj_ID ` set (as_Jobs db)" "inj newID"
      "range newID \<inter> bp_ID ` set (as_Partitions db) = {}"
    and ok: "backfillCreate now tenant pipeline env jid newID maxParts plan db = Ok db'"
  shows "bfInv db'"
proof -
  define new where "new = map (newPartition tenant jid newID) (enumerate 0 (plan_Partitions plan))"
  let ?job = "newJob now tenant pipeline env jid plan"
  have db': "as_Partitions db' = as_Partitions db @ new" "as_Jobs db' = as_Jobs db @ [?job]"
    using ok by (auto simp: backfillCreate_def new_def split: if_splits)
  have "map bp_ID new = map newID (map fst (enumerate 0 (plan_Partitions plan)))" unfolding new_def by (simp only: map_map comp_def newPartition_def) simp
  then have ids: "map bp_ID new = map newID [0..<length (plan_Partitions plan)]" unfolding map_fst_enumerate by simp
  then have dn: "distinct (map bp_ID new)" and rn: "bp_ID ` set new \<subseteq> range newID"
    using fresh(2) by (simp_all add: distinct_map inj_on_def flip: set_map) auto
  have jobs: "bp_JobID p = jid" "\<not> activeStatus (bp_Status p)" if "p \<in> set new" for p
    using that by (auto simp: new_def newPartition_def activeStatus_def)
  have disj: "bp_ID ` set (as_Partitions db) \<inter> bp_ID ` set new = {}" using fresh(3) rn by blast
  have dp: "distinct (map bp_ID (as_Partitions db'))"
    using inv dn disj unfolding bfInv_def db' map_append distinct_append set_map by simp
  have jb: "bp_JobID ` set (as_Partitions db') \<subseteq> bj_ID ` set (as_Jobs db')"
    using inv jobs(1) unfolding bfInv_def db' by (auto simp: newJob_def)
  note d = dp jb
  have "activeOf i (as_Partitions db') = activeOf i (as_Partitions db)" for i
    unfolding db' activeOf_append using jobs by (simp add: activeOf_none)
  moreover have "activeOf jid (as_Partitions db) = 0"
  proof (rule activeOf_none)
    fix p assume "p \<in> set (as_Partitions db)" "bp_JobID p = jid"
    then have "jid \<in> bj_ID ` set (as_Jobs db)" using inv unfolding bfInv_def by blast
    then show "\<not> activeStatus (bp_Status p)" using fresh(1) by simp
  qed
  ultimately have "\<forall>j\<in>set (as_Jobs db'). activeOf (bj_ID j) (as_Partitions db') \<le> bj_MaxConcurrency j"
    using inv planBackfill_Ok(4) [OF plan] by (simp add: db' newJob_def bfInv_def)
  moreover have "distinct (map bj_ID (as_Jobs db'))" using inv fresh(1) by (simp add: bfInv_def db' newJob_def)
  ultimately show ?thesis using d by (simp add: bfInv_def)
qed

text \<open>A claim takes one pending partition of a job that has room.\<close>

lemma claimNext_cases:
  assumes "claimNext now db = (r, db')"
  defines "parts \<equiv> requeueStale now (as_Partitions db)"
  obtains (none) "r = None" "db' = db\<lparr>as_Partitions := parts\<rparr>"
  | (some) c where "c \<in> set parts" "claimable (as_Jobs db) parts c"
      "as_Partitions db' = updateWhere (\<lambda>p. bp_ID p = bp_ID c) (\<lambda>p. p\<lparr>bp_Status := ''starting'', bp_StartedAt := Some now\<rparr>) parts"
      "as_Jobs db' = updateWhere (\<lambda>j. bj_ID j = bp_JobID c \<and> bj_Status j = ''queued'') (\<lambda>j. j\<lparr>bj_Status := ''running''\<rparr>) (as_Jobs db)"
      "as_Executions db' = as_Executions db"
      "r = None \<or> (\<exists>cl. r = Some cl \<and> cl_Partition cl = c\<lparr>bp_Status := ''starting'', bp_StartedAt := Some now\<rparr>)"
proof (cases "sort_key (claimOrder (as_Jobs db)) (filter (claimable (as_Jobs db) parts) parts)")
  case Nil
  then show ?thesis using assms none by (simp add: claimNext_def Let_def)
next
  case (Cons c cs)
  then have "c \<in> set parts" "claimable (as_Jobs db) parts c"
    using set_sort [of "claimOrder (as_Jobs db)" "filter (claimable (as_Jobs db) parts) parts"] by auto
  then show ?thesis using assms(1) Cons unfolding claimNext_def Let_def parts_def [symmetric]
    by (intro some [of c]) (auto simp: map_option_case split: bind_splits option.splits)
qed

lemma requeue_inv: "bfInv db \<Longrightarrow> bfInv (db\<lparr>as_Partitions := requeueStale now (as_Partitions db)\<rparr>)"
  unfolding requeueStale_def
  by (rule bfInv_update [where Q = "\<lambda>_. False" and f = "\<lambda>p. p\<lparr>bp_Status := ''pending'', bp_StartedAt := None\<rparr>" and g = "\<lambda>j. j"
        and P = "\<lambda>p. bp_Status p = ''starting'' \<and> (case bp_StartedAt p of Some t \<Rightarrow> t < now - 300 * timeSecond | None \<Rightarrow> False)"])
    (auto simp: activeStatus_def)

lemma bfInv_claim:
  assumes inv: "bfInv db" and c: "claimNext now db = (r, db')"
  shows "bfInv db'"
  using c
proof (cases rule: claimNext_cases)
  case none
  then show ?thesis using requeue_inv [OF inv] by simp
next
  case (some c)
  define parts where "parts = requeueStale now (as_Partitions db)"
  note some = some [folded parts_def]
  have q: "bfInv (db\<lparr>as_Partitions := parts\<rparr>)" unfolding parts_def by (rule requeue_inv [OF inv])
  then have dj: "distinct (map bj_ID (as_Jobs db))" and dp: "distinct (map bp_ID parts)" by (simp_all add: bfInv_def)
  have ids: "map bp_ID (as_Partitions db') = map bp_ID parts" "map bp_JobID (as_Partitions db') = map bp_JobID parts"
    "map bj_ID (as_Jobs db') = map bj_ID (as_Jobs db)"
    by (auto simp: some(3,4) updateWhere_def)
  have "activeOf (bj_ID j') (as_Partitions db') \<le> bj_MaxConcurrency j'" if "j' \<in> set (as_Jobs db')" for j'
  proof -
    obtain j where j: "j \<in> set (as_Jobs db)" "bj_ID j' = bj_ID j" "bj_MaxConcurrency j' = bj_MaxConcurrency j"
    proof -
      obtain j where "j \<in> set (as_Jobs db)" "j' = (if bj_ID j = bp_JobID c \<and> bj_Status j = ''queued'' then j\<lparr>bj_Status := ''running''\<rparr> else j)"
        using \<open>j' \<in> set (as_Jobs db')\<close> unfolding some(4) set_updateWhere by blast
      then show thesis using that by simp
    qed
    have le: "activeOf (bj_ID j) (as_Partitions db') \<le> activeOf (bj_ID j) parts + (if bj_ID j = bp_JobID c then 1 else 0)"
      unfolding some(3) by (rule activeOf_claim [OF dp some(1)])
    show ?thesis
    proof (cases "bj_ID j = bp_JobID c")
      case False
      then show ?thesis using le j q by (auto simp: bfInv_def)
    next
      case True
      obtain k where k: "jobOf (as_Jobs db) c = Some k" "activeOf (bj_ID k) parts < bj_MaxConcurrency k"
        using some(2) by (auto simp: claimable_def split: option.splits)
      then have "k \<in> set (as_Jobs db)" "bj_ID k = bp_JobID c" by (auto simp: jobOf_def find_Some_iff)
      then have "k = j" using j(1) True dj by (metis (no_types, lifting) distinct_map inj_on_def)
      then show ?thesis using le k(2) j True by simp
    qed
  qed
  moreover have "bp_JobID ` set (as_Partitions db') = bp_JobID ` set parts" "bj_ID ` set (as_Jobs db') = bj_ID ` set (as_Jobs db)"
    using ids by (metis list.set_map)+
  ultimately show ?thesis using q ids unfolding bfInv_def by simp
qed

text \<open>The fire after a claim only moves the claimed partition on.\<close>

lemma fire_partitions:
  assumes "fireExecution uuidOK billing defaults E q db = (r, db', t)"
  shows "as_Jobs db' = as_Jobs db"
    "as_Partitions db' = (if isOk r then updateWhere (\<lambda>p. fr_PartitionID q \<noteq> [] \<and> bp_ID p = fr_PartitionID q \<and> bp_TenantID p = def_TenantID (fr_Definition q))
               (\<lambda>p. p\<lparr>bp_Status := ''running'', bp_ExecutionID := Some (fe_ExecutionID E)\<rparr>) (as_Partitions db) else as_Partitions db)"
proof -
  have "as_Jobs db' = as_Jobs db \<and> as_Partitions db' = (if isOk r then updateWhere (\<lambda>p. fr_PartitionID q \<noteq> [] \<and> bp_ID p = fr_PartitionID q \<and> bp_TenantID p = def_TenantID (fr_Definition q))
               (\<lambda>p. p\<lparr>bp_Status := ''running'', bp_ExecutionID := Some (fe_ExecutionID E)\<rparr>) (as_Partitions db) else as_Partitions db)"
  proof (cases rule: fire_cases [of uuidOK billing defaults E q db])
    case rejected
    then show ?thesis using assms by (auto simp: isOk_def)
  next
    case (unstarted db1 e)
    then show ?thesis using assms used_consume [OF unstarted(1)] by (auto simp: isOk_def)
  next
    case (unrecorded db1 run e)
    then show ?thesis using assms used_consume [OF unrecorded(1)] by (auto simp: isOk_def)
  next
    case (fired db1 run db2)
    then show ?thesis using assms used_consume [OF fired(1)] by (auto simp: isOk_def recordFired_def split: if_splits)
  qed
  then show "as_Jobs db' = as_Jobs db"
    "as_Partitions db' = (if isOk r then updateWhere (\<lambda>p. fr_PartitionID q \<noteq> [] \<and> bp_ID p = fr_PartitionID q \<and> bp_TenantID p = def_TenantID (fr_Definition q))
               (\<lambda>p. p\<lparr>bp_Status := ''running'', bp_ExecutionID := Some (fe_ExecutionID E)\<rparr>) (as_Partitions db) else as_Partitions db)"
    by simp_all
qed

lemma claimed_starting:
  assumes "claimNext now db = (Some cl, db')" "p \<in> set (as_Partitions db')" "bp_ID p = bp_ID (cl_Partition cl)"
  shows "bp_Status p = ''starting''"
  using assms(1)
proof (cases rule: claimNext_cases)
  case none
  then show ?thesis by simp
next
  case (some c)
  then show ?thesis using assms(2,3) unfolding some(3) set_updateWhere by auto
qed

lemma bfInv_dispatch: "bfInv db \<Longrightarrow> bfInv (snd (dispatchOne uuidOK billing defaults E db))"
proof -
  assume inv: "bfInv db"
  obtain r db1 where c: "claimNext (fe_Now E) db = (r, db1)" by force
  have inv1: "bfInv db1" by (rule bfInv_claim [OF inv c])
  show ?thesis
  proof (cases r)
    case None
    then show ?thesis using c inv1 by (simp add: dispatchOne_def)
  next
    case (Some cl)
    obtain fr db2 t where f: "fireExecution uuidOK billing defaults E (backfillRequest cl) db1 = (fr, db2, t)" by (metis prod_cases3)
    note fp = fire_partitions [OF f]
    show ?thesis
    proof (cases fr)
      case (Inl e)
      have "bfInv (failPartition (fe_Now E) (cl_Partition cl) e db2)"
        by (rule bfInv_update [OF inv1, where Q = "\<lambda>_. False" and g = "\<lambda>j. j"
              and P = "\<lambda>p. bp_ID p = bp_ID (cl_Partition cl) \<and> bp_TenantID p = bp_TenantID (cl_Partition cl)"
              and f = "\<lambda>p. p\<lparr>bp_Status := ''failed'', bp_Error := Some e, bp_CompletedAt := Some (fe_Now E)\<rparr>"])
          (simp_all add: failPartition_def fp Inl isOk_def activeStatus_def)
      then show ?thesis using c f by (simp add: dispatchOne_def Some Inl)
    next
      case (Inr eid)
      have "bfInv db2"
      proof (rule bfInv_update [OF inv1, where Q = "\<lambda>_. False" and g = "\<lambda>j. j"])
        show "as_Partitions db2 = updateWhere (\<lambda>p. fr_PartitionID (backfillRequest cl) \<noteq> [] \<and> bp_ID p = fr_PartitionID (backfillRequest cl)
              \<and> bp_TenantID p = def_TenantID (fr_Definition (backfillRequest cl)))
            (\<lambda>p. p\<lparr>bp_Status := ''running'', bp_ExecutionID := Some (fe_ExecutionID E)\<rparr>) (as_Partitions db1)"
          using fp(2) Inr by (simp add: isOk_def)
        show "bp_ID (p\<lparr>bp_Status := ''running'', bp_ExecutionID := Some (fe_ExecutionID E)\<rparr>) = bp_ID p
            \<and> bp_JobID (p\<lparr>bp_Status := ''running'', bp_ExecutionID := Some (fe_ExecutionID E)\<rparr>) = bp_JobID p
            \<and> (activeStatus (bp_Status (p\<lparr>bp_Status := ''running'', bp_ExecutionID := Some (fe_ExecutionID E)\<rparr>)) \<longrightarrow> activeStatus (bp_Status p))"
          if "p \<in> set (as_Partitions db1)" "fr_PartitionID (backfillRequest cl) \<noteq> [] \<and> bp_ID p = fr_PartitionID (backfillRequest cl)
              \<and> bp_TenantID p = def_TenantID (fr_Definition (backfillRequest cl))" for p
          using claimed_starting [OF c [unfolded Some] that(1)] that(2) by (simp add: backfillRequest_def activeStatus_def)
      qed (simp_all add: fp(1))
      then show ?thesis using c f by (simp add: dispatchOne_def Some Inr)
    qed
  qed
qed

lemma bfInv_step: "bfStep db db' \<Longrightarrow> bfInv db \<Longrightarrow> bfInv db'"
  by (induction rule: bfStep.induct) (auto intro: bfInv_dispatch bfInv_cancel bfInv_retry bfInv_mark bfInv_create)

definition emptyBackfills :: "apiDB \<Rightarrow> bool" where
  "emptyBackfills db \<longleftrightarrow> as_Jobs db = [] \<and> as_Partitions db = []"

interpretation bf: inv_system emptyBackfills bfStep bfInv
proof
  show "bfInv db" if "emptyBackfills db" for db using that by (simp add: emptyBackfills_def bfInv_def)
qed (rule bfInv_step)

text \<open>C20: Over any sequence of backfill requests, dispatch rounds, retries, cancellations and ends of
  executions, a job never has more partitions starting or running than its limit, which is at most five;
  and every partition belongs to a job.\<close>

theorem backfill_concurrency:
  assumes "emptyBackfills db0" "bfStep\<^sup>*\<^sup>* db0 db"
  shows "(\<forall>j\<in>set (as_Jobs db). activeOf (bj_ID j) (as_Partitions db) \<le> bj_MaxConcurrency j)
    \<and> (\<forall>p\<in>set (as_Partitions db). jobOf (as_Jobs db) p \<noteq> None)"
proof
  have inv: "bfInv db" using bf.reachable_inv assms by blast
  then show "\<forall>j\<in>set (as_Jobs db). activeOf (bj_ID j) (as_Partitions db) \<le> bj_MaxConcurrency j" by (simp add: bfInv_def)
  show "\<forall>p\<in>set (as_Partitions db). jobOf (as_Jobs db) p \<noteq> None"
  proof
    fix p assume "p \<in> set (as_Partitions db)"
    then obtain j where "j \<in> set (as_Jobs db)" "bj_ID j = bp_JobID p" using inv unfolding bfInv_def by force
    then show "jobOf (as_Jobs db) p \<noteq> None" by (auto simp: jobOf_def find_None_iff)
  qed
qed

definition samplePlan :: backfillPlan where
  "samplePlan = \<lparr>plan_From = 0, plan_To = 2 * nsDay, plan_PartitionDays = 1, plan_MaxConcurrency = 1,
     plan_Partitions = [(0, nsDay), (nsDay, 2 * nsDay)]\<rparr>"

definition partName :: "nat \<Rightarrow> string" where
  "partName i = CHR ''b'' # replicate i (CHR ''x'')"

definition jobDB :: apiDB where
  "jobDB = (case backfillCreate 1 ''t1'' ''p1'' ''test'' ''j'' partName 10 samplePlan emptyAPI of Ok db \<Rightarrow> db | Err _ \<Rightarrow> emptyAPI)"

theorem backfill_concurrency_witness:
  "activeOf ''j'' (as_Partitions (snd (dispatchOne (\<lambda>_. True) True freePlan (sampleEnv ''e1'' (Ok ''r'')) jobDB))) \<le> 1
   \<and> activeOf ''j'' (as_Partitions (snd (dispatchOne (\<lambda>_. True) True freePlan (sampleEnv ''e1'' (Ok ''r'')) jobDB))) = 1"
proof -
  let ?in = "[(''from'', VStr ''1970-01-01T00:00:00Z''), (''to'', VStr ''1970-01-03T00:00:00Z'')]"
  have plan: "planBackfill ?in = Ok samplePlan" by code_simp
  have created: "backfillCreate 1 ''t1'' ''p1'' ''test'' ''j'' partName 10 samplePlan emptyAPI = Ok jobDB"
    by (simp add: jobDB_def backfillCreate_def samplePlan_def)
  have "inj partName" by (rule injI) (simp add: partName_def)
  then have "bfStep emptyAPI jobDB" by (intro Create [OF plan _ _ _ created]) (simp_all add: emptyAPI_def)
  moreover have "bfStep jobDB (snd (dispatchOne (\<lambda>_. True) True freePlan (sampleEnv ''e1'' (Ok ''r'')) jobDB))" by (rule Dispatch)
  ultimately have run: "bfStep\<^sup>*\<^sup>* emptyAPI (snd (dispatchOne (\<lambda>_. True) True freePlan (sampleEnv ''e1'' (Ok ''r'')) jobDB))" by simp
  have init: "emptyBackfills emptyAPI" by (simp add: emptyBackfills_def emptyAPI_def)
  let ?db = "snd (dispatchOne (\<lambda>_. True) True freePlan (sampleEnv ''e1'' (Ok ''r'')) jobDB)"
  have "map (\<lambda>j. (bj_ID j, bj_MaxConcurrency j)) (as_Jobs ?db) = [(''j'', 1)]" by code_simp
  then obtain j where "j \<in> set (as_Jobs ?db)" "bj_ID j = ''j''" "bj_MaxConcurrency j = 1" by auto
  moreover have "activeOf ''j'' (as_Partitions ?db) = 1" by code_simp
  ultimately show ?thesis using backfill_concurrency [OF init run] by force
qed

section \<open>Retries\<close>

text \<open>A partition that has an execution can never be run again: the unique index on the partition of an
  execution refuses the new row, so a dispatch round that claims it after a retry starts no execution and
  leaves it failed, whatever the pipeline, the quota and the workflow service answer.\<close>

theorem retried_partition_fails:
  assumes "claimNext (fe_Now E) db = (Some cl, db1)" "bp_ID (cl_Partition cl) \<noteq> []"
    and "r \<in> set (as_Executions db)" "ex_BackfillPartition r = Some (bp_ID (cl_Partition cl))"
  shows "\<exists>db2 e. dispatchOne uuidOK billing defaults E db = (True, db2) \<and> as_Executions db2 = as_Executions db
     \<and> (\<forall>p\<in>set (as_Partitions db2). bp_ID p = bp_ID (cl_Partition cl) \<and> bp_TenantID p = bp_TenantID (cl_Partition cl)
          \<longrightarrow> bp_Status p = ''failed'' \<and> bp_Error p = Some e)"
proof -
  let ?q = "backfillRequest cl"
  have ex: "as_Executions db1 = as_Executions db" using assms(1) by (cases rule: claimNext_cases) auto
  obtain fr db2 t where f: "fireExecution uuidOK billing defaults E ?q db1 = (fr, db2, t)" by (metis prod_cases3)
  have "fr \<in> range Inl \<and> as_Executions db2 = as_Executions db"
  proof (cases rule: fire_cases [of uuidOK billing defaults E ?q db1])
    case rejected
    then show ?thesis using f ex by simp
  next
    case (unstarted d e)
    then show ?thesis using f ex used_consume [OF unstarted(1)] by auto
  next
    case (unrecorded d run e)
    then show ?thesis using f ex used_consume [OF unrecorded(1)] by auto
  next
    case (fired d run d2)
    have "executionClash (newExecution E ?q run) (as_Executions d)"
      using assms(2-4) used_consume(2) [OF fired(1)] ex
      by (auto simp: executionClash_def newExecution_def backfillRequest_def nullString_def list_ex_iff)
    then show ?thesis using fired(3) by (simp add: recordFired_def)
  qed
  then obtain e where e: "fr = Err e" "as_Executions db2 = as_Executions db" by auto
  have "dispatchOne uuidOK billing defaults E db = (True, failPartition (fe_Now E) (cl_Partition cl) e db2)"
    using assms(1) f e by (simp add: dispatchOne_def)
  moreover have "as_Executions (failPartition (fe_Now E) (cl_Partition cl) e db2) = as_Executions db" using e(2) by (simp add: failPartition_def)
  moreover have "\<forall>p\<in>set (as_Partitions (failPartition (fe_Now E) (cl_Partition cl) e db2)).
      bp_ID p = bp_ID (cl_Partition cl) \<and> bp_TenantID p = bp_TenantID (cl_Partition cl) \<longrightarrow> bp_Status p = ''failed'' \<and> bp_Error p = Some e"
    by (auto simp: failPartition_def set_updateWhere)
  ultimately show ?thesis by blast
qed

text \<open>A job whose first partition ran and failed, after a retry.\<close>

definition failedDB :: apiDB where
  "failedDB = markPartition 2 ''t1'' ''e1'' ''failed'' (snd (dispatchOne (\<lambda>_. True) True freePlan (sampleEnv ''e1'' (Ok ''r'')) jobDB))"

definition retriedDB :: apiDB where
  "retriedDB = snd (backfillRetry ''t1'' ''p1'' ''j'' failedDB)"

theorem retried_partition_fails_witness:
  "\<exists>db2. dispatchOne (\<lambda>_. True) True freePlan (sampleEnv ''e2'' (Ok ''r2'')) retriedDB = (True, db2) \<and> map ex_ID (as_Executions db2) = [''e1'']"
proof -
  let ?E = "sampleEnv ''e2'' (Ok ''r2'')"
  obtain r db1 where c: "claimNext (fe_Now ?E) retriedDB = (r, db1)" by force
  have "map_option (\<lambda>c. bp_ID (cl_Partition c)) (fst (claimNext (fe_Now ?E) retriedDB)) = Some ''b''" by code_simp
  then obtain cl where cl: "r = Some cl" "bp_ID (cl_Partition cl) = ''b''" using c by (cases r) auto
  have e: "map (\<lambda>r. (ex_ID r, ex_BackfillPartition r)) (as_Executions retriedDB) = [(''e1'', Some ''b'')]" by code_simp
  then obtain row where row: "row \<in> set (as_Executions retriedDB)" "ex_BackfillPartition row = Some (bp_ID (cl_Partition cl))"
    using cl(2) by (auto simp: map_eq_Cons_conv)
  have ids: "map ex_ID (as_Executions retriedDB) = [''e1'']" using arg_cong [OF e, of "map fst"] by (simp add: comp_def)
  from retried_partition_fails [OF c [unfolded cl(1)] _ row, of "\<lambda>_. True" True freePlan] cl(2) ids
  show ?thesis by fastforce
qed

end
