(* ===== verification/StreamJobs.thy ===== *)
theory StreamJobs
  imports Workflow GoTime
begin

text \<open>
  The workflows of the enterprise engines (\<^verbatim>\<open>ee/workflows\<close>): \<^verbatim>\<open>StreamDirectWorkflow\<close>, which repeats the nodes of a
  linear pipeline batch by batch, \<^verbatim>\<open>SparkJobWorkflow\<close>, which submits a job and polls it, and \<^verbatim>\<open>FlinkJobWorkflow\<close>,
  which keeps a deployment and obeys the signals of its users. A run ends with a status, with an error, or
  continues as a new run with the input that it leaves.

  The stream and Flink workflows do at most 100 rounds in a run. Spark polls without a bound, so its loop has
  fuel, the number of polls, and \<open>RunPolling\<close> is the run that is still polling after them.
\<close>

section \<open>The model\<close>

datatype runEnd = RunDone ExecutionStatus | RunError werr | RunContinue WorkflowInput | RunPolling

text \<open>A coroutine that the workflow runs in its own line.\<close>

primrec seqProc :: "'a proc \<Rightarrow> ('a \<Rightarrow> 'r wf) \<Rightarrow> 'r wf" where
  "seqProc (PRet r) k = k r"
| "seqProc (PAct opts c f) k = Act opts c (\<lambda>rep. seqProc (f rep) k)"

definition engineOptions :: "WorkflowInput \<Rightarrow> int \<Rightarrow> ActivityOptions" where
  "engineOptions input minutes = \<lparr>opt_TaskQueue = ''dynamic-activities-'' @ win_Environment input,
     opt_StartToCloseTimeout = minutes * 60 * timeSecond, opt_ScheduleToCloseTimeout = 0, opt_HeartbeatTimeout = 0,
     opt_InitialInterval = 2 * timeSecond, opt_MaximumInterval = 0, opt_MaximumAttempts = 5, opt_NonRetryableErrorTypes = []\<rparr>"

definition streamOptions :: "WorkflowInput \<Rightarrow> ActivityOptions" where
  "streamOptions input = (engineOptions input 10)\<lparr>opt_HeartbeatTimeout := 60 * timeSecond, opt_MaximumInterval := 60 * timeSecond\<rparr>"

definition endStatus :: "wfInfo \<Rightarrow> WorkflowInput \<Rightarrow> string \<Rightarrow> ExecutionStatus" where
  "endStatus info input phase = emptyStatus\<lparr>status_ExecutionID := win_ExecutionID input, status_Phase := phase,
     status_StartedAt := info_StartedAt info, status_CompletedAt := info_CompletedAt info\<rparr>"

subsection \<open>Direct streams\<close>

text \<open>The values that one pass over the nodes collects.\<close>

record streamBatch =
  sb_Results :: results
  sb_Checkpoint :: "obj option"
  sb_ConnectionID :: string
  sb_Count :: int
  sb_Lag :: int

definition emptyBatch :: streamBatch where
  "emptyBatch = \<lparr>sb_Results = [], sb_Checkpoint = None, sb_ConnectionID = [], sb_Count = 0, sb_Lag = 0\<rparr>"

definition takePage :: "WorkflowInput \<Rightarrow> Node \<Rightarrow> SourcePage \<times> int \<Rightarrow> streamBatch \<Rightarrow> streamBatch" where
  "takePage input node pl b = (case pl of (page, lag) \<Rightarrow>
     \<lparr>sb_Results = AList.update (node_ID node)
        \<lparr>res_NodeID = node_ID node, res_Status = ''success'', res_OutputRef = page_OutputRef page,
         res_Meta = [(''recordCount'', VInt (page_RecordCount page))], res_Error = []\<rparr> (sb_Results b),
      sb_Checkpoint = page_Checkpoint page, sb_ConnectionID = sourceConnectionID (def_ID (win_Definition input)) node,
      sb_Count = page_RecordCount page, sb_Lag = lag\<rparr>)"

text \<open>The nodes in the order of the levels; the page of a source replaces the checkpoint, and the first node that
  fails ends the batch, without a checkpoint.\<close>

fun streamNodes ::
  "bool \<Rightarrow> WorkflowInput \<Rightarrow> (string \<Rightarrow> Edge list) \<Rightarrow> Node list \<Rightarrow> streamBatch \<Rightarrow> (streamBatch \<Rightarrow> werr option \<Rightarrow> 'r wf) \<Rightarrow> 'r wf" where
  "streamNodes cap input incoming [] b k = k b None"
| "streamNodes cap input incoming (node # nodes) b k =
     (let opts = streamOptions input; conn = sourceConnectionID (def_ID (win_Definition input)) node in
      if node_Type node = ''source'' then
        Act opts (FetchSourcePage (node_ActivityType node) (node_Config node) (node_Ingestion node) (win_TenantID input) conn None
                    (win_ExecutionID input) (node_ID node) (win_EncryptedDEK input))
          (\<lambda>rep. case getStreamPage rep of
             Inl err \<Rightarrow> k \<lparr>sb_Results = sb_Results b, sb_Checkpoint = None, sb_ConnectionID = conn, sb_Count = 0, sb_Lag = 0\<rparr> (Some err)
           | Inr pl \<Rightarrow> streamNodes cap input incoming nodes (takePage input node pl b) k)
      else seqProc (runNode opts cap input node incoming (sb_Results b))
          (\<lambda>result. if res_Status result = ''failed''
             then k (b\<lparr>sb_Checkpoint := None\<rparr>) (Some (WErr (''node '' @ node_ID node @ '' failed: '' @ res_Error result)))
             else streamNodes cap input incoming nodes (b\<lparr>sb_Results := AList.update (node_ID node) result (sb_Results b)\<rparr>) k))"

definition runStreamBatch ::
  "bool \<Rightarrow> WorkflowInput \<Rightarrow> executionPlan \<Rightarrow> (streamBatch \<Rightarrow> werr option \<Rightarrow> 'r wf) \<Rightarrow> 'r wf" where
  "runStreamBatch cap input plan k = streamNodes cap input (plan_Incoming plan) (concat (plan_Levels plan)) emptyBatch k"

definition streamContinueAfter :: nat where "streamContinueAfter = 100"

definition emptyMetrics :: StreamStatus where
  "emptyMetrics = \<lparr>stream_Batches = 0, stream_Records = 0, stream_Errors = 0, stream_LagRecords = 0,
     stream_ThroughputPerSec = Dec 0 0, stream_LastHeartbeat = []\<rparr>"

text \<open>\<open>perSecond\<close> is the quotient \<^verbatim>\<open>float64(count) / seconds\<close>, rounded by the machine.\<close>

definition countBatch :: "(int \<Rightarrow> int \<Rightarrow> float64) \<Rightarrow> int \<Rightarrow> int \<Rightarrow> StreamStatus \<Rightarrow> StreamStatus" where
  "countBatch perSecond n ns m = m\<lparr>stream_Batches := wrap64 (stream_Batches m + 1), stream_Records := wrap64 (stream_Records m + n),
     stream_ThroughputPerSec := (if ns > 0 then perSecond n ns else stream_ThroughputPerSec m)\<rparr>"

definition countError :: "StreamStatus \<Rightarrow> StreamStatus" where
  "countError m = m\<lparr>stream_Errors := wrap64 (stream_Errors m + 1)\<rparr>"

definition cancelStream :: "wfInfo \<Rightarrow> WorkflowInput \<Rightarrow> results \<Rightarrow> StreamStatus \<Rightarrow> runEnd wf" where
  "cancelStream info input res m =
     Act (streamOptions input) (MarkExecution (win_ExecutionID input) ''cancelled'')
       (\<lambda>_. Ret (RunDone ((endStatus info input ''cancelled'')\<lparr>status_NodeResults := res, status_Stream := Some m\<rparr>)))"

text \<open>The end of a round: a batch without error commits its checkpoint and is counted. \<open>k\<close> is the next round.\<close>

definition countRound ::
  "(int \<Rightarrow> int \<Rightarrow> float64) \<Rightarrow> WorkflowInput \<Rightarrow> int \<Rightarrow> streamBatch \<Rightarrow> StreamStatus \<Rightarrow> (results \<Rightarrow> StreamStatus \<Rightarrow> runEnd wf) \<Rightarrow> runEnd wf" where
  "countRound perSecond input start b m k =
     Act (streamOptions input) ReadClock (\<lambda>now.
       let m' = countBatch perSecond (sb_Count b) (getTime now - start) m
       in if sb_Count b = 0 then Act (streamOptions input) (SleepFor timeSecond) (\<lambda>_. k (sb_Results b) m') else k (sb_Results b) m')"

definition closeRound ::
  "(int \<Rightarrow> int \<Rightarrow> float64) \<Rightarrow> WorkflowInput \<Rightarrow> int \<Rightarrow> results \<Rightarrow> streamBatch \<Rightarrow> werr option \<Rightarrow> StreamStatus
     \<Rightarrow> (results \<Rightarrow> StreamStatus \<Rightarrow> runEnd wf) \<Rightarrow> runEnd wf" where
  "closeRound perSecond input start res b err m k =
     (if err \<noteq> None then Act (streamOptions input) (SleepFor (2 * timeSecond)) (\<lambda>_. k res (countError m))
      else (case sb_Checkpoint b of
          None \<Rightarrow> countRound perSecond input start b m k
        | Some cp \<Rightarrow> Act (streamOptions input) (CommitSourceCursors (win_TenantID input) [(sb_ConnectionID b, cp)]) (\<lambda>rep.
            if isOk (getUnit rep) then countRound perSecond input start b m k else k (sb_Results b) (countError m))))"

definition streamRound ::
  "(int \<Rightarrow> int \<Rightarrow> float64) \<Rightarrow> bool \<Rightarrow> WorkflowInput \<Rightarrow> executionPlan \<Rightarrow> results \<Rightarrow> StreamStatus
     \<Rightarrow> (results \<Rightarrow> StreamStatus \<Rightarrow> runEnd wf) \<Rightarrow> runEnd wf" where
  "streamRound perSecond cap input plan res m k =
     Act (streamOptions input) ReadClock (\<lambda>start. runStreamBatch cap input plan (\<lambda>b err.
       Act (streamOptions input) ReadClock (\<lambda>beat. closeRound perSecond input (getTime start) res b err
         (m\<lparr>stream_LastHeartbeat := formatRFC3339Nano (getTime beat), stream_LagRecords := sb_Lag b\<rparr>) k)))"

fun streamLoop ::
  "(int \<Rightarrow> int \<Rightarrow> float64) \<Rightarrow> bool \<Rightarrow> wfInfo \<Rightarrow> WorkflowInput \<Rightarrow> executionPlan \<Rightarrow> nat \<Rightarrow> results \<Rightarrow> StreamStatus \<Rightarrow> runEnd wf" where
  "streamLoop perSecond cap info input plan 0 res m = Ret (RunContinue (input\<lparr>win_Stream := Some m\<rparr>))"
| "streamLoop perSecond cap info input plan (Suc n) res m =
     (let opts = streamOptions input;
          body = streamRound perSecond cap input plan res m (streamLoop perSecond cap info input plan n) in
      Act opts DrainSignals (\<lambda>rep.
        let (paused, cancelled) = drainSignals rep False in
        if cancelled then cancelStream info input res m
        else if paused then Act opts SelectSignal (\<lambda>rep. if rep = RSelect True then cancelStream info input res m else body)
        else body))"

declare streamLoop.simps [simp del]

definition streamDefaults :: "wfInfo \<Rightarrow> WorkflowInput \<Rightarrow> WorkflowInput" where
  "streamDefaults info input = input\<lparr>
     win_ExecutionID := (if win_ExecutionID input = [] then ''exec-'' @ info_RunID info else win_ExecutionID input),
     win_Environment := (if win_Environment input = [] then info_Namespace info else win_Environment input)\<rparr>"

definition StreamDirectWorkflow :: "(int \<Rightarrow> int \<Rightarrow> float64) \<Rightarrow> bool \<Rightarrow> wfInfo \<Rightarrow> WorkflowInput \<Rightarrow> runEnd wf" where
  "StreamDirectWorkflow perSecond cap info input0 =
     (let input = streamDefaults info input0 in
      case buildPlan (def_Nodes (win_Definition input)) (def_Edges (win_Definition input)) of
        Inl e \<Rightarrow> Ret (RunError (WErr (planErrorText e)))
      | Inr plan \<Rightarrow> streamLoop perSecond cap info input plan streamContinueAfter []
          (case win_Stream input of None \<Rightarrow> emptyMetrics | Some m \<Rightarrow> m))"

subsection \<open>Spark jobs\<close>

definition sparkMark :: "wfInfo \<Rightarrow> WorkflowInput \<Rightarrow> string \<Rightarrow> runEnd \<Rightarrow> runEnd wf" where
  "sparkMark info input phase out = Act (engineOptions input 2) (MarkExecution (win_ExecutionID input) phase) (\<lambda>_. Ret out)"

definition sparkDone :: "wfInfo \<Rightarrow> WorkflowInput \<Rightarrow> string \<Rightarrow> runEnd wf" where
  "sparkDone info input phase = sparkMark info input phase (RunDone (endStatus info input phase))"

definition sparkFailedStates :: "string list" where
  "sparkFailedStates = [''FAILED'', ''FAILED_SUBMISSION'', ''UNKNOWN'']"

fun sparkPoll :: "wfInfo \<Rightarrow> WorkflowInput \<Rightarrow> SparkJobRef \<Rightarrow> nat \<Rightarrow> runEnd wf" where
  "sparkPoll info input ref 0 = Ret RunPolling"
| "sparkPoll info input ref (Suc n) =
     (let opts = engineOptions input 2 in
      Act opts (SparkJobStatus ref) (\<lambda>rep. case getSparkStatus rep of
        Inl err \<Rightarrow> Ret (RunError err)
      | Inr (state, lastError) \<Rightarrow>
          if state = ''COMPLETED'' then
            Act opts (CommitSparkJob ref (win_Definition input) (win_TenantID input)) (\<lambda>rep. case getUnit rep of
              Inl err \<Rightarrow> Ret (RunError err)
            | Inr _ \<Rightarrow> sparkDone info input ''completed'')
          else if state \<in> set sparkFailedStates then
            sparkMark info input ''failed'' (RunError (WErr (''SparkApplication '' @ spark_Name ref @ '' failed: '' @ lastError)))
          else Act opts SelectSpark (\<lambda>rep.
            if rep = RBool True \<or> state = ''CANCELLING''
            then Act opts (CancelSparkJob ref) (\<lambda>_. sparkDone info input ''cancelled'')
            else sparkPoll info input ref n)))"

declare sparkPoll.simps [simp del]

definition SparkJobWorkflow :: "nat \<Rightarrow> wfInfo \<Rightarrow> WorkflowInput \<Rightarrow> runEnd wf" where
  "SparkJobWorkflow fuel info input =
     Act (engineOptions input 2) (SubmitSparkJob (win_Definition input) (win_TenantID input) (win_ExecutionID input)) (\<lambda>rep.
       case getSparkRef rep of
         Inl err \<Rightarrow> Ret (RunError err)
       | Inr ref \<Rightarrow> if spark_Noop ref then sparkDone info input ''completed'' else sparkPoll info input ref fuel)"

subsection \<open>Flink deployments\<close>

definition flinkContinueAfter :: nat where "flinkContinueAfter = 100"

text \<open>The selector takes the first ready channel in the order of registration.\<close>

definition flinkSelected :: "reply \<Rightarrow> string" where
  "flinkSelected rep = (case rep of RPending pause resume rollback cancel \<Rightarrow>
      (if pause then ''pause'' else if resume then ''resume'' else if rollback then ''rollback'' else if cancel then ''cancel'' else [])
    | _ \<Rightarrow> [])"

fun flinkPoll :: "wfInfo \<Rightarrow> WorkflowInput \<Rightarrow> nat \<Rightarrow> FlinkWorkflowState \<Rightarrow> runEnd wf" where
  "flinkPoll info input 0 st = Ret (RunContinue (input\<lparr>win_Flink := Some st\<rparr>))"
| "flinkPoll info input (Suc n) st =
     (let opts = engineOptions input 1; exec = win_ExecutionID input; ref = flink_CohestraID st in
      Act opts (FlinkJobStatus ref) (\<lambda>rep. case getFlinkStatus rep of
        Inl err \<Rightarrow> Act opts (RecordFlinkError exec (errText err)) (\<lambda>_. Ret (RunError err))
      | Inr status \<Rightarrow>
          let st1 = st\<lparr>flink_LastError := fds_Error status, flink_Checkpoint := fds_Checkpoint status\<rparr> in
          if fds_State status = ''FAILED'' \<or> fds_State status = ''DEGRADED'' then
            Act opts (RecordFlinkError exec (fds_Error status)) (\<lambda>_.
              Act opts (MarkExecution exec ''failed'') (\<lambda>_. Ret (RunError (WErr (''Flink deployment failed: '' @ fds_Error status)))))
          else Act opts SelectFlink (\<lambda>sig.
            let action = flinkSelected sig in
            if action = [] then flinkPoll info input n st1
            else Act opts (FlinkJobAction ref action exec) (\<lambda>rep. case getUnit rep of
                Inl err \<Rightarrow> Ret (RunError err)
              | Inr _ \<Rightarrow>
                  if action = ''cancel'' then
                    Act opts (MarkExecution exec ''cancelled'') (\<lambda>_. Ret (RunDone (endStatus info input ''cancelled'')))
                  else flinkPoll info input n (st1\<lparr>flink_DesiredState := (if action = ''pause'' then ''paused'' else ''running'')\<rparr>)))))"

declare flinkPoll.simps [simp del]

definition FlinkJobWorkflow :: "wfInfo \<Rightarrow> WorkflowInput \<Rightarrow> runEnd wf" where
  "FlinkJobWorkflow info input =
     (let st = (case win_Flink input of
            None \<Rightarrow> \<lparr>flink_CohestraID = [], flink_DesiredState = ''running'', flink_LastError = [], flink_Checkpoint = []\<rparr>
          | Some s \<Rightarrow> s)
      in if flink_CohestraID st = [] then
           Act (engineOptions input 1) (DeployFlinkJob (win_Definition input) (win_TenantID input) (win_ExecutionID input)) (\<lambda>rep.
             case getFlinkRef rep of
               Inl err \<Rightarrow> Ret (RunError err)
             | Inr ref \<Rightarrow> flinkPoll info input flinkContinueAfter (st\<lparr>flink_CohestraID := ref\<rparr>))
         else flinkPoll info input flinkContinueAfter st)"

end
