(* ===== verification/StreamLaws.thy ===== *)
theory StreamLaws
  imports StreamJobs
begin

text \<open>
  Laws of the workflows of the engines: what stands before a commit of a stream, how many calls a run makes, and
  what a final status of a Spark or Flink run means.
\<close>

section \<open>Playing a run\<close>

text \<open>A run with the given replies.\<close>

primrec playWf :: "'r wf \<Rightarrow> reply list \<Rightarrow> (event list \<times> 'r) option" where
  "playWf (Ret r) rs = Some ([], r)"
| "playWf (Act opts c k) rs = (case rs of [] \<Rightarrow> None
     | rep # rs' \<Rightarrow> map_option (\<lambda>(tr, r). ((opts, c, rep) # tr, r)) (playWf (k rep) rs'))"
| "playWf (Par ps k) rs = None"

lemma playWf_runs: "playWf w rs = Some (tr, r) \<Longrightarrow> wfRuns w tr r"
  by (induction w arbitrary: rs tr) (auto split: list.splits intro: wfRuns.intros)

definition played :: "'r wf \<Rightarrow> reply list \<Rightarrow> event list" where
  "played w rs = (case playWf w rs of Some (tr, _) \<Rightarrow> tr | None \<Rightarrow> [])"

definition playedEnd :: "runEnd wf \<Rightarrow> reply list \<Rightarrow> runEnd" where
  "playedEnd w rs = (case playWf w rs of Some (_, r) \<Rightarrow> r | None \<Rightarrow> RunPolling)"

lemma played_runs: "playWf w rs \<noteq> None \<Longrightarrow> wfRuns w (played w rs) (playedEnd w rs)"
  using playWf_runs by (fastforce simp: played_def playedEnd_def)

section \<open>Batches\<close>

lemma wfRuns_Act_ex: "wfRuns (Act opts c k) tr x \<longleftrightarrow> (\<exists>rep tr'. tr = (opts, c, rep) # tr' \<and> wfRuns (k rep) tr' x)"
  by (auto simp: wfRuns_Act)

lemma seqProc_runsD:
  "wfRuns (seqProc p k) tr r \<Longrightarrow> \<exists>tr1 x tr2. tr = tr1 @ tr2 \<and> procRuns p tr1 x \<and> wfRuns (k x) tr2 r"
proof (induction p arbitrary: tr)
  case (PRet x)
  then show ?case by (intro exI [of _ "[]"]) simp
next
  case (PAct opts c f)
  from PAct.prems obtain rep tr' where t: "tr = (opts, c, rep) # tr'" and w: "wfRuns (seqProc (f rep) k) tr' r"
    by (auto simp: wfRuns_Act)
  from PAct.IH [OF rangeI w] obtain tr1 x tr2 where "tr' = tr1 @ tr2" "procRuns (f rep) tr1 x" "wfRuns (k x) tr2 r"
    by blast
  then show ?case using t proc_act [of f rep tr1 x opts c] by (metis append_Cons)
qed

lemma seqProc_runsI: "procRuns p tr1 x \<Longrightarrow> wfRuns (k x) tr2 r \<Longrightarrow> wfRuns (seqProc p k) (tr1 @ tr2) r"
  by (induction rule: procRuns.induct) (auto intro: wfRuns.intros)

text \<open>A batch with any continuation is the batch alone, followed by the continuation.\<close>

abbreviation batchRun ::
  "bool \<Rightarrow> WorkflowInput \<Rightarrow> (string \<Rightarrow> Edge list) \<Rightarrow> Node list \<Rightarrow> streamBatch \<Rightarrow> event list \<Rightarrow> streamBatch \<times> werr option \<Rightarrow> bool" where
  "batchRun cap input incoming ns b \<equiv> wfRuns (streamNodes cap input incoming ns b (\<lambda>b' err. Ret (b', err)))"

text \<open>The three ways the first node of a batch can go.\<close>

definition fetchCall :: "WorkflowInput \<Rightarrow> Node \<Rightarrow> call" where
  "fetchCall input node = FetchSourcePage (node_ActivityType node) (node_Config node) (node_Ingestion node) (win_TenantID input)
     (sourceConnectionID (def_ID (win_Definition input)) node) None (win_ExecutionID input) (node_ID node) (win_EncryptedDEK input)"

definition lostBatch :: "WorkflowInput \<Rightarrow> Node \<Rightarrow> streamBatch \<Rightarrow> streamBatch" where
  "lostBatch input node b = \<lparr>sb_Results = sb_Results b, sb_Checkpoint = None,
     sb_ConnectionID = sourceConnectionID (def_ID (win_Definition input)) node, sb_Count = 0, sb_Lag = 0\<rparr>"

definition nodeError :: "Node \<Rightarrow> NodeResult \<Rightarrow> werr" where
  "nodeError node result = WErr (''node '' @ node_ID node @ '' failed: '' @ res_Error result)"

abbreviation putResult :: "Node \<Rightarrow> NodeResult \<Rightarrow> streamBatch \<Rightarrow> streamBatch" where
  "putResult node result b \<equiv> b\<lparr>sb_Results := AList.update (node_ID node) result (sb_Results b)\<rparr>"

lemma streamNodes_source:
  "node_Type node = ''source'' \<Longrightarrow> wfRuns (streamNodes cap input incoming (node # ns) b k) tr r \<longleftrightarrow>
     (\<exists>rep tr'. tr = (streamOptions input, fetchCall input node, rep) # tr'
        \<and> (case getStreamPage rep of Inl err \<Rightarrow> wfRuns (k (lostBatch input node b) (Some err)) tr' r
           | Inr pl \<Rightarrow> wfRuns (streamNodes cap input incoming ns (takePage input node pl b) k) tr' r))"
  by (simp add: Let_def wfRuns_Act_ex fetchCall_def lostBatch_def sum.case_distrib [where h = "\<lambda>w. wfRuns w _ _"] cong: sum.case_cong)

lemma streamNodes_node:
  "node_Type node \<noteq> ''source'' \<Longrightarrow> wfRuns (streamNodes cap input incoming (node # ns) b k) tr r \<longleftrightarrow>
     (\<exists>tr1 x tr2. tr = tr1 @ tr2 \<and> procRuns (runNode (streamOptions input) cap input node incoming (sb_Results b)) tr1 x
        \<and> (if res_Status x = ''failed'' then wfRuns (k (b\<lparr>sb_Checkpoint := None\<rparr>) (Some (nodeError node x))) tr2 r
           else wfRuns (streamNodes cap input incoming ns (putResult node x b) k) tr2 r))"
  (is "?src \<Longrightarrow> ?l \<longleftrightarrow> ?r")
proof
  let ?p = "runNode (streamOptions input) cap input node incoming (sb_Results b)"
  let ?k = "\<lambda>x. if res_Status x = ''failed'' then k (b\<lparr>sb_Checkpoint := None\<rparr>) (Some (nodeError node x))
       else streamNodes cap input incoming ns (putResult node x b) k"
  assume n: "node_Type node \<noteq> ''source''"
  then have e: "streamNodes cap input incoming (node # ns) b k = seqProc ?p ?k" by (simp add: Let_def nodeError_def cong: if_cong)
  have r: "?r \<longleftrightarrow> (\<exists>tr1 x tr2. tr = tr1 @ tr2 \<and> procRuns ?p tr1 x \<and> wfRuns (?k x) tr2 r)"
    by (simp only: if_distrib [where f = "\<lambda>w. wfRuns w _ _"])
  show "?l \<Longrightarrow> ?r" unfolding e r by (rule seqProc_runsD)
  show "?r \<Longrightarrow> ?l" unfolding e r by (elim exE conjE) (simp only: seqProc_runsI)
qed

declare streamNodes.simps(2) [simp del]

lemma streamNodes_split:
  "wfRuns (streamNodes cap input incoming ns b k) tr r \<Longrightarrow>
     \<exists>seg rest b' err. tr = seg @ rest \<and> batchRun cap input incoming ns b seg (b', err) \<and> wfRuns (k b' err) rest r"
proof (induction ns arbitrary: b tr)
  case Nil
  then show ?case by (intro exI [of _ "[]"] exI [of _ tr] exI [of _ b] exI [of _ None]) simp
next
  case (Cons node ns)
  show ?case
  proof (cases "node_Type node = ''source''")
    case True
    from Cons.prems obtain rep tr' where t: "tr = (streamOptions input, fetchCall input node, rep) # tr'"
      and w: "case getStreamPage rep of Inl err \<Rightarrow> wfRuns (k (lostBatch input node b) (Some err)) tr' r
           | Inr pl \<Rightarrow> wfRuns (streamNodes cap input incoming ns (takePage input node pl b) k) tr' r"
      unfolding streamNodes_source [OF True] by blast
    show ?thesis
    proof (cases "getStreamPage rep")
      case (Inl err)
      then have "batchRun cap input incoming (node # ns) b [(streamOptions input, fetchCall input node, rep)] (lostBatch input node b, Some err)"
        by (simp add: streamNodes_source [OF True])
      moreover have "tr = [(streamOptions input, fetchCall input node, rep)] @ tr'" using t by simp
      ultimately show ?thesis using w Inl by (metis sum.case(1))
    next
      case (Inr pl)
      with w have "wfRuns (streamNodes cap input incoming ns (takePage input node pl b) k) tr' r" by simp
      from Cons.IH [OF this] obtain seg rest b' err where s: "tr' = seg @ rest"
        "batchRun cap input incoming ns (takePage input node pl b) seg (b', err)" "wfRuns (k b' err) rest r" by blast
      have "batchRun cap input incoming (node # ns) b ((streamOptions input, fetchCall input node, rep) # seg) (b', err)"
        using s(2) Inr by (simp add: streamNodes_source [OF True])
      moreover have "tr = ((streamOptions input, fetchCall input node, rep) # seg) @ rest" using t s(1) by simp
      ultimately show ?thesis using s(3) by blast
    qed
  next
    case False
    from Cons.prems obtain tr1 x tr2 where t: "tr = tr1 @ tr2"
      and p: "procRuns (runNode (streamOptions input) cap input node incoming (sb_Results b)) tr1 x"
      and w: "if res_Status x = ''failed'' then wfRuns (k (b\<lparr>sb_Checkpoint := None\<rparr>) (Some (nodeError node x))) tr2 r
           else wfRuns (streamNodes cap input incoming ns (putResult node x b) k) tr2 r"
      unfolding streamNodes_node [OF False] by blast
    show ?thesis
    proof (cases "res_Status x = ''failed''")
      case True
      then have "batchRun cap input incoming (node # ns) b tr1 (b\<lparr>sb_Checkpoint := None\<rparr>, Some (nodeError node x))"
        unfolding streamNodes_node [OF False] using p by (intro exI [of _ tr1] exI [of _ x] exI [of _ "[]"]) simp
      then show ?thesis using t w True by auto
    next
      case ok: False
      with w have "wfRuns (streamNodes cap input incoming ns (putResult node x b) k) tr2 r" by simp
      from Cons.IH [OF this] obtain seg rest b' err where s: "tr2 = seg @ rest"
        "batchRun cap input incoming ns (putResult node x b) seg (b', err)" "wfRuns (k b' err) rest r" by blast
      have "batchRun cap input incoming (node # ns) b (tr1 @ seg) (b', err)"
        unfolding streamNodes_node [OF False] using p s(2) ok by (intro exI [of _ tr1] exI [of _ x] exI [of _ seg]) simp
      then show ?thesis using t s(1,3) by (metis append.assoc)
    qed
  qed
qed


text \<open>What a batch leaves when no node failed: a result for every node, and the checkpoint, connection and
  count of its last page.\<close>

fun streamPage :: "event \<Rightarrow> SourcePage option" where
  "streamPage (_, FetchSourcePage _ _ _ _ _ _ _ _ _, RStreamPage p _) = Some p"
| "streamPage _ = None"

definition streamPages :: "event list \<Rightarrow> SourcePage list" where
  "streamPages tr = List.map_filter streamPage tr"

lemma streamPages_simps [simp]:
  "streamPages [] = []"
  "streamPages (e # tr) = (case streamPage e of None \<Rightarrow> streamPages tr | Some p \<Rightarrow> p # streamPages tr)"
  "streamPages (tr @ tr') = streamPages tr @ streamPages tr'"
  by (auto simp: streamPages_def map_filter_def split: option.splits)

definition quietCall :: "ActivityOptions \<Rightarrow> call \<Rightarrow> bool" where
  "quietCall o' c \<longleftrightarrow> (\<forall>a cf i t cn cu e n d. c \<noteq> FetchSourcePage a cf i t cn cu e n d) \<and> (\<forall>t cs. c \<noteq> CommitSourceCursors t cs)"

lemma runNode_quiet: "node_Type node \<noteq> ''source'' \<Longrightarrow> procAll quietCall (runNode opts cap input node incoming res)"
proof -
  assume n: "node_Type node \<noteq> ''source''"
  have body: "procAll quietCall (runBody opts cap input node es res)" for es
    using n by (auto simp: runBody_def Let_def quietCall_def split: sum.splits)
  have "procAll quietCall p \<Longrightarrow> procAll quietCall (evalEdges opts input node res es p)" for es p
    by (induction es) (auto simp: quietCall_def split: sum.splits)
  then show ?thesis using body by (simp add: runNode_def Let_def)
qed

lemma quiet_pages:
  assumes "procRuns p tr x" "procAll quietCall p"
  shows "streamPages tr = []"
proof -
  have "streamPage e = None" if "e \<in> set tr" for e
    using procAll_runs [OF assms that] by (cases e rule: streamPage.cases) (auto simp: quietCall_def)
  then show ?thesis by (induction tr) auto
qed

lemma getStreamPage_Ok: "getStreamPage rep = Ok pl \<Longrightarrow> rep = RStreamPage (fst pl) (snd pl)"
  by (cases rep) (auto simp: getStreamPage_def)

lemma batch_ok_source:
  assumes "batchRun cap input incoming (node # ns) b seg (b', None)" "node_Type node = ''source''"
  obtains rep pl seg' where "seg = (streamOptions input, fetchCall input node, rep) # seg'" "getStreamPage rep = Ok pl"
    "batchRun cap input incoming ns (takePage input node pl b) seg' (b', None)"
proof -
  obtain rep seg' where s: "seg = (streamOptions input, fetchCall input node, rep) # seg'"
    and w: "case getStreamPage rep of Inl err \<Rightarrow> wfRuns (Ret (lostBatch input node b, Some err)) seg' (b', None)
       | Inr pl \<Rightarrow> batchRun cap input incoming ns (takePage input node pl b) seg' (b', None)"
    using streamNodes_source [OF assms(2), THEN iffD1, OF assms(1)] by blast
  show ?thesis
  proof (cases "getStreamPage rep")
    case (Inr pl)
    then show ?thesis using s w that by simp
  qed (use w in simp)
qed

lemma batch_ok_node:
  assumes "batchRun cap input incoming (node # ns) b seg (b', None)" "node_Type node \<noteq> ''source''"
  obtains x tr1 seg' where "seg = tr1 @ seg'" "streamPages tr1 = []"
    "procRuns (runNode (streamOptions input) cap input node incoming (sb_Results b)) tr1 x"
    "res_Status x \<noteq> ''failed''" "batchRun cap input incoming ns (putResult node x b) seg' (b', None)"
proof -
  from assms(1) obtain tr1 x seg' where t: "seg = tr1 @ seg'"
    "procRuns (runNode (streamOptions input) cap input node incoming (sb_Results b)) tr1 x"
    "res_Status x \<noteq> ''failed''" "batchRun cap input incoming ns (putResult node x b) seg' (b', None)"
    unfolding streamNodes_node [OF assms(2)] by (auto split: if_splits)
  with quiet_pages [OF t(2) runNode_quiet [OF assms(2)]] show ?thesis using that by blast
qed

lemma batchRun_results:
  "batchRun cap input incoming ns b seg (b', None) \<Longrightarrow> distinct (nodeIDs ns) \<Longrightarrow>
     (\<forall>n\<in>set ns. \<exists>x. map_of (sb_Results b') (node_ID n) = Some x \<and> res_Status x \<noteq> ''failed'')
     \<and> (\<forall>i. i \<notin> set (nodeIDs ns) \<longrightarrow> map_of (sb_Results b') i = map_of (sb_Results b) i)"
proof (induction ns arbitrary: b seg)
  case (Cons node ns)
  show ?case
  proof (cases "node_Type node = ''source''")
    case True
    obtain pl seg' where "batchRun cap input incoming ns (takePage input node pl b) seg' (b', None)"
      using batch_ok_source [OF Cons.prems(1) True] by blast
    from Cons.IH [OF this] Cons.prems(2) show ?thesis
      by (auto simp: takePage_def update_conv' split: prod.splits if_splits)
  next
    case False
    obtain x seg' where "res_Status x \<noteq> ''failed''" "batchRun cap input incoming ns (putResult node x b) seg' (b', None)"
      using batch_ok_node [OF Cons.prems(1) False] by blast
    with Cons.IH [OF this(2)] Cons.prems(2) show ?thesis by (auto simp: update_conv' split: if_splits)
  qed
qed simp

lemma takePage_simps [simp]:
  "sb_Checkpoint (takePage input node pl b) = page_Checkpoint (fst pl)"
  "sb_Count (takePage input node pl b) = page_RecordCount (fst pl)"
  "sb_ConnectionID (takePage input node pl b) = sourceConnectionID (def_ID (win_Definition input)) node"
  by (simp_all add: takePage_def split: prod.splits)

lemma batchRun_pages:
  "batchRun cap input incoming ns b seg (b', None) \<Longrightarrow>
     (if streamPages seg = [] then sb_Checkpoint b' = sb_Checkpoint b \<and> sb_ConnectionID b' = sb_ConnectionID b \<and> sb_Count b' = sb_Count b
      else sb_Checkpoint b' = page_Checkpoint (last (streamPages seg)) \<and> sb_Count b' = page_RecordCount (last (streamPages seg))
        \<and> (\<exists>n\<in>set ns. node_Type n = ''source'' \<and> sb_ConnectionID b' = sourceConnectionID (def_ID (win_Definition input)) n))"
proof (induction ns arbitrary: b seg)
  case (Cons node ns)
  show ?case
  proof (cases "node_Type node = ''source''")
    case True
    obtain rep pl seg' where s: "seg = (streamOptions input, fetchCall input node, rep) # seg'" "getStreamPage rep = Ok pl"
      "batchRun cap input incoming ns (takePage input node pl b) seg' (b', None)"
      using batch_ok_source [OF Cons.prems True] by metis
    have e: "streamPages seg = fst pl # streamPages seg'"
      using getStreamPage_Ok [OF s(2)] s(1) by (simp add: fetchCall_def)
    show ?thesis using Cons.IH [OF s(3)] True unfolding e by (cases "streamPages seg' = []") auto
  next
    case False
    obtain x t1 seg' where t: "seg = t1 @ seg'" "streamPages t1 = []" "batchRun cap input incoming ns (putResult node x b) seg' (b', None)"
      using batch_ok_node [OF Cons.prems False] by metis
    show ?thesis using Cons.IH [OF t(3)] t(1,2) by (cases "streamPages seg' = []") auto
  qed
qed simp


section \<open>Commits follow their batch\<close>

text \<open>A trace that ends just before a commit ends with a whole batch and a look at the clock.\<close>

definition afterBatch :: "bool \<Rightarrow> WorkflowInput \<Rightarrow> executionPlan \<Rightarrow> event list \<Rightarrow> string \<Rightarrow> (string \<times> obj) list \<Rightarrow> bool" where
  "afterBatch cap input plan pre t cs \<longleftrightarrow> t = win_TenantID input \<and>
     (\<exists>pre' seg beat b cp. pre = pre' @ seg @ [beat]
        \<and> batchRun cap input (plan_Incoming plan) (concat (plan_Levels plan)) emptyBatch seg (b, None)
        \<and> sb_Checkpoint b = Some cp \<and> cs = [(sb_ConnectionID b, cp)])"

definition commitsGuarded :: "bool \<Rightarrow> WorkflowInput \<Rightarrow> executionPlan \<Rightarrow> event list \<Rightarrow> bool" where
  "commitsGuarded cap input plan tr \<longleftrightarrow> (\<forall>pre e post t cs. tr = pre @ e # post \<longrightarrow> ev_call e = CommitSourceCursors t cs
     \<longrightarrow> afterBatch cap input plan pre t cs)"

definition commitFree :: "ActivityOptions \<Rightarrow> call \<Rightarrow> bool" where
  "commitFree o' c \<longleftrightarrow> (\<forall>t cs. c \<noteq> CommitSourceCursors t cs)"

lemma afterBatch_prepend: "afterBatch cap input plan pre t cs \<Longrightarrow> afterBatch cap input plan (xs @ pre) t cs"
  unfolding afterBatch_def by (metis append.assoc)

lemma commitsGuarded_free: "\<forall>e\<in>set tr. commitFree (fst e) (ev_call e) \<Longrightarrow> commitsGuarded cap input plan tr"
  by (auto simp: commitsGuarded_def commitFree_def)

lemma commitsGuarded_append:
  assumes "commitsGuarded cap input plan xs" "commitsGuarded cap input plan ys"
  shows "commitsGuarded cap input plan (xs @ ys)"
  unfolding commitsGuarded_def
proof (intro allI impI)
  fix pre e post t cs assume s: "xs @ ys = pre @ e # post" and c: "ev_call e = CommitSourceCursors t cs"
  from s obtain us where us: "xs = pre @ us \<and> us @ ys = e # post \<or> xs @ us = pre \<and> ys = us @ e # post"
    unfolding append_eq_append_conv2 by blast
  consider "pre = xs" "ys = e # post" | us' where "xs = pre @ e # us'" | "pre = xs @ us" "ys = us @ e # post"
    using us by (cases us) auto
  then show "afterBatch cap input plan pre t cs"
  proof cases
    case 1
    then have "ys = [] @ e # post" by simp
    then have "afterBatch cap input plan [] t cs" using assms(2) c unfolding commitsGuarded_def by blast
    from afterBatch_prepend [OF this, of xs] show ?thesis using 1 by simp
  next
    case 2
    then show ?thesis using assms(1) c unfolding commitsGuarded_def by blast
  next
    case 3
    then have "afterBatch cap input plan us t cs" using assms(2) c unfolding commitsGuarded_def by blast
    then show ?thesis unfolding 3 by (rule afterBatch_prepend)
  qed
qed

lemma commitsGuarded_snoc:
  assumes "\<forall>e\<in>set xs. commitFree (fst e) (ev_call e)" "\<And>t cs. ev_call c = CommitSourceCursors t cs \<Longrightarrow> afterBatch cap input plan xs t cs"
  shows "commitsGuarded cap input plan (xs @ [c])"
  unfolding commitsGuarded_def
proof (intro allI impI)
  fix pre e post t cs assume s: "xs @ [c] = pre @ e # post" and e: "ev_call e = CommitSourceCursors t cs"
  have "e \<notin> set xs" using assms(1) e by (auto simp: commitFree_def)
  with s have "pre = xs" "e = c"
    by (auto simp: append_eq_append_conv2 append_eq_Cons_conv Cons_eq_append_conv)
  then show "afterBatch cap input plan pre t cs" using assms(2) e by simp
qed

lemma seqProc_all: "procAll P p \<Longrightarrow> (\<And>x. wfAll P (k x)) \<Longrightarrow> wfAll P (seqProc p k)"
  by (induction p) auto

lemma streamNodes_free: "wfAll commitFree (streamNodes cap input incoming ns b (\<lambda>b' err. Ret (b', err)))"
proof (induction ns arbitrary: b)
  case (Cons node ns)
  show ?case
  proof (cases "node_Type node = ''source''")
    case True
    then show ?thesis using Cons.IH by (auto simp: streamNodes.simps(2) Let_def commitFree_def split: sum.splits)
  next
    case False
    have "procAll commitFree (runNode (streamOptions input) cap input node incoming (sb_Results b))"
      by (rule procAll_mono [OF runNode_quiet [OF False]]) (auto simp: quietCall_def commitFree_def)
    then show ?thesis using False Cons.IH by (auto simp: streamNodes.simps(2) Let_def intro!: seqProc_all)
  qed
qed simp

lemma batchRun_free: "batchRun cap input incoming ns b seg r \<Longrightarrow> \<forall>e\<in>set seg. commitFree (fst e) (ev_call e)"
  using wfAll_runs [OF _ streamNodes_free] by blast

text \<open>One round: clock, batch, clock, and then a pause after an error, or the commit and the counters.\<close>

definition roundTail :: "WorkflowInput \<Rightarrow> streamBatch \<Rightarrow> werr option \<Rightarrow> event list \<Rightarrow> bool" where
  "roundTail input b err tls \<longleftrightarrow> length tls \<le> 3 \<and>
     ((\<forall>e\<in>set tls. commitFree (fst e) (ev_call e))
      \<or> (\<exists>c tls' cp. tls = c # tls' \<and> err = None \<and> sb_Checkpoint b = Some cp
           \<and> ev_call c = CommitSourceCursors (win_TenantID input) [(sb_ConnectionID b, cp)]
           \<and> (\<forall>e\<in>set tls'. commitFree (fst e) (ev_call e))))"

lemma tail_ex:
  "tr = tls @ rest \<Longrightarrow> P tls \<Longrightarrow> wfRuns (k res' m') rest r \<Longrightarrow>
     \<exists>tls rest res' m'. tr = tls @ rest \<and> P tls \<and> wfRuns (k res' m') rest r"
  by blast

definition shortTail :: "event list \<Rightarrow> bool" where
  "shortTail tls \<longleftrightarrow> length tls \<le> 2 \<and> (\<forall>e\<in>set tls. commitFree (fst e) (ev_call e))"

lemma countRound_runs:
  assumes "wfRuns (countRound perSecond input start b m k) tr r"
  shows "\<exists>tls rest res' m'. tr = tls @ rest \<and> shortTail tls \<and> wfRuns (k res' m') rest r"
proof -
  let ?m = "\<lambda>now. countBatch perSecond (sb_Count b) (getTime now - start) m"
  obtain now tr1 where t: "tr = (streamOptions input, ReadClock, now) # tr1"
    and w: "wfRuns (if sb_Count b = 0 then Act (streamOptions input) (SleepFor timeSecond) (\<lambda>_. k (sb_Results b) (?m now))
              else k (sb_Results b) (?m now)) tr1 r"
    using assms unfolding countRound_def wfRuns_Act_ex Let_def by blast
  show ?thesis
  proof (cases "sb_Count b = 0")
    case True
    obtain rep tr2 where u: "tr1 = (streamOptions input, SleepFor timeSecond, rep) # tr2" "wfRuns (k (sb_Results b) (?m now)) tr2 r"
      using w unfolding if_P [OF True] wfRuns_Act_ex by blast
    show ?thesis
      by (rule tail_ex [where k = k and tls = "[(streamOptions input, ReadClock, now), (streamOptions input, SleepFor timeSecond, rep)]", OF _ _ u(2)])
        (simp_all add: t u(1) shortTail_def commitFree_def)
  next
    case False
    have u: "wfRuns (k (sb_Results b) (?m now)) tr1 r" using w unfolding if_not_P [OF False] .
    show ?thesis
      by (rule tail_ex [where k = k and tls = "[(streamOptions input, ReadClock, now)]", OF _ _ u]) (simp_all add: t shortTail_def commitFree_def)
  qed
qed

lemma closeRound_runs:
  assumes "wfRuns (closeRound perSecond input start res b err m k) tr r"
  shows "\<exists>tls rest res' m'. tr = tls @ rest \<and> roundTail input b err tls \<and> wfRuns (k res' m') rest r"
proof (cases "err = None")
  case False
  obtain rep tr1 where u: "tr = (streamOptions input, SleepFor (2 * timeSecond), rep) # tr1" "wfRuns (k res (countError m)) tr1 r"
    using assms False unfolding closeRound_def if_P [OF False] wfRuns_Act_ex by blast
  show ?thesis
    by (rule tail_ex [where k = k and tls = "[(streamOptions input, SleepFor (2 * timeSecond), rep)]", OF _ _ u(2)])
      (simp_all add: u(1) roundTail_def commitFree_def)
next
  case err: True
  show ?thesis
  proof (cases "sb_Checkpoint b")
    case None
    with assms err have "wfRuns (countRound perSecond input start b m k) tr r" by (simp add: closeRound_def)
    from countRound_runs [OF this] obtain tls rest res' m' where u: "tr = tls @ rest" "shortTail tls" "wfRuns (k res' m') rest r" by blast
    then have "roundTail input b err tls" by (simp add: roundTail_def shortTail_def)
    with u show ?thesis by blast
  next
    case (Some cp)
    let ?c = "\<lambda>rep. (streamOptions input, CommitSourceCursors (win_TenantID input) [(sb_ConnectionID b, cp)], rep)"
    from assms err Some obtain rep tr1 where t: "tr = ?c rep # tr1"
      and w: "wfRuns (if isOk (getUnit rep) then countRound perSecond input start b m k else k (sb_Results b) (countError m)) tr1 r"
      by (auto simp: closeRound_def wfRuns_Act_ex)
    have tail: "roundTail input b err (?c rep # tls)" if "shortTail tls" for tls
      using that err Some by (simp add: roundTail_def shortTail_def)
    show ?thesis
    proof (cases "isOk (getUnit rep)")
      case True
      with w have "wfRuns (countRound perSecond input start b m k) tr1 r" by simp
      from countRound_runs [OF this] obtain tls rest res' m' where u: "tr1 = tls @ rest" "shortTail tls" "wfRuns (k res' m') rest r" by blast
      have "tr = (?c rep # tls) @ rest" by (simp add: t u(1))
      with tail [OF u(2)] u(3) show ?thesis by blast
    next
      case False
      then have u: "wfRuns (k (sb_Results b) (countError m)) tr1 r" using w by simp
      have "tr = (?c rep # []) @ tr1" by (simp add: t)
      with tail [of "[]"] u show ?thesis by (metis empty_iff le0 list.set(1) list.size(3) shortTail_def)
    qed
  qed
qed

lemma streamRound_runs:
  assumes "wfRuns (streamRound perSecond cap input plan res m k) tr r"
  obtains start seg beat b err tls rest res' m' where "tr = (start # seg @ beat # tls) @ rest"
    "ev_call start = ReadClock" "ev_call beat = ReadClock"
    "batchRun cap input (plan_Incoming plan) (concat (plan_Levels plan)) emptyBatch seg (b, err)"
    "roundTail input b err tls" "wfRuns (k res' m') rest r"
proof -
  obtain start tr1 where t1: "tr = (streamOptions input, ReadClock, start) # tr1"
    and w1: "wfRuns (runStreamBatch cap input plan (\<lambda>b err.
       Act (streamOptions input) ReadClock (\<lambda>beat. closeRound perSecond input (getTime start) res b err
         (m\<lparr>stream_LastHeartbeat := formatRFC3339Nano (getTime beat), stream_LagRecords := sb_Lag b\<rparr>) k))) tr1 r"
    using assms unfolding streamRound_def wfRuns_Act_ex by blast
  from streamNodes_split [OF w1 [unfolded runStreamBatch_def]] obtain seg rest0 b err where t2: "tr1 = seg @ rest0"
    and br: "batchRun cap input (plan_Incoming plan) (concat (plan_Levels plan)) emptyBatch seg (b, err)"
    and w2: "wfRuns (Act (streamOptions input) ReadClock (\<lambda>beat. closeRound perSecond input (getTime start) res b err
         (m\<lparr>stream_LastHeartbeat := formatRFC3339Nano (getTime beat), stream_LagRecords := sb_Lag b\<rparr>) k)) rest0 r" by blast
  from w2 obtain beat tr2 where t3: "rest0 = (streamOptions input, ReadClock, beat) # tr2"
    and w3: "wfRuns (closeRound perSecond input (getTime start) res b err
         (m\<lparr>stream_LastHeartbeat := formatRFC3339Nano (getTime beat), stream_LagRecords := sb_Lag b\<rparr>) k) tr2 r"
    unfolding wfRuns_Act_ex by blast
  from closeRound_runs [OF w3] obtain tls rest res' m' where "tr2 = tls @ rest" "roundTail input b err tls" "wfRuns (k res' m') rest r"
    by blast
  with t1 t2 t3 br that [of "(streamOptions input, ReadClock, start)" seg "(streamOptions input, ReadClock, beat)" tls rest b err res' m']
  show ?thesis by simp
qed

lemma round_guarded:
  assumes "ev_call start = ReadClock" "ev_call beat = ReadClock"
    and "batchRun cap input (plan_Incoming plan) (concat (plan_Levels plan)) emptyBatch seg (b, err)" "roundTail input b err tls"
  shows "commitsGuarded cap input plan (start # seg @ beat # tls)"
proof -
  have free: "\<forall>e\<in>set (start # seg @ [beat]). commitFree (fst e) (ev_call e)"
    using batchRun_free [OF assms(3)] assms(1,2) by (auto simp: commitFree_def)
  consider "\<forall>e\<in>set tls. commitFree (fst e) (ev_call e)"
    | c tls' cp where "tls = c # tls'" "err = None" "sb_Checkpoint b = Some cp"
        "ev_call c = CommitSourceCursors (win_TenantID input) [(sb_ConnectionID b, cp)]" "\<forall>e\<in>set tls'. commitFree (fst e) (ev_call e)"
    using assms(4) unfolding roundTail_def by blast
  then show ?thesis
  proof cases
    case 1
    then show ?thesis using free by (intro commitsGuarded_free) auto
  next
    case 2
    have "afterBatch cap input plan (start # seg @ [beat]) t cs" if "ev_call c = CommitSourceCursors t cs" for t cs
      unfolding afterBatch_def using that 2 assms(3)
      by (intro conjI exI [of _ "[start]"] exI [of _ seg] exI [of _ beat] exI [of _ b] exI [of _ cp]) auto
    then have "commitsGuarded cap input plan ((start # seg @ [beat]) @ [c])" by (intro commitsGuarded_snoc free)
    from commitsGuarded_append [OF this commitsGuarded_free [OF 2(5)]] show ?thesis using 2(1) by simp
  qed
qed


section \<open>The calls of a run are bounded\<close>

lemma evalEdges_length:
  assumes "\<And>t y. procRuns p t y \<Longrightarrow> length t \<le> m"
  shows "procRuns (evalEdges opts input node res es p) tr x \<Longrightarrow> length tr \<le> length es + m"
proof (induction es arbitrary: tr)
  case Nil
  then show ?case using assms by simp
next
  case (Cons e es)
  show ?case
  proof (cases "edge_Condition e = []")
    case True
    then show ?thesis using Cons.IH [of tr] Cons.prems by simp
  next
    case False
    with Cons.prems obtain rep tr' where t: "tr = (opts, EvalEdgeCondition (edge_Condition e) (upstreamRef res e) (win_EncryptedDEK input), rep) # tr'"
      and p: "procRuns (case getBool rep of Inl err \<Rightarrow> PRet (failed (node_ID node) err)
         | Inr allowed \<Rightarrow> if allowed then evalEdges opts input node res es p else PRet (skipped (node_ID node))) tr' x"
      by (auto simp: procRuns_PAct)
    have "length tr' \<le> length es + m"
      using p Cons.IH [of tr'] by (auto split: sum.splits if_splits)
    then show ?thesis by (simp add: t)
  qed
qed

lemma runNode_length:
  assumes "procRuns (runNode opts cap input node incoming res) tr x" "node_Type node \<noteq> ''source''"
  shows "length tr \<le> 1 + length (incoming (node_ID node))"
proof -
  have one: "procRuns (PAct opts c (\<lambda>rep. case getNode rep of Inl err \<Rightarrow> PRet (failed (node_ID node) err) | Inr result \<Rightarrow> PRet result)) t y
      \<Longrightarrow> length t \<le> 1" for c t y
  proof -
    assume "procRuns (PAct opts c (\<lambda>rep. case getNode rep of Inl err \<Rightarrow> PRet (failed (node_ID node) err) | Inr result \<Rightarrow> PRet result)) t y"
    then obtain rep t' where "t = (opts, c, rep) # t'"
      "procRuns (case getNode rep of Inl err \<Rightarrow> PRet (failed (node_ID node) err) | Inr result \<Rightarrow> PRet result) t' y"
      by (auto simp only: procRuns_PAct)
    then show "length t \<le> 1" by (cases "getNode rep") auto
  qed
  have body: "length t \<le> 1" if "procRuns (runBody opts cap input node es res) t y" for es t y
    using that assms(2) one by (fastforce simp: runBody_def Let_def split: if_splits)
  show ?thesis
    using assms(1) evalEdges_length [OF body]
    by (fastforce simp: runNode_def Let_def split: if_splits)
qed

lemma batchRun_length:
  "batchRun cap input incoming ns b seg r \<Longrightarrow> length seg \<le> sum_list (map (\<lambda>n. 1 + length (incoming (node_ID n))) ns)"
proof (induction ns arbitrary: b seg)
  case (Cons node ns)
  show ?case
  proof (cases "node_Type node = ''source''")
    case True
    obtain rep seg' where s: "seg = (streamOptions input, fetchCall input node, rep) # seg'"
      and w: "case getStreamPage rep of Inl err \<Rightarrow> wfRuns (Ret (lostBatch input node b, Some err)) seg' r
         | Inr pl \<Rightarrow> batchRun cap input incoming ns (takePage input node pl b) seg' r"
      using streamNodes_source [OF True, THEN iffD1, OF Cons.prems] by blast
    have "length seg' \<le> sum_list (map (\<lambda>n. 1 + length (incoming (node_ID n))) ns)"
    proof (cases "getStreamPage rep")
      case (Inr pl)
      then show ?thesis using w Cons.IH [of "takePage input node pl b" seg'] by simp
    qed (use w in simp)
    then show ?thesis by (simp add: s)
  next
    case False
    obtain tr1 x tr2 where t: "seg = tr1 @ tr2"
      and p: "procRuns (runNode (streamOptions input) cap input node incoming (sb_Results b)) tr1 x"
      and w: "if res_Status x = ''failed'' then wfRuns (Ret (b\<lparr>sb_Checkpoint := None\<rparr>, Some (nodeError node x))) tr2 r
           else batchRun cap input incoming ns (putResult node x b) tr2 r"
      using streamNodes_node [OF False, THEN iffD1, OF Cons.prems] by blast
    have "length tr2 \<le> sum_list (map (\<lambda>n. 1 + length (incoming (node_ID n))) ns)"
      using w Cons.IH [of "putResult node x b" tr2] by (auto split: if_splits)
    then show ?thesis using runNode_length [OF p False] by (simp add: t)
  qed
qed simp

definition streamCost :: "executionPlan \<Rightarrow> nat" where
  "streamCost plan = sum_list (map (\<lambda>n. 1 + length (plan_Incoming plan (node_ID n))) (concat (plan_Levels plan)))"

lemma incoming_total:
  "distinct (nodeIDs ns) \<Longrightarrow> sum_list (map (\<lambda>n. length (filter (\<lambda>e. edge_Target e = node_ID n) es)) ns) \<le> length es"
proof (induction es)
  case (Cons e es)
  have "sum_list (map (\<lambda>n. length (filter (\<lambda>e. edge_Target e = node_ID n) (e # es))) ns)
      = sum_list (map (\<lambda>n. (if edge_Target e = node_ID n then 1 else 0) + length (filter (\<lambda>e. edge_Target e = node_ID n) es)) ns)"
    by (intro arg_cong [where f = sum_list] map_cong) auto
  also have "\<dots> = sum_list (map (\<lambda>n. if edge_Target e = node_ID n then 1 else 0 :: nat) ns)
      + sum_list (map (\<lambda>n. length (filter (\<lambda>e. edge_Target e = node_ID n) es)) ns)"
    by (simp add: sum_list_addf)
  also have "sum_list (map (\<lambda>n. if edge_Target e = node_ID n then 1 else 0 :: nat) ns) \<le> 1"
    using Cons.prems(1) by (induction ns) (auto split: if_splits simp: sum_list_eq_0_iff)
  finally show ?case using Cons by simp
qed simp

lemma sum_list_Suc: "sum_list (map (\<lambda>n. 1 + f n) ns) = length ns + sum_list (map f ns)" for f :: "'a \<Rightarrow> nat"
  by (induction ns) auto

lemma streamCost_bound:
  assumes "buildPlan nodes edges = Ok plan" "distinct (map node_ID nodes)"
  shows "streamCost plan \<le> length nodes + length edges"
proof -
  have m: "mset (concat (plan_Levels plan)) = mset nodes" by (rule buildPlan_levels(3) [OF assms(2,1)])
  have i: "plan_Incoming plan k = filter (\<lambda>e. edge_Target e = k) edges" for k
    by (rule buildPlan_incoming [OF assms(1)])
  have "streamCost plan = sum_mset (image_mset (\<lambda>n. 1 + length (plan_Incoming plan (node_ID n))) (mset (concat (plan_Levels plan))))"
    by (simp only: streamCost_def sum_mset_sum_list [symmetric] mset_map)
  also have "\<dots> = sum_list (map (\<lambda>n. 1 + length (filter (\<lambda>e. edge_Target e = node_ID n) edges)) nodes)"
    by (simp only: m i sum_mset_sum_list [symmetric] mset_map)
  also have "\<dots> = length nodes + sum_list (map (\<lambda>n. length (filter (\<lambda>e. edge_Target e = node_ID n) edges)) nodes)"
    by (rule sum_list_Suc)
  finally show ?thesis using incoming_total [of nodes edges] assms(2) by simp
qed

lemma round_length:
  assumes "batchRun cap input (plan_Incoming plan) (concat (plan_Levels plan)) emptyBatch seg (b, err)" "roundTail input b err tls"
  shows "length (start # seg @ beat # tls) \<le> 5 + streamCost plan"
  using batchRun_length [OF assms(1)] assms(2) by (simp add: roundTail_def streamCost_def)

text \<open>How a run of the loop ends.\<close>

definition streamEnd :: "WorkflowInput \<Rightarrow> runEnd \<Rightarrow> bool" where
  "streamEnd input out \<longleftrightarrow> (\<exists>st. out = RunDone st \<and> status_Phase st = ''cancelled'') \<or> (\<exists>m. out = RunContinue (input\<lparr>win_Stream := Some m\<rparr>))"

lemma streamLoop_runs:
  "wfRuns (streamLoop perSecond cap info input plan n res m) tr out \<Longrightarrow>
     length tr \<le> n * (7 + streamCost plan) \<and> commitsGuarded cap input plan tr \<and> streamEnd input out"
proof (induction n arbitrary: res m tr)
  case 0
  then show ?case by (auto simp: streamLoop.simps commitsGuarded_def streamEnd_def)
next
  case (Suc n)
  let ?c = "cancelStream info input res m"
  let ?body = "streamRound perSecond cap input plan res m (streamLoop perSecond cap info input plan n)"
  have free: "commitFree o' DrainSignals" "commitFree o' SelectSignal" "commitFree o' (MarkExecution x y)" for o' x y
    by (simp_all add: commitFree_def)
  have cancel: "length t \<le> 1 \<and> commitsGuarded cap input plan t \<and> streamEnd input out" if "wfRuns ?c t out" for t
  proof -
    have "length t = 1 \<and> (\<forall>e\<in>set t. commitFree (fst e) (ev_call e)) \<and> streamEnd input out"
      using that by (auto simp: cancelStream_def wfRuns_Act_ex free endStatus_def streamEnd_def)
    then show ?thesis using commitsGuarded_free by auto
  qed
  have body: "length t \<le> 5 + streamCost plan + n * (7 + streamCost plan) \<and> commitsGuarded cap input plan t \<and> streamEnd input out"
    if "wfRuns ?body t out" for t
  proof -
    obtain start seg beat b err tls rest res' m' where r: "t = (start # seg @ beat # tls) @ rest" "ev_call start = ReadClock" "ev_call beat = ReadClock"
      "batchRun cap input (plan_Incoming plan) (concat (plan_Levels plan)) emptyBatch seg (b, err)"
      "roundTail input b err tls" "wfRuns (streamLoop perSecond cap info input plan n res' m') rest out"
      by (rule streamRound_runs [OF \<open>wfRuns ?body t out\<close>]) blast
    note ih = Suc.IH [OF r(6)]
    have "commitsGuarded cap input plan t"
      unfolding r(1) by (rule commitsGuarded_append [OF round_guarded [OF r(2-5)]]) (use ih in blast)
    moreover have "length t \<le> 5 + streamCost plan + n * (7 + streamCost plan)"
      using round_length [OF r(4,5), of start beat] ih unfolding r(1) length_append by linarith
    ultimately show ?thesis using ih by blast
  qed
  obtain rep tr1 where t1: "tr = (streamOptions input, DrainSignals, rep) # tr1"
    and w1: "wfRuns (let (paused, cancelled) = drainSignals rep False in
        if cancelled then ?c else if paused then Act (streamOptions input) SelectSignal (\<lambda>rep. if rep = RSelect True then ?c else ?body) else ?body) tr1 out"
    using Suc.prems unfolding streamLoop.simps Let_def wfRuns_Act_ex by blast
  obtain paused cancelled where d: "drainSignals rep False = (paused, cancelled)" by fastforce
  have prefix1: "commitsGuarded cap input plan ((streamOptions input, DrainSignals, rep) # t)" if "commitsGuarded cap input plan t" for t
    using commitsGuarded_append [OF commitsGuarded_free that, of "[(streamOptions input, DrainSignals, rep)]"] free by simp
  have prefix2: "commitsGuarded cap input plan ((streamOptions input, SelectSignal, rep2) # t)" if "commitsGuarded cap input plan t" for t rep2
    using commitsGuarded_append [OF commitsGuarded_free that, of "[(streamOptions input, SelectSignal, rep2)]"] free by simp
  consider "wfRuns ?c tr1 out" | "wfRuns ?body tr1 out"
    | rep2 tr2 where "tr1 = (streamOptions input, SelectSignal, rep2) # tr2" "wfRuns ?c tr2 out \<or> wfRuns ?body tr2 out"
  proof (cases "cancelled \<or> \<not> paused")
    case True
    then show ?thesis using w1 that(1,2) by (auto simp: d split: if_splits)
  next
    case False
    then have "wfRuns (Act (streamOptions input) SelectSignal (\<lambda>rep. if rep = RSelect True then ?c else ?body)) tr1 out"
      using w1 by (simp add: d)
    then obtain rep2 tr2 where "tr1 = (streamOptions input, SelectSignal, rep2) # tr2" "wfRuns (if rep2 = RSelect True then ?c else ?body) tr2 out"
      unfolding wfRuns_Act_ex by blast
    then show ?thesis using that(3) by (auto split: if_splits)
  qed
  then show ?case
  proof cases
    case 1
    then show ?thesis using cancel [OF 1] prefix1 by (simp add: t1)
  next
    case 2
    then show ?thesis using body [OF 2] prefix1 by (simp add: t1)
  next
    case 3
    then show ?thesis using cancel [of tr2] body [of tr2] prefix1 prefix2 by (auto simp: t1)
  qed
qed


section \<open>Spark and Flink runs\<close>

lemma sparkDone_runs:
  "wfRuns (sparkDone info input phase) tr out \<longleftrightarrow>
     (\<exists>rep. tr = [(engineOptions input 2, MarkExecution (win_ExecutionID input) phase, rep)]) \<and> out = RunDone (endStatus info input phase)"
  by (auto simp: sparkDone_def sparkMark_def wfRuns_Act_ex)

lemma status_Phase_endStatus [simp]: "status_Phase (endStatus info input phase) = phase"
  by (simp add: endStatus_def)

text \<open>One poll of the loop.\<close>

lemma sparkPoll_runs:
  assumes "wfRuns (sparkPoll info input ref (Suc n)) tr out"
  obtains rep err where "tr = [(engineOptions input 2, SparkJobStatus ref, rep)]" "getSparkStatus rep = Err err" "out = RunError err"
  | rep rep2 e err where "tr = [(engineOptions input 2, SparkJobStatus ref, rep),
        (engineOptions input 2, CommitSparkJob ref (win_Definition input) (win_TenantID input), rep2)]"
      "getSparkStatus rep = Ok (''COMPLETED'', e)" "getUnit rep2 = Err err" "out = RunError err"
  | rep cr e m where "tr = [(engineOptions input 2, SparkJobStatus ref, rep),
        (engineOptions input 2, CommitSparkJob ref (win_Definition input) (win_TenantID input), cr), m]"
      "getSparkStatus rep = Ok (''COMPLETED'', e)" "isOk (getUnit cr)" "ev_call m = MarkExecution (win_ExecutionID input) ''completed''"
      "out = RunDone (endStatus info input ''completed'')"
  | rep state e m err where "tr = [(engineOptions input 2, SparkJobStatus ref, rep), m]" "getSparkStatus rep = Ok (state, e)"
      "state \<in> set sparkFailedStates" "ev_call m = MarkExecution (win_ExecutionID input) ''failed''" "out = RunError err"
  | rep state e sel rep2 m where "tr = [(engineOptions input 2, SparkJobStatus ref, rep), (engineOptions input 2, SelectSpark, sel),
        (engineOptions input 2, CancelSparkJob ref, rep2), m]" "getSparkStatus rep = Ok (state, e)" "sel = RBool True \<or> state = ''CANCELLING''"
      "ev_call m = MarkExecution (win_ExecutionID input) ''cancelled''" "out = RunDone (endStatus info input ''cancelled'')"
  | rep state e sel tr' where "tr = (engineOptions input 2, SparkJobStatus ref, rep) # (engineOptions input 2, SelectSpark, sel) # tr'"
      "getSparkStatus rep = Ok (state, e)" "state \<notin> set (''COMPLETED'' # ''CANCELLING'' # sparkFailedStates)" "sel \<noteq> RBool True"
      "wfRuns (sparkPoll info input ref n) tr' out"
proof -
  let ?o = "engineOptions input 2"
  obtain rep tr1 where t: "tr = (?o, SparkJobStatus ref, rep) # tr1" and
    w: "wfRuns (case getSparkStatus rep of
        Inl err \<Rightarrow> Ret (RunError err)
      | Inr (state, lastError) \<Rightarrow>
          if state = ''COMPLETED'' then
            Act ?o (CommitSparkJob ref (win_Definition input) (win_TenantID input)) (\<lambda>rep. case getUnit rep of
              Inl err \<Rightarrow> Ret (RunError err)
            | Inr _ \<Rightarrow> sparkDone info input ''completed'')
          else if state \<in> set sparkFailedStates then
            sparkMark info input ''failed'' (RunError (WErr (''SparkApplication '' @ spark_Name ref @ '' failed: '' @ lastError)))
          else Act ?o SelectSpark (\<lambda>rep.
            if rep = RBool True \<or> state = ''CANCELLING''
            then Act ?o (CancelSparkJob ref) (\<lambda>_. sparkDone info input ''cancelled'')
            else sparkPoll info input ref n)) tr1 out"
    using assms unfolding sparkPoll.simps Let_def wfRuns_Act_ex by blast
  show ?thesis
  proof (cases "getSparkStatus rep")
    case (Inl err)
    then show ?thesis using w t that(1) by simp
  next
    case (Inr se)
    obtain state e where se: "se = (state, e)" by fastforce
    note st = Inr [unfolded se]
    show ?thesis
    proof (cases "state = ''COMPLETED''")
      case True
      with w st obtain rep2 tr2 where t2: "tr1 = (?o, CommitSparkJob ref (win_Definition input) (win_TenantID input), rep2) # tr2"
        and w2: "wfRuns (case getUnit rep2 of Inl err \<Rightarrow> Ret (RunError err) | Inr _ \<Rightarrow> sparkDone info input ''completed'') tr2 out"
        by (auto simp: wfRuns_Act_ex)
      show ?thesis
      proof (cases "getUnit rep2")
        case (Inl err)
        then show ?thesis using w2 t t2 st True that(2) by auto
      next
        case (Inr u)
        then show ?thesis using w2 t t2 st True that(3) [where rep = rep and cr = rep2 and e = e] by (auto simp: sparkDone_runs isOk_def)
      qed
    next
      case nc: False
      show ?thesis
      proof (cases "state \<in> set sparkFailedStates")
        case True
        then show ?thesis using w st nc t that(4) [where rep = rep and state = state and e = e] by (auto simp: sparkMark_def wfRuns_Act_ex)
      next
        case False
        with w st nc obtain sel tr2 where t2: "tr1 = (?o, SelectSpark, sel) # tr2"
          and w2: "wfRuns (if sel = RBool True \<or> state = ''CANCELLING'' then Act ?o (CancelSparkJob ref) (\<lambda>_. sparkDone info input ''cancelled'')
              else sparkPoll info input ref n) tr2 out"
          by (auto simp: wfRuns_Act_ex)
        show ?thesis
        proof (cases "sel = RBool True \<or> state = ''CANCELLING''")
          case True
          then show ?thesis using w2 t t2 st that(5) [where rep = rep and state = state and e = e and sel = sel] by (auto simp: wfRuns_Act_ex sparkDone_runs)
        next
          case c: False
          then show ?thesis using w2 t t2 st nc False that(6) [where rep = rep and state = state and e = e and sel = sel and tr' = tr2] by auto
        qed
      qed
    qed
  qed
qed

text \<open>A final status was written to the database by the last call, and is justified by the calls before it.\<close>

definition sparkJustified :: "WorkflowInput \<Rightarrow> SparkJobRef \<Rightarrow> event list \<Rightarrow> string \<Rightarrow> bool" where
  "sparkJustified input ref tr phase \<longleftrightarrow>
     phase = ''completed'' \<and> (\<exists>pre o' rep c e m. tr = pre @ [(o', SparkJobStatus ref, rep), c, m] \<and> getSparkStatus rep = Ok (''COMPLETED'', e)
        \<and> ev_call c = CommitSparkJob ref (win_Definition input) (win_TenantID input) \<and> isOk (getUnit (snd (snd c)))
        \<and> ev_call m = MarkExecution (win_ExecutionID input) phase)
   \<or> phase = ''cancelled'' \<and> (\<exists>pre sel c m. tr = pre @ [sel, c, m] \<and> ev_call sel = SelectSpark \<and> ev_call c = CancelSparkJob ref
        \<and> ev_call m = MarkExecution (win_ExecutionID input) phase)"

lemma sparkJustified_Cons: "sparkJustified input ref tr phase \<Longrightarrow> sparkJustified input ref (x # tr) phase"
  unfolding sparkJustified_def by (metis append_Cons)

definition quietPoll :: "event \<Rightarrow> bool" where
  "quietPoll e \<longleftrightarrow> (case e of
     (_, SparkJobStatus _, rep) \<Rightarrow> (\<exists>state err. getSparkStatus rep = Ok (state, err) \<and> state \<notin> set (''COMPLETED'' # sparkFailedStates))
   | (_, SelectSpark, rep) \<Rightarrow> rep \<noteq> RBool True
   | _ \<Rightarrow> False)"

lemma sparkPoll_done: "wfRuns (sparkPoll info input ref n) tr (RunDone st) \<Longrightarrow> sparkJustified input ref tr (status_Phase st)"
proof (induction n arbitrary: tr)
  case 0
  then show ?case by (simp add: sparkPoll.simps)
next
  case (Suc n)
  from Suc.prems show ?case
  proof (cases rule: sparkPoll_runs)
    case (3 rep rep2 e m)
    then show ?thesis
      unfolding sparkJustified_def by (intro disjI1 conjI) fastforce+
  next
    case (5 rep state e sel rep2 m)
    then show ?thesis
      unfolding sparkJustified_def by (intro disjI2 conjI exI [of _ "[hd tr]"]) auto
  next
    case (6 rep state e sel tr')
    then show ?thesis using Suc.IH sparkJustified_Cons by blast
  qed simp_all
qed

lemma sparkPoll_polling:
  "wfRuns (sparkPoll info input ref n) tr RunPolling \<Longrightarrow> length tr = 2 * n \<and> list_all quietPoll tr"
proof (induction n arbitrary: tr)
  case 0
  then show ?case by (simp add: sparkPoll.simps)
next
  case (Suc n)
  from Suc.prems show ?case
  proof (cases rule: sparkPoll_runs)
    case (6 rep state e sel tr')
    then show ?thesis using Suc.IH [of tr'] by (auto simp: quietPoll_def)
  qed simp_all
qed

text \<open>The signals that the selector took and the actions that were asked for.\<close>

fun takenSignal :: "event \<Rightarrow> string option" where
  "takenSignal (_, SelectFlink, rep) = (if flinkSelected rep = [] then None else Some (flinkSelected rep))"
| "takenSignal _ = None"

fun askedAction :: "event \<Rightarrow> string option" where
  "askedAction (_, FlinkJobAction _ a _, _) = Some a"
| "askedAction _ = None"

definition flinkSignals :: "event list \<Rightarrow> string list" where "flinkSignals tr = List.map_filter takenSignal tr"
definition flinkActions :: "event list \<Rightarrow> string list" where "flinkActions tr = List.map_filter askedAction tr"

lemma flinkSignals_simps [simp]:
  "flinkSignals [] = []" "flinkSignals (e # tr) = (case takenSignal e of None \<Rightarrow> flinkSignals tr | Some a \<Rightarrow> a # flinkSignals tr)"
  by (simp_all add: flinkSignals_def map_filter_def split: option.splits)

lemma flinkActions_simps [simp]:
  "flinkActions [] = []" "flinkActions (e # tr) = (case askedAction e of None \<Rightarrow> flinkActions tr | Some a \<Rightarrow> a # flinkActions tr)"
  by (simp_all add: flinkActions_def map_filter_def split: option.splits)

fun desiredAfter :: "string \<Rightarrow> string list \<Rightarrow> string" where
  "desiredAfter d [] = d"
| "desiredAfter d (a # as) = desiredAfter (if a = ''pause'' then ''paused'' else ''running'') as"

definition flinkEnd :: "WorkflowInput \<Rightarrow> string \<Rightarrow> string \<Rightarrow> string list \<Rightarrow> runEnd \<Rightarrow> bool" where
  "flinkEnd input ref d acts out \<longleftrightarrow> (case out of
     RunDone st \<Rightarrow> status_Phase st = ''cancelled'' \<and> acts \<noteq> [] \<and> last acts = ''cancel'' \<and> ''cancel'' \<notin> set (butlast acts)
   | RunError _ \<Rightarrow> True
   | RunContinue i \<Rightarrow> ''cancel'' \<notin> set acts \<and> (\<exists>s. i = input\<lparr>win_Flink := Some s\<rparr> \<and> flink_CohestraID s = ref
        \<and> flink_DesiredState s = desiredAfter d acts)
   | RunPolling \<Rightarrow> False)"

lemma flinkEnd_Cons:
  "flinkEnd input ref (if a = ''pause'' then ''paused'' else ''running'') acts out \<Longrightarrow> a \<noteq> ''cancel'' \<Longrightarrow> flinkEnd input ref d (a # acts) out"
  by (cases out) (simp_all add: flinkEnd_def)

lemma flinkPoll_runs:
  "wfRuns (flinkPoll info input n st) tr out \<Longrightarrow>
     flinkActions tr = flinkSignals tr \<and> length tr \<le> 3 * n + 1
     \<and> flinkEnd input (flink_CohestraID st) (flink_DesiredState st) (flinkActions tr) out"
proof (induction n arbitrary: st tr)
  case 0
  then show ?case by (auto simp: flinkPoll.simps flinkEnd_def)
next
  case (Suc n)
  let ?o = "engineOptions input 1"
  obtain rep tr1 where t: "tr = (?o, FlinkJobStatus (flink_CohestraID st), rep) # tr1"
    and w: "wfRuns (case getFlinkStatus rep of
        Inl err \<Rightarrow> Act ?o (RecordFlinkError (win_ExecutionID input) (errText err)) (\<lambda>_. Ret (RunError err))
      | Inr status \<Rightarrow>
          if fds_State status = ''FAILED'' \<or> fds_State status = ''DEGRADED'' then
            Act ?o (RecordFlinkError (win_ExecutionID input) (fds_Error status)) (\<lambda>_.
              Act ?o (MarkExecution (win_ExecutionID input) ''failed'') (\<lambda>_. Ret (RunError (WErr (''Flink deployment failed: '' @ fds_Error status)))))
          else Act ?o SelectFlink (\<lambda>sig.
            if flinkSelected sig = [] then flinkPoll info input n (st\<lparr>flink_LastError := fds_Error status, flink_Checkpoint := fds_Checkpoint status\<rparr>)
            else Act ?o (FlinkJobAction (flink_CohestraID st) (flinkSelected sig) (win_ExecutionID input)) (\<lambda>rep. case getUnit rep of
                Inl err \<Rightarrow> Ret (RunError err)
              | Inr _ \<Rightarrow>
                  if flinkSelected sig = ''cancel'' then
                    Act ?o (MarkExecution (win_ExecutionID input) ''cancelled'') (\<lambda>_. Ret (RunDone (endStatus info input ''cancelled'')))
                  else flinkPoll info input n (st\<lparr>flink_LastError := fds_Error status, flink_Checkpoint := fds_Checkpoint status,
                    flink_DesiredState := (if flinkSelected sig = ''pause'' then ''paused'' else ''running'')\<rparr>)))) tr1 out"
    using Suc.prems unfolding flinkPoll.simps Let_def wfRuns_Act_ex by blast
  show ?case
  proof (cases "getFlinkStatus rep")
    case (Inl err)
    then show ?thesis using w t by (auto simp: wfRuns_Act_ex flinkEnd_def)
  next
    case (Inr status)
    show ?thesis
    proof (cases "fds_State status = ''FAILED'' \<or> fds_State status = ''DEGRADED''")
      case True
      then show ?thesis using w t Inr by (auto simp: wfRuns_Act_ex flinkEnd_def)
    next
      case False
      let ?st = "st\<lparr>flink_LastError := fds_Error status, flink_Checkpoint := fds_Checkpoint status\<rparr>"
      from w Inr False obtain sig tr2 where t2: "tr1 = (?o, SelectFlink, sig) # tr2" and
        w2: "wfRuns (if flinkSelected sig = [] then flinkPoll info input n ?st
            else Act ?o (FlinkJobAction (flink_CohestraID st) (flinkSelected sig) (win_ExecutionID input)) (\<lambda>rep. case getUnit rep of
                Inl err \<Rightarrow> Ret (RunError err)
              | Inr _ \<Rightarrow>
                  if flinkSelected sig = ''cancel'' then
                    Act ?o (MarkExecution (win_ExecutionID input) ''cancelled'') (\<lambda>_. Ret (RunDone (endStatus info input ''cancelled'')))
                  else flinkPoll info input n (?st\<lparr>flink_DesiredState := (if flinkSelected sig = ''pause'' then ''paused'' else ''running'')\<rparr>))) tr2 out"
        by (auto simp: wfRuns_Act_ex)
      show ?thesis
      proof (cases "flinkSelected sig = []")
        case True
        then have "wfRuns (flinkPoll info input n ?st) tr2 out" using w2 by simp
        from Suc.IH [OF this] show ?thesis unfolding t t2 using True by (elim conjE) simp
      next
        case sig: False
        with w2 obtain rep2 tr3 where t3: "tr2 = (?o, FlinkJobAction (flink_CohestraID st) (flinkSelected sig) (win_ExecutionID input), rep2) # tr3"
          and w3: "wfRuns (case getUnit rep2 of
                Inl err \<Rightarrow> Ret (RunError err)
              | Inr _ \<Rightarrow>
                  if flinkSelected sig = ''cancel'' then
                    Act ?o (MarkExecution (win_ExecutionID input) ''cancelled'') (\<lambda>_. Ret (RunDone (endStatus info input ''cancelled'')))
                  else flinkPoll info input n (?st\<lparr>flink_DesiredState := (if flinkSelected sig = ''pause'' then ''paused'' else ''running'')\<rparr>)) tr3 out"
          by (auto simp: wfRuns_Act_ex)
        show ?thesis
        proof (cases "getUnit rep2")
          case (Inl err)
          then show ?thesis using w3 sig by (simp add: t t2 t3 flinkEnd_def)
        next
          case (Inr u)
          show ?thesis
          proof (cases "flinkSelected sig = ''cancel''")
            case True
            then show ?thesis using w3 Inr by (auto simp: t t2 t3 wfRuns_Act_ex flinkEnd_def)
          next
            case nc: False
            let ?st2 = "?st\<lparr>flink_DesiredState := (if flinkSelected sig = ''pause'' then ''paused'' else ''running'')\<rparr>"
            have "wfRuns (flinkPoll info input n ?st2) tr3 out" using w3 Inr nc by simp
            from Suc.IH [OF this] flinkEnd_Cons [OF _ nc, of input "flink_CohestraID st" "flinkActions tr3" out "flink_DesiredState st"]
            show ?thesis unfolding t t2 t3 using sig by (elim conjE) simp
          qed
        qed
      qed
    qed
  qed
qed


section \<open>Properties\<close>

definition streamInput :: WorkflowInput where
  "streamInput = sampleInput (sampleDef [sampleNode ''k'' ''sink'' ''sink.clickhouse'', sampleNode ''a'' ''source'' ''kafka.fetch'']
     [sampleEdge ''a'' ''k''])"

definition streamInfo :: wfInfo where
  "streamInfo = \<lparr>info_WorkflowID = ''wf'', info_RunID = ''run'', info_Namespace = ''test'', info_StartedAt = ''t0'', info_CompletedAt = ''t1''\<rparr>"

definition streamReplies :: "reply list" where
  "streamReplies = [RUnit, RTime 0, RStreamPage samplePage 7,
     RNode \<lparr>res_NodeID = ''k'', res_Status = ''success'', res_OutputRef = None, res_Meta = [], res_Error = []\<rparr>,
     RTime 1, RUnit, RTime 1, RSignals False False True, RUnit]"

abbreviation streamSample :: "runEnd wf" where
  "streamSample \<equiv> StreamDirectWorkflow (\<lambda>_ _. Dec 0 0) True streamInfo streamInput"

lemma streamSample_plays:
  "case playWf streamSample streamReplies of None \<Rightarrow> False
     | Some (tr, _) \<Rightarrow> length tr = 9 \<and> ev_call (tr ! 5) = CommitSourceCursors ''t1'' [(''p1:a'', [(''offset'', VInt 3)])]"
  by code_simp

lemma streamSample_facts:
  "wfRuns streamSample (played streamSample streamReplies) (playedEnd streamSample streamReplies)"
  "length (played streamSample streamReplies) = 9"
  "ev_call (played streamSample streamReplies ! 5) = CommitSourceCursors ''t1'' [(''p1:a'', [(''offset'', VInt 3)])]"
  using streamSample_plays played_runs [of streamSample streamReplies] by (simp_all add: played_def split: option.splits prod.splits)

lemma streamInput_facts:
  "distinct (map node_ID (def_Nodes (win_Definition streamInput)))"
  "length (def_Nodes (win_Definition streamInput)) = 2" "length (def_Edges (win_Definition streamInput)) = 1"
  by code_simp+

text \<open>C21: Streams commit after their batch. Every commit of source cursors in a run of a direct stream comes right
  after a whole batch: every node of the pipeline has a result in it, none failed, and the committed
  checkpoint is the one of the last page that this batch fetched, for the tenant of the input.\<close>

theorem stream_commit_guarded:
  assumes "wfRuns (StreamDirectWorkflow perSecond cap info input) tr out"
    and "distinct (map node_ID (def_Nodes (win_Definition input)))"
    and "tr = pre @ e # post" "ev_call e = CommitSourceCursors t cs"
  shows "t = win_TenantID input \<and> (\<exists>plan pre' seg beat b cp.
     buildPlan (def_Nodes (win_Definition input)) (def_Edges (win_Definition input)) = Ok plan
     \<and> pre = pre' @ seg @ [beat]
     \<and> wfRuns (runStreamBatch cap (streamDefaults info input) plan (\<lambda>b err. Ret (b, err))) seg (b, None)
     \<and> (\<forall>node\<in>set (def_Nodes (win_Definition input)).
          \<exists>x. map_of (sb_Results b) (node_ID node) = Some x \<and> res_Status x \<noteq> ''failed'')
     \<and> streamPages seg \<noteq> [] \<and> page_Checkpoint (last (streamPages seg)) = Some cp \<and> cs = [(sb_ConnectionID b, cp)])"
proof -
  let ?i = "streamDefaults info input"
  have i: "win_Definition ?i = win_Definition input" "win_TenantID ?i = win_TenantID input" by (simp_all add: streamDefaults_def)
  obtain plan where p: "buildPlan (def_Nodes (win_Definition input)) (def_Edges (win_Definition input)) = Ok plan"
    using assms(1,3) by (auto simp: StreamDirectWorkflow_def Let_def i split: sum.splits)
  have "commitsGuarded cap ?i plan tr"
    using assms(1) streamLoop_runs by (fastforce simp: StreamDirectWorkflow_def Let_def i p)
  then have "afterBatch cap ?i plan pre t cs" using assms(3,4) unfolding commitsGuarded_def by blast
  then obtain pre' seg beat b cp where b: "t = win_TenantID input" "pre = pre' @ seg @ [beat]"
    "batchRun cap ?i (plan_Incoming plan) (concat (plan_Levels plan)) emptyBatch seg (b, None)"
    "sb_Checkpoint b = Some cp" "cs = [(sb_ConnectionID b, cp)]"
    unfolding afterBatch_def i by blast
  have m: "mset (concat (plan_Levels plan)) = mset (def_Nodes (win_Definition input))" by (rule buildPlan_levels(3) [OF assms(2) p])
  then have "distinct (nodeIDs (concat (plan_Levels plan)))" using assms(2) by (metis mset_eq_imp_distinct_iff mset_map)
  from batchRun_results [OF b(3) this] m have r: "\<forall>node\<in>set (def_Nodes (win_Definition input)).
      \<exists>x. map_of (sb_Results b) (node_ID node) = Some x \<and> res_Status x \<noteq> ''failed''"
    using mset_eq_setD by blast
  have pg: "streamPages seg \<noteq> []" "page_Checkpoint (last (streamPages seg)) = Some cp"
    using batchRun_pages [OF b(3)] b(4) by (auto simp: emptyBatch_def split: if_splits)
  from p b r pg show ?thesis unfolding runStreamBatch_def by blast
qed

theorem stream_commit_guarded_witness:
  "let pre = take 5 (played streamSample streamReplies) in
     \<exists>pre' seg beat. pre = pre' @ seg @ [beat] \<and> page_Checkpoint (last (streamPages seg)) = Some [(''offset'', VInt 3)]"
proof -
  have s: "played streamSample streamReplies = take 5 (played streamSample streamReplies) @ played streamSample streamReplies ! 5
      # drop (Suc 5) (played streamSample streamReplies)"
    using streamSample_facts(2) by (intro id_take_nth_drop) simp
  from stream_commit_guarded [OF streamSample_facts(1) streamInput_facts(1) s streamSample_facts(3)] obtain pre' seg beat b cp
    where "take 5 (played streamSample streamReplies) = pre' @ seg @ [beat]" "page_Checkpoint (last (streamPages seg)) = Some cp"
      "[(''p1:a'', [(''offset'', VInt 3)])] = [(sb_ConnectionID (b :: streamBatch), cp)]" by blast
  moreover from this have "cp = [(''offset'', VInt 3)]" by simp
  ultimately show ?thesis unfolding Let_def by blast
qed

text \<open>C22: Streams run in bounded pieces. A run of a direct stream makes at most \<open>100 \<cdot> (7 + nodes + edges)\<close> calls
  whatever the replies are; it ends with an error only when the definition has no plan, with a status only
  when it was cancelled, and otherwise continues as a new run with the same input and its counters.\<close>

theorem stream_run_bounded:
  assumes "wfRuns (StreamDirectWorkflow perSecond cap info input) tr out"
    and "distinct (map node_ID (def_Nodes (win_Definition input)))"
  shows "length tr \<le> 100 * (7 + length (def_Nodes (win_Definition input)) + length (def_Edges (win_Definition input)))
    \<and> (case out of
         RunDone st \<Rightarrow> status_Phase st = ''cancelled''
       | RunError err \<Rightarrow> tr = [] \<and> (\<exists>pe. buildPlan (def_Nodes (win_Definition input)) (def_Edges (win_Definition input)) = Err pe)
       | RunContinue i \<Rightarrow> (\<exists>m. i = (streamDefaults info input)\<lparr>win_Stream := Some m\<rparr>)
       | RunPolling \<Rightarrow> False)"
proof -
  let ?i = "streamDefaults info input"
  have i: "win_Definition ?i = win_Definition input" by (simp add: streamDefaults_def)
  show ?thesis
  proof (cases "buildPlan (def_Nodes (win_Definition input)) (def_Edges (win_Definition input))")
    case (Inl pe)
    then show ?thesis using assms(1) by (simp add: StreamDirectWorkflow_def Let_def i)
  next
    case (Inr plan)
    have "length tr \<le> 100 * (7 + streamCost plan)" "streamEnd ?i out"
      using assms(1) streamLoop_runs [of perSecond cap info ?i plan 100] by (auto simp: StreamDirectWorkflow_def Let_def i Inr streamContinueAfter_def)
    moreover have "streamCost plan \<le> length (def_Nodes (win_Definition input)) + length (def_Edges (win_Definition input))"
      by (rule streamCost_bound [OF Inr assms(2)])
    ultimately show ?thesis by (auto simp: streamEnd_def)
  qed
qed

theorem stream_run_bounded_witness: "length (played streamSample streamReplies) \<le> 1000"
  using stream_run_bounded [OF streamSample_facts(1) streamInput_facts(1)] streamInput_facts(2,3) by simp



text \<open>Flink obeys its signals. A run of a Flink deployment asks for exactly the actions of the signals that its
  selector took, in that order, within 100 polls; it reports cancelled only when the last of them was the
  only cancellation, and otherwise continues with the same deployment and the state of the last signal.\<close>

theorem flink_obeys_signals:
  assumes "wfRuns (FlinkJobWorkflow info input) tr out" "win_Flink input = Some st" "flink_CohestraID st \<noteq> []"
  shows "flinkActions tr = flinkSignals tr \<and> length tr \<le> 301
    \<and> flinkEnd input (flink_CohestraID st) (flink_DesiredState st) (flinkSignals tr) out"
proof -
  have "wfRuns (flinkPoll info input 100 st) tr out"
    using assms by (simp add: FlinkJobWorkflow_def flinkContinueAfter_def)
  from flinkPoll_runs [OF this] show ?thesis by (elim conjE) simp
qed

theorem flink_obeys_signals_witness:
  "let st = \<lparr>flink_CohestraID = ''flink-deployment/e/n/x'', flink_DesiredState = ''running'', flink_LastError = [], flink_Checkpoint = []\<rparr>;
       ok = RFlinkStatus \<lparr>fds_State = ''RUNNING'', fds_Error = [], fds_Checkpoint = []\<rparr>;
       tr = played (FlinkJobWorkflow streamInfo (streamInput\<lparr>win_Flink := Some st\<rparr>))
         [ok, RPending True False False True, RUnit, ok, RPending False False True True, RUnit, ok, RPending False False False True, RUnit, RUnit]
   in flinkActions tr = flinkSignals tr \<and> flinkSignals tr = [''pause'', ''rollback'', ''cancel'']"
proof -
  let ?st = "\<lparr>flink_CohestraID = ''flink-deployment/e/n/x'', flink_DesiredState = ''running'', flink_LastError = [], flink_Checkpoint = []\<rparr>"
  let ?ok = "RFlinkStatus \<lparr>fds_State = ''RUNNING'', fds_Error = [], fds_Checkpoint = []\<rparr>"
  let ?w = "FlinkJobWorkflow streamInfo (streamInput\<lparr>win_Flink := Some ?st\<rparr>)"
  let ?rs = "[?ok, RPending True False False True, RUnit, ?ok, RPending False False True True, RUnit, ?ok, RPending False False False True, RUnit, RUnit]"
  have "playWf ?w ?rs \<noteq> None" by code_simp
  note run = played_runs [OF this]
  have "flinkSignals (played ?w ?rs) = [''pause'', ''rollback'', ''cancel'']" by code_simp
  with flink_obeys_signals [OF run, of ?st] show ?thesis by simp
qed

text \<open>A run that fails at its first poll has written no final phase, so the execution stays as it was.\<close>

lemma spark_error_leaves_running:
  "wfRuns (SparkJobWorkflow 1 info input)
     [(engineOptions input 2, SubmitSparkJob (win_Definition input) (win_TenantID input) (win_ExecutionID input), RSparkRef ref),
      (engineOptions input 2, SparkJobStatus ref, RErr err)] (RunError err)" if "\<not> spark_Noop ref"
  using that by (simp add: SparkJobWorkflow_def sparkPoll.simps wfRuns_Act_ex getSparkRef_def getSparkStatus_def Let_def)

text \<open>A signal that is pending next to the one that the last poll takes is not received by this run.\<close>

lemma flink_last_poll_drops:
  assumes "flink_CohestraID st \<noteq> []" "fds_State status = ''RUNNING''"
  shows "wfRuns (flinkPoll info input 1 st)
     [(engineOptions input 1, FlinkJobStatus (flink_CohestraID st), RFlinkStatus status), (engineOptions input 1, SelectFlink, RPending True False False True),
      (engineOptions input 1, FlinkJobAction (flink_CohestraID st) ''pause'' (win_ExecutionID input), RUnit)]
     (RunContinue (input\<lparr>win_Flink := Some (st\<lparr>flink_LastError := fds_Error status, flink_Checkpoint := fds_Checkpoint status,
        flink_DesiredState := ''paused''\<rparr>)\<rparr>))"
  using assms by (simp add: flinkPoll.simps wfRuns_Act_ex getFlinkStatus_def flinkSelected_def getUnit_def Let_def)

end
