(* ===== verification/Engines.thy ===== *)
theory Engines
  imports StreamJobs Sql Redact
begin

text \<open>
  What the enterprise engines run: the check of a user's \<^verbatim>\<open>SELECT\<close>, the SQL script of a Spark application and
  the statements of a Flink deployment (\<^verbatim>\<open>ee/spark/spec.go\<close>, \<^verbatim>\<open>ee/flink/spec.go\<close>), and the activities that
  submit, watch and commit them (\<^verbatim>\<open>ee/activities/spark.go\<close>, \<^verbatim>\<open>ee/activities/flink.go\<close>).

  The Kubernetes and Cohestra services, the Iceberg catalogue and the environment variables are parameters: a
  service answers a request. The patterns are matched on ASCII text.
\<close>

section \<open>The check of a SELECT\<close>

text \<open>\<open>wordAlts\<close> lists what follows each alternative of the word group that matches at the start of the text.\<close>

fun afterWord :: "string \<Rightarrow> string \<Rightarrow> string list" where
  "afterWord [] s = [s]"
| "afterWord (c # w) [] = []"
| "afterWord (c # w) (d # s) = (if lowerChar c = lowerChar d then afterWord w s else [])"

definition addJar :: "string \<Rightarrow> string list" where
  "addJar s = concat (map (\<lambda>r. if r \<noteq> [] \<and> reSpace (hd r) then afterWord ''jar'' (dropWhile reSpace r) else []) (afterWord ''add'' s))"

definition unsafeWords :: "string list" where
  "unsafeWords = [''create'', ''alter'', ''drop'', ''truncate'', ''delete'', ''update'', ''merge'', ''insert'', ''call'', ''set'',
     ''password'', ''secret'', ''token'']"

definition accessKeyWords :: "string list" where
  "accessKeyWords = [''access_key'', ''access-key'', ''accesskey'']"

definition wordEnd :: "string \<Rightarrow> bool" where
  "wordEnd r = (case r of [] \<Rightarrow> True | c # _ \<Rightarrow> \<not> isWord c)"

definition wordStart :: "char option \<Rightarrow> bool" where
  "wordStart prev = (case prev of None \<Rightarrow> True | Some c \<Rightarrow> \<not> isWord c)"

definition unsafeAt :: "string list \<Rightarrow> char option \<Rightarrow> string \<Rightarrow> bool" where
  "unsafeAt words prev s \<longleftrightarrow> list_ex (\<lambda>p. hasPrefix p s) ['';'', ''--'', ''/*'', ''${'']
     \<or> wordStart prev \<and> list_ex wordEnd (addJar s @ concat (map (\<lambda>w. afterWord w s) words))"

fun unsafeIn :: "string list \<Rightarrow> char option \<Rightarrow> string \<Rightarrow> bool" where
  "unsafeIn words prev [] = False"
| "unsafeIn words prev (c # s) = (unsafeAt words prev (c # s) \<or> unsafeIn words (Some c) s)"

definition selectHead :: "string \<Rightarrow> bool" where
  "selectHead s \<longleftrightarrow> list_ex (\<lambda>r. r \<noteq> [] \<and> reSpace (hd r)) (afterWord ''select'' s)"

definition sparkValidateSelect :: "string \<Rightarrow> string option" where
  "sparkValidateSelect sql =
     (let trimmed = trimSpace sql in
      if \<not> selectHead trimmed \<or> unsafeIn (unsafeWords @ accessKeyWords) None trimmed
      then Some ''spark-sql transform must be one credential-free SELECT'' else None)"

definition flinkValidateSelect :: "string \<Rightarrow> string option" where
  "flinkValidateSelect sql =
     (let trimmed = trimSpace sql in
      if \<not> selectHead trimmed \<or> unsafeIn unsafeWords None trimmed
      then Some ''flink-sql transform must be one credential-free SELECT'' else None)"

section \<open>Spark applications\<close>

text \<open>\<^verbatim>\<open>text(v)\<close>: the trimmed string, empty for another type.\<close>

definition textOf :: "gv \<Rightarrow> string" where
  "textOf v = trimSpace (case asStr v of Some s \<Rightarrow> s | None \<Rightarrow> [])"

definition safePath :: "string \<Rightarrow> bool" where
  "safePath v \<longleftrightarrow> v \<noteq> [] \<and> \<not> sublist ''..'' v \<and> \<not> containsAny v [CHR 0x27, CHR 0x5C]"

definition quoted :: "string \<Rightarrow> string" where
  "quoted s = CHR 0x27 # s @ [CHR 0x27]"

definition ticked :: "string \<Rightarrow> string" where
  "ticked s = CHR 0x60 # s @ [CHR 0x60]"

text \<open>The last node of a type.\<close>

definition lastOfType :: "string \<Rightarrow> PipelineDefinition \<Rightarrow> Node option" where
  "lastOfType ty def = find (\<lambda>n. node_Type n = ty) (rev (def_Nodes def))"

definition sourceSQL :: "Node \<Rightarrow> string \<Rightarrow> string \<Rightarrow> (string, string) result" where
  "sourceSQL node previous current =
     (let cfg = node_Config node in
      if node_ActivityType node = ''s3.fetch'' then
        let bucket = textOf (objGet cfg ''bucket''); key = textOf (objGet cfg ''key'') in
        if \<not> safePath bucket \<or> \<not> safePath key then Err ''unsafe S3 source path''
        else Ok (''CREATE OR REPLACE TEMP VIEW source USING parquet OPTIONS (path '' @ quoted (''s3a://'' @ bucket @ ''/'' @ key) @ '');'')
      else if node_ActivityType node = ''iceberg.fetch'' then
        let ns = textOf (objGet cfg ''namespace''); table = textOf (objGet cfg ''table'') in
        if \<not> snowflakePathOK ns \<or> \<not> snowflakePathOK table then Err ''invalid Iceberg source''
        else if previous \<noteq> [] \<and> current \<noteq> [] then
          Ok (''CREATE OR REPLACE TEMP VIEW source USING iceberg OPTIONS (path '' @ quoted (''iceberg.'' @ ns @ ''.'' @ table) @ '', ''
            @ ticked ''start-snapshot-id'' @ '' '' @ quoted previous @ '', '' @ ticked ''end-snapshot-id'' @ '' '' @ quoted current @ '');'')
        else Ok (''CREATE OR REPLACE TEMP VIEW source AS SELECT * FROM iceberg.'' @ ns @ ''.'' @ table @ '';'')
      else Err (''unsupported Spark source '' @ node_ActivityType node))"

definition sinkSQL :: "Node \<Rightarrow> string \<Rightarrow> (string, string) result" where
  "sinkSQL node selectSQL =
     (let cfg = node_Config node; table = textOf (objGet cfg ''table'') in
      if node_ActivityType node = ''sink.iceberg'' then
        let ns = textOf (objGet cfg ''namespace'') in
        if \<not> snowflakePathOK ns \<or> \<not> snowflakePathOK table then Err ''invalid Iceberg sink''
        else Ok (''INSERT INTO iceberg.'' @ ns @ ''.'' @ table @ '' '' @ trimSpace selectSQL)
      else if node_ActivityType node = ''sink.clickhouse'' then
        if \<not> snowflakePathOK table then Err ''invalid ClickHouse sink''
        else Ok (''INSERT INTO clickhouse.'' @ table @ '' '' @ trimSpace selectSQL)
      else Err (''unsupported Spark sink '' @ node_ActivityType node))"

definition sparkName :: "string \<Rightarrow> string" where
  "sparkName executionID = take 63 (''dataflow-spark-'' @ trimPrefix ''exec-'' executionID)"

definition sparkApplication :: "string \<Rightarrow> string \<Rightarrow> string \<Rightarrow> string \<Rightarrow> string \<Rightarrow> obj" where
  "sparkApplication pipelineID executionID namespace img script =
     [(''apiVersion'', VStr ''sparkoperator.k8s.io/v1beta2''), (''kind'', VStr ''SparkApplication''),
      (''metadata'', VObj [(''name'', VStr (sparkName executionID)), (''namespace'', VStr namespace),
         (''labels'', VObj [(''dataflow.io/execution-id'', VStr executionID), (''dataflow.io/pipeline-id'', VStr pipelineID)])]),
      (''spec'', VObj [(''type'', VStr ''Scala''), (''mode'', VStr ''cluster''), (''image'', VStr img),
         (''mainClass'', VStr ''org.apache.spark.sql.hive.thriftserver.SparkSQLCLIDriver''),
         (''mainApplicationFile'', VStr ''local:///opt/spark/jars/spark-sql.jar''),
         (''arguments'', VArr [VStr ''-e'', VStr script]), (''restartPolicy'', VObj [(''type'', VStr ''Never'')]),
         (''driver'', VObj [(''cores'', VInt 1), (''memory'', VStr ''1g''), (''serviceAccount'', VStr ''dataflow-spark'')]),
         (''executor'', VObj [(''instances'', VInt 1), (''cores'', VInt 1), (''memory'', VStr ''1g'')])])]"

definition transformSQL :: "PipelineDefinition \<Rightarrow> string option" where
  "transformSQL def = map_option exec_TransformSQL (def_Execution def)"

definition BuildApplication ::
  "PipelineDefinition \<Rightarrow> string \<Rightarrow> string \<Rightarrow> string \<Rightarrow> string \<Rightarrow> string \<Rightarrow> (string, obj) result" where
  "BuildApplication def executionID namespace img previous current =
     (case transformSQL def of
        None \<Rightarrow> Err ''invalid spark-sql transform''
      | Some sql \<Rightarrow>
          if sparkValidateSelect sql \<noteq> None then Err ''invalid spark-sql transform''
          else (case (lastOfType ''source'' def, lastOfType ''sink'' def) of
              (Some source, Some sink) \<Rightarrow>
                (case sourceSQL source previous current of
                   Inl e \<Rightarrow> Err e
                 | Inr input \<Rightarrow> (case sinkSQL sink sql of
                     Inl e \<Rightarrow> Err e
                   | Inr outSQL \<Rightarrow> Ok (sparkApplication (def_ID def) executionID namespace img (input @ [CHR 0x0A] @ outSQL))))
            | _ \<Rightarrow> Err ''spark-sql requires one source and one sink''))"

section \<open>Flink deployments\<close>

record Deployment =
  dep_ExecutionID :: string
  dep_Statements :: "string list"
  dep_Connections :: "(string \<times> string) list"
  dep_Checkpoint :: "(string \<times> string) list"

definition flinkKinds :: "string list" where
  "flinkKinds = [''STRING'', ''BOOLEAN'', ''INT'', ''BIGINT'', ''DOUBLE'', ''DECIMAL'', ''TIMESTAMP(3)'']"

definition flinkColumn :: "gv \<Rightarrow> (string, string \<times> string) result" where
  "flinkColumn v =
     (case asObj v of
        None \<Rightarrow> Err ''invalid Flink column''
      | Some field \<Rightarrow>
          let name = textOf (objGet field ''name''); kind = toUpper (textOf (objGet field ''type'')) in
          if \<not> identifierOK name \<or> kind \<notin> set flinkKinds then Err ''invalid Flink column''
          else Ok (ticked name @ '' '' @ kind, name))"

definition flinkColumns :: "gv \<Rightarrow> (string, string \<times> string list) result" where
  "flinkColumns raw =
     (case asArr raw of
        None \<Rightarrow> Err ''Flink columns are required''
      | Some values \<Rightarrow>
          if values = [] then Err ''Flink columns are required''
          else (case forR flinkColumn values of
              Inl e \<Rightarrow> Err e
            | Inr cs \<Rightarrow> Ok (join '','' (map fst cs), map snd cs)))"

definition resourceNameOK :: "string \<Rightarrow> bool" where
  "resourceNameOK s \<longleftrightarrow> 1 \<le> length s \<and> length s \<le> 249 \<and> list_all (\<lambda>c. isLetter c \<or> isDigit c \<or> c \<in> set ''._-'') s"

definition setting :: "string \<times> string \<Rightarrow> string" where
  "setting kv = quoted (fst kv) @ ''='' @ quoted (snd kv)"

definition flinkSourceDDL :: "string \<Rightarrow> string \<Rightarrow> string \<Rightarrow> string \<Rightarrow> string" where
  "flinkSourceDDL cols topic executionID fmt =
     ''CREATE TABLE source ('' @ cols @ '') WITH ('' @ join '','' (map setting
        [(''connector'', ''kafka''), (''topic'', topic), (''properties.bootstrap.servers'', ''${KAFKA_BROKERS}''),
         (''properties.group.id'', ''dataflow-'' @ executionID), (''scan.startup.mode'', ''group-offsets''), (''format'', fmt)]) @ '')''"

definition flinkSinkDDL :: string where
  "flinkSinkDDL =
     ''CREATE TABLE sink (tenant_id STRING,collection STRING,record STRING,dedup_key STRING,encrypted TINYINT,encryption_iv STRING,created_at TIMESTAMP(3)) WITH (''
       @ join '','' (map setting [(''connector'', ''jdbc''), (''url'', ''${CLICKHOUSE_JDBC_URL}''), (''table-name'', ''dataflow.sink_records''),
           (''driver'', ''com.clickhouse.jdbc.ClickHouseDriver'')]) @ '')''"

definition flinkInsert :: "string \<Rightarrow> string list \<Rightarrow> string \<Rightarrow> string" where
  "flinkInsert collection names sql =
     ''INSERT INTO sink SELECT '' @ quoted ''${TENANT_ID}'' @ '','' @ quoted collection
       @ '',JSON_OBJECT('' @ join '','' (map (\<lambda>n. quoted n @ '' VALUE '' @ ticked n) names)
       @ ''),MD5(CONCAT_WS('' @ quoted ''|'' @ '','' @ join '','' (map (\<lambda>n. ''COALESCE(CAST('' @ ticked n @ '' AS STRING),'' @ quoted [] @ '')'') names)
       @ '')),CAST(0 AS TINYINT),'' @ quoted [] @ '',CURRENT_TIMESTAMP FROM ('' @ trimSpace sql @ '') transformed''"

definition BuildDeployment :: "PipelineDefinition \<Rightarrow> string \<Rightarrow> (string, Deployment) result" where
  "BuildDeployment def executionID =
     (case transformSQL def of
        None \<Rightarrow> Err ''invalid flink-sql transform''
      | Some sql \<Rightarrow>
          if flinkValidateSelect sql \<noteq> None then Err ''invalid flink-sql transform''
          else (case (lastOfType ''source'' def, lastOfType ''sink'' def) of
              (Some source, Some sink) \<Rightarrow>
                if node_ActivityType source \<noteq> ''kafka.fetch'' \<or> node_ActivityType sink \<noteq> ''sink.clickhouse''
                then Err ''flink-sql requires Kafka/CDC input and ClickHouse output''
                else (case flinkColumns (objGet (node_Config source) ''columns'') of
                    Inl e \<Rightarrow> Err e
                  | Inr (sourceColumns, _) \<Rightarrow> (case flinkColumns (objGet (node_Config sink) ''columns'') of
                      Inl e \<Rightarrow> Err (''flink sink output columns are required: '' @ e)
                    | Inr (_, outputNames) \<Rightarrow>
                        let topic = textOf (objGet (node_Config source) ''topic''); collection = textOf (objGet (node_Config sink) ''collection'');
                            fmt0 = textOf (objGet (node_Config source) ''valueFormat''); fmt = (if fmt0 = [] then ''json'' else fmt0) in
                        if \<not> resourceNameOK topic \<or> \<not> resourceNameOK collection then Err ''invalid Flink source or sink''
                        else if fmt \<noteq> ''json'' \<and> fmt \<noteq> ''debezium-json'' then Err ''unsupported Kafka format''
                        else Ok \<lparr>dep_ExecutionID = executionID,
                          dep_Statements = [flinkSourceDDL sourceColumns topic executionID fmt, flinkSinkDDL, flinkInsert collection outputNames sql],
                          dep_Connections = [(''source'', textOf (objGet (node_Config source) ''connectionId'')), (''sink'', textOf (objGet (node_Config sink) ''connectionId''))],
                          dep_Checkpoint = [(''mode'', ''AT_LEAST_ONCE''), (''interval'', ''30s'')]\<rparr>))
            | _ \<Rightarrow> Err ''flink-sql requires Kafka/CDC input and ClickHouse output''))"

text \<open>The enterprise edition checks pipelines with these functions.\<close>

definition enterpriseEdition :: edition where
  "enterpriseEdition = \<lparr>ed_Build = True,
     ed_ValidateFlinkDeployment = (\<lambda>def i. case BuildDeployment def i of Inl e \<Rightarrow> Some e | Inr _ \<Rightarrow> None),
     ed_ValidateSparkSelect = sparkValidateSelect,
     ed_ValidateFlinkSelect = flinkValidateSelect\<rparr>"

end
