(* ===== verification/EngineActs.thy ===== *)
theory EngineActs
  imports Engines
begin

text \<open>
  The activities of the enterprise engines (\<^verbatim>\<open>ee/activities/spark.go\<close>, \<^verbatim>\<open>ee/activities/flink.go\<close>): requests
  to the Kubernetes API and to the Cohestra API, and the statements on the database. Statements succeed; an
  attempt sees the answers of the services as functions of the request.
\<close>

section \<open>Kubernetes\<close>

datatype kubeError = KStatus int string | KOther string

definition kubeErrorText :: "kubeError \<Rightarrow> string" where
  "kubeErrorText e = (case e of KStatus code body \<Rightarrow> ''Kubernetes API returned '' @ itoa code @ '': '' @ body | KOther s \<Rightarrow> s)"

record kubeRequest =
  kr_Method :: string
  kr_URL :: string
  kr_Authorization :: string
  kr_Body :: string

text \<open>The variables and the token file of the pod, and the transport with the answers of the service.\<close>

record kubeClient =
  kc_Host :: string
  kc_Port :: string
  kc_Token :: "(string, string) result"
  kc_Send :: "kubeRequest \<Rightarrow> (string, int \<times> string) result"

definition envValue :: "string \<Rightarrow> string \<Rightarrow> string" where
  "envValue value fallback = (if value = [] then fallback else value)"

definition bodyLimit :: nat where "bodyLimit = 1048576"

definition kubernetesRequest :: "kubeClient \<Rightarrow> string \<Rightarrow> string \<Rightarrow> string \<Rightarrow> (kubeError, string) result" where
  "kubernetesRequest K method path body =
     (if kc_Host K = [] then Err (KOther ''Kubernetes API is not configured'')
      else (case kc_Token K of
          Inl e \<Rightarrow> Err (KOther e)
        | Inr token \<Rightarrow>
            (case kc_Send K \<lparr>kr_Method = method, kr_URL = ''https://'' @ kc_Host K @ '':'' @ envValue (kc_Port K) ''443'' @ path,
                 kr_Authorization = ''Bearer '' @ trimSpace token, kr_Body = body\<rparr> of
               Inl e \<Rightarrow> Err (KOther e)
             | Inr (code, payload) \<Rightarrow> if code \<ge> 300 then Err (KStatus code (take bodyLimit payload)) else Ok (take bodyLimit payload))))"

text \<open>Fields of a decoded document: a key matches the name of a field without regard to case, \<^verbatim>\<open>null\<close> is the zero
  value and another type an error. \<open>unmarshal\<close> is the decoder of JSON.\<close>

definition foldGet :: "obj \<Rightarrow> string \<Rightarrow> gv" where
  "foldGet m k = (case find (\<lambda>(k', _). equalFold k k') (rev m) of Some (_, v) \<Rightarrow> v | None \<Rightarrow> VNil)"

definition fieldObj :: "gv \<Rightarrow> obj option" where
  "fieldObj v = (case v of VNil \<Rightarrow> Some [] | VObj m \<Rightarrow> Some m | _ \<Rightarrow> None)"

definition docObj :: "(string \<Rightarrow> gv option) \<Rightarrow> string \<Rightarrow> obj option" where
  "docObj unmarshal body = Option.bind (unmarshal body) fieldObj"

definition sparkLabels :: "(string \<Rightarrow> gv option) \<Rightarrow> string \<Rightarrow> obj option" where
  "sparkLabels unmarshal body =
     Option.bind (docObj unmarshal body) (\<lambda>doc.
       Option.bind (fieldObj (foldGet doc ''metadata'')) (\<lambda>meta.
         Option.bind (fieldObj (foldGet meta ''labels'')) (\<lambda>labels.
           if list_all (\<lambda>(_, v). decodeStr v \<noteq> None) labels then Some labels else None)))"

definition sparkApplicationOwnedBy :: "(string \<Rightarrow> gv option) \<Rightarrow> string \<Rightarrow> string \<Rightarrow> bool" where
  "sparkApplicationOwnedBy unmarshal body executionID \<longleftrightarrow>
     (case sparkLabels unmarshal body of
        None \<Rightarrow> False
      | Some labels \<Rightarrow> executionID \<noteq> [] \<and> decodeStr (objGet labels ''dataflow.io/execution-id'') = Some executionID)"

section \<open>Spark\<close>

text \<open>A worker of the engines: the client, the variables, the catalogue and the decoder of JSON. \<open>ew_Snapshot\<close>
  is \<^verbatim>\<open>IcebergCurrentSnapshot\<close>, empty for a table without a snapshot.\<close>

record engineWorker =
  ew_Kube :: kubeClient
  ew_SparkNamespace :: string
  ew_SparkImage :: string
  ew_Snapshot :: "obj \<Rightarrow> (string, string) result"
  ew_Unmarshal :: "string \<Rightarrow> gv option"

type_synonym cursorTable = "((string \<times> string) \<times> obj) list"

definition sparkStateKey :: "PipelineDefinition \<Rightarrow> Node \<Rightarrow> string" where
  "sparkStateKey def source = ''spark:'' @ def_ID def @ '':'' @ node_ID source"

definition previousSnapshot :: "cursorTable \<Rightarrow> string \<Rightarrow> string \<Rightarrow> string" where
  "previousSnapshot cursors tenant key =
     (let s = sprint (objGet (case map_of cursors (tenant, key) of Some c \<Rightarrow> c | None \<Rightarrow> []) ''snapshotId'')
      in if s = ''<nil>'' then [] else s)"

text \<open>The range of an incremental source: its state key, the committed snapshot and the current one.\<close>

definition sparkRange :: "engineWorker \<Rightarrow> cursorTable \<Rightarrow> PipelineDefinition \<Rightarrow> string \<Rightarrow> (string, string \<times> string \<times> string) result" where
  "sparkRange E cursors def tenant =
     (case lastOfType ''source'' def of
        None \<Rightarrow> Ok ([], [], [])
      | Some source \<Rightarrow>
          if node_ActivityType source \<noteq> ''iceberg.fetch'' then Ok ([], [], [])
          else (case ew_Snapshot E (node_Config source) of
              Inl e \<Rightarrow> Err e
            | Inr current \<Rightarrow> Ok (sparkStateKey def source, previousSnapshot cursors tenant (sparkStateKey def source), current)))"

definition sparkOutputBefore :: "engineWorker \<Rightarrow> PipelineDefinition \<Rightarrow> string" where
  "sparkOutputBefore E def =
     (case lastOfType ''sink'' def of
        None \<Rightarrow> []
      | Some sink \<Rightarrow> if node_ActivityType sink = ''sink.iceberg'' then (case ew_Snapshot E (node_Config sink) of Inl _ \<Rightarrow> [] | Inr s \<Rightarrow> s) else [])"

definition sparkCollection :: "engineWorker \<Rightarrow> string" where
  "sparkCollection E = ''/apis/sparkoperator.k8s.io/v1beta2/namespaces/'' @ envValue (ew_SparkNamespace E) ''spark'' @ ''/sparkapplications''"

definition sparkCreate :: "engineWorker \<Rightarrow> string \<Rightarrow> SparkJobRef \<Rightarrow> obj \<Rightarrow> (string, SparkJobRef) result" where
  "sparkCreate E executionID ref spec =
     (case kubernetesRequest (ew_Kube E) ''POST'' (sparkCollection E) (jsonMarshal (VObj spec)) of
        Inr _ \<Rightarrow> Ok ref
      | Inl err \<Rightarrow>
          if (case err of KStatus code _ \<Rightarrow> code = 409 | KOther _ \<Rightarrow> False)
             \<and> (case kubernetesRequest (ew_Kube E) ''GET'' (sparkCollection E @ ''/'' @ spark_Name ref) [] of
                  Inl _ \<Rightarrow> False
                | Inr existing \<Rightarrow> sparkApplicationOwnedBy (ew_Unmarshal E) existing executionID)
          then Ok ref else Err (kubeErrorText err))"

definition submitSparkJob ::
  "engineWorker \<Rightarrow> cursorTable \<Rightarrow> PipelineDefinition \<Rightarrow> string \<Rightarrow> string \<Rightarrow> (string, SparkJobRef) result" where
  "submitSparkJob E cursors def tenant executionID =
     (case sparkRange E cursors def tenant of
        Inl e \<Rightarrow> Err e
      | Inr (key, previous, current) \<Rightarrow>
          if key \<noteq> [] \<and> previous \<noteq> [] \<and> previous = current
          then Ok \<lparr>spark_Name = [], spark_InputStateKey = key, spark_InputSnapshot = current, spark_OutputBefore = [], spark_Noop = True\<rparr>
          else (case BuildApplication def executionID (envValue (ew_SparkNamespace E) ''spark'')
                  (envValue (ew_SparkImage E) ''dataflow/spark-sql:latest'') previous current of
              Inl e \<Rightarrow> Err e
            | Inr spec \<Rightarrow> sparkCreate E executionID \<lparr>spark_Name = sparkName executionID, spark_InputStateKey = key,
                spark_InputSnapshot = current, spark_OutputBefore = sparkOutputBefore E def, spark_Noop = False\<rparr> spec))"

definition sparkJobStatus :: "engineWorker \<Rightarrow> SparkJobRef \<Rightarrow> (string, string \<times> string) result" where
  "sparkJobStatus E ref =
     (case kubernetesRequest (ew_Kube E) ''GET'' (sparkCollection E @ ''/'' @ spark_Name ref) [] of
        Inl e \<Rightarrow> Err (kubeErrorText e)
      | Inr body \<Rightarrow>
          (case Option.bind (docObj (ew_Unmarshal E) body) (\<lambda>doc.
              Option.bind (fieldObj (foldGet doc ''status'')) (\<lambda>status.
                Option.bind (fieldObj (foldGet status ''applicationState'')) (\<lambda>app.
                  Option.bind (decodeStr (foldGet app ''State'')) (\<lambda>state.
                    map_option (Pair state) (decodeStr (foldGet app ''ErrorMessage'')))))) of
             None \<Rightarrow> Err ''unable to decode''
           | Some r \<Rightarrow> Ok r))"

definition cancelSparkJob :: "engineWorker \<Rightarrow> SparkJobRef \<Rightarrow> string option" where
  "cancelSparkJob E ref =
     (case kubernetesRequest (ew_Kube E) ''DELETE'' (sparkCollection E @ ''/'' @ spark_Name ref) [] of
        Inl e \<Rightarrow> Some (kubeErrorText e) | Inr _ \<Rightarrow> None)"

definition sparkOutputError :: "engineWorker \<Rightarrow> SparkJobRef \<Rightarrow> Node \<Rightarrow> string option" where
  "sparkOutputError E ref node =
     (if node_Type node = ''sink'' \<and> node_ActivityType node = ''sink.iceberg''
      then (case ew_Snapshot E (node_Config node) of
          Inl e \<Rightarrow> Some e
        | Inr after \<Rightarrow> if after = [] \<or> after = spark_OutputBefore ref then Some ''Spark completed without an Iceberg output snapshot'' else None)
      else None)"

definition commitSparkJob ::
  "engineWorker \<Rightarrow> SparkJobRef \<Rightarrow> PipelineDefinition \<Rightarrow> string \<Rightarrow> cursorTable \<Rightarrow> string option \<times> cursorTable" where
  "commitSparkJob E ref def tenant cursors =
     (case checkAll (sparkOutputError E ref) (def_Nodes def) of
        Some e \<Rightarrow> (Some e, cursors)
      | None \<Rightarrow> (None, if spark_InputStateKey ref \<noteq> [] \<and> spark_InputSnapshot ref \<noteq> []
          then AList.update (tenant, spark_InputStateKey ref) [(''snapshotId'', VStr (spark_InputSnapshot ref))] cursors else cursors))"

section \<open>Flink\<close>

record httpRequest =
  hr_Method :: string
  hr_URL :: string
  hr_Headers :: "(string \<times> string) list"
  hr_Body :: string

text \<open>The variables of the worker, its HTTP client and the engine columns of the executions.\<close>

record flinkWorker =
  fw_Getenv :: "string \<Rightarrow> string"
  fw_Do :: "httpRequest \<Rightarrow> (string, int \<times> string) result"
  fw_Unmarshal :: "string \<Rightarrow> gv option"

record engineRow =
  en_CohestraID :: string
  en_DesiredState :: string
  en_LastError :: "string option"

type_synonym engineTable = "(string \<times> engineRow) list"

definition updateEngine :: "string \<Rightarrow> (engineRow \<Rightarrow> engineRow) \<Rightarrow> engineTable \<Rightarrow> engineTable" where
  "updateEngine i f rows = map (\<lambda>(k, r). (k, if k = i then f r else r)) rows"

definition envOr :: "flinkWorker \<Rightarrow> string \<Rightarrow> string \<Rightarrow> string" where
  "envOr F name fallback = (let v = trimSpace (fw_Getenv F name) in if v \<noteq> [] then v else fallback)"

definition trimRight :: "char \<Rightarrow> string \<Rightarrow> string" where
  "trimRight c s = rev (dropWhile (\<lambda>x. x = c) (rev s))"

definition cohestraReq :: "flinkWorker \<Rightarrow> string \<Rightarrow> string \<Rightarrow> gv option \<Rightarrow> (string \<times> string) list \<Rightarrow> httpRequest" where
  "cohestraReq F method path body headers =
     \<lparr>hr_Method = method, hr_URL = trimRight (CHR ''/'') (fw_Getenv F ''COHESTRA_URL'') @ path,
      hr_Headers = (''Content-Type'', ''application/json'') # headers
        @ (let key = fw_Getenv F ''COHESTRA_API_KEY'' in if key \<noteq> [] then [(''Authorization'', ''Bearer '' @ key)] else []),
      hr_Body = (case body of None \<Rightarrow> [] | Some v \<Rightarrow> jsonMarshal v)\<rparr>"

text \<open>A request; an empty answer leaves the target as it is, here the empty document.\<close>

definition cohestraRequest :: "flinkWorker \<Rightarrow> string \<Rightarrow> string \<Rightarrow> gv option \<Rightarrow> (string \<times> string) list \<Rightarrow> (string, obj) result" where
  "cohestraRequest F method path body headers =
     (if trimRight (CHR ''/'') (fw_Getenv F ''COHESTRA_URL'') = [] then Err ''Cohestra API is not configured''
      else (case fw_Do F (cohestraReq F method path body headers) of
          Inl e \<Rightarrow> Err e
        | Inr (code, payload) \<Rightarrow>
            if code \<ge> 300 then Err (''Cohestra returned '' @ itoa code @ '': '' @ take bodyLimit payload)
            else if payload = [] then Ok []
            else (case docObj (fw_Unmarshal F) (take bodyLimit payload) of None \<Rightarrow> Err ''unable to decode'' | Some doc \<Rightarrow> Ok doc)))"

definition cohestraPath :: "string \<Rightarrow> (string, string) result" where
  "cohestraPath i =
     (let parts = splitOn (CHR ''/'') i in
      if length parts \<noteq> 4 \<or> hd parts \<noteq> ''flink-deployment'' then Err ''invalid Cohestra workflow id''
      else Ok (''/api/v1/deployments/'' @ join ''/'' (tl parts)))"

definition deploymentPath :: "flinkWorker \<Rightarrow> string \<Rightarrow> string" where
  "deploymentPath F executionID = ''/api/v1/deployments/'' @ envOr F ''COHESTRA_ENVIRONMENT'' ''dev'' @ ''/''
     @ envOr F ''COHESTRA_NAMESPACE'' ''dataflow'' @ ''/'' @ executionID"

definition flinkRegistration :: "flinkWorker \<Rightarrow> gv" where
  "flinkRegistration F = VObj [(''owner'', VStr ''dataflow''), (''serviceAccount'', VStr ''flink''), (''nodePool'', VStr ''default''),
     (''flinkDashboardUrl'', VStr (envOr F ''FLINK_DASHBOARD_URL'' ''http://host.docker.internal:8084''))]"

definition deployRequest :: "flinkWorker \<Rightarrow> string \<Rightarrow> Deployment \<Rightarrow> gv" where
  "deployRequest F img spec = VObj [(''requester'', VStr ''dataflow''), (''approved'', VBool True), (''reason'', VStr ''Dataflow Flink SQL deployment''),
     (''spec'', VObj [(''imageDigest'', VStr img), (''flinkVersion'', VStr (envOr F ''COHESTRA_FLINK_VERSION'' ''1.20'')), (''parallelism'', VInt 1),
        (''maxParallelism'', VInt 128), (''jobArgs'', VObj [(''statements'', VStr (jsonMarshal (VArr (map VStr (dep_Statements spec)))))]),
        (''flinkConfig'', VObj [(''execution.checkpointing.mode'', VStr ''AT_LEAST_ONCE''), (''execution.checkpointing.interval'', VStr ''30s'')]),
        (''resources'', VObj [(''taskManagerCpu'', VInt 1), (''taskManagerMemoryMiB'', VInt 1024), (''taskManagerCount'', VInt 1), (''slotsPerManager'', VInt 1)]),
        (''stateCompatibility'', VObj [(''jobGraphCompatible'', VBool True), (''operatorUidsStable'', VBool True)])])]"

definition deployFlinkJob :: "flinkWorker \<Rightarrow> PipelineDefinition \<Rightarrow> string \<Rightarrow> engineTable \<Rightarrow> (string, string) result \<times> engineTable" where
  "deployFlinkJob F def executionID rows =
     (case BuildDeployment def executionID of
        Inl e \<Rightarrow> (Err e, rows)
      | Inr spec \<Rightarrow>
          (case cohestraRequest F ''PUT'' (deploymentPath F executionID) (Some (flinkRegistration F)) [] of
             Inl e \<Rightarrow> (Err e, rows)
           | Inr registered \<Rightarrow>
               let img = trimSpace (fw_Getenv F ''COHESTRA_FLINK_IMAGE'') in
               case decodeStr (foldGet registered ''workflowId'') of None \<Rightarrow> (Err ''unable to decode'', rows) | Some w0 \<Rightarrow>
               if img = [] then (Err ''COHESTRA_FLINK_IMAGE is required'', rows)
               else (case cohestraRequest F ''POST'' (deploymentPath F executionID @ ''/deploy'') (Some (deployRequest F img spec))
                         [(''Idempotency-Key'', ''dataflow-'' @ executionID)] of
                   Inl e \<Rightarrow> (Err e, rows)
                 | Inr deployed \<Rightarrow>
                     (case decodeStr (foldGet deployed ''workflowId'') of
                        None \<Rightarrow> (Err ''unable to decode'', rows)
                      | Some w1 \<Rightarrow>
                          let w = (if foldGet deployed ''workflowId'' = VNil then w0 else w1) in
                          if w = [] then (Err ''Cohestra returned no workflow id'', rows)
                          else (Ok w, updateEngine executionID (\<lambda>r. r\<lparr>en_CohestraID := w, en_DesiredState := ''running'', en_LastError := None\<rparr>) rows)))))"

text \<open>The status of a deployment from the answer of its actor.\<close>

definition boolField :: "obj \<Rightarrow> string \<Rightarrow> bool option" where
  "boolField m k = (case foldGet m k of VNil \<Rightarrow> Some False | VBool b \<Rightarrow> Some b | _ \<Rightarrow> None)"

definition actorStatus :: "obj \<Rightarrow> FlinkDeploymentStatus option" where
  "actorStatus doc =
     Option.bind (decodeStr (foldGet doc ''status'')) (\<lambda>status. Option.bind (decodeStr (foldGet doc ''lastError'')) (\<lambda>lastError.
     Option.bind (fieldObj (foldGet doc ''currentVersion'')) (\<lambda>version. Option.bind (fieldObj (foldGet version ''healthSummary'')) (\<lambda>health.
     Option.bind (boolField health ''Healthy'') (\<lambda>healthy. Option.bind (boolField health ''Running'') (\<lambda>running.
     Option.bind (boolField health ''CheckpointCompleted'') (\<lambda>done. Option.bind (fieldObj (foldGet doc ''lastSavepoint'')) (\<lambda>savepoint.
     Option.bind (decodeStr (foldGet savepoint ''URI'')) (\<lambda>uri.
       Some \<lparr>fds_State = (if healthy \<and> running then ''RUNNING'' else toUpper status), fds_Error = lastError,
         fds_Checkpoint = (if foldGet doc ''lastSavepoint'' \<noteq> VNil then uri else if done then ''completed'' else [])\<rparr>)))))))))"

definition flinkJobStatus :: "flinkWorker \<Rightarrow> string \<Rightarrow> (string, FlinkDeploymentStatus) result" where
  "flinkJobStatus F ref =
     (case cohestraPath ref of
        Inl e \<Rightarrow> Err e
      | Inr path \<Rightarrow> (case cohestraRequest F ''GET'' (path @ ''/actor'') None [] of
          Inl e \<Rightarrow> Err e
        | Inr doc \<Rightarrow> (case actorStatus doc of None \<Rightarrow> Err ''unable to decode'' | Some s \<Rightarrow> Ok s)))"

definition flinkVerb :: "string \<Rightarrow> string option" where
  "flinkVerb action = map_of [(''pause'', ''suspend''), (''resume'', ''resume''), (''cancel'', ''suspend''), (''rollback'', ''rollback'')] action"

text \<open>The version that a rollback aims at: the last healthy one of the actor.\<close>

definition rollbackTarget :: "flinkWorker \<Rightarrow> string \<Rightarrow> (string, int) result" where
  "rollbackTarget F path =
     (case cohestraRequest F ''GET'' (path @ ''/actor'') None [] of
        Inl e \<Rightarrow> Err e
      | Inr doc \<Rightarrow> (case fieldObj (foldGet doc ''lastHealthyVersion'') of
          None \<Rightarrow> Err ''unable to decode''
        | Some healthy \<Rightarrow> (case decodeInt (foldGet healthy ''versionId'') of
            None \<Rightarrow> Err ''unable to decode''
          | Some v \<Rightarrow> if foldGet doc ''lastHealthyVersion'' = VNil then Err ''Cohestra has no healthy version to roll back to'' else Ok v)))"

definition actionBody :: "string \<Rightarrow> int option \<Rightarrow> gv" where
  "actionBody action target = VObj ([(''requester'', VStr ''dataflow''), (''approved'', VBool True), (''reason'', VStr (''Dataflow '' @ action))]
     @ (case target of None \<Rightarrow> [] | Some v \<Rightarrow> [(''targetVersion'', VInt v)]))"

definition actionKey :: "string \<Rightarrow> string \<Rightarrow> string" where
  "actionKey executionID action = executionID @ ''-'' @ action"

definition flinkJobAction :: "flinkWorker \<Rightarrow> string \<Rightarrow> string \<Rightarrow> string \<Rightarrow> engineTable \<Rightarrow> string option \<times> engineTable" where
  "flinkJobAction F ref action executionID rows =
     (case flinkVerb action of
        None \<Rightarrow> (Some ''unsupported Flink action'', rows)
      | Some verb \<Rightarrow>
          (case cohestraPath ref of
             Inl e \<Rightarrow> (Some e, rows)
           | Inr path \<Rightarrow>
               (case (if action = ''rollback'' then map_sum id Some (rollbackTarget F path) else Ok None) of
                  Inl e \<Rightarrow> (Some e, rows)
                | Inr target \<Rightarrow>
                    (case cohestraRequest F ''POST'' (path @ ''/'' @ verb) (Some (actionBody action target)) [(''Idempotency-Key'', actionKey executionID action)] of
                       Inl e \<Rightarrow> (Some e, rows)
                     | Inr _ \<Rightarrow> (None, updateEngine executionID (\<lambda>r. r\<lparr>en_DesiredState := action, en_LastError := None\<rparr>) rows)))))"

definition recordFlinkError :: "string \<Rightarrow> string \<Rightarrow> engineTable \<Rightarrow> engineTable" where
  "recordFlinkError executionID err rows = updateEngine executionID (\<lambda>r. r\<lparr>en_LastError := Some err\<rparr>) rows"

end
