(* ===== verification/EngineLaws.thy ===== *)
theory EngineLaws
  imports EngineActs
begin

text \<open>
  Laws of the enterprise engines: the script of a Spark application is two statements whatever the user
  wrote, an admitted Flink pipeline deploys, and the snapshots that consecutive Spark runs read.
\<close>

section \<open>Statements of a script\<close>

text \<open>A script is cut at the semicolons outside of single quotes and backticks.\<close>

fun splitSQL :: "char option \<Rightarrow> string \<Rightarrow> string list" where
  "splitSQL q [] = [[]]"
| "splitSQL None (c # s) =
     (if c = CHR '';'' then [] # splitSQL None s
      else (case splitSQL (if c = CHR 0x27 \<or> c = CHR 0x60 then Some c else None) s of x # xs \<Rightarrow> (c # x) # xs | [] \<Rightarrow> []))"
| "splitSQL (Some q) (c # s) =
     (case splitSQL (if c = q then None else Some q) s of x # xs \<Rightarrow> (c # x) # xs | [] \<Rightarrow> [])"

text \<open>The quote that is open after a text without a cut.\<close>

fun openAfter :: "char option \<Rightarrow> string \<Rightarrow> char option option" where
  "openAfter q [] = Some q"
| "openAfter None (c # s) =
     (if c = CHR '';'' then None else openAfter (if c = CHR 0x27 \<or> c = CHR 0x60 then Some c else None) s)"
| "openAfter (Some q) (c # s) = openAfter (if c = q then None else Some q) s"

lemma openAfter_append: "openAfter q (s @ t) = Option.bind (openAfter q s) (\<lambda>q'. openAfter q' t)"
  by (induction q s rule: openAfter.induct) auto

lemma splitSQL_statement: "openAfter q s = Some None \<Longrightarrow> splitSQL q (s @ CHR '';'' # t) = s # splitSQL None t"
  by (induction q s rule: openAfter.induct) (auto split: if_splits)

lemma splitSQL_rest: "CHR '';'' \<notin> set s \<Longrightarrow> splitSQL q s = [s]"
  by (induction q s rule: splitSQL.induct) auto

definition plainSQL :: "string \<Rightarrow> bool" where
  "plainSQL s \<longleftrightarrow> list_all (\<lambda>c. c \<noteq> CHR '';'' \<and> c \<noteq> CHR 0x27 \<and> c \<noteq> CHR 0x60) s"

lemma openAfter_plain: "plainSQL s \<Longrightarrow> openAfter None s = Some None"
  by (induction s) (auto simp: plainSQL_def)

lemma openAfter_inside: "q \<notin> set s \<Longrightarrow> openAfter (Some q) s = Some (Some q)"
  by (induction s) auto

lemma openAfter_quoted: "CHR 0x27 \<notin> set s \<Longrightarrow> openAfter None (quoted s) = Some None"
  by (simp add: quoted_def openAfter_append openAfter_inside)

lemma openAfter_ticked: "CHR 0x60 \<notin> set s \<Longrightarrow> openAfter None (ticked s) = Some None"
  by (simp add: ticked_def openAfter_append openAfter_inside)

lemma openAfter_seq: "openAfter None s = Some None \<Longrightarrow> openAfter None t = Some None \<Longrightarrow> openAfter None (s @ t) = Some None"
  by (simp add: openAfter_append)

lemma unsafe_semicolon: "\<not> unsafeIn words prev s \<Longrightarrow> CHR '';'' \<notin> set s"
  by (induction words prev s rule: unsafeIn.induct) (auto simp: unsafeAt_def hasPrefix_def)

lemma identifier_letters: "identifierOK s \<Longrightarrow> list_all (\<lambda>c. isLetter c \<or> isDigit c \<or> c = CHR ''_'') s"
  by (cases s) (auto simp: identifierOK_def)

lemma letter_plain: "isLetter c \<or> isDigit c \<Longrightarrow> c \<noteq> CHR '';'' \<and> c \<noteq> CHR 0x27 \<and> c \<noteq> CHR 0x60"
  by (auto simp: isLetter_def isDigit_def)


lemma path_plain: "snowflakePathOK s \<Longrightarrow> plainSQL s"
proof -
  assume ok: "snowflakePathOK s"
  have "c \<noteq> CHR '';'' \<and> c \<noteq> CHR 0x27 \<and> c \<noteq> CHR 0x60" if "c \<in> set s" for c
  proof -
    have "c \<in> set (join ''.'' (splitOn (CHR ''.'') s))" using that by simp
    then have "c = CHR ''.'' \<or> (\<exists>w\<in>set (splitOn (CHR ''.'') s). c \<in> set w)" using set_join by fastforce
    then show ?thesis
    proof
      assume "\<exists>w\<in>set (splitOn (CHR ''.'') s). c \<in> set w"
      then obtain w where "identifierOK w" "c \<in> set w" using ok by (auto simp: snowflakePathOK_def list_all_iff)
      then have "isLetter c \<or> isDigit c \<or> c = CHR ''_''" using identifier_letters by (auto simp: list_all_iff)
      then show ?thesis using letter_plain by auto
    qed simp
  qed
  then show "plainSQL s" by (simp add: plainSQL_def list_all_iff)
qed

lemma safePath_quotes: "safePath s \<Longrightarrow> CHR 0x27 \<notin> set s"
  by (auto simp: safePath_def containsAny_def list_ex_iff)

lemma sourceSQL_statement:
  assumes "sourceSQL node previous current = Ok sql" "CHR 0x27 \<notin> set previous" "CHR 0x27 \<notin> set current"
  shows "\<exists>view. sql = view @ '';'' \<and> openAfter None view = Some None \<and> hasPrefix ''CREATE OR REPLACE TEMP VIEW source '' view"
proof -
  let ?c = "node_Config node"
  consider (s3) "sql = ''CREATE OR REPLACE TEMP VIEW source USING parquet OPTIONS (path ''
        @ quoted (''s3a://'' @ textOf (objGet ?c ''bucket'') @ ''/'' @ textOf (objGet ?c ''key'')) @ '');''"
      "safePath (textOf (objGet ?c ''bucket''))" "safePath (textOf (objGet ?c ''key''))"
    | (inc) "sql = ''CREATE OR REPLACE TEMP VIEW source USING iceberg OPTIONS (path ''
        @ quoted (''iceberg.'' @ textOf (objGet ?c ''namespace'') @ ''.'' @ textOf (objGet ?c ''table'')) @ '', ''
        @ ticked ''start-snapshot-id'' @ '' '' @ quoted previous @ '', '' @ ticked ''end-snapshot-id'' @ '' '' @ quoted current @ '');''"
      "snowflakePathOK (textOf (objGet ?c ''namespace''))" "snowflakePathOK (textOf (objGet ?c ''table''))"
    | (full) "sql = ''CREATE OR REPLACE TEMP VIEW source AS SELECT * FROM iceberg.'' @ textOf (objGet ?c ''namespace'') @ ''.''
        @ textOf (objGet ?c ''table'') @ '';''"
      "snowflakePathOK (textOf (objGet ?c ''namespace''))" "snowflakePathOK (textOf (objGet ?c ''table''))"
    using assms(1) unfolding sourceSQL_def Let_def by (auto split: if_splits)
  then show ?thesis
  proof cases
    case s3
    let ?p = "''s3a://'' @ textOf (objGet ?c ''bucket'') @ ''/'' @ textOf (objGet ?c ''key'')"
    let ?v = "''CREATE OR REPLACE TEMP VIEW source USING parquet OPTIONS (path '' @ quoted ?p @ '')''"
    have "openAfter None ?v = Some None"
      using safePath_quotes [OF s3(2)] safePath_quotes [OF s3(3)]
      by (intro openAfter_seq openAfter_quoted openAfter_plain) (simp_all add: plainSQL_def)
    moreover have "sql = ?v @ '';''" by (simp add: s3(1))
    moreover have "hasPrefix ''CREATE OR REPLACE TEMP VIEW source '' ?v" by (simp add: hasPrefix_def)
    ultimately show ?thesis by blast
  next
    case inc
    let ?t = "''iceberg.'' @ textOf (objGet ?c ''namespace'') @ ''.'' @ textOf (objGet ?c ''table'')"
    let ?v = "''CREATE OR REPLACE TEMP VIEW source USING iceberg OPTIONS (path '' @ quoted ?t @ '', '' @ ticked ''start-snapshot-id'' @ '' ''
      @ quoted previous @ '', '' @ ticked ''end-snapshot-id'' @ '' '' @ quoted current @ '')''"
    have "CHR 0x27 \<notin> set ?t" using path_plain [OF inc(2)] path_plain [OF inc(3)] by (auto simp: plainSQL_def list_all_iff)
    then have "openAfter None ?v = Some None"
      using assms(2,3) by (intro openAfter_seq openAfter_quoted openAfter_ticked openAfter_plain) (simp_all add: plainSQL_def)
    moreover have "sql = ?v @ '';''" by (simp add: inc(1))
    moreover have "hasPrefix ''CREATE OR REPLACE TEMP VIEW source '' ?v" by (simp add: hasPrefix_def)
    ultimately show ?thesis by blast
  next
    case full
    let ?v = "''CREATE OR REPLACE TEMP VIEW source AS SELECT * FROM iceberg.'' @ textOf (objGet ?c ''namespace'') @ ''.'' @ textOf (objGet ?c ''table'')"
    have "openAfter None ?v = Some None"
      using path_plain [OF full(2)] path_plain [OF full(3)] by (intro openAfter_seq openAfter_plain) (simp_all add: plainSQL_def)
    moreover have "sql = ?v @ '';''" by (simp add: full(1))
    moreover have "hasPrefix ''CREATE OR REPLACE TEMP VIEW source '' ?v" by (simp add: hasPrefix_def)
    ultimately show ?thesis by blast
  qed
qed

lemma hasSuffix_intros:
  "hasSuffix p p" "hasSuffix p t \<Longrightarrow> hasSuffix p (c # t)" "hasSuffix p t \<Longrightarrow> hasSuffix p (s @ t)"
  by (auto simp: hasSuffix_def Suc_diff_le)

lemma sinkSQL_statement:
  assumes "sinkSQL node sql = Ok out" "sparkValidateSelect sql = None"
  shows "CHR '';'' \<notin> set out \<and> hasPrefix ''INSERT INTO '' out \<and> hasSuffix (trimSpace sql) out"
proof -
  have sql: "CHR '';'' \<notin> set (trimSpace sql)"
    using assms(2) unsafe_semicolon by (auto simp: sparkValidateSelect_def Let_def split: if_splits)
  have plain: "CHR '';'' \<notin> set p" if "snowflakePathOK p" for p
    using path_plain [OF that] by (auto simp: plainSQL_def list_all_iff)
  show ?thesis
    using assms(1) sql plain by (auto simp: sinkSQL_def Let_def hasPrefix_def intro!: hasSuffix_intros split: if_splits)
qed

text \<open>C24: The script of a Spark application is two statements. Whatever the user configured and wrote, the script
  that is submitted consists of the creation of the source view and of one insert, which ends with the
  user's \<^verbatim>\<open>SELECT\<close>; the snapshot identifiers are the ones of the catalogue, without quotes.\<close>

theorem spark_two_statements:
  assumes "BuildApplication def executionID namespace img previous current = Ok app"
    and "CHR 0x27 \<notin> set previous" "CHR 0x27 \<notin> set current"
  shows "\<exists>script view ins sql. app = sparkApplication (def_ID def) executionID namespace img script
    \<and> splitSQL None script = [view, CHR 0x0A # ins]
    \<and> hasPrefix ''CREATE OR REPLACE TEMP VIEW source '' view
    \<and> hasPrefix ''INSERT INTO '' ins \<and> transformSQL def = Some sql \<and> hasSuffix (trimSpace sql) ins"
proof -
  obtain sql source sink input outSQL where b: "transformSQL def = Some sql" "sparkValidateSelect sql = None"
      "sourceSQL source previous current = Ok input" "sinkSQL sink sql = Ok outSQL"
      "app = sparkApplication (def_ID def) executionID namespace img (input @ [CHR 0x0A] @ outSQL)"
    using assms(1) unfolding BuildApplication_def by (auto split: option.splits sum.splits if_splits)
  obtain view where v: "input = view @ '';''" "openAfter None view = Some None" "hasPrefix ''CREATE OR REPLACE TEMP VIEW source '' view"
    using sourceSQL_statement [OF b(3) assms(2,3)] by blast
  note i = sinkSQL_statement [OF b(4,2)]
  have "splitSQL None (input @ [CHR 0x0A] @ outSQL) = [view, CHR 0x0A # outSQL]"
    using splitSQL_statement [OF v(2), of "CHR 0x0A # outSQL"] splitSQL_rest [of "CHR 0x0A # outSQL" None] i by (simp add: v(1))
  then show ?thesis using b(1,5) v(3) i by blast
qed

definition sparkSample :: PipelineDefinition where
  "sparkSample = (sampleDef [(sampleNode ''a'' ''source'' ''iceberg.fetch'')\<lparr>node_Config := [(''namespace'', VStr ''ns''), (''table'', VStr ''t'')]\<rparr>,
      (sampleNode ''k'' ''sink'' ''sink.clickhouse'')\<lparr>node_Config := [(''table'', VStr ''out'')]\<rparr>] [sampleEdge ''a'' ''k''])
    \<lparr>def_Execution := Some \<lparr>exec_Engine = ''spark-sql'', exec_TransformSQL = ''SELECT 1''\<rparr>\<rparr>"

lemma sparkSample_valid: "sparkValidateSelect ''SELECT 1'' = None"
  by code_simp

lemma sparkSample_parts:
  "transformSQL sparkSample = Some ''SELECT 1''" "def_ID sparkSample = ''p1''"
  "lastOfType ''source'' sparkSample = Some ((sampleNode ''a'' ''source'' ''iceberg.fetch'')\<lparr>node_Config := [(''namespace'', VStr ''ns''), (''table'', VStr ''t'')]\<rparr>)"
  "lastOfType ''sink'' sparkSample = Some ((sampleNode ''k'' ''sink'' ''sink.clickhouse'')\<lparr>node_Config := [(''table'', VStr ''out'')]\<rparr>)"
  by (simp_all add: sparkSample_def transformSQL_def lastOfType_def sampleDef_def sampleNode_def)

lemma sparkSample_builds: "isOk (BuildApplication sparkSample i ns img previous current)"
proof -
  have "isOk (sourceSQL ((sampleNode ''a'' ''source'' ''iceberg.fetch'')\<lparr>node_Config := [(''namespace'', VStr ''ns''), (''table'', VStr ''t'')]\<rparr>) previous current)"
    by (simp add: sourceSQL_def sampleNode_def objGet_def textOf_def trimSpace_def isSpace_def wideSpace2_def wideSpace3_def snowflakePathOK_def identifierOK_def isLetter_def isOk_def Let_def)
  moreover have "isOk (sinkSQL ((sampleNode ''k'' ''sink'' ''sink.clickhouse'')\<lparr>node_Config := [(''table'', VStr ''out'')]\<rparr>) ''SELECT 1'')"
    by (simp add: sinkSQL_def sampleNode_def objGet_def textOf_def trimSpace_def isSpace_def wideSpace2_def wideSpace3_def snowflakePathOK_def identifierOK_def isLetter_def isOk_def Let_def)
  ultimately show ?thesis
    by (simp add: BuildApplication_def sparkSample_parts sparkSample_valid isOk_def split: sum.splits)
qed

theorem spark_two_statements_witness:
  "\<exists>script view ins. BuildApplication sparkSample ''exec-1'' ''spark'' ''img'' ''7'' ''9'' = Ok (sparkApplication ''p1'' ''exec-1'' ''spark'' ''img'' script)
     \<and> splitSQL None script = [view, CHR 0x0A # ins] \<and> hasPrefix ''INSERT INTO '' ins"
proof -
  obtain app where app: "BuildApplication sparkSample ''exec-1'' ''spark'' ''img'' ''7'' ''9'' = Ok app"
    using sparkSample_builds unfolding isOk_iff by blast
  from spark_two_statements [OF app] app sparkSample_parts(2) show ?thesis by fastforce
qed

section \<open>Flink deployments\<close>

lemma semi_letters: "list_all (\<lambda>c. isLetter c \<or> isDigit c \<or> c = CHR ''_'') s \<Longrightarrow> CHR '';'' \<notin> set s"
  using letter_plain by (auto simp: list_all_iff)

lemma flinkColumn_clean:
  "flinkColumn v = Ok (decl, name) \<Longrightarrow> CHR '';'' \<notin> set decl \<and> identifierOK name"
  by (auto simp: flinkColumn_def flinkKinds_def Let_def ticked_def semi_letters [OF identifier_letters] split: option.splits if_splits)

lemma flinkColumns_clean:
  assumes "flinkColumns raw = Ok (cols, names)"
  shows "CHR '';'' \<notin> set cols \<and> (\<forall>n\<in>set names. identifierOK n)"
proof -
  obtain vs cs where c: "forR flinkColumn vs = Ok cs" "cols = join '','' (map fst cs)" "names = map snd cs"
    using assms by (auto simp: flinkColumns_def split: option.splits if_splits sum.splits)
  have each: "CHR '';'' \<notin> set (fst d) \<and> identifierOK (snd d)" if "d \<in> set cs" for d
  proof -
    obtain i where "i < length cs" "cs ! i = d" using \<open>d \<in> set cs\<close> by (metis in_set_conv_nth)
    then have "flinkColumn (vs ! i) = Ok d" using forR_nth [OF c(1)] forR_length [OF c(1)] by simp
    then show ?thesis using flinkColumn_clean [of "vs ! i" "fst d" "snd d"] by simp
  qed
  then show ?thesis using set_join [of "'',''" "map fst cs"] by (auto simp: c(2,3))
qed

text \<open>What a deployment is made of.\<close>

lemma BuildDeployment_parts:
  assumes "BuildDeployment def executionID = Ok d"
  obtains sql cols names topic collection fmt where
    "transformSQL def = Some sql" "flinkValidateSelect sql = None" "CHR '';'' \<notin> set cols" "\<forall>n\<in>set names. identifierOK n"
    "resourceNameOK topic" "resourceNameOK collection" "fmt \<in> {''json'', ''debezium-json''}"
    "dep_Statements d = [flinkSourceDDL cols topic executionID fmt, flinkSinkDDL, flinkInsert collection names sql]"
    "\<And>other. \<exists>d'. BuildDeployment def other = Ok d'
       \<and> dep_Statements d' = [flinkSourceDDL cols topic other fmt, flinkSinkDDL, flinkInsert collection names sql]"
proof -
  obtain sql where s: "transformSQL def = Some sql" "flinkValidateSelect sql = None"
    using assms by (auto simp: BuildDeployment_def split: option.splits if_splits)
  obtain source sink where n: "lastOfType ''source'' def = Some source" "lastOfType ''sink'' def = Some sink"
    using assms s by (auto simp: BuildDeployment_def split: option.splits)
  have act: "node_ActivityType source = ''kafka.fetch''" "node_ActivityType sink = ''sink.clickhouse''"
    using assms s n by (auto simp: BuildDeployment_def split: if_splits)
  obtain cols ns where c: "flinkColumns (objGet (node_Config source) ''columns'') = Ok (cols, ns)"
    using assms s n act by (auto simp: BuildDeployment_def split: sum.splits)
  obtain os names where o: "flinkColumns (objGet (node_Config sink) ''columns'') = Ok (os, names)"
    using assms s n act c by (auto simp: BuildDeployment_def split: sum.splits)
  let ?topic = "textOf (objGet (node_Config source) ''topic'')" and ?coll = "textOf (objGet (node_Config sink) ''collection'')"
  let ?fmt0 = "textOf (objGet (node_Config source) ''valueFormat'')"
  let ?fmt = "if ?fmt0 = [] then ''json'' else ?fmt0"
  have r: "resourceNameOK ?topic" "resourceNameOK ?coll" "?fmt \<in> {''json'', ''debezium-json''}"
    using assms s n act c o by (auto simp: BuildDeployment_def Let_def split: if_splits)
  have all: "\<exists>d'. BuildDeployment def other = Ok d'
       \<and> dep_Statements d' = [flinkSourceDDL cols ?topic other ?fmt, flinkSinkDDL, flinkInsert ?coll names sql]" for other
    using s n act c o r by (auto simp: BuildDeployment_def Let_def)
  have "dep_Statements d = [flinkSourceDDL cols ?topic executionID ?fmt, flinkSinkDDL, flinkInsert ?coll names sql]"
    using all [of executionID] assms by auto
  from that [OF s _ _ r this all] show ?thesis using flinkColumns_clean [OF c] flinkColumns_clean [OF o] by blast
qed

lemma quoted_semi: "c \<in> set (quoted s) \<longleftrightarrow> c = CHR 0x27 \<or> c \<in> set s" "c \<in> set (ticked s) \<longleftrightarrow> c = CHR 0x60 \<or> c \<in> set s"
  by (auto simp: quoted_def ticked_def)

lemma join_semi: "CHR '';'' \<notin> set sep \<Longrightarrow> \<forall>w\<in>set ws. CHR '';'' \<notin> set w \<Longrightarrow> CHR '';'' \<notin> set (join sep ws)"
  using set_join [of sep ws] by blast

lemma resource_semi: "resourceNameOK s \<Longrightarrow> CHR '';'' \<notin> set s"
  by (auto simp: resourceNameOK_def list_all_iff isLetter_def isDigit_def dest!: bspec)

lemma flink_statements_clean:
  assumes "CHR '';'' \<notin> set cols" "\<forall>n\<in>set names. identifierOK n" "resourceNameOK topic" "resourceNameOK collection"
    and "fmt \<in> {''json'', ''debezium-json''}" "flinkValidateSelect sql = None" "CHR '';'' \<notin> set executionID"
  shows "\<forall>st\<in>set [flinkSourceDDL cols topic executionID fmt, flinkSinkDDL, flinkInsert collection names sql]. CHR '';'' \<notin> set st"
proof -
  have set1: "CHR '';'' \<notin> set (setting kv)" if "CHR '';'' \<notin> set (fst kv)" "CHR '';'' \<notin> set (snd kv)" for kv
    using that by (auto simp: setting_def quoted_semi)
  have "CHR '';'' \<notin> set (flinkSourceDDL cols topic executionID fmt)"
  proof -
    have "CHR '';'' \<notin> set (join '','' (map setting kvs))" if "\<forall>kv\<in>set kvs. CHR '';'' \<notin> set (setting kv)" for kvs
      using that by (intro join_semi) auto
    then show ?thesis
      using assms(1,5,7) resource_semi [OF assms(3)] set1 unfolding flinkSourceDDL_def set_append Un_iff by (elim insertE emptyE) (simp_all only:, simp_all)
  qed
  moreover have "CHR '';'' \<notin> set flinkSinkDDL" by code_simp
  moreover have "CHR '';'' \<notin> set (flinkInsert collection names sql)"
  proof -
    have n: "CHR '';'' \<notin> set n" if "n \<in> set names" for n using semi_letters [OF identifier_letters] assms(2) that by blast
    have j1: "CHR '';'' \<notin> set (join '','' (map (\<lambda>n. quoted n @ '' VALUE '' @ ticked n) names))"
      using n by (intro join_semi) (auto simp: quoted_semi)
    have j2: "CHR '';'' \<notin> set (join '','' (map (\<lambda>n. ''COALESCE(CAST('' @ ticked n @ '' AS STRING),'' @ quoted [] @ '')'') names))"
      using n by (intro join_semi) (auto simp: quoted_semi)
    have sq: "CHR '';'' \<notin> set (trimSpace sql)"
      using assms(6) unsafe_semicolon by (auto simp: flinkValidateSelect_def Let_def split: if_splits)
    show ?thesis
      unfolding flinkInsert_def set_append Un_iff using j1 j2 sq resource_semi [OF assms(4)] by (simp add: quoted_semi)
  qed
  ultimately show ?thesis by simp
qed

text \<open>An admitted Flink pipeline deploys. When the enterprise edition admits a pipeline for Flink, its
  statements can be built for every execution, and every one of them is a single statement: nothing the
  user configured or wrote separates statements.\<close>

theorem flink_admitted_deploys:
  assumes "validatePipeline uuidParse enterpriseEdition rng def = None"
    and "map_option exec_Engine (def_Execution def) = Some ''flink-sql''"
    and "CHR '';'' \<notin> set executionID"
  shows "\<exists>d. BuildDeployment def executionID = Ok d \<and> length (dep_Statements d) = 3
    \<and> (\<forall>st\<in>set (dep_Statements d). CHR '';'' \<notin> set st)"
proof -
  obtain x where x: "def_Execution def = Some x" "exec_Engine x = ''flink-sql''" using assms(2) by auto
  have "validateEngine enterpriseEdition def = None"
    using assms(1) by (auto simp: validatePipeline_def split: if_splits option.splits)
  then have "ed_ValidateFlinkDeployment enterpriseEdition def ''validation'' = None"
    using x by (auto simp: validateEngine_def validateFlinkSQL_def split: option.splits if_splits)
  then obtain d0 where "BuildDeployment def ''validation'' = Ok d0" by (auto simp: enterpriseEdition_def split: sum.splits)
  then obtain sql cols names topic collection fmt where p: "flinkValidateSelect sql = None" "CHR '';'' \<notin> set cols"
    "\<forall>n\<in>set names. identifierOK n" "resourceNameOK topic" "resourceNameOK collection" "fmt \<in> {''json'', ''debezium-json''}"
    "\<And>other. \<exists>d'. BuildDeployment def other = Ok d'
       \<and> dep_Statements d' = [flinkSourceDDL cols topic other fmt, flinkSinkDDL, flinkInsert collection names sql]"
    by (rule BuildDeployment_parts) blast
  from p(7) [of executionID] flink_statements_clean [OF p(2-6,1) assms(3)] show ?thesis by fastforce
qed

definition flinkSample :: PipelineDefinition where
  "flinkSample = (sampleDef [(sampleNode ''a'' ''source'' ''kafka.fetch'')\<lparr>node_Config := [(''topic'', VStr ''t''),
        (''columns'', VArr [VObj [(''name'', VStr ''c''), (''type'', VStr ''INT'')]])]\<rparr>,
      (sampleNode ''k'' ''sink'' ''sink.clickhouse'')\<lparr>node_Config := [(''collection'', VStr ''o''),
        (''columns'', VArr [VObj [(''name'', VStr ''c''), (''type'', VStr ''INT'')]])]\<rparr>] [sampleEdge ''a'' ''k''])
    \<lparr>def_Execution := Some \<lparr>exec_Engine = ''flink-sql'', exec_TransformSQL = ''SELECT 1''\<rparr>\<rparr>"

theorem flink_admitted_deploys_witness: "\<exists>d. BuildDeployment flinkSample ''exec-1'' = Ok d \<and> length (dep_Statements d) = 3"
proof -
  have "validatePipeline (\<lambda>_. True) enterpriseEdition (\<lambda>xs. xs) flinkSample = None" by code_simp
  moreover have "map_option exec_Engine (def_Execution flinkSample) = Some ''flink-sql''" by (simp add: flinkSample_def)
  moreover have "CHR '';'' \<notin> set ''exec-1''" by simp
  ultimately show ?thesis using flink_admitted_deploys by blast
qed

section \<open>Consecutive Spark runs\<close>

lemma previousSnapshot_committed:
  "s \<noteq> ''<nil>'' \<Longrightarrow> previousSnapshot (AList.update (tenant, key) [(''snapshotId'', VStr s)] cursors) tenant key = s"
  by (simp add: previousSnapshot_def update_conv' objGet_def)

lemma submit_iceberg:
  assumes "lastOfType ''source'' def = Some source" "node_ActivityType source = ''iceberg.fetch''" "ew_Snapshot E (node_Config source) = Ok current"
    and "previousSnapshot cursors tenant (sparkStateKey def source) = previous" "previous \<noteq> current"
    and "BuildApplication def executionID (envValue (ew_SparkNamespace E) ''spark'') (envValue (ew_SparkImage E) ''dataflow/spark-sql:latest'') previous current = Ok spec"
  shows "submitSparkJob E cursors def tenant executionID = sparkCreate E executionID
     \<lparr>spark_Name = sparkName executionID, spark_InputStateKey = sparkStateKey def source, spark_InputSnapshot = current,
      spark_OutputBefore = sparkOutputBefore E def, spark_Noop = False\<rparr> spec"
  using assms by (simp add: submitSparkJob_def sparkRange_def)

text \<open>Consecutive Spark runs read adjacent ranges. When the attempt that created the application is the one
  that returned, the application reads from the committed snapshot to the one that the run remembers, and
  once the run is committed the next run starts exactly there.\<close>

theorem spark_ranges_adjacent:
  assumes "lastOfType ''source'' def = Some source" "node_ActivityType source = ''iceberg.fetch''"
    and "submitSparkJob E cursors def tenant executionID = Ok ref" "\<not> spark_Noop ref"
    and "\<And>body. isOk (kubernetesRequest (ew_Kube E) ''POST'' (sparkCollection E) body)"
    and "spark_InputSnapshot ref \<noteq> []" "spark_InputSnapshot ref \<noteq> ''<nil>''"
    and "commitSparkJob E' ref def tenant cursors' = (None, cursors'')"
  shows "(\<exists>spec. BuildApplication def executionID (envValue (ew_SparkNamespace E) ''spark'') (envValue (ew_SparkImage E) ''dataflow/spark-sql:latest'')
        (previousSnapshot cursors tenant (sparkStateKey def source)) (spark_InputSnapshot ref) = Ok spec)
    \<and> previousSnapshot cursors'' tenant (sparkStateKey def source) = spark_InputSnapshot ref"
proof -
  let ?key = "sparkStateKey def source"
  let ?prev = "previousSnapshot cursors tenant ?key"
  obtain current where c: "ew_Snapshot E (node_Config source) = Ok current"
    using assms(1-3) by (auto simp: submitSparkJob_def sparkRange_def split: sum.splits)
  have ne: "\<not> (?prev \<noteq> [] \<and> ?prev = current)"
    using assms(1-4) c by (auto simp: submitSparkJob_def sparkRange_def sparkStateKey_def)
  obtain spec where b: "BuildApplication def executionID (envValue (ew_SparkNamespace E) ''spark'')
      (envValue (ew_SparkImage E) ''dataflow/spark-sql:latest'') ?prev current = Ok spec"
    and r: "sparkCreate E executionID \<lparr>spark_Name = sparkName executionID, spark_InputStateKey = ?key,
      spark_InputSnapshot = current, spark_OutputBefore = sparkOutputBefore E def, spark_Noop = False\<rparr> spec = Ok ref"
    using assms(1-3) c ne by (auto simp: submitSparkJob_def sparkRange_def split: sum.splits if_splits)
  have ref: "spark_InputSnapshot ref = current" "spark_InputStateKey ref = ?key"
    using r assms(5) by (auto simp: sparkCreate_def isOk_def split: sum.splits if_splits)
  have "?key \<noteq> []" by (simp add: sparkStateKey_def)
  then have "cursors'' = AList.update (tenant, ?key) [(''snapshotId'', VStr current)] cursors'"
    using assms(6,8) by (auto simp: commitSparkJob_def ref split: option.splits)
  then show ?thesis using b previousSnapshot_committed assms(7) ref(1) by auto
qed

definition sparkWorker :: "(kubeRequest \<Rightarrow> (string, int \<times> string) result) \<Rightarrow> string \<Rightarrow> engineWorker" where
  "sparkWorker answer snapshot = \<lparr>ew_Kube = \<lparr>kc_Host = ''k8s'', kc_Port = [], kc_Token = Ok ''t'', kc_Send = answer\<rparr>,
     ew_SparkNamespace = [], ew_SparkImage = [], ew_Snapshot = (\<lambda>_. Ok snapshot),
     ew_Unmarshal = (\<lambda>_. Some (VObj [(''metadata'', VObj [(''labels'', VObj [(''dataflow.io/execution-id'', VStr ''exec-1'')])])]))\<rparr>"

definition sparkCursors :: cursorTable where
  "sparkCursors = [((''t1'', ''spark:p1:a''), [(''snapshotId'', VStr ''7'')])]"

lemma sparkSample_key: "sparkStateKey sparkSample (the (lastOfType ''source'' sparkSample)) = ''spark:p1:a''"
  by (simp add: sparkStateKey_def sparkSample_parts sampleNode_def)

lemma sparkSample_previous: "previousSnapshot sparkCursors ''t1'' ''spark:p1:a'' = ''7''"
  by (simp add: previousSnapshot_def sparkCursors_def objGet_def)

lemma sparkSample_source:
  "lastOfType ''source'' sparkSample = Some (the (lastOfType ''source'' sparkSample))"
  "node_ActivityType (the (lastOfType ''source'' sparkSample)) = ''iceberg.fetch''"
  by (simp_all add: sparkSample_parts sampleNode_def)

theorem spark_ranges_adjacent_witness:
  "\<exists>ref cursors. submitSparkJob (sparkWorker (\<lambda>_. Ok (201, [])) ''9'') sparkCursors sparkSample ''t1'' ''exec-1'' = Ok ref
     \<and> previousSnapshot cursors ''t1'' ''spark:p1:a'' = ''9''"
proof -
  let ?E = "sparkWorker (\<lambda>_. Ok (201, [])) ''9''" and ?s = "the (lastOfType ''source'' sparkSample)"
  let ?ref = "\<lparr>spark_Name = sparkName ''exec-1'', spark_InputStateKey = ''spark:p1:a'', spark_InputSnapshot = ''9'', spark_OutputBefore = [], spark_Noop = False\<rparr>"
  have out: "sparkOutputBefore ?E sparkSample = []" by (simp add: sparkOutputBefore_def sparkSample_parts sampleNode_def)
  have ok: "kubernetesRequest (ew_Kube ?E) ''POST'' (sparkCollection ?E) body = Ok []" for body
    by (simp add: sparkWorker_def kubernetesRequest_def)
  then have post: "isOk (kubernetesRequest (ew_Kube ?E) ''POST'' (sparkCollection ?E) body)" for body by (simp add: isOk_def)
  obtain spec where b: "BuildApplication sparkSample ''exec-1'' (envValue (ew_SparkNamespace ?E) ''spark'') (envValue (ew_SparkImage ?E) ''dataflow/spark-sql:latest'') ''7'' ''9'' = Ok spec"
    using sparkSample_builds unfolding isOk_iff by blast
  have snap: "ew_Snapshot ?E (node_Config ?s) = Ok ''9''" by (simp add: sparkWorker_def)
  have prev: "previousSnapshot sparkCursors ''t1'' (sparkStateKey sparkSample ?s) = ''7''" by (simp add: sparkSample_key sparkSample_previous)
  have sub: "submitSparkJob ?E sparkCursors sparkSample ''t1'' ''exec-1'' = Ok ?ref"
    using submit_iceberg [OF sparkSample_source snap prev _ b] by (simp add: sparkCreate_def ok out sparkSample_key del: jsonMarshal.simps)
  have "commitSparkJob ?E ?ref sparkSample ''t1'' sparkCursors
      = (None, AList.update (''t1'', ''spark:p1:a'') [(''snapshotId'', VStr ''9'')] sparkCursors)"
    by (simp add: commitSparkJob_def sparkSample_def sampleDef_def sampleNode_def sparkOutputError_def)
  from spark_ranges_adjacent [OF sparkSample_source sub _ post _ _ this] sub show ?thesis by (auto simp: sparkSample_key)
qed

text \<open>An attempt that attaches to an application skips snapshots. When the answer of the creation is lost, the
  retry finds the application of the first attempt and attaches to it, but remembers the snapshot that is
  current now: the application reads up to the first snapshot, the next run starts after the second.\<close>

theorem spark_retry_skips_snapshots:
  assumes "lastOfType ''source'' def = Some source" "node_ActivityType source = ''iceberg.fetch''"
    and "previousSnapshot cursors tenant (sparkStateKey def source) = p0" "p0 \<noteq> s1" "p0 \<noteq> s2"
    and "ew_Snapshot E1 (node_Config source) = Ok s1" "ew_Snapshot E2 (node_Config source) = Ok s2"
    and "BuildApplication def executionID (envValue (ew_SparkNamespace E1) ''spark'') (envValue (ew_SparkImage E1) ''dataflow/spark-sql:latest'') p0 s1 = Ok app1"
    and "BuildApplication def executionID (envValue (ew_SparkNamespace E2) ''spark'') (envValue (ew_SparkImage E2) ''dataflow/spark-sql:latest'') p0 s2 = Ok app2"
    and lost: "kubernetesRequest (ew_Kube E1) ''POST'' (sparkCollection E1) (jsonMarshal (VObj app1)) = Err (KOther e)"
    and exists: "kubernetesRequest (ew_Kube E2) ''POST'' (sparkCollection E2) (jsonMarshal (VObj app2)) = Err (KStatus 409 b)"
    and found: "kubernetesRequest (ew_Kube E2) ''GET'' (sparkCollection E2 @ ''/'' @ sparkName executionID) [] = Ok existing"
      "sparkApplicationOwnedBy (ew_Unmarshal E2) existing executionID"
    and "s2 \<noteq> []" "s2 \<noteq> ''<nil>''"
  shows "submitSparkJob E1 cursors def tenant executionID = Err e
    \<and> (\<exists>ref. submitSparkJob E2 cursors def tenant executionID = Ok ref \<and> spark_InputSnapshot ref = s2
        \<and> (\<forall>E' cursors' cursors''. commitSparkJob E' ref def tenant cursors' = (None, cursors'')
             \<longrightarrow> previousSnapshot cursors'' tenant (sparkStateKey def source) = s2))"
proof -
  have one: "submitSparkJob E1 cursors def tenant executionID = Err e"
    using submit_iceberg [OF assms(1,2,6,3,4,8)] lost by (simp add: sparkCreate_def kubeErrorText_def)
  let ?ref = "\<lparr>spark_Name = sparkName executionID, spark_InputStateKey = sparkStateKey def source, spark_InputSnapshot = s2,
      spark_OutputBefore = sparkOutputBefore E2 def, spark_Noop = False\<rparr>"
  have two: "submitSparkJob E2 cursors def tenant executionID = Ok ?ref"
    using submit_iceberg [OF assms(1,2,7,3,5,9)] exists found by (simp add: sparkCreate_def)
  have "previousSnapshot cursors'' tenant (sparkStateKey def source) = s2"
    if "commitSparkJob E' ?ref def tenant cursors' = (None, cursors'')" for E' cursors' cursors''
    using that assms(14,15) previousSnapshot_committed [OF assms(15)]
    by (auto simp: commitSparkJob_def sparkStateKey_def split: option.splits)
  with one two show ?thesis by fastforce
qed

theorem spark_retry_skips_snapshots_witness:
  "let key = ''spark:p1:a''; E2 = sparkWorker (\<lambda>r. if kr_Method r = ''POST'' then Ok (409, []) else Ok (200, ''x'')) ''11'' in
     submitSparkJob (sparkWorker (\<lambda>_. Err ''timeout'') ''9'') sparkCursors sparkSample ''t1'' ''exec-1'' = Err ''timeout''
     \<and> (\<exists>ref. submitSparkJob E2 sparkCursors sparkSample ''t1'' ''exec-1'' = Ok ref \<and> spark_InputSnapshot ref = ''11'')"
proof -
  let ?E1 = "sparkWorker (\<lambda>_. Err ''timeout'') ''9''" and ?s = "the (lastOfType ''source'' sparkSample)"
  let ?E2 = "sparkWorker (\<lambda>r. if kr_Method r = ''POST'' then Ok (409, []) else Ok (200, ''x'')) ''11''"
  have prev: "previousSnapshot sparkCursors ''t1'' (sparkStateKey sparkSample ?s) = ''7''" by (simp add: sparkSample_key sparkSample_previous)
  obtain app1 where b1: "BuildApplication sparkSample ''exec-1'' (envValue (ew_SparkNamespace ?E1) ''spark'') (envValue (ew_SparkImage ?E1) ''dataflow/spark-sql:latest'') ''7'' ''9'' = Ok app1"
    using sparkSample_builds unfolding isOk_iff by blast
  obtain app2 where b2: "BuildApplication sparkSample ''exec-1'' (envValue (ew_SparkNamespace ?E2) ''spark'') (envValue (ew_SparkImage ?E2) ''dataflow/spark-sql:latest'') ''7'' ''11'' = Ok app2"
    using sparkSample_builds unfolding isOk_iff by blast
  have snap: "ew_Snapshot ?E1 (node_Config ?s) = Ok ''9''" "ew_Snapshot ?E2 (node_Config ?s) = Ok ''11''" by (simp_all add: sparkWorker_def)
  have lost: "kubernetesRequest (ew_Kube ?E1) ''POST'' (sparkCollection ?E1) (jsonMarshal (VObj app1)) = Err (KOther ''timeout'')"
    by (simp add: sparkWorker_def kubernetesRequest_def)
  have ex: "kubernetesRequest (ew_Kube ?E2) ''POST'' (sparkCollection ?E2) (jsonMarshal (VObj app2)) = Err (KStatus 409 [])"
    by (simp add: sparkWorker_def kubernetesRequest_def)
  have found: "kubernetesRequest (ew_Kube ?E2) ''GET'' (sparkCollection ?E2 @ ''/'' @ sparkName ''exec-1'') [] = Ok ''x''"
    by (simp add: sparkWorker_def kubernetesRequest_def bodyLimit_def)
  have own: "sparkApplicationOwnedBy (ew_Unmarshal ?E2) ''x'' ''exec-1''"
    unfolding sparkWorker_def sparkApplicationOwnedBy_def by code_simp
  from spark_retry_skips_snapshots [OF sparkSample_source prev _ _ snap b1 b2 lost ex found own] show ?thesis
    unfolding Let_def by fastforce
qed

text \<open>The key that makes an action idempotent is the same for every repetition of the action in an execution.\<close>

lemma action_key_repeats:
  "hr_Headers (cohestraReq F ''POST'' p1 b1 [(''Idempotency-Key'', actionKey exec ''pause'')])
     = hr_Headers (cohestraReq F ''POST'' p2 b2 [(''Idempotency-Key'', actionKey exec ''pause'')])"
  by (simp add: cohestraReq_def)

end
