(* ===== verification/Http.thy ===== *)
theory Http
  imports Records GoTime Ssrf
begin

text \<open>
  The HTTP connectors (\<^verbatim>\<open>internal/connectors/http.go\<close>) and the dispatch of the runtime
  (\<^verbatim>\<open>internal/connectors/runtime.go\<close>, \<^verbatim>\<open>registry.go\<close>): the request of a page of a manifest source with its
  pagination and watermark, the cursor after the page, and the webhook and record sinks.

  Parameters: the URL parser and printer, the HTTP clients, the decoder of JSON, the hashes, the time and the
  credential store. A query is the list of its parameters with their values.
\<close>

section \<open>Text of the standard library\<close>

definition tokenChar :: "char \<Rightarrow> bool" where
  "tokenChar c \<longleftrightarrow> isLetter c \<or> isDigit c \<or> c \<in> set ''!#$%&*+-.^_|~'' \<or> c = CHR 0x27 \<or> c = CHR 0x60"

text \<open>\<^verbatim>\<open>textproto.CanonicalMIMEHeaderKey\<close>.\<close>

fun canonicalFrom :: "bool \<Rightarrow> string \<Rightarrow> string" where
  "canonicalFrom up [] = []"
| "canonicalFrom up (c # s) = (if up then upperChar c else lowerChar c) # canonicalFrom (c = CHR ''-'') s"

definition canonicalHeader :: "string \<Rightarrow> string" where
  "canonicalHeader k = (if list_all tokenChar k then canonicalFrom True k else k)"

type_synonym headers = "(string \<times> string) list"

definition setHeader :: "string \<Rightarrow> string \<Rightarrow> headers \<Rightarrow> headers" where
  "setHeader k v hs = AList.update (canonicalHeader k) v hs"

text \<open>\<^verbatim>\<open>url.QueryEscape\<close>.\<close>

definition upperHex :: "nat \<Rightarrow> char" where
  "upperHex n = char_of (if n < 10 then 48 + n else 55 + n)"

definition escapeByte :: "char \<Rightarrow> string" where
  "escapeByte c =
     (if isLetter c \<or> isDigit c \<or> c \<in> set ''-_.~'' then [c] else if c = CHR '' '' then ''+''
      else let n = of_char c :: nat in [CHR ''%'', upperHex (n div 16), upperHex (n mod 16)])"

definition queryEscape :: "string \<Rightarrow> string" where
  "queryEscape s = concat (map escapeByte s)"

type_synonym query = "(string \<times> string list) list"

definition setQuery :: "string \<Rightarrow> string \<Rightarrow> query \<Rightarrow> query" where
  "setQuery k v q = AList.update k [v] q"

text \<open>\<^verbatim>\<open>time.ParseDuration\<close>: terms of a decimal number and a unit; a fraction is cut to whole nanoseconds.\<close>

definition durationUnit :: "string \<Rightarrow> int option" where
  "durationUnit u = map_of [(''ns'', 1), (''us'', 1000), ([CHR 0xC2, CHR 0xB5, CHR ''s''], 1000), ([CHR 0xCE, CHR 0xBC, CHR ''s''], 1000),
     (''ms'', 1000000), (''s'', timeSecond), (''m'', 60 * timeSecond), (''h'', 3600 * timeSecond)] u"

definition durationTerm :: "string \<Rightarrow> (int \<times> string) option" where
  "durationTerm s =
     (let whole = takeWhile isDigit s; r1 = dropWhile isDigit s; point = hasPrefix ''.'' r1;
          part = (if point then takeWhile isDigit (drop 1 r1) else []); r2 = (if point then dropWhile isDigit (drop 1 r1) else r1);
          u = takeWhile (\<lambda>x. x \<noteq> CHR ''.'' \<and> \<not> isDigit x) r2
      in if whole = [] \<and> part = [] then None
         else map_option (\<lambda>k. (digitsVal whole * k + digitsVal part * k div 10 ^ length part, drop (length u) r2)) (durationUnit u))"

fun durationTerms :: "nat \<Rightarrow> int \<Rightarrow> string \<Rightarrow> int option" where
  "durationTerms 0 acc s = (if s = [] then Some acc else None)"
| "durationTerms (Suc n) acc s =
     (if s = [] then Some acc
      else (case durationTerm s of
          None \<Rightarrow> None
        | Some (d, r) \<Rightarrow> if acc + d > maxInt64 + 1 then None else durationTerms n (acc + d) r))"

definition parseDuration :: "string \<Rightarrow> int option" where
  "parseDuration s0 =
     (let neg = hasPrefix ''-'' s0; s = (if neg \<or> hasPrefix ''+'' s0 then drop 1 s0 else s0) in
      if s = ''0'' then Some 0 else if s = [] then None
      else (case durationTerms (length s) 0 s of
          None \<Rightarrow> None
        | Some d \<Rightarrow> if neg then Some (- d) else if d > maxInt64 then None else Some d))"

section \<open>Manifests\<close>

record ConnectorManifest =
  mf_ActivityType :: string
  mf_Kind :: string
  mf_URL :: string
  mf_Method :: string
  mf_RecordsPath :: string
  mf_Headers :: headers
  mf_Auth :: obj
  mf_Pagination :: obj
  mf_Incremental :: obj

text \<open>\<^verbatim>\<open>json.Unmarshal\<close> into a map: the entries are added, \<^verbatim>\<open>null\<close> empties it, anything else leaves it.\<close>

definition decodeInto :: "(string \<Rightarrow> gv option) \<Rightarrow> string \<Rightarrow> obj \<Rightarrow> obj" where
  "decodeInto unmarshal text m = (case unmarshal text of
     Some (VObj o') \<Rightarrow> fold (\<lambda>(k, v). objPut k v) o' m | Some VNil \<Rightarrow> [] | _ \<Rightarrow> m)"

definition configMap :: "(string \<Rightarrow> gv option) \<Rightarrow> obj \<Rightarrow> string \<Rightarrow> obj" where
  "configMap unmarshal cfg key =
     (let m = (case asObj (objGet cfg key) of Some o' \<Rightarrow> o' | None \<Rightarrow> []) in
      case asStr (objGet cfg (key @ ''Json'')) of Some raw \<Rightarrow> if raw \<noteq> [] then decodeInto unmarshal raw m else m | None \<Rightarrow> m)"

definition configManifest :: "(string \<Rightarrow> gv option) \<Rightarrow> obj \<Rightarrow> ConnectorManifest" where
  "configManifest unmarshal cfg = \<lparr>mf_ActivityType = ''http.fetch'', mf_Kind = ''source'', mf_URL = stringValue (objGet cfg ''url''),
     mf_Method = stringValue (objGet cfg ''method''), mf_RecordsPath = stringValue (objGet cfg ''recordsPath''), mf_Headers = [],
     mf_Auth = configMap unmarshal cfg ''auth'', mf_Pagination = configMap unmarshal cfg ''pagination'',
     mf_Incremental = configMap unmarshal cfg ''incremental''\<rparr>"

fun digParts :: "gv \<Rightarrow> string list \<Rightarrow> gv" where
  "digParts v [] = v"
| "digParts v (part # parts) =
     (if part = [] then digParts v parts
      else (case asObj v of None \<Rightarrow> VNil | Some object \<Rightarrow> digParts (objGet object part) parts))"

definition dig :: "gv \<Rightarrow> string \<Rightarrow> gv" where
  "dig v path = digParts v (splitOn (CHR ''.'') path)"

definition interpolate :: "string \<Rightarrow> obj \<Rightarrow> string" where
  "interpolate value cfg = fold (\<lambda>(key, item) s. replaceAll (''{'' @ key @ ''}'') (stringValue item) s) cfg value"

section \<open>The request of a page\<close>

record 'u httpLib =
  hl_Parse :: "string \<Rightarrow> (string, 'u) result"
  hl_Text :: "'u \<Rightarrow> string"
  hl_Query :: "'u \<Rightarrow> query"
  hl_Check :: "string \<Rightarrow> (string, urlParts) result"
  hl_Unmarshal :: "string \<Rightarrow> gv option"

record 'u pageRequest =
  pr_Endpoint :: 'u
  pr_Query :: query
  pr_Method :: string
  pr_Headers :: headers

definition pageStyle :: "ConnectorManifest \<Rightarrow> string" where
  "pageStyle m = stringValue (objGet (mf_Pagination m) ''style'')"

definition pageParam :: "ConnectorManifest \<Rightarrow> string" where
  "pageParam m = firstString [objGet (mf_Pagination m) ''param'',
     VStr (let style = pageStyle m in if style \<in> {''cursor'', ''page'', ''offset''} then style else [])]"

definition pageLimit :: "ConnectorManifest \<Rightarrow> SourceParams \<Rightarrow> int" where
  "pageLimit m p =
     (let base = truncFloat (firstNumber [objGet (mf_Pagination m) ''limit'', VFloat (number (objGet (sp_Config p) ''pageSize'')), VInt 100])
      in case sp_Ingestion p of Some i \<Rightarrow> if ing_PageSize i > 0 then ing_PageSize i else base | None \<Rightarrow> base)"

definition pagingQuery :: "ConnectorManifest \<Rightarrow> SourceParams \<Rightarrow> query \<Rightarrow> query" where
  "pagingQuery m p q0 =
     (let style = pageStyle m; param = pageParam m; cur = sp_Cursor p;
          q1 = (if style = ''cursor'' \<and> objGet cur ''next'' \<noteq> VNil then setQuery param (stringValue (objGet cur ''next'')) q0 else q0);
          q2 = (if style = ''page'' then setQuery param (stringValue (VFloat (firstNumber [objGet cur ''page'', VInt 1]))) q1 else q1);
          q3 = (if style = ''offset'' then setQuery param (stringValue (VFloat (firstNumber [objGet cur ''offset'', VInt 0]))) q2 else q2);
          limitParam = stringValue (objGet (mf_Pagination m) ''limitParam'')
      in if limitParam \<noteq> [] then setQuery limitParam (itoa (pageLimit m p)) q3 else q3)"

definition watermarkError :: "string \<Rightarrow> connError" where
  "watermarkError text = configError (''http.fetch: initialWatermark '' @ goQuote text @ '' must be an RFC 3339 time, ''
     @ [CHR 0x22] @ ''now'' @ [CHR 0x22] @ '' or '' @ [CHR 0x22] @ ''now-<duration>'' @ [CHR 0x22])"

definition initialWatermark :: "gv \<Rightarrow> int \<Rightarrow> (connError, string) result" where
  "initialWatermark value now =
     (let text = trimSpace (stringValue value) in
      if text = [] then Ok []
      else if text = ''now'' then Ok (formatRFC3339 now)
      else if hasPrefix ''now-'' text then
        (case parseDuration (drop 4 text) of
           None \<Rightarrow> Err (watermarkError text)
         | Some d \<Rightarrow> if d < 0 then Err (watermarkError text) else Ok (formatRFC3339 (now - d)))
      else if parseRFC3339 text = None then Err (watermarkError text) else Ok text)"

definition sinceValue :: "ConnectorManifest \<Rightarrow> SourceParams \<Rightarrow> int \<Rightarrow> (connError, string) result" where
  "sinceValue m p now =
     (let saved = stringValue (objGet (sp_Cursor p) ''watermark'');
          w = (if saved = [] then (case sp_Ingestion p of Some i \<Rightarrow> if ing_Mode i = ''backfill'' then ing_BackfillStart i else [] | None \<Rightarrow> [])
               else saved)
      in if w = [] then initialWatermark (objGet (mf_Incremental m) ''initialWatermark'') now else Ok w)"

definition sinceQuery :: "ConnectorManifest \<Rightarrow> SourceParams \<Rightarrow> int \<Rightarrow> query \<Rightarrow> (connError, query) result" where
  "sinceQuery m p now q =
     (let since = stringValue (objGet (mf_Incremental m) ''sinceParam'') in
      if since = [] then Ok q
      else (case sinceValue m p now of
          Inl e \<Rightarrow> Err e
        | Inr w \<Rightarrow> Ok (if w \<noteq> [] then setQuery since w q else q)))"

definition configParams :: "obj \<Rightarrow> query \<Rightarrow> query" where
  "configParams cfg q = (case asObj (objGet cfg ''params'') of Some params \<Rightarrow> fold (\<lambda>(k, v). setQuery k (stringValue v)) params q | None \<Rightarrow> q)"

text \<open>\<open>basicAuth\<close> is the value that \<^verbatim>\<open>SetBasicAuth\<close> writes.\<close>

definition authHeader :: "(string \<Rightarrow> string \<Rightarrow> string) \<Rightarrow> obj \<Rightarrow> headers \<Rightarrow> headers" where
  "authHeader basicAuth auth hs =
     (let ty = stringValue (objGet auth ''type'') in
      if ty = ''bearer'' then setHeader ''Authorization'' (''Bearer '' @ stringValue (objGet auth ''token'')) hs
      else if ty = ''header'' then setHeader (firstString [objGet auth ''name'', objGet auth ''headerName'', VStr ''Authorization'']) (stringValue (objGet auth ''value'')) hs
      else if ty = ''basic'' then setHeader ''Authorization'' (basicAuth (stringValue (objGet auth ''username'')) (stringValue (objGet auth ''password''))) hs
      else hs)"

definition pageHeaders :: "(string \<Rightarrow> string \<Rightarrow> string) \<Rightarrow> ConnectorManifest \<Rightarrow> obj \<Rightarrow> headers" where
  "pageHeaders basicAuth m cfg =
     (let h0 = setHeader ''User-Agent'' ''DataFlow/1.0'' [];
          h1 = fold (\<lambda>(k, v). setHeader k v) (mf_Headers m) h0;
          h2 = (case asObj (objGet cfg ''headers'') of Some hs \<Rightarrow> fold (\<lambda>(k, v). setHeader k (stringValue v)) hs h1 | None \<Rightarrow> h1)
      in authHeader basicAuth (case asObj (objGet cfg ''auth'') of Some a \<Rightarrow> a | None \<Rightarrow> mf_Auth m) h2)"

definition methodOK :: "string \<Rightarrow> bool" where
  "methodOK s \<longleftrightarrow> s \<noteq> [] \<and> list_all tokenChar s"

definition pageRequestOf ::
  "'u httpLib \<Rightarrow> (string \<Rightarrow> string \<Rightarrow> string) \<Rightarrow> int \<Rightarrow> ConnectorManifest \<Rightarrow> SourceParams \<Rightarrow> (connError, 'u pageRequest) result" where
  "pageRequestOf L basicAuth now m p =
     (case hl_Parse L (interpolate (firstString [objGet (sp_Config p) ''url'', VStr (mf_URL m)]) (sp_Config p)) of
        Inl e \<Rightarrow> Err (PlainError e)
      | Inr endpoint \<Rightarrow>
          (case ValidateURL (hl_Check L) (hl_Text L endpoint) of
             Inl e \<Rightarrow> Err (PlainError (''http.fetch: '' @ e))
           | Inr _ \<Rightarrow>
               (case sinceQuery m p now (pagingQuery m p (configParams (sp_Config p) (hl_Query L endpoint))) of
                  Inl e \<Rightarrow> Err e
                | Inr q \<Rightarrow>
                    let meth = firstString [objGet (sp_Config p) ''method'', VStr (mf_Method m), VStr ''GET''] in
                    if \<not> methodOK meth then Err (PlainError (''net/http: invalid method '' @ goQuote meth))
                    else Ok \<lparr>pr_Endpoint = endpoint, pr_Query = q, pr_Method = meth, pr_Headers = pageHeaders basicAuth m (sp_Config p)\<rparr>)))"

section \<open>The page\<close>

definition pageRecords :: "ConnectorManifest \<Rightarrow> gv \<Rightarrow> gv list" where
  "pageRecords m decoded =
     (let raw = (if mf_RecordsPath m \<noteq> [] then dig decoded (mf_RecordsPath m) else decoded)
      in case asArr raw of Some rs \<Rightarrow> rs | None \<Rightarrow> [raw])"

text \<open>The largest timestamp of the records, as text.\<close>

definition newestText :: "string \<Rightarrow> gv list \<Rightarrow> string option" where
  "newestText path rs =
     (let values = filter (\<lambda>v. v \<noteq> []) (map (\<lambda>r. stringValue (dig r path)) rs)
      in if values = [] then None else Some (last (sort values)))"

definition hasMorePages :: "ConnectorManifest \<Rightarrow> SourceParams \<Rightarrow> gv \<Rightarrow> gv list \<Rightarrow> bool" where
  "hasMorePages m p decoded rs =
     (let style = pageStyle m in
      if style = ''cursor'' then (let n = dig decoded (stringValue (objGet (mf_Pagination m) ''cursorPath'')) in n \<noteq> VNil \<and> stringValue n \<noteq> [])
      else (style = ''page'' \<or> style = ''offset'') \<and> int (length rs) \<ge> pageLimit m p)"

definition pageCursor :: "ConnectorManifest \<Rightarrow> SourceParams \<Rightarrow> gv \<Rightarrow> gv list \<Rightarrow> obj" where
  "pageCursor m p decoded rs =
     (let style = pageStyle m; cur = sp_Cursor p; more = hasMorePages m p decoded rs;
          n0 = cloneMap cur;
          n1 = (if style = ''cursor'' then objPut ''next'' (dig decoded (stringValue (objGet (mf_Pagination m) ''cursorPath''))) n0
                else if style = ''page'' then objPut ''page'' (VInt (if more then truncFloat (firstNumber [objGet cur ''page'', VInt 1]) + 1 else 1)) n0
                else if style = ''offset'' then objPut ''offset''
                  (VInt (if more then truncFloat (firstNumber [objGet cur ''offset'', VInt 0]) + int (length rs) else 0)) n0
                else n0);
          path = stringValue (objGet (mf_Incremental m) ''recordTimestampPath'');
          n2 = (if path \<noteq> [] then (case newestText path rs of Some w \<Rightarrow> objPut ''watermark'' (VStr w) n1 | None \<Rightarrow> n1) else n1)
      in objPut ''backfillDone'' (VBool (\<not> more)) n2)"

definition readPage :: "(string \<Rightarrow> gv option) \<Rightarrow> ConnectorManifest \<Rightarrow> SourceParams \<Rightarrow> int \<times> string \<Rightarrow> (connError, SourceResult) result" where
  "readPage unmarshal m p response =
     (case response of (status, body) \<Rightarrow>
        if status = 429 then Err (PlainError ''rate limited'')
        else if status \<ge> 400 then Err (PlainError (''http source '' @ itoa status))
        else (case unmarshal body of
            None \<Rightarrow> Err (PlainError ''unable to decode'')
          | Some decoded \<Rightarrow>
              let rs = pageRecords m decoded in
              Ok \<lparr>sr_Records = rs, sr_NextCursor = pageCursor m p decoded rs, sr_HasMore = hasMorePages m p decoded rs, sr_LagRecords = 0\<rparr>))"

definition fetchManifest ::
  "'u httpLib \<Rightarrow> (string \<Rightarrow> string \<Rightarrow> string) \<Rightarrow> ('u pageRequest \<Rightarrow> (string, int \<times> string) result) \<Rightarrow> int \<Rightarrow> ConnectorManifest \<Rightarrow> SourceParams
     \<Rightarrow> (connError, SourceResult) result" where
  "fetchManifest L basicAuth send now m p =
     (case pageRequestOf L basicAuth now m p of
        Inl e \<Rightarrow> Err e
      | Inr request \<Rightarrow> (case send request of Inl e \<Rightarrow> Err (PlainError e) | Inr response \<Rightarrow> readPage (hl_Unmarshal L) m p response))"

definition httpFetch ::
  "'u httpLib \<Rightarrow> (string \<Rightarrow> string \<Rightarrow> string) \<Rightarrow> ('u pageRequest \<Rightarrow> (string, int \<times> string) result) \<Rightarrow> int \<Rightarrow> SourceParams
     \<Rightarrow> (connError, SourceResult) result" where
  "httpFetch L basicAuth send now p = fetchManifest L basicAuth send now (configManifest (hl_Unmarshal L) (sp_Config p)) p"

section \<open>Sinks\<close>

definition batchIdempotencyKey :: "(string \<Rightarrow> string) \<Rightarrow> HandlerContext \<Rightarrow> int \<Rightarrow> string" where
  "batchIdempotencyKey sha h batch =
     take 32 (sha (hc_TenantID h @ [CHR 0x00] @ hc_ExecutionID h @ [CHR 0x00] @ hc_NodeID h @ [CHR 0x00] @ itoa batch))"

record sinkRequest =
  sk_URL :: string
  sk_Headers :: headers
  sk_Body :: string

text \<open>\<open>sha\<close> and \<open>hmac\<close> return hexadecimal text; \<open>seconds\<close> is the time of the request.\<close>

definition webhookRequest ::
  "(string \<Rightarrow> string) \<Rightarrow> (string \<Rightarrow> string \<Rightarrow> string) \<Rightarrow> int \<Rightarrow> gv \<Rightarrow> HandlerContext \<Rightarrow> string \<Rightarrow> string \<Rightarrow> sinkRequest" where
  "webhookRequest sha hmac seconds input h endpoint secret =
     (let body = jsonMarshal (VObj [(''records'', input)]);
          base = setHeader ''Idempotency-Key'' (batchIdempotencyKey sha h 0) (setHeader ''Content-Type'' ''application/json'' []);
          signed = setHeader ''X-Signature-SHA256'' (hmac secret (itoa seconds @ ''.'' @ body)) (setHeader ''X-Signature-Timestamp'' (itoa seconds) base)
      in \<lparr>sk_URL = endpoint, sk_Headers = (if secret \<noteq> [] then signed else base), sk_Body = body\<rparr>)"

text \<open>The endpoint and the secret: from the configuration, or from the connector instance.\<close>

definition webhookTarget :: "(string \<Rightarrow> (connError, obj) result) \<Rightarrow> obj \<Rightarrow> (connError, string \<times> string) result" where
  "webhookTarget credential cfg =
     (let endpoint = stringValue (objGet cfg ''url''); secret = stringValue (objGet cfg ''secret'') in
      if endpoint = [] \<and> objGet cfg ''connectionId'' \<noteq> VNil then
        (case credential (stringValue (objGet cfg ''connectionId'')) of
           Inl e \<Rightarrow> Err e
         | Inr instance' \<Rightarrow>
             let extra = (case asObj (objGet instance' ''extra'') of Some o' \<Rightarrow> o' | None \<Rightarrow> []);
                 secrets = (case asObj (objGet instance' ''secret_value'') of Some o' \<Rightarrow> o' | None \<Rightarrow> [])
             in Ok (stringValue (objGet extra ''baseUrl''), stringValue (objGet secrets ''hmacSecret'')))
      else Ok (endpoint, secret))"

definition webhookSink ::
  "(string \<Rightarrow> (connError, obj) result) \<Rightarrow> (string \<Rightarrow> (string, urlParts) result) \<Rightarrow> (string \<Rightarrow> string) \<Rightarrow> (string \<Rightarrow> string \<Rightarrow> string) \<Rightarrow> int
     \<Rightarrow> (sinkRequest \<Rightarrow> (string, int) result) \<Rightarrow> gv \<Rightarrow> obj \<Rightarrow> HandlerContext \<Rightarrow> handled" where
  "webhookSink credential check sha hmac seconds send input cfg h =
     (case webhookTarget credential cfg of
        Inl e \<Rightarrow> Err e
      | Inr (endpoint, secret) \<Rightarrow>
          if endpoint = [] then Err (PlainError ''sink.webhook: URL or HTTP connector instance required'')
          else (case ValidateURL check endpoint of
              Inl e \<Rightarrow> Err (PlainError (''sink.webhook: '' @ e))
            | Inr _ \<Rightarrow> (case send (webhookRequest sha hmac seconds input h endpoint secret) of
                Inl e \<Rightarrow> Err (PlainError e)
              | Inr status \<Rightarrow> if status \<ge> 400 then Err (PlainError (''webhook returned '' @ itoa status)) else Ok (VNil, None))))"

record clickhouseConfig =
  cc_URL :: string
  cc_DB :: string
  cc_User :: string
  cc_Password :: string

definition recordLine :: "(string \<Rightarrow> string) \<Rightarrow> string \<Rightarrow> string \<Rightarrow> string \<Rightarrow> gv \<Rightarrow> string" where
  "recordLine sha ingestedAt tenant collection record' =
     jsonMarshal (VObj [(''tenant_id'', VStr tenant), (''collection'', VStr collection), (''record'', record'),
       (''dedup_key'', VStr (sha (jsonMarshal record'))), (''ingested_at'', VStr ingestedAt)]) @ [CHR 0x0A]"

definition recordsEndpoint :: "clickhouseConfig \<Rightarrow> string" where
  "recordsEndpoint C = trimSuffix ''/'' (cc_URL C) @ ''/?database='' @ queryEscape (cc_DB C) @ ''&query='' @ queryEscape ''INSERT INTO sink_records FORMAT JSONEachRow''"

text \<open>\<open>clock\<close> is the clock at each record.\<close>

definition recordsSink ::
  "clickhouseConfig \<Rightarrow> (string \<Rightarrow> string \<Rightarrow> string) \<Rightarrow> (string \<Rightarrow> string) \<Rightarrow> (nat \<Rightarrow> int) \<Rightarrow> (sinkRequest \<Rightarrow> (string, int \<times> string) result) \<Rightarrow> gv \<Rightarrow> obj
     \<Rightarrow> HandlerContext \<Rightarrow> handled" where
  "recordsSink C basicAuth sha clock send input cfg h =
     (case records input of
        Inl e \<Rightarrow> Err e
      | Inr rows \<Rightarrow>
          let collection = stringValue (objGet cfg ''collection'') in
          if collection = [] then Err (PlainError ''sink.records: collection required'')
          else (case send \<lparr>sk_URL = recordsEndpoint C, sk_Headers = setHeader ''Authorization'' (basicAuth (cc_User C) (cc_Password C)) [],
              sk_Body = concat (map (\<lambda>(i, r). recordLine sha (formatRFC3339Nano (clock i)) (hc_TenantID h) collection r) (enumerate 0 rows))\<rparr> of
              Inl e \<Rightarrow> Err (PlainError e)
            | Inr (status, data) \<Rightarrow>
                if status \<ge> 400 then Err (PlainError (''clickhouse insert '' @ itoa status @ '': '' @ data)) else Ok (VNil, None)))"

section \<open>The runtime\<close>

text \<open>The registry: manifests by activity type; the files come in the order of the directories.\<close>

definition manifestKept :: "ConnectorManifest \<Rightarrow> string \<Rightarrow> bool" where
  "manifestKept mf label \<longleftrightarrow> mf_ActivityType mf \<noteq> [] \<and> label \<noteq> [] \<and> mf_URL mf \<noteq> [] \<and> mf_Kind mf = ''source''"

definition loadRegistry :: "(string \<times> (string \<times> ConnectorManifest) option) list \<Rightarrow> (string \<times> ConnectorManifest) list" where
  "loadRegistry files = fold (\<lambda>(name, content) reg.
     if \<not> hasSuffix ''.manifest.json'' name then reg
     else (case content of None \<Rightarrow> reg
       | Some (label, mf) \<Rightarrow> if manifestKept mf label then AList.update (mf_ActivityType mf) mf reg else reg)) files []"

definition runtimeFetch ::
  "(string \<times> (SourceParams \<Rightarrow> (connError, SourceResult) result)) list \<Rightarrow> (string \<times> ConnectorManifest) list
     \<Rightarrow> (ConnectorManifest \<Rightarrow> SourceParams \<Rightarrow> (connError, SourceResult) result) \<Rightarrow> string \<Rightarrow> SourceParams \<Rightarrow> (connError, SourceResult) result" where
  "runtimeFetch sources reg fetchM name p =
     (case map_of sources name of
        Some source \<Rightarrow> source p
      | None \<Rightarrow> (case map_of reg name of
          Some mf \<Rightarrow> if mf_Kind mf = ''source'' then fetchM mf p else Err (PermanentError UnknownActivityError (''Unknown source: '' @ name))
        | None \<Rightarrow> Err (PermanentError UnknownActivityError (''Unknown source: '' @ name))))"

definition runtimeHandle ::
  "(string \<times> (gv \<Rightarrow> obj \<Rightarrow> HandlerContext \<Rightarrow> handled)) list \<Rightarrow> string \<Rightarrow> gv \<Rightarrow> obj \<Rightarrow> HandlerContext \<Rightarrow> handled" where
  "runtimeHandle handlers name input cfg h =
     (case map_of handlers name of Some f \<Rightarrow> f input cfg h | None \<Rightarrow> Err (PermanentError UnknownActivityError (''Unknown activity: '' @ name)))"

end
