(* ===== verification/HttpLaws.thy ===== *)
theory HttpLaws
  imports Http SqlLaws
begin

text \<open>
  What the HTTP source does page by page: an offset source below a million records is read exactly once,
  and a paged incremental source moves its window under the page number.
\<close>

section \<open>How an offset is printed\<close>

lemma showPos_ten: "0 < m \<Longrightarrow> showPos (m * 10) = showPos m @ ''0''"
proof -
  assume "0 < m"
  moreover have "(char_of (48 :: int) :: char) = CHR ''0''" by (simp add: char_of_def)
  ultimately show ?thesis by (subst showPos.simps) simp
qed

lemma showPos_length: "0 \<le> n \<Longrightarrow> n < 10 ^ k \<Longrightarrow> 0 < k \<Longrightarrow> length (showPos n) \<le> k"
proof (induction k arbitrary: n)
  case (Suc k)
  show ?case
  proof (cases "n < 10")
    case True
    then show ?thesis by (simp add: showPos.simps [of n])
  next
    case False
    then have "k \<noteq> 0" using Suc.prems(2) by (cases k) auto
    moreover have "n div 10 < 10 ^ k" using Suc.prems(2) by (simp add: div_less_iff_less_mult)
    ultimately have "length (showPos (n div 10)) \<le> k" using Suc.IH [of "n div 10"] Suc.prems(1) by simp
    then show ?thesis using False by (subst showPos.simps) simp
  qed
qed simp

text \<open>An exact integer keeps its digits: the exponent counts the zeros that follow the mantissa.\<close>

lemma normDec_digits:
  "0 < m \<Longrightarrow> 0 \<le> e \<Longrightarrow> 0 < mant (normDec k m e) \<and> e \<le> dexp (normDec k m e)
     \<and> showPos m = showPos (mant (normDec k m e)) @ replicate (nat (dexp (normDec k m e) - e)) (CHR ''0'')"
proof (induction k arbitrary: m e)
  case (Suc k)
  show ?case
  proof (cases "m mod 10 = 0")
    case True
    then obtain d where d: "m = d * 10" by (metis dvd_eq_mod_eq_0 dvd_def mult.commute)
    then have pos: "0 < d" using Suc.prems by simp
    let ?f = "normDec k d (e + 1)"
    have f: "0 < mant ?f" "e + 1 \<le> dexp ?f"
        "showPos d = showPos (mant ?f) @ replicate (nat (dexp ?f - (e + 1))) (CHR ''0'')"
      using Suc.IH [of d "e + 1"] Suc.prems pos by auto
    have "nat (dexp ?f - e) = Suc (nat (dexp ?f - (e + 1)))" using f(2) by simp
    then have r: "replicate (nat (dexp ?f - (e + 1))) (CHR ''0'') @ ''0'' = replicate (nat (dexp ?f - e)) (CHR ''0'')"
      by (simp add: replicate_append_same)
    show ?thesis using d f r pos by (simp add: showPos_ten)
  next
    case False
    then show ?thesis using Suc.prems by simp
  qed
qed simp

lemma offset_text: "0 \<le> i \<Longrightarrow> i < 1000000 \<Longrightarrow> stringValue (VFloat (floatOfInt i)) = itoa i"
proof (cases "i = 0")
  case True
  then show ?thesis by (simp add: stringValue_def fmtG_def itoa_def floatOfInt_zero_iff [of 0, unfolded isZeroFloat_def] showPos.simps char_of_def)
next
  case False
  assume i: "0 \<le> i" "i < 1000000"
  define f where "f = floatOfInt i"
  have f: "0 < mant f" "0 \<le> dexp f" "showPos i = showPos (mant f) @ replicate (nat (dexp f)) (CHR ''0'')"
    using normDec_digits [of i 0 "length (showPos \<bar>i\<bar>)"] False i unfolding f_def floatOfInt_def by simp_all
  have len: "length (showPos i) \<le> 6" using showPos_length [of i 6] i by simp
  let ?ds = "showPos (mant f)"
  have "0 < length ?ds" by simp
  then have dp: "0 < int (length ?ds) + dexp f" "int (length ?ds) + dexp f \<le> 6" using len f(2,3) by (linarith, simp)
  have "fmtF ?ds (int (length ?ds) + dexp f) = showPos i"
    using dp f(2,3) by (auto simp: fmtF_def nat_add_distrib)
  moreover have "fmtG f = fmtF ?ds (int (length ?ds) + dexp f)"
    using dp f(1,2) by (simp add: fmtG_def Let_def)
  ultimately show ?thesis using i by (simp add: stringValue_def itoa_def f_def)
qed

lemma million_text: "stringValue (VFloat (floatOfInt 1000000)) = ''1e+06''"
  by code_simp

lemma firstNumber_offset: "number v = floatOfInt i \<Longrightarrow> firstNumber [v, VInt 0] = floatOfInt i"
proof (cases "i = 0")
  case True
  moreover assume "number v = floatOfInt i"
  moreover have "floatOfInt 0 = Dec 0 0" by code_simp
  moreover have "number (VInt 0) = floatOfInt 0" by (simp add: number_def)
  ultimately show ?thesis by (simp add: isZeroFloat_def)
next
  case False
  moreover assume "number v = floatOfInt i"
  ultimately show ?thesis using floatOfInt_zero_iff [of i] by (simp add: Let_def)
qed

section \<open>An offset source\<close>

text \<open>
  A service that pages by offset: the URL is acceptable, and whatever else a request says, the body of the
  answer to one with an offset holds the records from there, at most a page of them.
\<close>

definition offsetSource ::
  "'u httpLib \<Rightarrow> ('u pageRequest \<Rightarrow> (string, int \<times> string) result) \<Rightarrow> ConnectorManifest \<Rightarrow> SourceParams \<Rightarrow> gv list \<Rightarrow> bool" where
  "offsetSource L send m p rows \<longleftrightarrow>
     (\<exists>endpoint u. hl_Parse L (interpolate (firstString [objGet (sp_Config p) ''url'', VStr (mf_URL m)]) (sp_Config p)) = Ok endpoint
        \<and> ValidateURL (hl_Check L) (hl_Text L endpoint) = Ok u)
     \<and> methodOK (firstString [objGet (sp_Config p) ''method'', VStr (mf_Method m), VStr ''GET''])
     \<and> pageStyle m = ''offset'' \<and> stringValue (objGet (mf_Incremental m) ''sinceParam'') = []
     \<and> stringValue (objGet (mf_Pagination m) ''limitParam'') \<noteq> pageParam m
     \<and> pageLimit m p > 0 \<and> length rows < 1000000
     \<and> (\<forall>request off. map_of (pr_Query request) (pageParam m) = Some [itoa (int off)] \<longrightarrow>
          (\<exists>status body decoded. send request = Ok (status, body) \<and> status < 400 \<and> hl_Unmarshal L body = Some decoded
             \<and> pageRecords m decoded = take (nat (pageLimit m p)) (drop off rows)))"

text \<open>A checkpoint at an offset of the rows, as an integer or as the number that JSON gives back.\<close>

definition atOffset :: "gv list \<Rightarrow> obj \<Rightarrow> nat \<Rightarrow> bool" where
  "atOffset rows c off \<longleftrightarrow> off \<le> length rows \<and> number (objGet c ''offset'') = floatOfInt (int off)"

definition leftRows :: "gv list \<Rightarrow> obj \<Rightarrow> gv list" where
  "leftRows rows c = drop (nat (truncFloat (number (objGet c ''offset'')))) rows"

lemma leftRows_at: "atOffset rows c off \<Longrightarrow> leftRows rows c = drop off rows"
  by (simp add: leftRows_def atOffset_def)

lemma pageLimit_cursor [simp]: "pageLimit m (p\<lparr>sp_Cursor := c\<rparr>) = pageLimit m p"
  by (simp add: pageLimit_def)

lemma map_of_setQuery [simp]: "map_of (setQuery k v q) = (map_of q)(k \<mapsto> [v])"
  by (simp add: setQuery_def update_conv')

lemma offset_request:
  assumes "offsetSource L send m p rows" "atOffset rows c off"
  shows "\<exists>request. pageRequestOf L auth now m (p\<lparr>sp_Cursor := c\<rparr>) = Ok request
    \<and> map_of (pr_Query request) (pageParam m) = Some [itoa (int off)]"
proof -
  obtain endpoint u where e: "hl_Parse L (interpolate (firstString [objGet (sp_Config p) ''url'', VStr (mf_URL m)]) (sp_Config p)) = Ok endpoint"
      "ValidateURL (hl_Check L) (hl_Text L endpoint) = Ok u"
    using assms(1) unfolding offsetSource_def by blast
  have s: "pageStyle m = ''offset''" "stringValue (objGet (mf_Incremental m) ''sinceParam'') = []"
      "stringValue (objGet (mf_Pagination m) ''limitParam'') \<noteq> pageParam m" "length rows < 1000000"
      "methodOK (firstString [objGet (sp_Config p) ''method'', VStr (mf_Method m), VStr ''GET''])"
    using assms(1) unfolding offsetSource_def by blast+
  have "stringValue (VFloat (firstNumber [objGet c ''offset'', VInt 0])) = itoa (int off)"
    using assms(2) s(4) offset_text [of "int off"] firstNumber_offset unfolding atOffset_def by (simp del: firstNumber.simps)
  then have q: "map_of (pagingQuery m (p\<lparr>sp_Cursor := c\<rparr>) q0) (pageParam m) = Some [itoa (int off)]" for q0
    using s(1,3) by (simp add: pagingQuery_def Let_def)
  show ?thesis using e s(5) q by (simp add: pageRequestOf_def sinceQuery_def s(2) Let_def)
qed

lemma offset_page:
  assumes "offsetSource L send m p rows" "atOffset rows c off"
  shows "\<exists>r. fetchManifest L auth send now m (p\<lparr>sp_Cursor := c\<rparr>) = Ok r \<and>
    (if sr_HasMore r
     then leftRows rows c = sr_Records r @ leftRows rows (sr_NextCursor r) \<and> sr_Records r \<noteq> [] \<and> (\<exists>o'. atOffset rows (sr_NextCursor r) o')
     else leftRows rows c = sr_Records r)"
proof -
  let ?n = "nat (pageLimit m p)"
  have s: "pageStyle m = ''offset''" "pageLimit m p > 0" using assms(1) unfolding offsetSource_def by blast+
  obtain request where rq: "pageRequestOf L auth now m (p\<lparr>sp_Cursor := c\<rparr>) = Ok request"
      "map_of (pr_Query request) (pageParam m) = Some [itoa (int off)]"
    using offset_request [OF assms] by blast
  obtain status body decoded where b: "send request = Ok (status, body)" "status < 400" "hl_Unmarshal L body = Some decoded"
      "pageRecords m decoded = take ?n (drop off rows)"
    using rq(2) assms(1) unfolding offsetSource_def by blast
  let ?rs = "take ?n (drop off rows)"
  define r where "r = \<lparr>sr_Records = ?rs, sr_NextCursor = pageCursor m (p\<lparr>sp_Cursor := c\<rparr>) decoded ?rs,
      sr_HasMore = hasMorePages m (p\<lparr>sp_Cursor := c\<rparr>) decoded ?rs, sr_LagRecords = 0\<rparr>"
  have f: "fetchManifest L auth send now m (p\<lparr>sp_Cursor := c\<rparr>) = Ok r"
    using rq(1) b by (simp add: fetchManifest_def readPage_def r_def Let_def)
  have more: "sr_HasMore r \<longleftrightarrow> ?n \<le> length (drop off rows)"
    using s by (auto simp: r_def hasMorePages_def Let_def min_def)
  have nx: "objGet (sr_NextCursor r) ''offset'' = VInt (int off + int ?n)" if "sr_HasMore r"
  proof -
    have l: "length ?rs = ?n" using that more by simp
    have t: "truncFloat (firstNumber [objGet c ''offset'', VInt 0]) = int off"
      using firstNumber_offset assms(2) unfolding atOffset_def by (simp del: firstNumber.simps)
    show ?thesis using that s(1) l t by (simp add: r_def pageCursor_def Let_def split: option.splits)
  qed
  show ?thesis
  proof (intro exI conjI)
    show "fetchManifest L auth send now m (p\<lparr>sp_Cursor := c\<rparr>) = Ok r" by (rule f)
    show "if sr_HasMore r
      then leftRows rows c = sr_Records r @ leftRows rows (sr_NextCursor r) \<and> sr_Records r \<noteq> [] \<and> (\<exists>o'. atOffset rows (sr_NextCursor r) o')
      else leftRows rows c = sr_Records r"
    proof (cases "sr_HasMore r")
      case True
      then have le: "?n \<le> length (drop off rows)" using more by simp
      have "off \<le> length rows" using assms(2) by (simp add: atOffset_def)
      then have at: "atOffset rows (sr_NextCursor r) (off + ?n)"
        using le nx [OF True] by (simp add: atOffset_def number_def)
      have "drop off rows = ?rs @ leftRows rows (sr_NextCursor r)"
        using leftRows_at [OF at] append_take_drop_id [of ?n "drop off rows"] by (simp add: add.commute)
      moreover have "sr_Records r = ?rs" "?rs \<noteq> []" using le s(2) by (auto simp: r_def)
      ultimately show ?thesis using True at leftRows_at [OF assms(2)] by (simp only: if_True) blast
    next
      case False
      then show ?thesis using more leftRows_at [OF assms(2)] by (simp add: r_def)
    qed
  qed
qed

interpretation hps: paged_source "\<lambda>c. fetchManifest L auth send now m (p\<lparr>sp_Cursor := c\<rparr>)" "leftRows rows"
    "\<lambda>c. offsetSource L send m p rows \<and> (\<exists>off. atOffset rows c off)" for L auth send now m p rows
proof
  fix c
  assume a: "offsetSource L send m p rows \<and> (\<exists>off. atOffset rows c off)"
  then obtain off where o: "offsetSource L send m p rows" "atOffset rows c off" by blast
  obtain r where r: "fetchManifest L auth send now m (p\<lparr>sp_Cursor := c\<rparr>) = Ok r"
      "if sr_HasMore r
       then leftRows rows c = sr_Records r @ leftRows rows (sr_NextCursor r) \<and> sr_Records r \<noteq> [] \<and> (\<exists>o'. atOffset rows (sr_NextCursor r) o')
       else leftRows rows c = sr_Records r"
    using offset_page [OF o, of auth now] by blast
  show "\<exists>r. fetchManifest L auth send now m (p\<lparr>sp_Cursor := c\<rparr>) = Ok r \<and>
    (if sr_HasMore r then leftRows rows c = sr_Records r @ leftRows rows (sr_NextCursor r) \<and> sr_Records r \<noteq> []
        \<and> offsetSource L send m p rows \<and> (\<exists>off. atOffset rows (sr_NextCursor r) off)
     else leftRows rows c = sr_Records r)"
    using r o(1) by (intro exI [of _ r]) (cases "sr_HasMore r", simp_all)
qed


text \<open>Three records behind a URL, one to a page.\<close>

definition threeRows :: "gv list" where
  "threeRows = [VInt 7, VInt 8, VInt 9]"

definition offsetManifest :: ConnectorManifest where
  "offsetManifest = \<lparr>mf_ActivityType = ''http.fetch'', mf_Kind = ''source'', mf_URL = ''https://a/'', mf_Method = [], mf_RecordsPath = [],
     mf_Headers = [], mf_Auth = [], mf_Pagination = [(''style'', VStr ''offset''), (''limit'', VInt 1)], mf_Incremental = []\<rparr>"

lemma digitsVal_showPos [simp]: "0 \<le> n \<Longrightarrow> digitsVal (showPos n) = n"
proof (induction n rule: showPos.induct)
  case (1 n)
  have d: "digitVal (char_of (48 + k)) = k" if "0 \<le> k" "k < 10" for k :: int
  proof -
    have "k = 0 \<or> k = 1 \<or> k = 2 \<or> k = 3 \<or> k = 4 \<or> k = 5 \<or> k = 6 \<or> k = 7 \<or> k = 8 \<or> k = 9" using that by arith
    then show ?thesis by (elim disjE) (simp_all add: digitVal_def of_char_def char_of_def)
  qed
  show ?case
  proof (cases "n < 10")
    case True
    then show ?thesis using 1 d [of n] by (simp add: showPos.simps [of n] digitsVal_def)
  next
    case False
    then show ?thesis using 1 d [of "n mod 10"] by (subst showPos.simps) (simp add: digitsVal_def)
  qed
qed

definition demoLib :: "(string \<Rightarrow> gv option) \<Rightarrow> unit httpLib" where
  "demoLib decode = \<lparr>hl_Parse = (\<lambda>_. Ok ()), hl_Text = (\<lambda>_. ''https://a/''), hl_Query = (\<lambda>_. []),
     hl_Check = (\<lambda>_. Ok \<lparr>url_Scheme = ''https'', url_Hostname = ''a'', url_Port = []\<rparr>), hl_Unmarshal = decode\<rparr>"

definition offsetLib :: "unit httpLib" where
  "offsetLib = demoLib (\<lambda>body. Some (VArr (take 1 (drop (nat (digitsVal body)) threeRows))))"

definition echoOffset :: "unit pageRequest \<Rightarrow> (string, int \<times> string) result" where
  "echoOffset request = Ok (200, case map_of (pr_Query request) ''offset'' of Some [off] \<Rightarrow> off | _ \<Rightarrow> [])"

definition emptyParams :: SourceParams where
  "emptyParams = \<lparr>sp_Config = [], sp_Cursor = [], sp_Ingestion = None, sp_TenantID = ''a''\<rparr>"


section \<open>A paged incremental source\<close>

text \<open>
  Pages of an incremental source: the checkpoint after a page that is not the last holds the next page number and,
  already, the newest time of this page, so the next request asks for the next page of a smaller result.
\<close>

lemma next_page_cursor:
  assumes "pageStyle m = ''page''" "hasMorePages m p decoded rs" "truncFloat (firstNumber [objGet (sp_Cursor p) ''page'', VInt 1]) = n"
    and "stringValue (objGet (mf_Incremental m) ''recordTimestampPath'') = path" "path \<noteq> []" "newestText path rs = Some w"
  shows "objGet (pageCursor m p decoded rs) ''page'' = VInt (n + 1)" "objGet (pageCursor m p decoded rs) ''watermark'' = VStr w"
  using assms by (simp_all add: pageCursor_def Let_def del: firstNumber.simps)

text \<open>C26: A paged incremental HTTP source moves its window while it counts pages: after a page that is not the last,
  the next request asks for page \<open>n + 1\<close> of the records since the newest time of page \<open>n\<close>, not of the records the
  first page was taken from.\<close>

theorem page_window_moves:
  assumes "fetchManifest L auth send now m p = Ok r" "sr_HasMore r" "pageStyle m = ''page''"
    and "truncFloat (firstNumber [objGet (sp_Cursor p) ''page'', VInt 1]) = n" "0 \<le> n" "n + 1 < 1000000"
    and "stringValue (objGet (mf_Incremental m) ''recordTimestampPath'') = path" "path \<noteq> []" "newestText path (sr_Records r) = Some w"
    and "stringValue (objGet (mf_Incremental m) ''sinceParam'') = since" "since \<noteq> []" "since \<noteq> pageParam m"
    and "stringValue (objGet (mf_Pagination m) ''limitParam'') \<notin> {pageParam m, since}"
    and "pageRequestOf L auth later m (p\<lparr>sp_Cursor := sr_NextCursor r\<rparr>) = Ok request"
  shows "map_of (pr_Query request) (pageParam m) = Some [itoa (n + 1)] \<and> map_of (pr_Query request) since = Some [w]"
proof -
  obtain request' decoded where d: "sr_NextCursor r = pageCursor m p decoded (sr_Records r)" "hasMorePages m p decoded (sr_Records r)"
    using assms(1,2) by (auto simp: fetchManifest_def readPage_def Let_def split: sum.splits if_splits option.splits)
  note c = next_page_cursor [OF assms(3) d(2) assms(4,7-9)]
  have w: "w \<noteq> []"
  proof -
    let ?vs = "filter (\<lambda>v. v \<noteq> []) (map (\<lambda>r. stringValue (dig r path)) (sr_Records r))"
    have "?vs \<noteq> []" "w = last (sort ?vs)" using assms(9) unfolding newestText_def Let_def by (auto split: if_splits)
    then have "w \<in> set (sort ?vs)" using last_in_set [of "sort ?vs"] by (metis length_0_conv length_sort)
    then show ?thesis by simp
  qed
  let ?p = "p\<lparr>sp_Cursor := sr_NextCursor r\<rparr>"
  have pq: "map_of (pagingQuery m ?p q0) (pageParam m) = Some [itoa (n + 1)]" for q0
  proof -
    have "stringValue (VFloat (firstNumber [VInt (n + 1), VInt 1])) = itoa (n + 1)"
      using offset_text [of "n + 1"] floatOfInt_zero_iff [of "n + 1"] assms(5,6) by (simp add: number_def Let_def)
    then show ?thesis using assms(3,13) c(1) d(1) by (auto simp: pagingQuery_def Let_def simp del: firstNumber.simps)
  qed
  have sq: "sinceQuery m ?p later q = Ok (setQuery since w q)" for q
    using assms(10,11) c(2) d(1) w by (simp add: sinceQuery_def sinceValue_def Let_def)
  show ?thesis using assms(14) pq assms(12) by (auto simp: pageRequestOf_def sq Let_def split: sum.splits if_splits)
qed

text \<open>Four records with the times 1 to 4 behind a service that filters by time and pages by two.\<close>

definition timed :: "string \<Rightarrow> gv" where
  "timed t = VObj [(''t'', VStr t)]"

definition pageManifest :: ConnectorManifest where
  "pageManifest = offsetManifest\<lparr>mf_Pagination := [(''style'', VStr ''page''), (''limit'', VInt 2)],
     mf_Incremental := [(''sinceParam'', VStr ''since''), (''recordTimestampPath'', VStr ''t'')]\<rparr>"

definition timedPages :: "string \<Rightarrow> gv option" where
  "timedPages body =
     (let since = takeWhile (\<lambda>c. c \<noteq> CHR ''/'') body; page = nat (digitsVal (drop 1 (dropWhile (\<lambda>c. c \<noteq> CHR ''/'') body)))
      in Some (VArr (take 2 (drop (2 * (page - 1)) (filter (\<lambda>r. digitsVal since \<le> digitsVal (stringValue (dig r ''t'')))
           (map timed [''1'', ''2'', ''3'', ''4'']))))))"

definition echoPage :: "unit pageRequest \<Rightarrow> (string, int \<times> string) result" where
  "echoPage request = Ok (200, (case map_of (pr_Query request) ''since'' of Some [w] \<Rightarrow> w | _ \<Rightarrow> []) @ ''/''
     @ (case map_of (pr_Query request) ''page'' of Some [n] \<Rightarrow> n | _ \<Rightarrow> []))"

definition pageFetch :: "obj \<Rightarrow> (connError, SourceResult) result" where
  "pageFetch c = fetchManifest (demoLib timedPages) (\<lambda>_ _. []) echoPage 0 pageManifest (emptyParams\<lparr>sp_Cursor := c\<rparr>)"

definition secondCursor :: obj where
  "secondCursor = [(''page'', VInt 2), (''watermark'', VStr ''2''), (''backfillDone'', VBool False)]"

lemma first_page: "pageFetch [] = Ok \<lparr>sr_Records = [timed ''1'', timed ''2''], sr_NextCursor = secondCursor, sr_HasMore = True, sr_LagRecords = 0\<rparr>"
  by code_simp

lemma second_page: "pageFetch secondCursor = Ok \<lparr>sr_Records = [timed ''4''],
    sr_NextCursor = [(''page'', VInt 1), (''watermark'', VStr ''4''), (''backfillDone'', VBool True)], sr_HasMore = False, sr_LagRecords = 0\<rparr>"
  by code_simp

text \<open>The record with time 3 is never read, and the watermark is past it.\<close>

lemma paged_window_skips: "drain pageFetch 2 [] = Some [timed ''1'', timed ''2'', timed ''4'']"
  by (simp add: numeral_eq_Suc first_page second_page)

theorem page_window_moves_witness:
  "\<exists>request. pageRequestOf (demoLib timedPages) (\<lambda>_ _. []) 0 pageManifest (emptyParams\<lparr>sp_Cursor := secondCursor\<rparr>) = Ok request
     \<and> map_of (pr_Query request) ''page'' = Some [''2''] \<and> map_of (pr_Query request) ''since'' = Some [''2'']"
proof -
  let ?r = "\<lparr>sr_Records = [timed ''1'', timed ''2''], sr_NextCursor = secondCursor, sr_HasMore = True, sr_LagRecords = 0\<rparr>"
  have f: "fetchManifest (demoLib timedPages) (\<lambda>_ _. []) echoPage 0 pageManifest emptyParams = Ok ?r"
    using first_page by (simp add: pageFetch_def emptyParams_def)
  have more: "sr_HasMore ?r" by simp
  have style: "pageStyle pageManifest = ''page''" "pageParam pageManifest = ''page''" by code_simp+
  have n: "truncFloat (firstNumber [objGet (sp_Cursor emptyParams) ''page'', VInt 1]) = 1" by code_simp
  have path: "stringValue (objGet (mf_Incremental pageManifest) ''recordTimestampPath'') = ''t''"
      "newestText ''t'' (sr_Records ?r) = Some ''2''" by code_simp+
  have since: "stringValue (objGet (mf_Incremental pageManifest) ''sinceParam'') = ''since''"
      "stringValue (objGet (mf_Pagination pageManifest) ''limitParam'') = []" by code_simp+
  obtain request where rq: "pageRequestOf (demoLib timedPages) (\<lambda>_ _. []) 0 pageManifest (emptyParams\<lparr>sp_Cursor := secondCursor\<rparr>) = Ok request"
    using second_page by (auto simp: pageFetch_def fetchManifest_def split: sum.splits)
  have "itoa (1 + 1) = ''2''" by code_simp
  moreover have "map_of (pr_Query request) (pageParam pageManifest) = Some [itoa (1 + 1)] \<and> map_of (pr_Query request) ''since'' = Some [''2'']"
    by (rule page_window_moves [OF f more style(1) n _ _ path(1) _ path(2) since(1)]) (use style since rq in simp_all)
  ultimately show ?thesis using rq style by simp
qed

end
