(* ===== verification/Base64.thy ===== *)
theory Base64
  imports Prelude
begin

text \<open>
  The padded Base64 and the hexadecimal codecs of the standard library, as the credentials use them:
  a scan returns the bytes it has read, and whether the text was accepted.
\<close>

section \<open>Digits\<close>

definition b64Char :: "nat \<Rightarrow> char" where
  "b64Char n = (if n < 26 then char_of (65 + n) else if n < 52 then char_of (71 + n) else if n < 62 then char_of (n - 4)
     else if n = 62 then CHR ''+'' else CHR ''/'')"

definition b64Val :: "char \<Rightarrow> nat option" where
  "b64Val c =
     (let n = of_char c :: nat in
      if 65 \<le> n \<and> n \<le> 90 then Some (n - 65) else if 97 \<le> n \<and> n \<le> 122 then Some (n - 71)
      else if 48 \<le> n \<and> n \<le> 57 then Some (n + 4) else if n = 43 then Some 62 else if n = 47 then Some 63 else None)"

definition plainDigit :: "char \<Rightarrow> bool" where
  "plainDigit c \<longleftrightarrow> c \<noteq> CHR '':'' \<and> c \<noteq> CHR 0x0A \<and> c \<noteq> CHR 0x0D"

definition b64Code :: "nat \<Rightarrow> nat" where
  "b64Code n = (if n < 26 then 65 + n else if n < 52 then 71 + n else if n < 62 then n - 4 else if n = 62 then 43 else 47)"

lemma b64_code: "n < 64 \<Longrightarrow> of_char (b64Char n) = b64Code n"
  by (simp add: b64Char_def b64Code_def)

lemma b64Val_b64Char [simp]: "n < 64 \<Longrightarrow> b64Val (b64Char n) = Some n"
  by (simp add: b64Val_def b64_code Let_def) (auto simp: b64Code_def split: if_splits)

lemma plain_b64Char [simp]: "n < 64 \<Longrightarrow> plainDigit (b64Char n)"
proof -
  assume n: "n < 64"
  then have "b64Code n \<noteq> 58 \<and> b64Code n \<noteq> 10 \<and> b64Code n \<noteq> 13" by (auto simp: b64Code_def)
  moreover have "(of_char (CHR '':'') :: nat) = 58" "(of_char (CHR 0x0A) :: nat) = 10" "(of_char (CHR 0x0D) :: nat) = 13" by simp_all
  ultimately show ?thesis using b64_code [OF n] unfolding plainDigit_def by metis
qed

lemma b64Val_pad [simp]: "b64Val (CHR ''='') = None" and plain_pad [simp]: "plainDigit (CHR ''='')"
  by (simp_all add: b64Val_def plainDigit_def Let_def)

section \<open>Base64\<close>

abbreviation byteOf :: "nat \<Rightarrow> char" where "byteOf n \<equiv> char_of n"

definition quadOf :: "nat \<Rightarrow> nat \<Rightarrow> nat \<Rightarrow> char list" where
  "quadOf a b c = [b64Char (a div 4), b64Char (a mod 4 * 16 + b div 16), b64Char (b mod 16 * 4 + c div 64), b64Char (c mod 64)]"

fun b64Encode :: "string \<Rightarrow> string" where
  "b64Encode [] = []"
| "b64Encode [x] = take 2 (quadOf (of_char x) 0 0) @ ''==''"
| "b64Encode [x, y] = take 3 (quadOf (of_char x) (of_char y) 0) @ ''=''"
| "b64Encode (x # y # z # s) = quadOf (of_char x) (of_char y) (of_char z) @ b64Encode s"

definition tripleOf :: "nat \<Rightarrow> nat \<Rightarrow> nat \<Rightarrow> nat \<Rightarrow> string" where
  "tripleOf a b c d = [byteOf (a * 4 + b div 16), byteOf (b mod 16 * 16 + c div 4), byteOf (c mod 4 * 64 + d)]"

text \<open>Groups of four digits; the last may be padded. What was read before an error is kept.\<close>

definition lastGroup :: "char \<Rightarrow> char \<Rightarrow> char \<Rightarrow> char \<Rightarrow> string option" where
  "lastGroup p q r t =
     (case (b64Val p, b64Val q, b64Val r) of
        (Some a, Some b, Some c) \<Rightarrow> if t = CHR ''='' then Some (take 2 (tripleOf a b c 0)) else None
      | (Some a, Some b, None) \<Rightarrow> if r = CHR ''='' \<and> t = CHR ''='' then Some (take 1 (tripleOf a b 0 0)) else None
      | _ \<Rightarrow> None)"

definition fullGroup :: "char \<Rightarrow> char \<Rightarrow> char \<Rightarrow> char \<Rightarrow> string option" where
  "fullGroup p q r t =
     (case (b64Val p, b64Val q, b64Val r, b64Val t) of
        (Some a, Some b, Some c, Some d) \<Rightarrow> Some (tripleOf a b c d) | _ \<Rightarrow> None)"

fun b64Scan :: "string \<Rightarrow> string \<times> bool" where
  "b64Scan (p # q # r # t # s) =
     (case fullGroup p q r t of
        Some bytes \<Rightarrow> (case b64Scan s of (more, ok) \<Rightarrow> (bytes @ more, ok))
      | None \<Rightarrow> (case lastGroup p q r t of Some bytes \<Rightarrow> (bytes, s = []) | None \<Rightarrow> ([], False)))"
| "b64Scan s = ([], s = [])"

text \<open>\<^verbatim>\<open>base64.StdEncoding.DecodeString\<close> passes over line breaks.\<close>

definition b64Read :: "string \<Rightarrow> string \<times> bool" where
  "b64Read s = b64Scan (filter (\<lambda>c. c \<noteq> CHR 0x0A \<and> c \<noteq> CHR 0x0D) s)"

definition b64Decode :: "string \<Rightarrow> string option" where
  "b64Decode s = (case b64Read s of (bytes, ok) \<Rightarrow> if ok then Some bytes else None)"

lemma tripleOf_quad:
  fixes a b c :: nat
  assumes "a < 256" "b < 256" "c < 256"
  shows "tripleOf (a div 4) (a mod 4 * 16 + b div 16) (b mod 16 * 4 + c div 64) (c mod 64) = [byteOf a, byteOf b, byteOf c]"
proof -
  have s: "b div 16 < 16" "c div 64 < 4" using assms by (simp_all add: div_less_iff_less_mult)
  have "(a mod 4 * 16 + b div 16) div 16 = a mod 4" "(a mod 4 * 16 + b div 16) mod 16 = b div 16"
    "(b mod 16 * 4 + c div 64) div 4 = b mod 16" "(b mod 16 * 4 + c div 64) mod 4 = c div 64"
    using s by simp_all
  moreover have "a div 4 * 4 + a mod 4 = a" "b mod 16 + b div 16 * 16 = b" "c div 64 * 64 + c mod 64 = c" by simp_all
  ultimately show ?thesis by (simp add: tripleOf_def add.commute)
qed

lemma quad_small:
  fixes a b c :: nat
  assumes "a < 256" "b < 256" "c < 256"
  shows "a div 4 < 64" "a mod 4 * 16 + b div 16 < 64" "b mod 16 * 4 + c div 64 < 64" "c mod 64 < 64"
proof -
  have "a mod 4 < 4" "b div 16 < 16" "b mod 16 < 16" "c div 64 < 4" using assms by (simp_all add: div_less_iff_less_mult)
  then show "a div 4 < 64" "a mod 4 * 16 + b div 16 < 64" "b mod 16 * 4 + c div 64 < 64" "c mod 64 < 64"
    using assms by (simp_all add: div_less_iff_less_mult)
qed

lemma quad_groups:
  fixes x y z :: char
  defines "a \<equiv> of_char x :: nat" and "b \<equiv> of_char y :: nat" and "c \<equiv> of_char z :: nat"
  shows "fullGroup (b64Char (a div 4)) (b64Char (a mod 4 * 16 + b div 16)) (b64Char (b mod 16 * 4 + c div 64)) (b64Char (c mod 64)) = Some [x, y, z]"
    and "fullGroup (b64Char (a div 4)) (b64Char (a mod 4 * 16 + b div 16)) (b64Char (b mod 16 * 4)) (CHR ''='') = None"
    and "lastGroup (b64Char (a div 4)) (b64Char (a mod 4 * 16 + b div 16)) (b64Char (b mod 16 * 4)) (CHR ''='') = Some [x, y]"
    and "fullGroup (b64Char (a div 4)) (b64Char (a mod 4 * 16)) (CHR ''='') (CHR ''='') = None"
    and "lastGroup (b64Char (a div 4)) (b64Char (a mod 4 * 16)) (CHR ''='') (CHR ''='') = Some [x]"
    and "list_all plainDigit (quadOf a b c)"
proof -
  have s: "a < 256" "b < 256" "c < 256" unfolding a_def b_def c_def by simp_all
  have v: "byteOf a = x" "byteOf b = y" "byteOf c = z" unfolding a_def b_def c_def by simp_all
  note q = tripleOf_quad [OF s] tripleOf_quad [OF s(1,2), of 0] tripleOf_quad [OF s(1), of 0 0]
  note r = quad_small [OF s] quad_small [OF s(1,2), of 0] quad_small [OF s(1), of 0 0]
  show "fullGroup (b64Char (a div 4)) (b64Char (a mod 4 * 16 + b div 16)) (b64Char (b mod 16 * 4 + c div 64)) (b64Char (c mod 64)) = Some [x, y, z]"
    using q(1) r v by (simp add: fullGroup_def)
  show "fullGroup (b64Char (a div 4)) (b64Char (a mod 4 * 16 + b div 16)) (b64Char (b mod 16 * 4)) (CHR ''='') = None"
    using r by (simp add: fullGroup_def)
  show "lastGroup (b64Char (a div 4)) (b64Char (a mod 4 * 16 + b div 16)) (b64Char (b mod 16 * 4)) (CHR ''='') = Some [x, y]"
    using q(2) r v by (simp add: lastGroup_def)
  show "fullGroup (b64Char (a div 4)) (b64Char (a mod 4 * 16)) (CHR ''='') (CHR ''='') = None"
    using r by (simp add: fullGroup_def)
  show "lastGroup (b64Char (a div 4)) (b64Char (a mod 4 * 16)) (CHR ''='') (CHR ''='') = Some [x]"
    using q(3) r v by (simp add: lastGroup_def)
  show "list_all plainDigit (quadOf a b c)" using r by (simp add: quadOf_def)
qed

lemma b64Scan_encode: "b64Scan (b64Encode s) = (s, True)"
  by (induction s rule: b64Encode.induct) (simp_all add: quadOf_def quad_groups)

lemma b64Encode_plain: "list_all plainDigit (b64Encode s)"
proof (induction s rule: b64Encode.induct)
  case (2 x)
  show ?case using quad_groups(6) [of x "char_of (0 :: nat)" "char_of (0 :: nat)"] by (simp add: quadOf_def)
next
  case (3 x y)
  show ?case using quad_groups(6) [of x y "char_of (0 :: nat)"] by (simp add: quadOf_def)
qed (simp_all add: quad_groups)

lemma b64Read_encode [simp]: "b64Read (b64Encode s) = (s, True)"
proof -
  have "filter (\<lambda>c. c \<noteq> CHR 0x0A \<and> c \<noteq> CHR 0x0D) (b64Encode s) = b64Encode s"
    using b64Encode_plain [of s] by (auto simp: filter_id_conv list_all_iff plainDigit_def)
  then show ?thesis by (simp add: b64Read_def b64Scan_encode)
qed

lemma b64Decode_encode [simp]: "b64Decode (b64Encode s) = Some s"
  by (simp add: b64Decode_def)

lemma b64Encode_colon: "CHR '':'' \<notin> set (b64Encode s)"
  using b64Encode_plain [of s] by (auto simp: list_all_iff plainDigit_def)

section \<open>Hexadecimal\<close>

definition hexDigit :: "char \<Rightarrow> nat option" where
  "hexDigit c =
     (let n = of_char c :: nat in
      if 48 \<le> n \<and> n \<le> 57 then Some (n - 48) else if 97 \<le> n \<and> n \<le> 102 then Some (n - 87)
      else if 65 \<le> n \<and> n \<le> 70 then Some (n - 55) else None)"

text \<open>\<^verbatim>\<open>hex.DecodeString\<close>.\<close>

fun hexDecode :: "string \<Rightarrow> string option" where
  "hexDecode [] = Some []"
| "hexDecode [x] = None"
| "hexDecode (x # y # s) =
     (case (hexDigit x, hexDigit y) of
        (Some a, Some b) \<Rightarrow> map_option (\<lambda>r. byteOf (a * 16 + b) # r) (hexDecode s) | _ \<Rightarrow> None)"

lemma hexDecode_length: "hexDecode s = Some b \<Longrightarrow> length s = 2 * length b"
  by (induction s arbitrary: b rule: hexDecode.induct) (auto split: option.splits)

end
