(* ===== verification/Secrets.thy ===== *)
theory Secrets
  imports Base64 Payloads Ssrf
begin

text \<open>
  Stored credentials: the encryption of tokens by the API (\<^verbatim>\<open>internal/api/token_crypto.go\<close>), their
  decryption by the workers (\<^verbatim>\<open>internal/connectors/credentials.go\<close>), the codec of Temporal payloads
  (\<^verbatim>\<open>internal/codec/aesgcm.go\<close>), and the destination of an alert.

  AES-GCM is that of \<open>cryptoLib\<close>; random nonces, the database and the JSON decoder are arguments. Opening
  with a nonce of the wrong length panics.
\<close>

section \<open>Keys and sealed texts\<close>

datatype secretFault = Failed string | Panicked string

abbreviation gcmOverhead :: nat where "gcmOverhead \<equiv> 16"

definition oauthKey :: "string \<Rightarrow> (secretFault, string) result" where
  "oauthKey value =
     (if length value \<noteq> 64 then Err (Failed (''OAUTH_TOKEN_ENCRYPTION_KEY must be 64 hex chars (got '' @ itoa (int (length value)) @ '')''))
      else (case hexDecode value of None \<Rightarrow> Err (Failed ''encoding/hex: invalid byte'') | Some key \<Rightarrow> Ok key))"

definition workerOAuthKey :: "string \<Rightarrow> (secretFault, string) result" where
  "workerOAuthKey value =
     (case hexDecode value of
        Some key \<Rightarrow> if length key = 32 then Ok key else Err (Failed ''OAUTH_TOKEN_ENCRYPTION_KEY must be 64 hex chars'')
      | None \<Rightarrow> Err (Failed ''OAUTH_TOKEN_ENCRYPTION_KEY must be 64 hex chars''))"

definition sealParts :: "cryptoLib \<Rightarrow> string \<Rightarrow> string \<Rightarrow> string \<Rightarrow> string \<times> string" where
  "sealParts C key iv value =
     (let sealed = cr_Seal C key iv value; tagStart = length sealed - gcmOverhead in (drop tagStart sealed, take tagStart sealed))"

definition sealedText :: "cryptoLib \<Rightarrow> string \<Rightarrow> string \<Rightarrow> string \<Rightarrow> string" where
  "sealedText C iv value key =
     (case sealParts C key iv value of (tag, ct) \<Rightarrow> join '':'' [b64Encode iv, b64Encode tag, b64Encode ct])"

definition gcmOpen :: "cryptoLib \<Rightarrow> string \<Rightarrow> string \<Rightarrow> string \<Rightarrow> (secretFault, string) result" where
  "gcmOpen C key iv sealed =
     (if length iv \<noteq> gcmNonceSize then Err (Panicked ''crypto/cipher: incorrect nonce length given to GCM'')
      else (case cr_Open C key iv sealed of None \<Rightarrow> Err (Failed ''cipher: message authentication failed'') | Some body \<Rightarrow> Ok body))"

definition encryptToken :: "cryptoLib \<Rightarrow> string \<Rightarrow> string \<Rightarrow> string \<Rightarrow> (secretFault, string) result" where
  "encryptToken C keyText iv value = (case oauthKey keyText of Inl e \<Rightarrow> Err e | Inr key \<Rightarrow> Ok (sealedText C iv value key))"

definition encryptValue :: "cryptoLib \<Rightarrow> string \<Rightarrow> string \<Rightarrow> string \<Rightarrow> (secretFault, string) result" where
  "encryptValue C keyText iv value = (case workerOAuthKey keyText of Inl e \<Rightarrow> Err e | Inr key \<Rightarrow> Ok (sealedText C iv value key))"

definition decryptToken :: "cryptoLib \<Rightarrow> string \<Rightarrow> string \<Rightarrow> (secretFault, string) result" where
  "decryptToken C keyText value =
     (case splitOn (CHR '':'') value of
        [p0, p1, p2] \<Rightarrow>
          (case (b64Decode p0, b64Decode p1, b64Decode p2) of
             (Some iv, Some tag, Some ct) \<Rightarrow>
               (case oauthKey keyText of Inl e \<Rightarrow> Err e | Inr key \<Rightarrow> gcmOpen C key iv (ct @ tag))
           | _ \<Rightarrow> Err (Failed ''illegal base64 data''))
      | _ \<Rightarrow> Err (Failed ''malformed encrypted token''))"

text \<open>The workers go on with what Base64 could read.\<close>

definition decryptValue :: "cryptoLib \<Rightarrow> string \<Rightarrow> string \<Rightarrow> (secretFault, string) result" where
  "decryptValue C keyText value =
     (case splitOn (CHR '':'') value of
        [p0, p1, p2] \<Rightarrow>
          (case workerOAuthKey keyText of
             Inl e \<Rightarrow> Err e
           | Inr key \<Rightarrow> gcmOpen C key (fst (b64Read p0)) (fst (b64Read p2) @ fst (b64Read p1)))
      | _ \<Rightarrow> Err (Failed ''malformed encrypted token''))"

section \<open>Credentials of a worker\<close>

definition decryptSecret :: "(string \<Rightarrow> gv option) \<Rightarrow> cryptoLib \<Rightarrow> string \<Rightarrow> string \<Rightarrow> (secretFault, obj) result" where
  "decryptSecret unmarshal C keyText value =
     (case decryptValue C keyText value of
        Inl e \<Rightarrow> Err e
      | Inr body \<Rightarrow> (case unmarshal body of Some (VObj m) \<Rightarrow> Ok m | Some VNil \<Rightarrow> Ok [] | _ \<Rightarrow> Err (Failed ''json: invalid secret'')))"

text \<open>One decrypted column.\<close>

definition decryptColumn :: "(string \<Rightarrow> (secretFault, gv) result) \<Rightarrow> string \<Rightarrow> string \<Rightarrow> obj \<Rightarrow> (secretFault, obj) result" where
  "decryptColumn decrypt column target row =
     (let encrypted = stringValue (objGet row column) in
      if encrypted = [] then Ok row else (case decrypt encrypted of Inl e \<Rightarrow> Err e | Inr v \<Rightarrow> Ok (objPut target v row)))"

text \<open>\<open>query\<close> is the row of the instance, as columns with the values of the driver.\<close>

definition credentialOf ::
  "(string \<Rightarrow> gv option) \<Rightarrow> cryptoLib \<Rightarrow> string \<Rightarrow> (string \<Rightarrow> (string, (string \<times> gv) list option) result) \<Rightarrow> string
     \<Rightarrow> (secretFault, obj) result" where
  "credentialOf unmarshal C keyText query cid =
     (case query cid of
        Inl e \<Rightarrow> Err (Failed e)
      | Inr None \<Rightarrow> Err (Failed (''connector '' @ cid @ '' not found''))
      | Inr (Some columns) \<Rightarrow>
          let row = fold (\<lambda>(k, v). objPut k v) columns [] in
          (case decryptColumn (\<lambda>s. map_sum (\<lambda>e. e) VObj (decryptSecret unmarshal C keyText s)) ''secret'' ''secret_value'' row of
             Inl e \<Rightarrow> Err e
           | Inr row1 \<Rightarrow>
               (case decryptColumn (\<lambda>s. map_sum (\<lambda>e. e) VStr (decryptValue C keyText s)) ''access_token'' ''access_value'' row1 of
                  Inl e \<Rightarrow> Err e
                | Inr row2 \<Rightarrow> decryptColumn (\<lambda>s. map_sum (\<lambda>e. e) VStr (decryptValue C keyText s)) ''refresh_token'' ''refresh_value'' row2)))"

text \<open>The driver gives a UUID column as an array of 16 bytes; read into a string it is the canonical text.\<close>

definition uuidValue :: "nat list \<Rightarrow> gv" where
  "uuidValue bytes = VArr (map (\<lambda>b. VInt (int b)) bytes)"

definition hexPair :: "nat \<Rightarrow> string" where
  "hexPair n = [hexChar (n div 16), hexChar (n mod 16)]"

definition uuidText :: "nat list \<Rightarrow> string" where
  "uuidText bytes =
     (let part = (\<lambda>i n. concat (map hexPair (take n (drop i bytes))))
      in join ''-'' [part 0 4, part 4 2, part 6 2, part 8 2, part 10 6])"

definition AlertDestination ::
  "(string \<Rightarrow> (secretFault, obj) result) \<Rightarrow> (string \<Rightarrow> (string, urlParts) result) \<Rightarrow> string \<Rightarrow> string \<Rightarrow> (secretFault, string \<times> string) result" where
  "AlertDestination credential check tenantID cid =
     (case credential cid of
        Inl e \<Rightarrow> Err e
      | Inr row \<Rightarrow>
          let extra = (case asObj (objGet row ''extra'') of Some o' \<Rightarrow> o' | None \<Rightarrow> []);
              secret = (case asObj (objGet row ''secret_value'') of Some o' \<Rightarrow> o' | None \<Rightarrow> []);
              endpoint = stringValue (objGet extra ''baseUrl'')
          in if stringValue (objGet row ''tenant_id'') \<noteq> tenantID then Err (Failed ''notification connector not found'')
             else if stringValue (objGet row ''provider'') \<noteq> ''http'' then Err (Failed ''notification connector must be an HTTP credential'')
             else if endpoint = [] then Err (Failed ''notification connector must have baseUrl'')
             else (case ValidateURL check endpoint of
                 Inl e \<Rightarrow> Err (Failed (''notification '' @ e))
               | Inr _ \<Rightarrow> Ok (endpoint, stringValue (objGet secret ''apiKey''))))"

section \<open>The codec of Temporal payloads\<close>

record payload =
  pl_Metadata :: "(string \<times> string) list"
  pl_Data :: string

abbreviation encodingLabel :: string where "encodingLabel \<equiv> ''binary/encrypted+aes-gcm''"
abbreviation metadataEncoding :: string where "metadataEncoding \<equiv> ''encoding''"
abbreviation metadataEncodingJSON :: string where "metadataEncodingJSON \<equiv> ''json/plain''"

definition NewDataConverterFromEnv :: "string \<Rightarrow> string \<Rightarrow> (string, string option) result" where
  "NewDataConverterFromEnv raw nodeEnv =
     (if raw = [] then
        (if nodeEnv = ''production'' then Err ''TEMPORAL_PAYLOAD_ENCRYPTION_KEY is required in production'' else Ok None)
      else (case b64Decode raw of
          None \<Rightarrow> Err ''decode TEMPORAL_PAYLOAD_ENCRYPTION_KEY: illegal base64 data''
        | Some key \<Rightarrow> if length key \<noteq> 32 then Err ''TEMPORAL_PAYLOAD_ENCRYPTION_KEY must decode to 32 bytes'' else Ok (Some key)))"

definition encodePayload :: "cryptoLib \<Rightarrow> string \<Rightarrow> string \<Rightarrow> payload \<Rightarrow> payload" where
  "encodePayload C key iv p =
     (case sealParts C key iv (pl_Data p) of (tag, ct) \<Rightarrow>
        \<lparr>pl_Metadata = (metadataEncoding, encodingLabel) #
            (case map_of (pl_Metadata p) metadataEncoding of Some original \<Rightarrow> [(''originalEncoding'', original)] | None \<Rightarrow> []),
         pl_Data = iv @ tag @ ct\<rparr>)"

definition codecEncode :: "cryptoLib \<Rightarrow> string \<Rightarrow> (nat \<Rightarrow> string) \<Rightarrow> payload list \<Rightarrow> (secretFault, payload list) result" where
  "codecEncode C key ivs ps =
     (if \<not> aesKeyOK key then Err (Failed ''crypto/aes: invalid key size'')
      else Ok (map (\<lambda>(i, p). encodePayload C key (ivs i) p) (enumerate 0 ps)))"

definition decodePayload :: "cryptoLib \<Rightarrow> string \<Rightarrow> payload \<Rightarrow> (secretFault, payload) result" where
  "decodePayload C key p =
     (if map_of (pl_Metadata p) metadataEncoding \<noteq> Some encodingLabel then Ok p
      else if length (pl_Data p) < gcmNonceSize + gcmOverhead then Err (Failed ''encrypted payload is truncated'')
      else let iv = take gcmNonceSize (pl_Data p);
               tag = take gcmOverhead (drop gcmNonceSize (pl_Data p));
               ciphertext = drop (gcmNonceSize + gcmOverhead) (pl_Data p)
           in (case gcmOpen C key iv (ciphertext @ tag) of
                 Inl e \<Rightarrow> Err e
               | Inr plaintext \<Rightarrow>
                   Ok \<lparr>pl_Metadata = [(metadataEncoding, case map_of (pl_Metadata p) ''originalEncoding'' of Some e \<Rightarrow> e | None \<Rightarrow> metadataEncodingJSON)],
                       pl_Data = plaintext\<rparr>))"

definition codecDecode :: "cryptoLib \<Rightarrow> string \<Rightarrow> payload list \<Rightarrow> (secretFault, payload list) result" where
  "codecDecode C key ps =
     (if \<not> aesKeyOK key then Err (Failed ''crypto/aes: invalid key size'') else forR (decodePayload C key) ps)"

section \<open>Laws\<close>

text \<open>What AES-GCM promises: opening what was sealed gives it back, and the tag takes 16 bytes.\<close>

definition aeadLaws :: "cryptoLib \<Rightarrow> bool" where
  "aeadLaws C \<longleftrightarrow> (\<forall>k n d. cr_Open C k n (cr_Seal C k n d) = Some d) \<and> (\<forall>k n d. length (cr_Seal C k n d) = length d + gcmOverhead)"

lemma sealParts_laws:
  assumes "aeadLaws C" "sealParts C key iv v = (tag, ct)"
  shows "length tag = gcmOverhead" "cr_Open C key iv (ct @ tag) = Some v"
  using assms by (auto simp: sealParts_def aeadLaws_def Let_def)

lemma sealedText_split:
  "splitOn (CHR '':'') (sealedText C iv v key)
     = (case sealParts C key iv v of (tag, ct) \<Rightarrow> [b64Encode iv, b64Encode tag, b64Encode ct])"
proof -
  have "splitOn (CHR '':'') (join '':'' [b64Encode x, b64Encode y, b64Encode z]) = [b64Encode x, b64Encode y, b64Encode z]" for x y z
    by (rule splitOn_join) (simp_all add: b64Encode_colon)
  then show ?thesis by (simp add: sealedText_def split: prod.splits)
qed

lemma oauth_keys_agree: "oauthKey t = Ok key \<longleftrightarrow> workerOAuthKey t = Ok key"
  using hexDecode_length [of t] by (auto simp: oauthKey_def workerOAuthKey_def split: option.splits if_splits)

lemma sealed_reads:
  assumes "aeadLaws C" "length iv = gcmNonceSize" "oauthKey keyText = Ok key"
  shows "decryptToken C keyText (sealedText C iv v key) = Ok v" "decryptValue C keyText (sealedText C iv v key) = Ok v"
proof -
  obtain tag ct where p: "sealParts C key iv v = (tag, ct)" by (metis surj_pair)
  have "gcmOpen C key iv (ct @ tag) = Ok v" using sealParts_laws [OF assms(1) p] assms(2) by (simp add: gcmOpen_def)
  then show "decryptToken C keyText (sealedText C iv v key) = Ok v" "decryptValue C keyText (sealedText C iv v key) = Ok v"
    using assms(3) oauth_keys_agree [of keyText key] p by (simp_all add: decryptToken_def decryptValue_def sealedText_split)
qed

text \<open>C27: A token that the API or a worker has encrypted is read by both: with the same key text, decryption in the
  API and decryption in a worker give the value back.\<close>

theorem tokens_cross_components:
  assumes "aeadLaws C" "length iv = gcmNonceSize"
    and "encryptToken C keyText iv v = Ok t \<or> encryptValue C keyText iv v = Ok t"
  shows "decryptToken C keyText t = Ok v \<and> decryptValue C keyText t = Ok v"
proof -
  obtain key where "oauthKey keyText = Ok key" "t = sealedText C iv v key"
    using assms(3) oauth_keys_agree by (auto simp: encryptToken_def encryptValue_def split: sum.splits)
  then show ?thesis using sealed_reads [OF assms(1,2)] by simp
qed

lemma padCrypto_aead: "aeadLaws padCrypto"
  using padCrypto_laws by (auto simp: aeadLaws_def cryptoLaws_def sealedSizes_def gcmTagSize_def)

lemma hexDecode_zeros: "hexDecode (replicate (2 * n) (CHR ''0'')) = Some (replicate n (byteOf 0))"
  by (induction n) (simp_all add: hexDigit_def Let_def)

theorem tokens_cross_components_witness:
  "decryptToken padCrypto (replicate 64 (CHR ''0'')) (sealedText padCrypto (replicate 12 (CHR ''n'')) ''secret'' (replicate 32 (byteOf 0))) = Ok ''secret''"
proof -
  have "oauthKey (replicate 64 (CHR ''0'')) = Ok (replicate 32 (byteOf 0))"
    using hexDecode_zeros [of 32] by (simp add: oauthKey_def)
  then have "encryptToken padCrypto (replicate 64 (CHR ''0'')) (replicate 12 (CHR ''n'')) ''secret''
      = Ok (sealedText padCrypto (replicate 12 (CHR ''n'')) ''secret'' (replicate 32 (byteOf 0)))"
    by (simp add: encryptToken_def)
  then show ?thesis using tokens_cross_components [OF padCrypto_aead, of "replicate 12 (CHR ''n'')"] by fastforce
qed

text \<open>What the codec keeps of a payload: its data and its encoding.\<close>

definition keptPayload :: "payload \<Rightarrow> payload" where
  "keptPayload p = \<lparr>pl_Metadata = [(metadataEncoding, case map_of (pl_Metadata p) metadataEncoding of Some e \<Rightarrow> e | None \<Rightarrow> metadataEncodingJSON)],
     pl_Data = pl_Data p\<rparr>"

lemma decode_encode:
  assumes "aeadLaws C" "length iv = gcmNonceSize"
  shows "decodePayload C key (encodePayload C key iv p) = Ok (keptPayload p)"
proof -
  obtain tag ct where s: "sealParts C key iv (pl_Data p) = (tag, ct)" by (metis surj_pair)
  note l = sealParts_laws [OF assms(1) s]
  have "gcmOpen C key iv (ct @ tag) = Ok (pl_Data p)" using l assms(2) by (simp add: gcmOpen_def)
  then show ?thesis using s l(1) assms(2)
    by (simp add: decodePayload_def encodePayload_def keptPayload_def Let_def split: option.splits)
qed

text \<open>C0: Decoding what the codec encoded gives every payload back with its data and its encoding; an encoding that
  was not given is JSON, and no other metadata is kept.\<close>

theorem codec_roundtrip:
  assumes "aeadLaws C" "\<And>i. length (ivs i) = gcmNonceSize" "codecEncode C key ivs ps = Ok encoded"
  shows "codecDecode C key encoded = Ok (map keptPayload ps)"
proof -
  have k: "aesKeyOK key" and e: "encoded = map (\<lambda>(i, p). encodePayload C key (ivs i) p) (enumerate 0 ps)"
    using assms(3) by (auto simp: codecEncode_def split: if_splits)
  have "forR (decodePayload C key) (map (\<lambda>(i, p). encodePayload C key (ivs i) p) (enumerate n ps)) = Ok (map keptPayload ps)" for n
    by (induction ps arbitrary: n) (simp_all add: decode_encode [OF assms(1,2)])
  then show ?thesis using k e by (simp add: codecDecode_def)
qed

theorem codec_roundtrip_witness:
  "codecDecode padCrypto (replicate 32 (CHR ''k''))
     [encodePayload padCrypto (replicate 32 (CHR ''k'')) (replicate 12 (CHR ''n'')) \<lparr>pl_Metadata = [(''encoding'', ''json/plain'')], pl_Data = ''7''\<rparr>]
   = Ok [\<lparr>pl_Metadata = [(''encoding'', ''json/plain'')], pl_Data = ''7''\<rparr>]"
  using codec_roundtrip [OF padCrypto_aead, of "\<lambda>_. replicate 12 (CHR ''n'')" "replicate 32 (CHR ''k'')"
      "[\<lparr>pl_Metadata = [(''encoding'', ''json/plain'')], pl_Data = ''7''\<rparr>]"]
  by (simp add: codecEncode_def aesKeyOK_def keptPayload_def)

text \<open>Protobuf messages lose the name of their message.\<close>

lemma codec_drops_metadata:
  "map_of (pl_Metadata (keptPayload \<lparr>pl_Metadata = [(''encoding'', ''json/protobuf''), (''messageType'', m)], pl_Data = d\<rparr>)) ''messageType'' = None"
  by (simp add: keptPayload_def)

text \<open>The text of an array of bytes is in brackets, that of a UUID begins with a hexadecimal digit.\<close>

lemma uuid_texts_differ:
  assumes "length bytes = 16" "list_all (\<lambda>b. b < 256) bytes"
  shows "stringValue (uuidValue other) \<noteq> uuidText bytes"
proof -
  obtain b bs where b: "bytes = b # bs" "b < 256" using assms by (cases bytes) auto
  have "hd (uuidText bytes) = hexChar (b div 16)" using b by (simp add: uuidText_def hexPair_def Let_def)
  moreover have "hexChar n \<noteq> CHR ''[''" if "n < 16" for n
  proof -
    have "(of_char (hexChar n) :: nat) = (if n < 10 then 48 + n else 87 + n)" using that by (simp add: hexChar_def)
    then have "(of_char (hexChar n) :: nat) \<noteq> 91" by (cases "n < 10") simp_all
    then show ?thesis by auto
  qed
  moreover have "hd (stringValue (uuidValue other)) = CHR ''[''" by (simp add: uuidValue_def stringValue_def)
  moreover have "b div 16 < 16" using b(2) by (simp add: div_less_iff_less_mult)
  ultimately show ?thesis by metis
qed

end
