(* ===== verification/Outbox.thy ===== *)
theory Outbox
  imports Secrets Http
begin

text \<open>
  The outboxes (\<^verbatim>\<open>internal/dispatchers/dispatchers.go\<close>): rows written with the events, alerts and lineage of
  executions are delivered by rounds, each one transaction that locks some rows, sends them, notes the outcome in
  the row, and commits.

  Arguments: the failures of the database (by statement), the rows that other dispatchers hold locked, the time
  of the transaction, Redis, the HTTP clients and the URL parser.
\<close>

section \<open>Rows and rounds\<close>

record outboxRow =
  ob_ID :: string
  ob_Payload :: string
  ob_Attempts :: int
  ob_NextAttempt :: int
  ob_SentAt :: "int option"
  ob_LastError :: "string option"

record notificationRow = outboxRow +
  nt_TenantID :: string
  nt_AlertID :: string
  nt_ConnectionID :: string

text \<open>A round: the failures of its statements, by row and the error text to be stored, and what is locked.\<close>

record roundEnv =
  re_Now :: int
  re_Locked :: "string list"
  re_Begin :: "string option"
  re_Query :: "string option"
  re_Exec :: "string \<Rightarrow> string option \<Rightarrow> string option"
  re_Commit :: "string option"

record 'r roundOutcome =
  oc_Tried :: "('r \<times> string option) list"
  oc_Table :: "'r list"
  oc_Error :: "string option"

definition retryDelay :: "int \<Rightarrow> int \<Rightarrow> int \<Rightarrow> int" where
  "retryDelay attempt base capSeconds =
     (let a = (if attempt < 1 then 1 else attempt); shift = (if a - 1 > 9 then 9 else a - 1); delay = base * 2 ^ nat shift
      in if delay > capSeconds then capSeconds else delay)"

definition truncateError :: "string \<Rightarrow> string" where
  "truncateError value = (if length value > 1000 then take 1000 value else value)"

definition dueRow :: "int \<Rightarrow> 'a outboxRow_scheme \<Rightarrow> bool" where
  "dueRow now r \<longleftrightarrow> ob_SentAt r = None \<and> ob_Attempts r < 10 \<and> ob_NextAttempt r \<le> now"

definition pickRows :: "nat \<Rightarrow> roundEnv \<Rightarrow> 'a outboxRow_scheme list \<Rightarrow> 'a outboxRow_scheme list" where
  "pickRows lim env table =
     take lim (sort_key ob_NextAttempt (filter (\<lambda>r. dueRow (re_Now env) r \<and> ob_ID r \<notin> set (re_Locked env)) table))"

definition markSent :: "int \<Rightarrow> 'a outboxRow_scheme \<Rightarrow> 'a outboxRow_scheme" where
  "markSent now r = r\<lparr>ob_SentAt := Some now, ob_Attempts := ob_Attempts r + 1, ob_LastError := None\<rparr>"

definition markFailed :: "int \<Rightarrow> int \<Rightarrow> int \<Rightarrow> string \<Rightarrow> 'a outboxRow_scheme \<Rightarrow> 'a outboxRow_scheme" where
  "markFailed base now attempts e r =
     r\<lparr>ob_Attempts := attempts, ob_LastError := Some (truncateError e), ob_NextAttempt := now + retryDelay attempts base 3600 * timeSecond\<rparr>"

definition noteRow :: "int \<Rightarrow> int \<Rightarrow> 'a outboxRow_scheme \<Rightarrow> string option \<Rightarrow> 'a outboxRow_scheme list \<Rightarrow> 'a outboxRow_scheme list" where
  "noteRow base now value failure table =
     map (\<lambda>r. if ob_ID r = ob_ID value
       then (case failure of None \<Rightarrow> markSent now r | Some e \<Rightarrow> markFailed base now (ob_Attempts value + 1) e r) else r) table"

text \<open>The loop over the rows of a round: an update that fails ends it.\<close>

fun deliverRows ::
  "('a outboxRow_scheme \<Rightarrow> string option) \<Rightarrow> int \<Rightarrow> roundEnv \<Rightarrow> 'a outboxRow_scheme list \<Rightarrow> 'a outboxRow_scheme list
     \<Rightarrow> 'a outboxRow_scheme roundOutcome" where
  "deliverRows send base env [] table = \<lparr>oc_Tried = [], oc_Table = table, oc_Error = None\<rparr>"
| "deliverRows send base env (value # values) table =
     (let failure = send value in
      case re_Exec env (ob_ID value) (map_option truncateError failure) of
        Some e \<Rightarrow> \<lparr>oc_Tried = [(value, failure)], oc_Table = table, oc_Error = Some e\<rparr>
      | None \<Rightarrow>
          let o' = deliverRows send base env values (noteRow base (re_Now env) value failure table)
          in o'\<lparr>oc_Tried := (value, failure) # oc_Tried o'\<rparr>)"

text \<open>A transaction that does not commit leaves the table as it was; what was sent stays sent.\<close>

definition settle :: "roundEnv \<Rightarrow> 'r list \<Rightarrow> 'r roundOutcome \<Rightarrow> 'r roundOutcome" where
  "settle env table o' =
     (case oc_Error o' of
        Some e \<Rightarrow> o'\<lparr>oc_Table := table\<rparr>
      | None \<Rightarrow> (case re_Commit env of Some e \<Rightarrow> o'\<lparr>oc_Table := table, oc_Error := Some e\<rparr> | None \<Rightarrow> o'))"

fun containsText :: "string \<Rightarrow> string \<Rightarrow> bool" where
  "containsText part [] = (part = [])"
| "containsText part (c # s) = (hasPrefix part (c # s) \<or> containsText part s)"

definition opened :: "roundEnv \<Rightarrow> 'r list \<Rightarrow> 'r roundOutcome \<Rightarrow> 'r roundOutcome" where
  "opened env table o' =
     (case re_Begin env of
        Some e \<Rightarrow> \<lparr>oc_Tried = [], oc_Table = table, oc_Error = Some e\<rparr>
      | None \<Rightarrow>
          (case re_Query env of
             Some e \<Rightarrow> \<lparr>oc_Tried = [], oc_Table = table, oc_Error = (if containsText ''does not exist'' e then None else Some e)\<rparr>
           | None \<Rightarrow> o'))"

definition runOutbox ::
  "nat \<Rightarrow> int \<Rightarrow> ('a outboxRow_scheme \<Rightarrow> string option) \<Rightarrow> roundEnv \<Rightarrow> 'a outboxRow_scheme list \<Rightarrow> 'a outboxRow_scheme roundOutcome" where
  "runOutbox lim base send env table =
     opened env table (settle env table (deliverRows send base env (pickRows lim env table) table))"

section \<open>Deliveries\<close>

record jsonPost =
  jp_URL :: string
  jp_Headers :: headers
  jp_Body :: string

type_synonym poster = "jsonPost \<Rightarrow> (string, int \<times> string) result"

definition postJSON :: "(string \<Rightarrow> bool) \<Rightarrow> (string \<Rightarrow> string option) \<Rightarrow> poster \<Rightarrow> string \<Rightarrow> string \<Rightarrow> headers \<Rightarrow> string option" where
  "postJSON valid requestError post endpoint body hs =
     (if \<not> valid body then Some ''outbox payload is not JSON''
      else (case requestError endpoint of
          Some e \<Rightarrow> Some e
        | None \<Rightarrow>
            (case post \<lparr>jp_URL = endpoint, jp_Headers = fold (\<lambda>(k, v). setHeader k v) hs (setHeader ''Content-Type'' ''application/json'' []), jp_Body = body\<rparr> of
               Inl e \<Rightarrow> Some e
             | Inr (status, text) \<Rightarrow> if status \<ge> 300 then Some (''HTTP '' @ itoa status @ '': '' @ trimSpace (take 4096 text)) else None)))"

definition bearerHeader :: "string \<Rightarrow> headers" where
  "bearerHeader apiKey = (if apiKey \<noteq> [] then [(''Authorization'', ''Bearer '' @ apiKey)] else [])"

definition faultText :: "secretFault \<Rightarrow> string" where
  "faultText f = (case f of Failed e \<Rightarrow> e | Panicked e \<Rightarrow> e)"

definition sendAlert ::
  "(string \<Rightarrow> string \<Rightarrow> (secretFault, string \<times> string) result) \<Rightarrow> (string \<Rightarrow> string \<Rightarrow> headers \<Rightarrow> string option) \<Rightarrow> notificationRow \<Rightarrow> string option" where
  "sendAlert destination post value =
     (case destination (nt_TenantID value) (nt_ConnectionID value) of
        Inl f \<Rightarrow> Some (faultText f)
      | Inr (endpoint, apiKey) \<Rightarrow> post endpoint (ob_Payload value) ((''X-DataFlow-Alert-ID'', nt_AlertID value) # bearerHeader apiKey))"

definition dispatchAlerts ::
  "(string \<Rightarrow> string \<Rightarrow> (secretFault, string \<times> string) result) \<Rightarrow> (string \<Rightarrow> string \<Rightarrow> headers \<Rightarrow> string option) \<Rightarrow> roundEnv
     \<Rightarrow> notificationRow list \<Rightarrow> notificationRow roundOutcome" where
  "dispatchAlerts destination post = runOutbox 5 30 (sendAlert destination post)"

definition dispatchLineage ::
  "(string \<Rightarrow> string \<Rightarrow> headers \<Rightarrow> string option) \<Rightarrow> string \<Rightarrow> string \<Rightarrow> roundEnv \<Rightarrow> outboxRow list \<Rightarrow> outboxRow roundOutcome" where
  "dispatchLineage post endpoint apiKey = runOutbox 20 10 (\<lambda>value. post endpoint (ob_Payload value) (bearerHeader apiKey))"

text \<open>\<^verbatim>\<open>lineageEndpoint\<close>: \<open>parse\<close> gives scheme, path, and the printing of the URL with another path.\<close>

definition lineageEndpoint :: "(string \<Rightarrow> (string, string \<times> string \<times> (string \<Rightarrow> string)) result) \<Rightarrow> string \<Rightarrow> (string, string) result" where
  "lineageEndpoint parse base =
     (case parse base of
        Inl e \<Rightarrow> Err e
      | Inr (scheme, path, text) \<Rightarrow>
          if scheme \<noteq> ''http'' \<and> scheme \<noteq> ''https'' then Err ''OPENLINEAGE_URL must use http or https''
          else Ok (text (if hasSuffix ''/api/v1/lineage'' path then path else trimSuffix ''/'' path @ ''/api/v1/lineage'')))"

section \<open>Events\<close>

record eventRow =
  ev_ID :: string
  ev_Tenant :: string
  ev_Environment :: string
  ev_EventID :: string
  ev_Topic :: string
  ev_Payload :: string
  ev_Attempts :: int
  ev_LastError :: "string option"
  ev_CreatedAt :: int
  ev_PublishedAt :: "int option"

definition streamEntry :: "eventRow \<Rightarrow> (string \<times> string) list" where
  "streamEntry r = [(''tenantId'', ev_Tenant r), (''environment'', ev_Environment r), (''eventId'', ev_EventID r), (''topic'', ev_Topic r), (''payload'', ev_Payload r)]"

definition pickEvents :: "roundEnv \<Rightarrow> eventRow list \<Rightarrow> eventRow list" where
  "pickEvents env table = take 20 (sort_key ev_CreatedAt (filter (\<lambda>r. ev_PublishedAt r = None \<and> ev_ID r \<notin> set (re_Locked env)) table))"

definition noteEvent :: "int \<Rightarrow> eventRow \<Rightarrow> string option \<Rightarrow> eventRow list \<Rightarrow> eventRow list" where
  "noteEvent now value failure table =
     map (\<lambda>r. if ev_ID r \<noteq> ev_ID value then r
       else case failure of
         None \<Rightarrow> r\<lparr>ev_PublishedAt := Some now, ev_Attempts := ev_Attempts r + 1, ev_LastError := None\<rparr>
       | Some e \<Rightarrow> r\<lparr>ev_Attempts := ev_Attempts r + 1, ev_LastError := Some (truncateError e)\<rparr>) table"

text \<open>A statement that fails aborts the transaction: the loop goes on, and the commit fails.\<close>

fun publishRows :: "((string \<times> string) list \<Rightarrow> string option) \<Rightarrow> roundEnv \<Rightarrow> bool \<Rightarrow> eventRow list \<Rightarrow> eventRow list \<Rightarrow> eventRow roundOutcome" where
  "publishRows xadd env aborted [] table =
     \<lparr>oc_Tried = [], oc_Table = table, oc_Error = (if aborted then Some ''commit unexpectedly resulted in rollback'' else None)\<rparr>"
| "publishRows xadd env aborted (value # values) table =
     (let failure = xadd (streamEntry value); bad = aborted \<or> re_Exec env (ev_ID value) (map_option truncateError failure) \<noteq> None;
          o' = publishRows xadd env bad values (if bad then table else noteEvent (re_Now env) value failure table)
      in o'\<lparr>oc_Tried := (value, failure) # oc_Tried o'\<rparr>)"

definition dispatchEvents :: "((string \<times> string) list \<Rightarrow> string option) \<Rightarrow> roundEnv \<Rightarrow> eventRow list \<Rightarrow> eventRow roundOutcome" where
  "dispatchEvents xadd env table = opened env table (settle env table (publishRows xadd env False (pickEvents env table) table))"

section \<open>The loop of a dispatcher\<close>

text \<open>\<^verbatim>\<open>Group.run\<close>: rounds at the ticks; an error is logged and the next tick goes on.\<close>

fun runRounds :: "('e \<Rightarrow> 'r list \<Rightarrow> 'r roundOutcome) \<Rightarrow> 'e list \<Rightarrow> 'r list \<Rightarrow> 'r roundOutcome list \<times> 'r list" where
  "runRounds dispatch [] table = ([], table)"
| "runRounds dispatch (env # envs) table =
     (let o' = dispatch env table in case runRounds dispatch envs (oc_Table o') of (os, t) \<Rightarrow> (o' # os, t))"

end
