(* ===== verification/OutboxLaws.thy ===== *)
theory OutboxLaws
  imports Outbox
begin

text \<open>
  What the outboxes guarantee: a row is delivered at most once by the rounds that commit and tried at most ten
  times; a row whose outcome cannot be stored is tried for ever; and no alert reaches its destination.
\<close>

section \<open>A round\<close>

lemma retryDelay_bounds: "0 \<le> base \<Longrightarrow> 0 \<le> cap \<Longrightarrow> 0 \<le> retryDelay a base cap \<and> retryDelay a base cap \<le> cap"
  by (simp add: retryDelay_def Let_def)

lemma noteRow_ids [simp]: "map ob_ID (noteRow base now v f t) = map ob_ID t"
  by (induction t) (auto simp: noteRow_def markSent_def markFailed_def split: option.splits)

text \<open>What a note does to a row, given the outcomes of a round by row.\<close>

definition noted :: "int \<Rightarrow> int \<Rightarrow> ('a outboxRow_scheme \<times> string option) list \<Rightarrow> 'a outboxRow_scheme \<Rightarrow> 'a outboxRow_scheme" where
  "noted base now tried r =
     (case map_of (map (\<lambda>(v, f). (ob_ID v, f)) tried) (ob_ID r) of
        None \<Rightarrow> r | Some None \<Rightarrow> markSent now r | Some (Some e) \<Rightarrow> markFailed base now (ob_Attempts r + 1) e r)"

lemma noteRow_rows:
  "v \<in> set t \<Longrightarrow> distinct (map ob_ID t) \<Longrightarrow> noteRow base now v f t = map (noted base now [(v, f)]) t"
proof -
  assume a: "v \<in> set t" "distinct (map ob_ID t)"
  then have "r = v" if "r \<in> set t" "ob_ID r = ob_ID v" for r using that by (meson inj_onD distinct_map)
  then show ?thesis by (auto simp: noteRow_def noted_def split: option.splits)
qed

lemma noted_id [simp]: "ob_ID (noted base now tried r) = ob_ID r"
  by (simp add: noted_def markSent_def markFailed_def split: option.splits)

lemma noted_Cons:
  "ob_ID v \<notin> ob_ID ` fst ` set tried \<Longrightarrow> noted base now tried (noted base now [(v, f)] r) = noted base now ((v, f) # tried) r"
proof -
  assume v: "ob_ID v \<notin> ob_ID ` fst ` set tried"
  then have n: "map_of (map (\<lambda>(v, f). (ob_ID v, f)) tried) (ob_ID v) = None"
    by (force simp: map_of_eq_None_iff)
  show ?thesis
  proof (cases "ob_ID r = ob_ID v")
    case True
    then show ?thesis using n by (simp add: noted_def [of base now tried]) (simp add: noted_def)
  next
    case False
    then show ?thesis by (simp add: noted_def)
  qed
qed

lemma deliverRows_ok:
  assumes "oc_Error (deliverRows send base env vs t) = None" "distinct (map ob_ID vs)" "distinct (map ob_ID t)" "set vs \<subseteq> set t"
  shows "oc_Tried (deliverRows send base env vs t) = map (\<lambda>v. (v, send v)) vs
    \<and> oc_Table (deliverRows send base env vs t) = map (noted base (re_Now env) (map (\<lambda>v. (v, send v)) vs)) t"
  using assms
proof (induction vs arbitrary: t)
  case Nil
  then show ?case by (simp add: noted_def map_idI)
next
  case (Cons v vs)
  let ?t = "noteRow base (re_Now env) v (send v) t"
  have rows: "?t = map (noted base (re_Now env) [(v, send v)]) t" using Cons.prems by (intro noteRow_rows) auto
  have ok: "re_Exec env (ob_ID v) (map_option truncateError (send v)) = None"
    using Cons.prems(1) by (auto simp: Let_def split: option.splits)
  have err: "oc_Error (deliverRows send base env vs ?t) = None" using Cons.prems(1) ok by (simp add: Let_def)
  have "r \<in> set ?t" if "r \<in> set vs" for r
  proof -
    have "ob_ID r \<in> ob_ID ` set vs" using that by blast
    then have "ob_ID r \<noteq> ob_ID v" using Cons.prems(2) by auto
    then have "noted base (re_Now env) [(v, send v)] r = r" by (simp add: noted_def)
    moreover have "r \<in> set t" using that Cons.prems(4) by auto
    ultimately show ?thesis unfolding rows by (metis imageI list.set_map)
  qed
  then have IH: "oc_Tried (deliverRows send base env vs ?t) = map (\<lambda>v. (v, send v)) vs"
      "oc_Table (deliverRows send base env vs ?t) = map (noted base (re_Now env) (map (\<lambda>v. (v, send v)) vs)) ?t"
    using Cons.IH [OF err] Cons.prems by auto
  have "ob_ID v \<notin> ob_ID ` fst ` set (map (\<lambda>v. (v, send v)) vs)" using Cons.prems(2) by (auto simp: image_image)
  then have "map (noted base (re_Now env) (map (\<lambda>v. (v, send v)) vs)) ?t = map (noted base (re_Now env) ((v, send v) # map (\<lambda>v. (v, send v)) vs)) t"
    unfolding rows by (simp add: noted_Cons)
  then show ?case using ok IH by (simp add: Let_def)
qed

lemma pickRows_props:
  "set (pickRows lim env t) \<subseteq> {r \<in> set t. dueRow (re_Now env) r}"
  "distinct (map ob_ID t) \<Longrightarrow> distinct (map ob_ID (pickRows lim env t))"
proof -
  let ?f = "filter (\<lambda>r. dueRow (re_Now env) r \<and> ob_ID r \<notin> set (re_Locked env)) t"
  show "set (pickRows lim env t) \<subseteq> {r \<in> set t. dueRow (re_Now env) r}"
    using set_take_subset [of lim "sort_key ob_NextAttempt ?f"] by (auto simp: pickRows_def)
  assume "distinct (map ob_ID t)"
  then have "distinct (map ob_ID ?f)" by (rule distinct_map_filter)
  then have "distinct (map ob_ID (sort_key ob_NextAttempt ?f))" by (simp only: distinct_map set_sort distinct_sort)
  then show "distinct (map ob_ID (pickRows lim env t))" unfolding pickRows_def take_map [symmetric] by (rule distinct_take)
qed

text \<open>The outcomes of the rounds that committed, for one row.\<close>

definition tries :: "string \<Rightarrow> 'a outboxRow_scheme roundOutcome list \<Rightarrow> string option list" where
  "tries rid os = map snd (filter (\<lambda>(v, f). ob_ID v = rid) (concat (map oc_Tried (filter (\<lambda>o'. oc_Error o' = None) os))))"

definition accounted :: "'a outboxRow_scheme \<Rightarrow> string option list \<Rightarrow> bool" where
  "accounted r fs \<longleftrightarrow> ob_Attempts r = int (length fs) \<and> length fs \<le> 10
     \<and> (ob_SentAt r \<noteq> None \<longleftrightarrow> fs \<noteq> [] \<and> last fs = None) \<and> None \<notin> set (butlast fs)"

text \<open>
  The contract of a round: one that fails leaves the table; one that succeeds has tried rows that were due, each
  once, and has noted the outcomes in their rows and nowhere else.
\<close>

locale delivery_round =
  fixes dispatch :: "roundEnv \<Rightarrow> 'a outboxRow_scheme list \<Rightarrow> 'a outboxRow_scheme roundOutcome" and base :: int
  assumes failed: "oc_Error (dispatch env t) \<noteq> None \<Longrightarrow> oc_Table (dispatch env t) = t"
    and done': "oc_Error (dispatch env t) = None \<Longrightarrow> distinct (map ob_ID t)
      \<Longrightarrow> fst ` set (oc_Tried (dispatch env t)) \<subseteq> {r \<in> set t. dueRow (re_Now env) r}
        \<and> distinct (map ob_ID (map fst (oc_Tried (dispatch env t))))
        \<and> oc_Table (dispatch env t) = map (noted base (re_Now env) (oc_Tried (dispatch env t))) t"
begin

lemma accounted_try:
  assumes "accounted r fs" "dueRow now r"
  shows "accounted (noted base now' [(r, f)] r) (fs @ [f])"
proof -
  have "fs = [] \<or> last fs \<noteq> None" "length fs < 10" using assms by (auto simp: accounted_def dueRow_def)
  then have "None \<notin> set fs" using assms(1) by (cases fs rule: rev_cases) (auto simp: accounted_def)
  then show ?thesis using assms \<open>length fs < 10\<close>
    by (cases f) (auto simp: accounted_def noted_def markSent_def markFailed_def dueRow_def)
qed

lemma no_tries: "rid \<notin> ob_ID ` fst ` set ts \<Longrightarrow> filter (\<lambda>(v, f). ob_ID v = rid) ts = [] \<and> map_of (map (\<lambda>(v, f). (ob_ID v, f)) ts) rid = None"
  by (induction ts) auto

text \<open>One round keeps the account of every row.\<close>

lemma round_tries:
  assumes "distinct (map ob_ID t)" "oc_Error (dispatch env t) = None" "r \<in> set t"
  shows "(ob_ID r \<notin> ob_ID ` fst ` set (oc_Tried (dispatch env t)) \<and> tries (ob_ID r) [dispatch env t] = [] \<and> noted base (re_Now env) (oc_Tried (dispatch env t)) r = r)
    \<or> (\<exists>f. dueRow (re_Now env) r \<and> tries (ob_ID r) [dispatch env t] = [f] \<and> noted base (re_Now env) (oc_Tried (dispatch env t)) r = noted base (re_Now env) [(r, f)] r)"
proof -
  let ?ts = "oc_Tried (dispatch env t)"
  have d: "fst ` set ?ts \<subseteq> {r \<in> set t. dueRow (re_Now env) r}" "distinct (map ob_ID (map fst ?ts))"
    using done' [OF assms(2,1)] by auto
  show ?thesis
  proof (cases "ob_ID r \<in> ob_ID ` fst ` set ?ts")
    case False
    then show ?thesis using no_tries [OF False] assms(2) by (simp add: tries_def noted_def)
  next
    case True
    then obtain v f where v: "(v, f) \<in> set ?ts" "ob_ID v = ob_ID r" by force
    have "v \<in> set t" "dueRow (re_Now env) v" using v(1) d(1) by force+
    then have vr: "v = r" using v(2) assms(1,3) by (meson inj_onD distinct_map)
    obtain ys zs where ts: "?ts = ys @ (r, f) # zs" using v(1) vr by (meson split_list)
    have no: "ob_ID r \<notin> ob_ID ` fst ` (set ys \<union> set zs)" using d(2) unfolding ts by (auto simp: image_Un)
    then have e: "filter (\<lambda>(v, f). ob_ID v = ob_ID r) ys = []" "filter (\<lambda>(v, f). ob_ID v = ob_ID r) zs = []"
        "map_of (map (\<lambda>(v, f). (ob_ID v, f)) ys) (ob_ID r) = None"
      using no_tries [of "ob_ID r" ys] no_tries [of "ob_ID r" zs] by (auto simp: image_Un)
    then have "map_of (map (\<lambda>(v, f). (ob_ID v, f)) ?ts) (ob_ID r) = Some f" unfolding ts by (simp add: map_add_def)
    moreover have "tries (ob_ID r) [dispatch env t] = [f]" using e assms(2) by (simp add: tries_def ts)
    ultimately show ?thesis using vr \<open>dueRow (re_Now env) v\<close> by (simp add: noted_def)
  qed
qed

lemma tries_append [simp]: "tries rid (os @ os') = tries rid os @ tries rid os'"
  by (simp add: tries_def)

lemma round_accounted:
  assumes "distinct (map ob_ID t)" "\<forall>r\<in>set t. accounted r (tries (ob_ID r) os)"
  shows "\<forall>r\<in>set (oc_Table (dispatch env t)). accounted r (tries (ob_ID r) (os @ [dispatch env t]))"
proof (cases "oc_Error (dispatch env t) = None")
  case True
  show ?thesis
  proof
    fix r'
    assume "r' \<in> set (oc_Table (dispatch env t))"
    then obtain r where r: "r \<in> set t" "r' = noted base (re_Now env) (oc_Tried (dispatch env t)) r"
      using done' [OF True assms(1)] by auto
    have a: "accounted r (tries (ob_ID r) os)" using r(1) assms(2) by blast
    show "accounted r' (tries (ob_ID r') (os @ [dispatch env t]))"
      using round_tries [OF assms(1) True r(1)] a r(2) accounted_try [OF a] by auto
  qed
next
  case False
  then have "tries rid [dispatch env t] = []" for rid by (simp add: tries_def del: not_None_eq)
  then show ?thesis using failed [OF False] assms(2) by simp
qed

lemma round_ids: "distinct (map ob_ID t) \<Longrightarrow> map ob_ID (oc_Table (dispatch env t)) = map ob_ID t"
proof (cases "oc_Error (dispatch env t) = None")
  case True
  assume "distinct (map ob_ID t)"
  then have "oc_Table (dispatch env t) = map (noted base (re_Now env) (oc_Tried (dispatch env t))) t" using done' [OF True] by blast
  then show ?thesis by (simp add: comp_def)
next
  case False
  then show ?thesis using failed by simp
qed

lemma rounds_accounted_from:
  assumes "distinct (map ob_ID t)" "\<forall>r\<in>set t. accounted r (tries (ob_ID r) os)" "runRounds dispatch envs t = (os', t')"
  shows "\<forall>r\<in>set t'. accounted r (tries (ob_ID r) (os @ os'))"
  using assms
proof (induction envs arbitrary: t os os')
  case (Cons env envs)
  obtain os2 where r: "runRounds dispatch envs (oc_Table (dispatch env t)) = (os2, t')" "os' = dispatch env t # os2"
    using Cons.prems(3) by (auto simp: Let_def split: prod.splits)
  have "distinct (map ob_ID (oc_Table (dispatch env t)))" using round_ids [OF Cons.prems(1)] Cons.prems(1) by simp
  from Cons.IH [OF this round_accounted [OF Cons.prems(1,2)] r(1)] show ?case using r(2) by simp
qed simp

lemma rounds_accounted:
  assumes "distinct (map ob_ID t)" "\<forall>r\<in>set t. ob_Attempts r = 0 \<and> ob_SentAt r = None" "runRounds dispatch envs t = (os, t')"
  shows "\<forall>r\<in>set t'. accounted r (tries (ob_ID r) os)"
  using rounds_accounted_from [OF assms(1) _ assms(3), of "[]"] assms(2) by (simp add: accounted_def tries_def)

end

section \<open>The outboxes\<close>

lemma runOutbox_contract:
  "oc_Error (runOutbox lim base send env t) \<noteq> None \<Longrightarrow> oc_Table (runOutbox lim base send env t) = t"
  "oc_Error (runOutbox lim base send env t) = None \<Longrightarrow> distinct (map ob_ID t)
      \<Longrightarrow> fst ` set (oc_Tried (runOutbox lim base send env t)) \<subseteq> {r \<in> set t. dueRow (re_Now env) r}
        \<and> distinct (map ob_ID (map fst (oc_Tried (runOutbox lim base send env t))))
        \<and> oc_Table (runOutbox lim base send env t) = map (noted base (re_Now env) (oc_Tried (runOutbox lim base send env t))) t"
proof -
  let ?d = "deliverRows send base env (pickRows lim env t) t"
  have all: "runOutbox lim base send env t = \<lparr>oc_Tried = [], oc_Table = t, oc_Error = oc_Error (runOutbox lim base send env t)\<rparr>
      \<or> runOutbox lim base send env t = settle env t ?d"
    by (auto simp: runOutbox_def opened_def split: option.splits)
  have s: "oc_Error (settle env t ?d) \<noteq> None \<and> oc_Table (settle env t ?d) = t \<or> settle env t ?d = ?d \<and> oc_Error ?d = None"
    by (auto simp: settle_def split: option.splits)
  show "oc_Error (runOutbox lim base send env t) \<noteq> None \<Longrightarrow> oc_Table (runOutbox lim base send env t) = t"
    using all s by (metis roundOutcome.select_convs(2))
  assume ok: "oc_Error (runOutbox lim base send env t) = None" and d: "distinct (map ob_ID t)"
  have empty: "map (noted base now []) t = t" for now by (simp add: noted_def map_idI)
  show "fst ` set (oc_Tried (runOutbox lim base send env t)) \<subseteq> {r \<in> set t. dueRow (re_Now env) r}
      \<and> distinct (map ob_ID (map fst (oc_Tried (runOutbox lim base send env t))))
      \<and> oc_Table (runOutbox lim base send env t) = map (noted base (re_Now env) (oc_Tried (runOutbox lim base send env t))) t"
  proof (cases "runOutbox lim base send env t = settle env t ?d")
    case True
    then have r: "runOutbox lim base send env t = ?d" "oc_Error ?d = None" using ok s by auto
    have p: "set (pickRows lim env t) \<subseteq> set t" using pickRows_props(1) by blast
    note dd = deliverRows_ok [OF r(2) pickRows_props(2) [OF d] d p]
    show ?thesis using dd pickRows_props(1) [where lim = lim and env = env and t = t] pickRows_props(2) [OF d, of lim env] unfolding r(1) by (simp add: comp_def image_image)
  next
    case False
    then have "oc_Tried (runOutbox lim base send env t) = []" "oc_Table (runOutbox lim base send env t) = t"
      using all by (metis roundOutcome.select_convs(1), metis roundOutcome.select_convs(2))
    then show ?thesis using empty by simp
  qed
qed

lemma runOutbox_round: "delivery_round (runOutbox lim base send) base"
  by (rule delivery_round.intro) (fact runOutbox_contract)+

interpretation alerts: delivery_round "dispatchAlerts destination post" 30 for destination post
  unfolding dispatchAlerts_def by (rule runOutbox_round)

interpretation lineage: delivery_round "dispatchLineage post endpoint apiKey" 10 for post endpoint apiKey
  unfolding dispatchLineage_def by (rule runOutbox_round)

text \<open>C28: Over any sequence of rounds of the lineage dispatcher, from rows that were never tried, every row has counted
  the tries of the rounds that committed, at most ten; it is marked as sent exactly when the last of them
  succeeded, and no try follows one that succeeded.\<close>

theorem lineage_deliveries_accounted:
  assumes "distinct (map ob_ID t)" "\<forall>r\<in>set t. ob_Attempts r = 0 \<and> ob_SentAt r = None"
    and "runRounds (dispatchLineage post endpoint apiKey) envs t = (os, t')"
  shows "\<forall>r\<in>set t'. ob_Attempts r = int (length (tries (ob_ID r) os)) \<and> length (tries (ob_ID r) os) \<le> 10
    \<and> (ob_SentAt r \<noteq> None \<longleftrightarrow> tries (ob_ID r) os \<noteq> [] \<and> last (tries (ob_ID r) os) = None)
    \<and> None \<notin> set (butlast (tries (ob_ID r) os))"
  using lineage.rounds_accounted [OF assms] unfolding accounted_def .

lemma alert_deliveries_accounted:
  assumes "distinct (map ob_ID t)" "\<forall>r\<in>set t. ob_Attempts r = 0 \<and> ob_SentAt r = None"
    and "runRounds (dispatchAlerts destination post) envs t = (os, t')"
  shows "\<forall>r\<in>set t'. accounted r (tries (ob_ID r) os)"
  by (rule alerts.rounds_accounted [OF assms])

text \<open>Two rounds over one row, whose destination fails and then answers.\<close>

definition lineageRow :: outboxRow where
  "lineageRow = \<lparr>ob_ID = ''1'', ob_Payload = ''{}'', ob_Attempts = 0, ob_NextAttempt = 0, ob_SentAt = None, ob_LastError = None\<rparr>"

definition calmEnv :: "int \<Rightarrow> roundEnv" where
  "calmEnv now = \<lparr>re_Now = now, re_Locked = [], re_Begin = None, re_Query = None, re_Exec = (\<lambda>_ _. None), re_Commit = None\<rparr>"

theorem lineage_deliveries_accounted_witness:
  "\<exists>os t'. runRounds (dispatchLineage (\<lambda>_ _ _. Some ''refused'') ''u'' []) [calmEnv 0, calmEnv (5 * timeSecond), calmEnv (10 * timeSecond)] [lineageRow] = (os, t')
     \<and> ob_Attempts (hd t') = 2 \<and> length (tries ''1'' os) = 2"
proof -
  let ?d = "dispatchLineage (\<lambda>_ _ _. Some ''refused'') ''u'' []" and ?envs = "[calmEnv 0, calmEnv (5 * timeSecond), calmEnv (10 * timeSecond)]"
  obtain os t' where r: "runRounds ?d ?envs [lineageRow] = (os, t')" by (metis surj_pair)
  have t: "map (\<lambda>r. (ob_ID r, ob_Attempts r)) (snd (runRounds ?d ?envs [lineageRow])) = [(''1'', 2)]" by code_simp
  then have t': "t' = [hd t']" "ob_ID (hd t') = ''1''" "ob_Attempts (hd t') = 2" unfolding r by (cases t'; simp)+
  have "\<forall>r\<in>set t'. ob_Attempts r = int (length (tries (ob_ID r) os))"
    using lineage_deliveries_accounted [OF _ _ r] by (simp add: lineageRow_def)
  then show ?thesis using r t' by (metis hd_in_set int_eq_iff_numeral list.distinct(1))
qed

section \<open>A row that cannot be noted\<close>

lemma deliverRows_stuck:
  assumes "v \<in> set vs" "send v = Some e" "re_Exec env (ob_ID v) (Some (truncateError e)) \<noteq> None"
    and "\<forall>r\<in>set vs. r \<noteq> v \<longrightarrow> re_Exec env (ob_ID r) (map_option truncateError (send r)) = None"
  shows "oc_Error (deliverRows send base env vs t) \<noteq> None \<and> (v, Some e) \<in> set (oc_Tried (deliverRows send base env vs t))"
  using assms
proof (induction vs arbitrary: t)
  case (Cons w vs)
  show ?case
  proof (cases "w = v")
    case True
    then show ?thesis using Cons.prems(2,3) by (auto simp: Let_def)
  next
    case False
    then have "re_Exec env (ob_ID w) (map_option truncateError (send w)) = None" "v \<in> set vs" using Cons.prems by auto
    then show ?thesis using Cons.IH [of "noteRow base (re_Now env) w (send w) t"] Cons.prems by (simp add: Let_def)
  qed
qed simp


text \<open>PostgreSQL refuses a text that ends inside a character; the answer of the collector is cut after 1000 bytes.\<close>

definition longFailure :: string where
  "longFailure = ''HTTP 500: '' @ replicate 989 (CHR ''a'') @ [CHR 0xC3, CHR 0xA9]"

definition strictEnv :: roundEnv where
  "strictEnv = (calmEnv 0)\<lparr>re_Exec := (\<lambda>_ text. case text of Some s \<Rightarrow> if last s = CHR 0xC3 then Some ''invalid byte sequence'' else None | None \<Rightarrow> None)\<rparr>"

lemma longFailure_cut: "last (truncateError longFailure) = CHR 0xC3"
proof -
  have "truncateError longFailure = ''HTTP 500: '' @ replicate 989 (CHR ''a'') @ [CHR 0xC3]"
    by (simp add: truncateError_def longFailure_def)
  then show ?thesis by simp
qed


section \<open>Alerts\<close>

lemma deliverRows_unsent:
  assumes "\<forall>v\<in>set vs. send v \<noteq> None" "\<forall>r\<in>set t. Q r" "\<And>r base now a e. Q r \<Longrightarrow> Q (markFailed base now a e r)"
  shows "(\<forall>r\<in>set (oc_Table (deliverRows send base env vs t)). Q r) \<and> (\<forall>(v, f)\<in>set (oc_Tried (deliverRows send base env vs t)). f \<noteq> None)"
  using assms(1,2)
proof (induction vs arbitrary: t)
  case (Cons v vs)
  obtain e where e: "send v = Some e" using Cons.prems(1) by auto
  have "\<forall>r\<in>set (noteRow base (re_Now env) v (send v) t). Q r" using Cons.prems(2) assms(3) by (auto simp: noteRow_def e)
  then show ?case using Cons.IH [of "noteRow base (re_Now env) v (send v) t"] Cons.prems e by (auto simp: Let_def split: option.splits)
qed simp

text \<open>The driver's value of the tenant column.\<close>

definition driverRows :: "(string \<Rightarrow> (string, (string \<times> gv) list option) result) \<Rightarrow> bool" where
  "driverRows query \<longleftrightarrow> (\<forall>cid columns. query cid = Ok (Some columns) \<longrightarrow>
     (\<exists>bytes. objGet (fold (\<lambda>(k, v). objPut k v) columns []) ''tenant_id'' = uuidValue bytes))"

lemma decryptColumn_keeps: "decryptColumn d c target row = Ok row' \<Longrightarrow> k \<noteq> target \<Longrightarrow> objGet row' k = objGet row k"
  by (auto simp: decryptColumn_def Let_def split: if_splits sum.splits)

lemma credential_tenant:
  assumes "driverRows query" "credentialOf unmarshal C keyText query cid = Ok row"
  shows "\<exists>bytes. objGet row ''tenant_id'' = uuidValue bytes"
proof -
  obtain columns row1 row2 where c: "query cid = Ok (Some columns)"
      "decryptColumn (\<lambda>s. map_sum (\<lambda>e. e) VObj (decryptSecret unmarshal C keyText s)) ''secret'' ''secret_value''
         (fold (\<lambda>(k, v). objPut k v) columns []) = Ok row1"
      "decryptColumn (\<lambda>s. map_sum (\<lambda>e. e) VStr (decryptValue C keyText s)) ''access_token'' ''access_value'' row1 = Ok row2"
      "decryptColumn (\<lambda>s. map_sum (\<lambda>e. e) VStr (decryptValue C keyText s)) ''refresh_token'' ''refresh_value'' row2 = Ok row"
    using assms(2) by (auto simp: credentialOf_def Let_def split: sum.splits option.splits)
  then have "objGet row ''tenant_id'' = objGet (fold (\<lambda>(k, v). objPut k v) columns []) ''tenant_id''"
    using decryptColumn_keeps [of _ _ _ _ _ "''tenant_id''"] by simp
  then show ?thesis using assms(1) c(1) unfolding driverRows_def by metis
qed

lemma destination_refused:
  assumes "driverRows query" "length bytes = 16" "list_all (\<lambda>b. b < 256) bytes"
  shows "AlertDestination (credentialOf unmarshal C keyText query) check (uuidText bytes) cid \<in> range Inl"
proof (cases "credentialOf unmarshal C keyText query cid")
  case (Inr row)
  then obtain other where "objGet row ''tenant_id'' = uuidValue other" using credential_tenant [OF assms(1)] by blast
  then show ?thesis using uuid_texts_differ [OF assms(2,3), of other] Inr by (simp add: AlertDestination_def Let_def)
qed (simp add: AlertDestination_def)

definition waitingAlert :: "notificationRow \<Rightarrow> bool" where
  "waitingAlert r \<longleftrightarrow> ob_SentAt r = None \<and> (\<exists>bytes. nt_TenantID r = uuidText bytes \<and> length bytes = 16 \<and> list_all (\<lambda>b. b < 256) bytes)"

text \<open>C30: No alert is ever sent: the credential row holds the tenant as the driver decodes a UUID column, an array of
  bytes, whose text is never the tenant's id, so every try of every round ends before the destination is called.\<close>

theorem alerts_never_sent:
  assumes "driverRows query" "\<forall>r\<in>set t. waitingAlert r"
    and "runRounds (dispatchAlerts (AlertDestination (credentialOf unmarshal C keyText query) check) post) envs t = (os, t')"
  shows "(\<forall>r\<in>set t'. ob_SentAt r = None) \<and> (\<forall>o'\<in>set os. \<forall>(v, f)\<in>set (oc_Tried o'). f \<noteq> None)"
proof -
  let ?dest = "AlertDestination (credentialOf unmarshal C keyText query) check"
  have round: "(\<forall>r\<in>set (oc_Table (dispatchAlerts ?dest post env t)). waitingAlert r)
      \<and> (\<forall>(v, f)\<in>set (oc_Tried (dispatchAlerts ?dest post env t)). f \<noteq> None)" if t: "\<forall>r\<in>set t. waitingAlert r" for env t
  proof -
    let ?d = "deliverRows (sendAlert ?dest post) 30 env (pickRows 5 env t) t"
    have send: "\<forall>v\<in>set (pickRows 5 env t). sendAlert ?dest post v \<noteq> None"
    proof
      fix v
      assume "v \<in> set (pickRows 5 env t)"
      then have "waitingAlert v" using t pickRows_props(1) by blast
      then obtain bytes where b: "nt_TenantID v = uuidText bytes" "length bytes = 16" "list_all (\<lambda>b. b < 256) bytes"
        unfolding waitingAlert_def by blast
      obtain f where "?dest (nt_TenantID v) (nt_ConnectionID v) = Inl f"
        using destination_refused [OF assms(1) b(2,3)] unfolding b(1) by blast
      then show "sendAlert ?dest post v \<noteq> None" by (simp add: sendAlert_def)
    qed
    have "(\<forall>r\<in>set (oc_Table ?d). waitingAlert r) \<and> (\<forall>(v, f)\<in>set (oc_Tried ?d). f \<noteq> None)"
      by (rule deliverRows_unsent [OF send t]) (simp add: waitingAlert_def markFailed_def)
    then show ?thesis using t
      by (auto simp: dispatchAlerts_def runOutbox_def opened_def settle_def split: option.splits)
  qed
  have "(\<forall>r\<in>set t'. waitingAlert r) \<and> (\<forall>o'\<in>set os. \<forall>(v, f)\<in>set (oc_Tried o'). f \<noteq> None)"
    using assms(2,3)
  proof (induction envs arbitrary: t os)
    case (Cons env envs)
    obtain os2 where r: "runRounds (dispatchAlerts ?dest post) envs (oc_Table (dispatchAlerts ?dest post env t)) = (os2, t')"
        "os = dispatchAlerts ?dest post env t # os2"
      using Cons.prems(2) by (auto simp: Let_def split: prod.splits)
    show ?case using Cons.IH [OF conjunct1 [OF round [OF Cons.prems(1)]] r(1)] round [OF Cons.prems(1), of env] r(2) by simp
  qed simp
  then show ?thesis by (auto simp: waitingAlert_def)
qed

text \<open>An alert whose connector belongs to its tenant.\<close>

definition ownBytes :: "nat list" where
  "ownBytes = replicate 16 17"

definition ownConnector :: "string \<Rightarrow> (string, (string \<times> gv) list option) result" where
  "ownConnector cid = Ok (Some [(''tenant_id'', uuidValue ownBytes), (''provider'', VStr ''http''),
     (''extra'', VObj [(''baseUrl'', VStr ''https://hooks.example/'')])])"

definition ownAlert :: notificationRow where
  "ownAlert = \<lparr>ob_ID = ''1'', ob_Payload = ''{}'', ob_Attempts = 0, ob_NextAttempt = 0, ob_SentAt = None, ob_LastError = None,
     nt_TenantID = uuidText ownBytes, nt_AlertID = ''a'', nt_ConnectionID = ''c''\<rparr>"

theorem alerts_never_sent_witness:
  "\<exists>os t'. runRounds (dispatchAlerts (AlertDestination (credentialOf (\<lambda>_. None) padCrypto [] ownConnector)
        (\<lambda>_. Ok \<lparr>url_Scheme = ''https'', url_Hostname = ''hooks.example'', url_Port = []\<rparr>)) (\<lambda>_ _ _. None)) [calmEnv 0] [ownAlert] = (os, t')
     \<and> list_all (\<lambda>r. ob_SentAt r = None) t'"
proof -
  let ?run = "runRounds (dispatchAlerts (AlertDestination (credentialOf (\<lambda>_. None) padCrypto [] ownConnector)
      (\<lambda>_. Ok \<lparr>url_Scheme = ''https'', url_Hostname = ''hooks.example'', url_Port = []\<rparr>)) (\<lambda>_ _ _. None)) [calmEnv 0] [ownAlert]"
  obtain os t' where r: "?run = (os, t')" by (metis surj_pair)
  have "driverRows ownConnector" unfolding driverRows_def ownConnector_def by (auto simp: objGet_def objPut_def)
  moreover have "\<forall>r\<in>set [ownAlert]. waitingAlert r"
    by (auto simp: waitingAlert_def ownAlert_def ownBytes_def list_all_iff intro!: exI [of _ "replicate 16 17"])
  ultimately have "(\<forall>r\<in>set t'. ob_SentAt r = None) \<and> (\<forall>o'\<in>set os. \<forall>(v, f)\<in>set (oc_Tried o'). f \<noteq> None)"
    by (rule alerts_never_sent [OF _ _ r])
  then show ?thesis using r by (simp add: list_all_iff)
qed

end
