(* ===== verification/ApiHttp.thy ===== *)
theory ApiHttp
  imports Executions Backfills Outbox
begin

text \<open>
  The frame of the API (\<^verbatim>\<open>internal/api/http.go\<close>, \<^verbatim>\<open>auth.go\<close>): responses and their redaction, the address of a
  client, the rate limit, the identity of a request, and the access to pipelines and executions.

  Arguments: the JSON decoder, the verification of a signed token, the hash, the clock, the parsers of addresses
  and networks. A database that cannot answer is \<open>None\<close>.
\<close>

section \<open>Responses\<close>

datatype apiError = ApiError (ae_Status: int) (ae_Code: string) (ae_Message: string)

abbreviation ErrInvalidRequest :: string where "ErrInvalidRequest \<equiv> ''ERR_INVALID_REQUEST''"
abbreviation ErrMissingField :: string where "ErrMissingField \<equiv> ''ERR_MISSING_FIELD''"
abbreviation ErrNotFound :: string where "ErrNotFound \<equiv> ''ERR_NOT_FOUND''"
abbreviation ErrRateLimit :: string where "ErrRateLimit \<equiv> ''ERR_RATE_LIMIT_EXCEEDED''"
abbreviation ErrInternal :: string where "ErrInternal \<equiv> ''ERR_INTERNAL''"
abbreviation ErrForbidden :: string where "ErrForbidden \<equiv> ''ERR_FORBIDDEN''"
abbreviation ErrEmailNotVerified :: string where "ErrEmailNotVerified \<equiv> ''ERR_EMAIL_NOT_VERIFIED''"

definition badRequest :: "string \<Rightarrow> string \<Rightarrow> apiError" where
  "badRequest code message = ApiError 400 code message"

definition apiNotFound :: "string \<Rightarrow> string \<Rightarrow> apiError" where
  "apiNotFound code message = ApiError 404 code message"

definition requireString :: "obj \<Rightarrow> string \<Rightarrow> (apiError, string) result" where
  "requireString body key =
     (case asStr (objGet body key) of
        Some value \<Rightarrow> if trimSpace value = [] then Err (badRequest ErrMissingField (key @ '' required'')) else Ok value
      | None \<Rightarrow> Err (badRequest ErrMissingField (key @ '' required'')))"

text \<open>
  The secrets of the triggers. The code blanks an object before its children; the children are printed here first,
  which is the same, since a blanked secret is a text and stays one.
\<close>

definition blankTrigger :: "obj \<Rightarrow> obj" where
  "blankTrigger m =
     (case asObj (objGet m ''trigger'') of
        None \<Rightarrow> m
      | Some trigger \<Rightarrow>
          (case asStr (objGet trigger ''secret'') of
             None \<Rightarrow> m
           | Some secret \<Rightarrow>
               if secret = [] then m
               else objPut ''trigger'' (VObj (objPut ''secretSet'' (VBool True) (objPut ''secret'' (VStr []) trigger))) m))"

definition triggerSecretOf :: "obj \<Rightarrow> string list" where
  "triggerSecretOf m =
     (case asObj (objGet m ''trigger'') of
        None \<Rightarrow> []
      | Some trigger \<Rightarrow> (case asStr (objGet trigger ''secret'') of None \<Rightarrow> [] | Some secret \<Rightarrow> if secret = [] then [] else [secret]))"

primrec blankTriggerSecrets :: "gv \<Rightarrow> gv" where
  "blankTriggerSecrets VNil = VNil"
| "blankTriggerSecrets (VBool b) = VBool b"
| "blankTriggerSecrets (VInt i) = VInt i"
| "blankTriggerSecrets (VFloat f) = VFloat f"
| "blankTriggerSecrets (VStr s) = VStr s"
| "blankTriggerSecrets (VArr xs) = VArr (map blankTriggerSecrets xs)"
| "blankTriggerSecrets (VObj m) = VObj (blankTrigger (map (map_prod id blankTriggerSecrets) m))"

text \<open>The secrets of triggers anywhere in a value.\<close>

primrec triggerSecrets :: "gv \<Rightarrow> string list" where
  "triggerSecrets VNil = []"
| "triggerSecrets (VBool b) = []"
| "triggerSecrets (VInt i) = []"
| "triggerSecrets (VFloat f) = []"
| "triggerSecrets (VStr s) = []"
| "triggerSecrets (VArr xs) = concat (map triggerSecrets xs)"
| "triggerSecrets (VObj m) = triggerSecretOf m @ concat (map snd (map (map_prod id triggerSecrets) m))"

definition redactTriggerSecrets :: "(string \<Rightarrow> gv option) \<Rightarrow> string \<Rightarrow> string" where
  "redactTriggerSecrets decode body =
     (case decode body of
        None \<Rightarrow> body
      | Some value \<Rightarrow> if triggerSecrets value = [] then body else jsonMarshal (blankTriggerSecrets value) @ [CHR 0x0A])"

definition jsonResponse :: "(string \<Rightarrow> gv option) \<Rightarrow> int \<Rightarrow> gv \<Rightarrow> int \<times> string" where
  "jsonResponse decode status value =
     (if value = VNil then (status, [])
      else let out = jsonMarshal value @ [CHR 0x0A]
           in (status, if containsText (CHR 0x22 # ''secret'' @ [CHR 0x22]) out then redactTriggerSecrets decode out else out))"

definition errorBody :: "apiError \<Rightarrow> gv" where
  "errorBody e = VObj ((''error'', VStr (ae_Message e)) # (if ae_Code e \<noteq> [] then [(''code'', VStr (ae_Code e))] else []))"

text \<open>\<^verbatim>\<open>handle\<close>: an error that is not an \<^verbatim>\<open>HTTPError\<close> is \<open>None\<close>.\<close>

definition handleError :: "apiError option \<Rightarrow> apiError" where
  "handleError e = (case e of Some err \<Rightarrow> err | None \<Rightarrow> ApiError 500 ErrInternal ''internal error'')"

section \<open>Clients and the rate limit\<close>

definition defaultTrustedProxies :: string where
  "defaultTrustedProxies = ''127.0.0.0/8,::1/128,10.0.0.0/8,172.16.0.0/12,192.168.0.0/16,fc00::/7''"

definition parseTrustedProxies :: "(string \<Rightarrow> 'n option) \<Rightarrow> string \<Rightarrow> 'n list" where
  "parseTrustedProxies parseCIDR value =
     List.map_filter (\<lambda>cidr. parseCIDR (trimSpace cidr)) (splitOn (CHR '','') (if trimSpace value = [] then defaultTrustedProxies else value))"

definition clientIP ::
  "(string \<Rightarrow> string option) \<Rightarrow> (string \<Rightarrow> 'ip option) \<Rightarrow> ('n \<Rightarrow> 'ip \<Rightarrow> bool) \<Rightarrow> string \<Rightarrow> string \<Rightarrow> 'n list \<Rightarrow> string" where
  "clientIP splitHost parseIP member remoteAddr realHeader trusted =
     (let host = (case splitHost remoteAddr of Some h \<Rightarrow> h | None \<Rightarrow> remoteAddr); realIP = trimSpace realHeader in
      case parseIP host of
        None \<Rightarrow> host
      | Some peer \<Rightarrow> if list_ex (\<lambda>n. member n peer) trusted \<and> parseIP realIP \<noteq> None then realIP else host)"

definition rateKey :: "string \<Rightarrow> string \<Rightarrow> int \<Rightarrow> int \<Rightarrow> string" where
  "rateKey scope ip window now =
     ''dataflow:rate:'' @ scope @ '':'' @ ip @ '':'' @ itoa (now div timeSecond div (window div timeSecond))"

text \<open>The counters of a replica: two maps, by key.\<close>

record fallbackLimiter =
  fl_Counts :: "(string \<times> int) list"
  fl_Expiry :: "(string \<times> int) list"

definition limiterSweep :: "int \<Rightarrow> fallbackLimiter \<Rightarrow> fallbackLimiter" where
  "limiterSweep now l =
     (if length (fl_Counts l) > 10000
      then let old = map fst (filter (\<lambda>(k, e). now > e) (fl_Expiry l))
           in \<lparr>fl_Counts = filter (\<lambda>(k, c). k \<notin> set old) (fl_Counts l), fl_Expiry = filter (\<lambda>(k, e). k \<notin> set old) (fl_Expiry l)\<rparr>
      else l)"

definition limiterOpen :: "int \<Rightarrow> int \<Rightarrow> string \<Rightarrow> fallbackLimiter \<Rightarrow> fallbackLimiter" where
  "limiterOpen now window key l =
     (if (case map_of (fl_Expiry l) key of None \<Rightarrow> True | Some e \<Rightarrow> now > e)
      then \<lparr>fl_Counts = AList.update key 0 (fl_Counts l), fl_Expiry = AList.update key (now + window) (fl_Expiry l)\<rparr> else l)"

definition limiterIncr :: "int \<Rightarrow> int \<Rightarrow> string \<Rightarrow> fallbackLimiter \<Rightarrow> int \<times> fallbackLimiter" where
  "limiterIncr now window key l =
     (let l' = limiterOpen now window key (limiterSweep now l);
          c = (case map_of (fl_Counts l') key of Some n \<Rightarrow> n | None \<Rightarrow> 0) + 1
      in (c, l'\<lparr>fl_Counts := AList.update key c (fl_Counts l')\<rparr>))"

text \<open>One request: \<open>redis\<close> is the count of the key there, if Redis answers.\<close>

definition rateLimit ::
  "string \<Rightarrow> int \<Rightarrow> int \<Rightarrow> string \<Rightarrow> int \<Rightarrow> (string \<Rightarrow> int option) \<Rightarrow> fallbackLimiter \<Rightarrow> apiError option \<times> fallbackLimiter" where
  "rateLimit scope lim window ip now redis l =
     (let key = rateKey scope ip window now;
          (n, l') = (case redis key of Some c \<Rightarrow> (c, l) | None \<Rightarrow> limiterIncr now window key l)
      in (if n > lim then Some (ApiError 429 ErrRateLimit ''rate limit exceeded'') else None, l'))"

section \<open>The identity of a request\<close>

record accessClaims =
  ac_Subject :: string
  ac_TenantID :: string
  ac_Email :: string
  ac_Role :: string
  ac_EmailVerified :: bool
  ac_ExpiresAt :: int
  ac_IssuedAt :: int

definition signAccessToken :: "(accessClaims \<Rightarrow> string) \<Rightarrow> int \<Rightarrow> obj \<Rightarrow> string" where
  "signAccessToken sign now user =
     sign \<lparr>ac_Subject = apiString (objGet user ''id''), ac_TenantID = apiString (objGet user ''tenant_id''), ac_Email = apiString (objGet user ''email''),
       ac_Role = apiString (objGet user ''role''), ac_EmailVerified = truthy (objGet user ''email_verified''),
       ac_ExpiresAt = now + 15 * 60 * timeSecond, ac_IssuedAt = now\<rparr>"

record apiTokenRow =
  at_ID :: string
  at_CreatedBy :: string
  at_TenantID :: string
  at_Role :: string
  at_TokenHash :: string
  at_RevokedAt :: "int option"
  at_ExpiresAt :: "int option"

definition invalidToken :: apiError where
  "invalidToken = ApiError 401 [] ''invalid token''"

definition authenticate ::
  "(string \<Rightarrow> accessClaims option) \<Rightarrow> (string \<Rightarrow> string) \<Rightarrow> int \<Rightarrow> (apiTokenRow list) option \<Rightarrow> string \<Rightarrow> (apiError, TenantContext) result" where
  "authenticate verify sha now tokens header =
     (if \<not> hasPrefix ''Bearer '' header then Err (ApiError 401 [] ''missing bearer token'')
      else let token = trimPrefix ''Bearer '' header in
        (case verify token of
           Some c \<Rightarrow> Ok \<lparr>tc_TenantID = ac_TenantID c, tc_UserID = ac_Subject c, tc_Email = ac_Email c, tc_Role = ac_Role c,
             tc_EmailVerified = ac_EmailVerified c, tc_TokenID = []\<rparr>
         | None \<Rightarrow>
             (case tokens of
                None \<Rightarrow> Err invalidToken
              | Some rows \<Rightarrow>
                  (case find (\<lambda>t. at_TokenHash t = sha token) rows of
                     None \<Rightarrow> Err invalidToken
                   | Some t \<Rightarrow>
                       if at_RevokedAt t \<noteq> None \<or> (case at_ExpiresAt t of Some e \<Rightarrow> \<not> e > now | None \<Rightarrow> False) then Err invalidToken
                       else Ok \<lparr>tc_TenantID = at_TenantID t, tc_UserID = at_CreatedBy t, tc_Email = ''sa:'' @ at_ID t, tc_Role = at_Role t,
                         tc_EmailVerified = True, tc_TokenID = at_ID t\<rparr>))))"

definition protected ::
  "(string \<Rightarrow> accessClaims option) \<Rightarrow> (string \<Rightarrow> string) \<Rightarrow> int \<Rightarrow> (apiTokenRow list) option \<Rightarrow> string \<Rightarrow> (apiError, TenantContext) result" where
  "protected verify sha now tokens header =
     (case authenticate verify sha now tokens header of
        Inl e \<Rightarrow> Err e
      | Inr tenant \<Rightarrow> if \<not> tc_EmailVerified tenant then Err (ApiError 403 ErrForbidden ''email not verified'') else Ok tenant)"

definition ownerGuard :: "TenantContext \<Rightarrow> apiError option" where
  "ownerGuard tenant = (if tc_Role tenant \<noteq> ''owner'' then Some (ApiError 403 ErrForbidden ''owner role required'') else None)"

section \<open>Access to pipelines\<close>

definition pipelineRoleRank :: "string \<Rightarrow> int" where
  "pipelineRoleRank role = (if role = ''editor'' then 1 else if role = ''admin'' then 2 else 0)"

definition pipelineAllows :: "TenantContext \<Rightarrow> string option \<Rightarrow> string option \<Rightarrow> string \<Rightarrow> bool" where
  "pipelineAllows tenant createdBy role minimum \<longleftrightarrow>
     tc_Role tenant = ''owner'' \<or> createdBy = Some (tc_UserID tenant)
       \<or> (case role of Some r \<Rightarrow> pipelineRoleRank r \<ge> pipelineRoleRank minimum | None \<Rightarrow> False)"

definition pipelineAccessError :: "TenantContext \<Rightarrow> string option \<Rightarrow> string option \<Rightarrow> string \<Rightarrow> apiError option" where
  "pipelineAccessError tenant createdBy role minimum =
     (if pipelineAllows tenant createdBy role minimum then None
      else if role = None then Some (apiNotFound ErrNotFound ''not found'')
      else Some (ApiError 403 ErrForbidden (''pipeline access requires '' @ minimum @ '' role'')))"

definition grantOf :: "ctlDB \<Rightarrow> string \<Rightarrow> string \<Rightarrow> string option" where
  "grantOf db pid uid = map_option (\<lambda>(p, u, role). role) (find (\<lambda>(p, u, role). p = pid \<and> u = uid) (db_Access db))"

definition pipelineAccess :: "string \<Rightarrow> ctlDB option \<Rightarrow> TenantContext \<Rightarrow> string \<Rightarrow> apiError option" where
  "pipelineAccess minimum database tenant rowID =
     (if tc_Role tenant = ''owner'' then None
      else (case database of
          None \<Rightarrow> Some (apiNotFound ErrNotFound ''not found'')
        | Some db \<Rightarrow>
            (case find (\<lambda>p. pl_ID p = rowID \<and> pl_TenantID p = tc_TenantID tenant) (db_Pipelines db) of
               None \<Rightarrow> Some (apiNotFound ErrNotFound ''not found'')
             | Some p \<Rightarrow> pipelineAccessError tenant (pl_CreatedBy p) (grantOf db (pl_ID p) (tc_UserID tenant)) minimum)))"

definition executionAccess :: "string \<Rightarrow> ctlDB option \<Rightarrow> TenantContext \<Rightarrow> string \<Rightarrow> string \<Rightarrow> apiError option" where
  "executionAccess minimum database tenant idValue executionIDValue =
     (if tc_Role tenant = ''owner'' then None
      else let eid = (if idValue = [] then executionIDValue else idValue) in
        (case database of
           None \<Rightarrow> Some (apiNotFound ErrNotFound ''not found'')
         | Some db \<Rightarrow>
             (case find (isExecution (tc_TenantID tenant) eid) (db_Executions db) of
                None \<Rightarrow> Some (apiNotFound ErrNotFound ''not found'')
              | Some e \<Rightarrow>
                  (case find (\<lambda>p. pl_ID p = ex_PipelineID e) (db_Pipelines db) of
                     None \<Rightarrow> Some (apiNotFound ErrNotFound ''not found'')
                   | Some p \<Rightarrow> pipelineAccessError tenant (pl_CreatedBy p) (grantOf db (pl_ID p) (tc_UserID tenant)) minimum))))"

text \<open>The metadata of an audit row: which API token acted.\<close>

definition auditMetadata :: "TenantContext \<Rightarrow> gv \<Rightarrow> gv" where
  "auditMetadata tenant metadata =
     (if tc_TokenID tenant = [] then metadata
      else VObj (objPut ''tokenId'' (VStr (tc_TokenID tenant))
        (case metadata of VNil \<Rightarrow> [] | VObj m \<Rightarrow> fold (\<lambda>(k, v). objPut k v) m [] | v \<Rightarrow> [(''details'', v)])))"

end
