(* ===== verification/ApiLaws.thy ===== *)
theory ApiLaws
  imports ApiHttp HttpLaws
begin

text \<open>
  What the frame of the API guarantees: no response shows the secret of a trigger, the limit of requests holds for
  every replica, a request acts only under an identity it has proved, and a pipeline is reached only through a role.
\<close>

section \<open>Redaction\<close>

lemma triggerSecrets_VObj:
  "triggerSecrets (VObj m) = [] \<longleftrightarrow> triggerSecretOf m = [] \<and> (\<forall>kv\<in>set m. triggerSecrets (snd kv) = [])"
  by (auto simp: comp_def)

lemma blankTrigger_clean:
  assumes "\<forall>kv\<in>set m. triggerSecrets (snd kv) = []"
  shows "triggerSecrets (VObj (blankTrigger m)) = []"
proof (cases "triggerSecretOf m = []")
  case True
  then have "blankTrigger m = m" by (auto simp: triggerSecretOf_def blankTrigger_def split: option.splits if_splits)
  then show ?thesis using True assms triggerSecrets_VObj by metis
next
  case False
  then obtain t s where t: "objGet m ''trigger'' = VObj t" "objGet t ''secret'' = VStr s" "s \<noteq> []"
    by (auto simp: triggerSecretOf_def split: option.splits if_splits)
  let ?t = "objPut ''secretSet'' (VBool True) (objPut ''secret'' (VStr []) t)"
  have b: "blankTrigger m = objPut ''trigger'' (VObj ?t) m" using t by (simp add: blankTrigger_def)
  have "(''trigger'', VObj t) \<in> set m" using t(1) by (auto simp: objGet_def dest: map_of_SomeD split: option.splits)
  then have "triggerSecrets (VObj t) = []" using assms by force
  then have ot: "triggerSecretOf t = []" and ch: "\<forall>kv\<in>set t. triggerSecrets (snd kv) = []" unfolding triggerSecrets_VObj by blast+
  have "triggerSecretOf ?t = []" using ot by (simp add: triggerSecretOf_def)
  moreover have "\<forall>kv\<in>set ?t. triggerSecrets (snd kv) = []"
    using set_objPut_subset [of "''secretSet''" "VBool True" "objPut ''secret'' (VStr []) t"] set_objPut_subset [of "''secret''" "VStr []" t] ch by fastforce
  ultimately have "triggerSecrets (VObj ?t) = []" unfolding triggerSecrets_VObj by blast
  then have "\<forall>kv\<in>set (blankTrigger m). triggerSecrets (snd kv) = []"
    using set_objPut_subset [of "''trigger''" "VObj ?t" m] assms unfolding b by force
  moreover have "triggerSecretOf (blankTrigger m) = []" by (simp add: b triggerSecretOf_def)
  ultimately show ?thesis unfolding triggerSecrets_VObj by blast
qed

lemma blank_clean: "triggerSecrets (blankTriggerSecrets v) = []"
proof (induction v)
  case (VObj m)
  have "\<forall>kv\<in>set (map (map_prod id blankTriggerSecrets) m). triggerSecrets (snd kv) = []"
  proof
    fix kv
    assume "kv \<in> set (map (map_prod id blankTriggerSecrets) m)"
    then obtain k x where x: "(k, x) \<in> set m" "kv = (k, blankTriggerSecrets x)" by auto
    then show "triggerSecrets (snd kv) = []" using VObj.IH [OF x(1), of x] by simp
  qed
  from blankTrigger_clean [OF this] show ?case by (simp only: blankTriggerSecrets.simps)
qed auto

lemma containsText_iff: "containsText p s \<longleftrightarrow> (\<exists>a b. s = a @ p @ b)"
proof (induction s)
  case (Cons c s)
  have "hasPrefix p (c # s) \<longleftrightarrow> (\<exists>b. c # s = p @ b)" by (metis append_eq_conv_conj append_take_drop_id hasPrefix_def)
  then show ?case using Cons by (auto simp: Cons_eq_append_conv)
qed simp

lemma join_in: "x \<in> set xs \<Longrightarrow> \<exists>a b. join sep xs = a @ x @ b"
proof (induction sep xs rule: join.induct)
  case (3 sep x' y xs)
  then show ?case
  proof (cases "x = x'")
    case False
    then obtain a b where "join sep (y # xs) = a @ x @ b" using 3 by auto
    then have "join sep (x' # y # xs) = (x' @ sep @ a) @ x @ b" by simp
    then show ?thesis by blast
  qed (metis append_Nil join.simps(3))
qed (auto intro: exI [of _ "[]"])

lemma containsText_trans: "containsText p x \<Longrightarrow> containsText p (a @ x @ b)"
  unfolding containsText_iff by (metis append.assoc)

lemma containsText_join: "x \<in> set xs \<Longrightarrow> containsText p x \<Longrightarrow> containsText p (join sep xs)"
  using join_in containsText_trans by metis

lemma jsonMarshal_member:
  assumes "(k, x) \<in> set m" "containsText p (jsonString k @ '':'' @ jsonMarshal x)"
  shows "containsText p (jsonMarshal (VObj m))"
proof -
  have "jsonString k @ '':'' @ jsonMarshal x \<in> set (map (\<lambda>(k, t). jsonString k @ '':'' @ t) (sort_key fst (map (map_prod id jsonMarshal) m)))"
    using assms(1) by force
  from containsText_join [OF this assms(2), of "'',''"] show ?thesis
    using containsText_trans [of p _ "''{''" "''}''"] by simp
qed

abbreviation secretKey :: string where "secretKey \<equiv> CHR 0x22 # ''secret'' @ [CHR 0x22]"

lemma secret_shows: "triggerSecrets v \<noteq> [] \<Longrightarrow> containsText secretKey (jsonMarshal v)"
proof (induction v)
  case (VArr xs)
  then obtain x where "x \<in> set xs" "triggerSecrets x \<noteq> []" by auto
  then have "containsText secretKey (join '','' (map jsonMarshal xs))" using VArr.IH containsText_join by force
  then show ?case using containsText_trans [of secretKey _ "''[''" "'']''"] by simp
next
  case (VObj m)
  show ?case
  proof (cases "triggerSecretOf m = []")
    case True
    then obtain kv where kv: "kv \<in> set m" "triggerSecrets (snd kv) \<noteq> []" using VObj.prems triggerSecrets_VObj by blast
    then have "containsText secretKey (jsonMarshal (snd kv))" using VObj.IH [OF kv(1)] by (auto simp: snds.simps)
    then have "containsText secretKey (jsonString (fst kv) @ '':'' @ jsonMarshal (snd kv))"
      using containsText_trans [of secretKey "jsonMarshal (snd kv)" "jsonString (fst kv) @ '':''" "[]"] by simp
    then show ?thesis using jsonMarshal_member kv(1) by (metis prod.collapse)
  next
    case False
    then obtain t s where t: "objGet m ''trigger'' = VObj t" "objGet t ''secret'' = VStr s" "s \<noteq> []"
      by (auto simp: triggerSecretOf_def split: option.splits if_splits)
    have e: "(''trigger'', VObj t) \<in> set m" "(''secret'', VStr s) \<in> set t"
      using t by (auto simp: objGet_def dest: map_of_SomeD split: option.splits)
    have j: "jsonString ''secret'' = secretKey" by code_simp
    have "containsText secretKey (jsonString ''secret'' @ '':'' @ jsonMarshal (VStr s))"
      unfolding j using containsText_iff by (metis append_Nil)
    from jsonMarshal_member [OF e(2) this]
    have "containsText secretKey (jsonString ''trigger'' @ '':'' @ jsonMarshal (VObj t))"
      using containsText_trans [of secretKey "jsonMarshal (VObj t)" "jsonString ''trigger'' @ '':''" "[]"] by simp
    from jsonMarshal_member [OF e(1) this] show ?thesis .
  qed
qed auto

text \<open>C31: No JSON response shows the secret of a webhook trigger: the body that is sent is that of a value in which no
  trigger, at any depth, has a secret, whatever the handler returns.\<close>

theorem responses_hide_trigger_secrets:
  assumes "decode (jsonMarshal v @ [CHR 0x0A]) = Some v" "v \<noteq> VNil"
  shows "\<exists>w. jsonResponse decode status v = (status, jsonMarshal w @ [CHR 0x0A]) \<and> triggerSecrets w = []
    \<and> (triggerSecrets v = [] \<longrightarrow> w = v)"
proof (cases "triggerSecrets v = []")
  case True
  then show ?thesis using assms by (auto simp: jsonResponse_def redactTriggerSecrets_def Let_def)
next
  case False
  then have "containsText secretKey (jsonMarshal v @ [CHR 0x0A])"
    using secret_shows containsText_trans [of secretKey "jsonMarshal v" "[]"] by simp
  then show ?thesis using assms False blank_clean
    by (intro exI [of _ "blankTriggerSecrets v"]) (simp add: jsonResponse_def redactTriggerSecrets_def Let_def)
qed

theorem responses_hide_trigger_secrets_witness:
  "\<exists>w. jsonResponse (\<lambda>_. Some (VObj [(''trigger'', VObj [(''secret'', VStr ''s'')])])) 200 (VObj [(''trigger'', VObj [(''secret'', VStr ''s'')])])
      = (200, jsonMarshal w @ [CHR 0x0A]) \<and> triggerSecrets w = []"
  using responses_hide_trigger_secrets [of "\<lambda>_. Some (VObj [(''trigger'', VObj [(''secret'', VStr ''s'')])])"
      "VObj [(''trigger'', VObj [(''secret'', VStr ''s'')])]" 200] by blast

section \<open>The rate limit\<close>

lemma digitsVal_itoa: "0 \<le> i \<Longrightarrow> digitsVal (itoa i) = i"
  by (simp add: itoa_def)

lemma itoa_inj: "0 \<le> i \<Longrightarrow> 0 \<le> j \<Longrightarrow> itoa i = itoa j \<Longrightarrow> i = j"
  by (metis digitsVal_itoa)

lemma itoa_digits: "0 \<le> i \<Longrightarrow> CHR '':'' \<notin> set (itoa i)"
proof
  assume "0 \<le> i" "CHR '':'' \<in> set (itoa i)"
  then have "isDigit (CHR '':'')" using showPos_digits [of i] by (simp add: itoa_def)
  moreover have "\<not> isDigit (CHR '':'')" by code_simp
  ultimately show False by contradiction
qed

text \<open>The last part of a key is the window, whatever the address looks like.\<close>

lemma rateKey_bucket:
  assumes "rateKey s ip w now = rateKey s' ip' w now'" "0 \<le> now" "0 \<le> now'" "timeSecond \<le> w"
  shows "now div timeSecond div (w div timeSecond) = now' div timeSecond div (w div timeSecond)"
proof -
  let ?b = "\<lambda>t. now div timeSecond div (w div timeSecond)"
  have pos: "0 \<le> now div timeSecond div (w div timeSecond)" "0 \<le> now' div timeSecond div (w div timeSecond)"
    using assms(2-4) by (simp_all add: pos_imp_zdiv_nonneg_iff div_int_pos_iff)
  have tail: "takeWhile (\<lambda>c. c \<noteq> CHR '':'') (rev (a @ CHR '':'' # d)) = rev d" if "CHR '':'' \<notin> set d" for a d :: string
    using that by (subst rev_append) (simp add: takeWhile_append2 takeWhile_append)
  have split: "rateKey x i w t = (''dataflow:rate:'' @ x @ '':'' @ i) @ CHR '':'' # itoa (t div timeSecond div (w div timeSecond))" for x i t
    by (simp add: rateKey_def)
  have "rev (itoa (now div timeSecond div (w div timeSecond))) = rev (itoa (now' div timeSecond div (w div timeSecond)))"
    using tail [OF itoa_digits [OF pos(1)]] tail [OF itoa_digits [OF pos(2)]] assms(1) unfolding split by metis
  then show ?thesis using itoa_inj pos by simp
qed

lemma rateKey_window:
  assumes "rateKey s ip w now = rateKey s' ip' w now'" "0 \<le> now" "0 \<le> now'" "timeSecond \<le> w"
  shows "now' \<le> now + w"
proof -
  define q where "q = w div timeSecond"
  have bounds: "x div k * k \<le> x \<and> x < x div k * k + k" if "0 < k" for x k :: int
    using div_mult_mod_eq [of x k] pos_mod_sign [OF that, of x] pos_mod_bound [OF that, of x] by linarith
  have q: "0 < q" "q * timeSecond \<le> w" using assms(4) bounds [of timeSecond w] by (simp_all add: q_def pos_imp_zdiv_pos_iff)
  define b where "b = now div timeSecond div q"
  have b': "now' div timeSecond div q = b" using rateKey_bucket [OF assms] by (simp add: b_def q_def)
  have "b * q \<le> now div timeSecond" using bounds [OF q(1), of "now div timeSecond"] by (simp add: b_def)
  then have lo: "b * q * timeSecond \<le> now" using bounds [of timeSecond now] by linarith
  have "now' div timeSecond + 1 \<le> b * q + q" using bounds [OF q(1), of "now' div timeSecond"] b' by simp
  then have "now' < b * q * timeSecond + q * timeSecond" using bounds [of timeSecond now'] by linarith
  then show ?thesis using lo q(2) by linarith
qed

text \<open>Requests while Redis does not answer: the keys, and which were admitted.\<close>

fun rateRun :: "string \<Rightarrow> int \<Rightarrow> int \<Rightarrow> (string \<times> int) list \<Rightarrow> fallbackLimiter \<Rightarrow> (string \<times> bool) list" where
  "rateRun scope lim window [] l = []"
| "rateRun scope lim window ((ip, now) # reqs) l =
     (case rateLimit scope lim window ip now (\<lambda>_. None) l of
        (e, l') \<Rightarrow> (rateKey scope ip window now, e = None) # rateRun scope lim window reqs l')"

definition admittedFor :: "string \<Rightarrow> (string \<times> bool) list \<Rightarrow> nat" where
  "admittedFor key rs = length (filter (\<lambda>(k, ok). k = key \<and> ok) rs)"

text \<open>What the counters say of a key after \<open>n\<close> of its requests, the first at time \<open>a\<close>.\<close>

definition counted :: "fallbackLimiter \<Rightarrow> string \<Rightarrow> int \<Rightarrow> int \<Rightarrow> int \<Rightarrow> bool" where
  "counted l key n a w \<longleftrightarrow>
     (if n = 0 then map_of (fl_Expiry l) key = None
      else map_of (fl_Expiry l) key = Some (a + w) \<and> map_of (fl_Counts l) key = Some n)"

lemma map_of_filter_key: "map_of (filter (\<lambda>(k, v). k \<notin> S) xs) key = (if key \<in> S then None else map_of xs key)"
  by (induction xs) auto

lemma sweep_counted:
  "counted l key n a w \<Longrightarrow> now \<le> a + w \<or> n = 0 \<Longrightarrow> distinct (map fst (fl_Expiry l)) \<Longrightarrow> counted (limiterSweep now l) key n a w"
proof -
  assume c: "counted l key n a w" "now \<le> a + w \<or> n = 0" and d: "distinct (map fst (fl_Expiry l))"
  show ?thesis
  proof (cases "n = 0")
    case True
    then show ?thesis using c by (auto simp: counted_def limiterSweep_def Let_def map_of_filter_key)
  next
    case False
    then have e: "map_of (fl_Expiry l) key = Some (a + w)" "now \<le> a + w" using c by (auto simp: counted_def)
    have "key \<notin> fst ` set (filter (\<lambda>(k, e). now > e) (fl_Expiry l))"
    proof
      assume "key \<in> fst ` set (filter (\<lambda>(k, e). now > e) (fl_Expiry l))"
      then obtain x where "(key, x) \<in> set (fl_Expiry l)" "now > x" by auto
      then show False using e d by simp
    qed
    then show ?thesis using c False by (simp add: counted_def limiterSweep_def Let_def map_of_filter_key)
  qed
qed

lemma sweep_distinct: "distinct (map fst (fl_Expiry l)) \<Longrightarrow> distinct (map fst (fl_Expiry (limiterSweep now l)))"
  by (simp add: limiterSweep_def Let_def distinct_map_filter)

lemma open_distinct: "distinct (map fst (fl_Expiry l)) \<Longrightarrow> distinct (map fst (fl_Expiry (limiterOpen now w key l)))"
  by (simp add: limiterOpen_def distinct_update)

text \<open>A request for another key leaves the counters of a key, unless they are past.\<close>

lemma incr_other:
  assumes "counted l key n a w" "now \<le> a + w \<or> n = 0" "distinct (map fst (fl_Expiry l))" "key' \<noteq> key" "limiterIncr now w key' l = (c, l')"
  shows "counted l' key n a w \<and> distinct (map fst (fl_Expiry l'))"
proof -
  have s: "counted (limiterSweep now l) key n a w" by (rule sweep_counted [OF assms(1-3)])
  then have "counted (limiterOpen now w key' (limiterSweep now l)) key n a w"
    using assms(4) by (auto simp: counted_def limiterOpen_def update_conv')
  then show ?thesis using assms(4,5) open_distinct [OF sweep_distinct [OF assms(3)]]
    by (auto simp: limiterIncr_def Let_def counted_def update_conv')
qed

lemma incr_same:
  assumes "counted l key n a w" "now \<le> a + w \<or> n = 0" "distinct (map fst (fl_Expiry l))" "0 \<le> n" "limiterIncr now w key l = (c, l')"
  shows "c = n + 1 \<and> counted l' key (n + 1) (if n = 0 then now else a) w \<and> distinct (map fst (fl_Expiry l'))"
proof -
  have s: "counted (limiterSweep now l) key n a w" by (rule sweep_counted [OF assms(1-3)])
  have "counted (limiterOpen now w key (limiterSweep now l)) key n a w
      \<or> n = 0 \<and> map_of (fl_Expiry (limiterOpen now w key (limiterSweep now l))) key = Some (now + w)
          \<and> map_of (fl_Counts (limiterOpen now w key (limiterSweep now l))) key = Some 0"
    using s assms(2) by (auto simp: counted_def limiterOpen_def update_conv' split: if_splits)
  then show ?thesis using assms(2,4,5) s open_distinct [OF sweep_distinct [OF assms(3)], of now w key now]
    by (auto simp: limiterIncr_def Let_def counted_def update_conv' limiterOpen_def split: if_splits)
qed

lemma rateRun_none:
  "(\<And>ip now. (ip, now) \<in> set reqs \<Longrightarrow> rateKey scope ip w now \<noteq> key) \<Longrightarrow> admittedFor key (rateRun scope lim w reqs l) = 0"
proof (induction reqs arbitrary: l)
  case (Cons r reqs)
  obtain ip now where r: "r = (ip, now)" by (cases r)
  then have "rateKey scope ip w now \<noteq> key" using Cons.prems [of ip now] by simp
  then show ?case using Cons r by (simp add: admittedFor_def split: prod.splits)
qed (simp add: admittedFor_def)

lemma rateRun_bound:
  assumes "counted l key n a w" "distinct (map fst (fl_Expiry l))" "0 \<le> n"
    and "sorted (map snd reqs)" "\<forall>(ip, now)\<in>set reqs. 0 \<le> now" "timeSecond \<le> w"
    and "n > 0 \<longrightarrow> (\<forall>(ip, now)\<in>set reqs. rateKey scope ip w now = key \<longrightarrow> now \<le> a + w)"
  shows "int (admittedFor key (rateRun scope lim w reqs l)) \<le> max 0 (lim - n)"
  using assms
proof (induction reqs arbitrary: l n a)
  case (Cons r reqs)
  obtain ip now where r: "r = (ip, now)" by (cases r)
  obtain c l' where i: "limiterIncr now w (rateKey scope ip w now) l = (c, l')" by (metis surj_pair)
  have run: "rateRun scope lim w (r # reqs) l = (rateKey scope ip w now, c \<le> lim) # rateRun scope lim w reqs l'"
    using i r by (auto simp: rateLimit_def Let_def)
  have times: "now \<le> t" if "(ip', t) \<in> set reqs" for ip' t using Cons.prems(4) r that by force
  show ?case
  proof (cases "n > 0 \<and> a + w < now")
    case True
    then have "rateKey scope ip' w t \<noteq> key" if "(ip', t) \<in> set (r # reqs)" for ip' t
      using Cons.prems(7) times that r by force
    then show ?thesis using rateRun_none [of "r # reqs"] by simp
  next
    case False
    then have live: "now \<le> a + w \<or> n = 0" using Cons.prems(3) by linarith
    show ?thesis
    proof (cases "rateKey scope ip w now = key")
      case True
      note s = incr_same [OF Cons.prems(1) live Cons.prems(2,3) i [unfolded True]]
      let ?a = "if n = 0 then now else a"
      have "t \<le> ?a + w" if t: "(ip', t) \<in> set reqs" "rateKey scope ip' w t = key" for ip' t
      proof (cases "n = 0")
        case zero: True
        have "rateKey scope ip w now = rateKey scope ip' w t" using True t(2) by simp
        from rateKey_window [OF this] show ?thesis using Cons.prems(5,6) r t(1) zero by force
      next
        case False
        then show ?thesis using Cons.prems(3,7) t by force
      qed
      then have w: "\<forall>(ip', t)\<in>set reqs. rateKey scope ip' w t = key \<longrightarrow> t \<le> ?a + w" by blast
      have "int (admittedFor key (rateRun scope lim w reqs l')) \<le> max 0 (lim - (n + 1))"
        using Cons.IH [of l' "n + 1" ?a] s w Cons.prems r by simp
      moreover have "admittedFor key (rateRun scope lim w (r # reqs) l) = (if n + 1 \<le> lim then 1 else 0) + admittedFor key (rateRun scope lim w reqs l')"
        using run s True by (simp add: admittedFor_def)
      ultimately show ?thesis unfolding max_def by (auto split: if_splits)
    next
      case False
      note s = incr_other [OF Cons.prems(1) live Cons.prems(2) False i]
      have "int (admittedFor key (rateRun scope lim w reqs l')) \<le> max 0 (lim - n)"
        using Cons.IH [of l' n a] s Cons.prems r by simp
      then show ?thesis using run False by (simp add: admittedFor_def)
    qed
  qed
qed (simp add: admittedFor_def)

text \<open>C32: Without Redis each replica still enforces the limit: of the requests of one client in one window at most the
  limit is admitted, however they interleave with those of other clients and whatever the sweep of old counters
  removes.\<close>

theorem fallback_limit_holds:
  assumes "sorted (map snd reqs)" "\<forall>(ip, now)\<in>set reqs. 0 \<le> now" "timeSecond \<le> w" "0 \<le> lim"
  shows "int (admittedFor key (rateRun scope lim w reqs \<lparr>fl_Counts = [], fl_Expiry = []\<rparr>)) \<le> lim"
  using rateRun_bound [of "\<lparr>fl_Counts = [], fl_Expiry = []\<rparr>" key 0 0 w reqs scope lim] assms by (simp add: counted_def)

text \<open>Three requests of one client within a window, where two are allowed, and one of another.\<close>

definition demoRequests :: "(string \<times> int) list" where
  "demoRequests = [(''1.2.3.4'', 0), (''1.2.3.4'', timeSecond), (''5.6.7.8'', timeSecond), (''1.2.3.4'', 2 * timeSecond)]"

theorem fallback_limit_holds_witness:
  "int (admittedFor (rateKey ''login'' ''1.2.3.4'' (60 * timeSecond) 0)
     (rateRun ''login'' 2 (60 * timeSecond) demoRequests \<lparr>fl_Counts = [], fl_Expiry = []\<rparr>)) \<le> 2"
  by (rule fallback_limit_holds) (simp_all add: demoRequests_def)

section \<open>Identity\<close>

text \<open>A protected route runs only under a proved identity: a signed token whose claims say that the email is
  verified, or an API token in the table that is neither revoked nor expired; the tenant, the user and the role are
  those of the claims or of the row.\<close>

theorem protected_identity:
  assumes "protected verify sha now tokens header = Ok tenant"
  shows "\<exists>token. header = ''Bearer '' @ token \<and>
    ((\<exists>c. verify token = Some c \<and> ac_EmailVerified c \<and> tc_TenantID tenant = ac_TenantID c \<and> tc_UserID tenant = ac_Subject c
        \<and> tc_Role tenant = ac_Role c \<and> tc_TokenID tenant = [])
     \<or> (\<exists>rows t. tokens = Some rows \<and> t \<in> set rows \<and> at_TokenHash t = sha token \<and> at_RevokedAt t = None
          \<and> (case at_ExpiresAt t of Some e \<Rightarrow> now < e | None \<Rightarrow> True)
          \<and> tc_TenantID tenant = at_TenantID t \<and> tc_UserID tenant = at_CreatedBy t \<and> tc_Role tenant = at_Role t \<and> tc_TokenID tenant = at_ID t))"
proof -
  have a: "authenticate verify sha now tokens header = Ok tenant" "tc_EmailVerified tenant"
    using assms by (auto simp: protected_def split: sum.splits if_splits)
  then have h: "hasPrefix ''Bearer '' header" by (auto simp: authenticate_def split: if_splits)
  define token where "token = trimPrefix ''Bearer '' header"
  have e: "header = ''Bearer '' @ token" using h by (metis append_eq_conv_conj hasPrefix_def token_def trimPrefix_def append_take_drop_id)
  show ?thesis
  proof (cases "verify token")
    case (Some c)
    then have "tenant = \<lparr>tc_TenantID = ac_TenantID c, tc_UserID = ac_Subject c, tc_Email = ac_Email c, tc_Role = ac_Role c,
        tc_EmailVerified = ac_EmailVerified c, tc_TokenID = []\<rparr>"
      using a(1) h by (simp add: authenticate_def token_def Let_def)
    then show ?thesis using e Some a(2) by auto
  next
    case None
    then obtain rows t where t: "tokens = Some rows" "find (\<lambda>t. at_TokenHash t = sha token) rows = Some t" "at_RevokedAt t = None"
        "case at_ExpiresAt t of Some e \<Rightarrow> e > now | None \<Rightarrow> True"
        "tenant = \<lparr>tc_TenantID = at_TenantID t, tc_UserID = at_CreatedBy t, tc_Email = ''sa:'' @ at_ID t, tc_Role = at_Role t,
           tc_EmailVerified = True, tc_TokenID = at_ID t\<rparr>"
      using a(1) h by (auto simp: authenticate_def token_def [symmetric] Let_def split: option.splits if_splits)
    then have "t \<in> set rows" "at_TokenHash t = sha token" by (auto simp: find_Some_iff)
    then show ?thesis using e t by (intro exI [of _ token]) (auto split: option.splits)
  qed
qed

theorem protected_identity_witness:
  "\<exists>token. ''Bearer t1'' = ''Bearer '' @ token \<and> protected (\<lambda>_. None) (\<lambda>s. s) 5
      (Some [\<lparr>at_ID = ''i'', at_CreatedBy = ''u'', at_TenantID = ''a'', at_Role = ''member'', at_TokenHash = ''t1'', at_RevokedAt = None, at_ExpiresAt = Some 9\<rparr>])
      ''Bearer t1'' = Ok \<lparr>tc_TenantID = ''a'', tc_UserID = ''u'', tc_Email = ''sa:i'', tc_Role = ''member'', tc_EmailVerified = True, tc_TokenID = ''i''\<rparr>"
proof -
  let ?rows = "[\<lparr>at_ID = ''i'', at_CreatedBy = ''u'', at_TenantID = ''a'', at_Role = ''member'', at_TokenHash = ''t1'', at_RevokedAt = None, at_ExpiresAt = Some 9\<rparr>]"
  have p: "protected (\<lambda>_. None) (\<lambda>s. s) 5 (Some ?rows) ''Bearer t1''
      = Ok \<lparr>tc_TenantID = ''a'', tc_UserID = ''u'', tc_Email = ''sa:i'', tc_Role = ''member'', tc_EmailVerified = True, tc_TokenID = ''i''\<rparr>"
    by (simp add: protected_def authenticate_def hasPrefix_def trimPrefix_def Let_def)
  then show ?thesis using protected_identity [OF p] by auto
qed

section \<open>Access\<close>

definition holdsRole :: "ctlDB \<Rightarrow> TenantContext \<Rightarrow> pipelineRow \<Rightarrow> string \<Rightarrow> bool" where
  "holdsRole db tenant p minimum \<longleftrightarrow>
     pl_CreatedBy p = Some (tc_UserID tenant)
       \<or> (\<exists>role. grantOf db (pl_ID p) (tc_UserID tenant) = Some role \<and> pipelineRoleRank role \<ge> pipelineRoleRank minimum)"

text \<open>A member who is not the owner of the workspace passes the guard of a pipeline route exactly when the pipeline
  is one of the own tenant and the member created it or was granted at least the role of the route; without a
  grant the answer is the same as for a pipeline that does not exist.\<close>

theorem pipeline_guard_exact:
  assumes "tc_Role tenant \<noteq> ''owner''"
  shows "(pipelineAccess minimum (Some db) tenant rowID = None \<longleftrightarrow>
      (\<exists>p. find (\<lambda>p. pl_ID p = rowID \<and> pl_TenantID p = tc_TenantID tenant) (db_Pipelines db) = Some p \<and> holdsRole db tenant p minimum))
    \<and> (grantOf db rowID (tc_UserID tenant) = None \<and> pipelineAccess minimum (Some db) tenant rowID \<noteq> None
        \<longrightarrow> pipelineAccess minimum (Some db) tenant rowID = pipelineAccess minimum (Some (db\<lparr>db_Pipelines := []\<rparr>)) tenant rowID)"
proof (cases "find (\<lambda>p. pl_ID p = rowID \<and> pl_TenantID p = tc_TenantID tenant) (db_Pipelines db)")
  case None
  then show ?thesis using assms by (simp add: pipelineAccess_def)
next
  case (Some p)
  then have "pl_ID p = rowID" by (auto simp: find_Some_iff)
  then show ?thesis using assms Some
    by (auto simp: pipelineAccess_def pipelineAccessError_def pipelineAllows_def holdsRole_def split: option.splits)
qed

definition sharedDB :: ctlDB where
  "sharedDB = \<lparr>db_Executions = [], db_Pipelines = [\<lparr>pl_ID = ''p'', pl_TenantID = ''a'', pl_CreatedBy = Some ''u1''\<rparr>],
     db_Access = [(''p'', ''u2'', ''viewer'')], db_Partitions = [], db_Jobs = [], db_NodeRuns = [], db_Alerts = [], db_Audit = []\<rparr>"

definition memberOf :: "string \<Rightarrow> TenantContext" where
  "memberOf uid = \<lparr>tc_TenantID = ''a'', tc_UserID = uid, tc_Email = [], tc_Role = ''member'', tc_EmailVerified = True, tc_TokenID = []\<rparr>"

theorem pipeline_guard_exact_witness:
  "pipelineAccess ''viewer'' (Some sharedDB) (memberOf ''u2'') ''p'' = None
   \<and> pipelineAccess ''editor'' (Some sharedDB) (memberOf ''u2'') ''p'' \<noteq> None
   \<and> pipelineAccess ''viewer'' (Some sharedDB) (memberOf ''u3'') ''p'' = pipelineAccess ''viewer'' (Some (sharedDB\<lparr>db_Pipelines := []\<rparr>)) (memberOf ''u3'') ''p''"
proof -
  have f: "find (\<lambda>p. pl_ID p = ''p'' \<and> pl_TenantID p = tc_TenantID (memberOf u)) (db_Pipelines sharedDB) = Some \<lparr>pl_ID = ''p'', pl_TenantID = ''a'', pl_CreatedBy = Some ''u1''\<rparr>"
      "tc_Role (memberOf u) \<noteq> ''owner''" for u
    by (simp_all add: sharedDB_def memberOf_def)
  show ?thesis
    using pipeline_guard_exact [OF f(2), of "''viewer''" sharedDB "''u2''" "''p''"] pipeline_guard_exact [OF f(2), of "''editor''" sharedDB "''u2''" "''p''"]
      pipeline_guard_exact [OF f(2), of "''viewer''" sharedDB "''u3''" "''p''"]
    by (simp add: f(1)) (simp add: holdsRole_def grantOf_def sharedDB_def memberOf_def pipelineRoleRank_def)
qed

text \<open>The two checks of a control request agree: the check that the control handler makes on the row it reads is
  the guard of execution routes for editors, so neither admits what the other refuses.\<close>

theorem control_guard_agrees:
  assumes "find (isExecution (tc_TenantID tenant) eid) (db_Executions db) = Some e" "eid \<noteq> []"
    and "\<forall>p\<in>set (db_Pipelines db). pl_ID p = ex_PipelineID e \<longrightarrow> pl_TenantID p = ex_TenantID e"
    and "find (\<lambda>p. pl_ID p = ex_PipelineID e) (db_Pipelines db) \<noteq> None"
  shows "controlAccess db tenant e
    = map_option (\<lambda>err. HTTPError (ae_Status err) (ae_Message err)) (executionAccess ''editor'' (Some db) tenant eid x)"
proof -
  have f: "find (\<lambda>p. pl_ID p = ex_PipelineID e \<and> pl_TenantID p = ex_TenantID e) (db_Pipelines db) = find (\<lambda>p. pl_ID p = ex_PipelineID e) (db_Pipelines db)"
    using assms(3) by (intro find_cong) auto
  obtain p where p: "find (\<lambda>p. pl_ID p = ex_PipelineID e) (db_Pipelines db) = Some p" using assms(4) by blast
  have r: "pipelineRoleRank role \<ge> pipelineRoleRank ''editor'' \<longleftrightarrow> role = ''editor'' \<or> role = ''admin''" for role
    by (simp add: pipelineRoleRank_def)
  show ?thesis
  proof (cases "tc_Role tenant = ''owner''")
    case True
    then show ?thesis using f p by (simp add: controlAccess_def executionAccess_def)
  next
    case False
    show ?thesis using False f p assms(1,2) r
      by (cases "find (\<lambda>(pid, uid, _). pid = pl_ID p \<and> uid = tc_UserID tenant) (db_Access db)")
        (auto simp: controlAccess_def executionAccess_def pipelineAccessError_def pipelineAllows_def grantOf_def apiNotFound_def Let_def split: prod.splits)
  qed
qed

end
