(* ===== verification/Sessions.thy ===== *)
theory Sessions
  imports ApiHttp Base64
begin

text \<open>
  Accounts and sessions (\<^verbatim>\<open>internal/api/routes_auth.go\<close>, \<^verbatim>\<open>routes_password_reset.go\<close>, \<^verbatim>\<open>oidc_jwks.go\<close>): registration,
  confirmation of the email, login, rotation of refresh tokens, reset of passwords, and login by a provider.

  A handler maps the tables to its reply and the tables after it. Hashes, the mail server, signatures, fresh
  tokens and identifiers and the time are arguments; the statements of a handler are taken not to fail.
\<close>

section \<open>Tables\<close>

record userRow =
  us_ID :: string
  us_TenantID :: string
  us_Email :: string
  us_PasswordHash :: "string option"
  us_Subjects :: "(string \<times> string) list"
  us_Role :: string
  us_EmailVerified :: bool

record refreshRow =
  rt_UserID :: string
  rt_TokenHash :: string
  rt_RevokedAt :: "int option"
  rt_ExpiresAt :: int

record verificationRow =
  ve_TokenHash :: string
  ve_UserID :: string
  ve_ExpiresAt :: int

record resetRow =
  rs_TokenHash :: string
  rs_UserID :: string
  rs_ExpiresAt :: int
  rs_CreatedAt :: int

record invitationRow =
  iv_TokenHash :: string
  iv_TenantID :: string
  iv_Email :: string
  iv_Role :: string
  iv_ExpiresAt :: int
  iv_AcceptedAt :: "int option"

record authDB =
  ad_Tenants :: "(string \<times> string) list"
  ad_Users :: "userRow list"
  ad_Refresh :: "refreshRow list"
  ad_Verifications :: "verificationRow list"
  ad_Resets :: "resetRow list"
  ad_Invitations :: "invitationRow list"

record authLib =
  au_Sha :: "string \<Rightarrow> string"
  au_HashPassword :: "string \<Rightarrow> string option"
  au_CheckPassword :: "string \<Rightarrow> string \<Rightarrow> bool"
  au_PasswordEnabled :: bool
  au_MailConfigured :: bool
  au_MailOK :: bool
  au_ParseUUID :: "string \<Rightarrow> bool"
  au_Sign :: "accessClaims \<Rightarrow> string"

text \<open>What a reply carries: its status, the refresh cookie it sets, an access token, a redirect; and the links it mails.\<close>

record authReply =
  rp_Status :: int
  rp_Refresh :: "string option"
  rp_Access :: "string option"
  rp_Redirect :: string
  rp_Mails :: "(string \<times> string) list"

definition plainReply :: "int \<Rightarrow> authReply" where
  "plainReply status = \<lparr>rp_Status = status, rp_Refresh = None, rp_Access = None, rp_Redirect = [], rp_Mails = []\<rparr>"

definition redirectTo :: "string \<Rightarrow> authReply" where
  "redirectTo path = (plainReply 302)\<lparr>rp_Redirect := path\<rparr>"

type_synonym handled_auth = "(apiError, authReply) result \<times> authDB"

definition internalError :: apiError where
  "internalError = handleError None"

section \<open>Tokens\<close>

abbreviation dayNS :: int where "dayNS \<equiv> 24 * 3600 * timeSecond"

definition issueRefreshToken :: "authLib \<Rightarrow> int \<Rightarrow> string \<Rightarrow> string \<Rightarrow> authDB \<Rightarrow> authDB" where
  "issueRefreshToken L now token uid db =
     db\<lparr>ad_Refresh := ad_Refresh db @ [\<lparr>rt_UserID = uid, rt_TokenHash = au_Sha L token, rt_RevokedAt = None, rt_ExpiresAt = now + 30 * dayNS\<rparr>]\<rparr>"

text \<open>\<^verbatim>\<open>sendEmailVerification\<close>: the row is there also when the mail cannot be sent.\<close>

definition sendEmailVerification :: "authLib \<Rightarrow> int \<Rightarrow> string \<Rightarrow> string \<Rightarrow> string \<Rightarrow> authDB \<Rightarrow> (apiError, (string \<times> string) list) result \<times> authDB" where
  "sendEmailVerification L now token uid email db =
     (let db' = db\<lparr>ad_Verifications := ad_Verifications db @ [\<lparr>ve_TokenHash = au_Sha L token, ve_UserID = uid, ve_ExpiresAt = now + dayNS\<rparr>]\<rparr>
      in (if au_MailConfigured L \<and> \<not> au_MailOK L then Err (ApiError 502 [] ''could not send the verification email; try again later'')
          else Ok [(email, token)], db'))"

definition mailReply :: "int \<Rightarrow> (apiError, (string \<times> string) list) result \<times> authDB \<Rightarrow> handled_auth" where
  "mailReply status r = (map_sum (\<lambda>e. e) (\<lambda>mails. (plainReply status)\<lparr>rp_Mails := mails\<rparr>) (fst r), snd r)"

definition deleteSessions :: "string \<Rightarrow> authDB \<Rightarrow> authDB" where
  "deleteSessions uid db = db\<lparr>ad_Refresh := filter (\<lambda>r. rt_UserID r \<noteq> uid) (ad_Refresh db)\<rparr>"

definition deleteVerifications :: "string \<Rightarrow> authDB \<Rightarrow> authDB" where
  "deleteVerifications uid db = db\<lparr>ad_Verifications := filter (\<lambda>v. ve_UserID v \<noteq> uid) (ad_Verifications db)\<rparr>"

definition revokeSessions :: "int \<Rightarrow> string \<Rightarrow> authDB \<Rightarrow> authDB" where
  "revokeSessions now uid db =
     db\<lparr>ad_Refresh := updateWhere (\<lambda>r. rt_UserID r = uid \<and> rt_RevokedAt r = None) (\<lambda>r. r\<lparr>rt_RevokedAt := Some now\<rparr>) (ad_Refresh db)\<rparr>"

definition setUsers :: "(userRow \<Rightarrow> bool) \<Rightarrow> (userRow \<Rightarrow> userRow) \<Rightarrow> authDB \<Rightarrow> authDB" where
  "setUsers P f db = db\<lparr>ad_Users := updateWhere P f (ad_Users db)\<rparr>"

definition userByEmail :: "string \<Rightarrow> authDB \<Rightarrow> userRow option" where
  "userByEmail email db = find (\<lambda>u. us_Email u = email) (ad_Users db)"

section \<open>Passwords\<close>

definition inviteTenant :: "authLib \<Rightarrow> string \<Rightarrow> string option" where
  "inviteTenant L token =
     (let tid = takeWhile (\<lambda>c. c \<noteq> CHR ''.'') token in
      if CHR ''.'' \<in> set token \<and> au_ParseUUID L tid then Some tid else None)"

text \<open>The tenant and role of a new account: an invitation, which is then accepted, or a new tenant.\<close>

definition openInvitation :: "authLib \<Rightarrow> int \<Rightarrow> string \<Rightarrow> string \<Rightarrow> string \<Rightarrow> authDB \<Rightarrow> invitationRow option" where
  "openInvitation L now tid token email db =
     find (\<lambda>i. iv_TenantID i = tid \<and> iv_TokenHash i = au_Sha L token \<and> iv_Email i = email \<and> iv_AcceptedAt i = None \<and> iv_ExpiresAt i > now)
       (ad_Invitations db)"

definition acceptRow :: "authLib \<Rightarrow> int \<Rightarrow> string \<Rightarrow> string \<Rightarrow> authDB \<Rightarrow> authDB" where
  "acceptRow L now tid token db =
     db\<lparr>ad_Invitations := updateWhere (\<lambda>i. iv_TenantID i = tid \<and> iv_TokenHash i = au_Sha L token \<and> iv_AcceptedAt i = None)
          (\<lambda>i. i\<lparr>iv_AcceptedAt := Some now\<rparr>) (ad_Invitations db)\<rparr>"

definition newAccountTenant ::
  "authLib \<Rightarrow> int \<Rightarrow> string \<Rightarrow> string \<Rightarrow> string \<Rightarrow> string \<Rightarrow> authDB \<Rightarrow> (apiError, string \<times> string \<times> authDB) result" where
  "newAccountTenant L now newTenant tenantName inviteToken email db =
     (if inviteToken \<noteq> [] then
        (case inviteTenant L inviteToken of
           None \<Rightarrow> Err (badRequest ErrInvalidRequest ''invalid or expired invite'')
         | Some tid \<Rightarrow>
             (case openInvitation L now tid inviteToken email db of
                None \<Rightarrow> Err (badRequest ErrInvalidRequest ''invalid or expired invite'')
              | Some i \<Rightarrow> Ok (iv_TenantID i, iv_Role i, acceptRow L now tid inviteToken db)))
      else let name = trimSpace tenantName; shown = (if name = [] then hd (splitOn (CHR ''@'') email) else name)
           in Ok (newTenant, ''owner'', db\<lparr>ad_Tenants := ad_Tenants db @ [(newTenant, shown)]\<rparr>))"

record registration =
  rg_Email :: string
  rg_Password :: string
  rg_TenantName :: string
  rg_InviteToken :: string

text \<open>Fresh values of a request: a token for a link, one for a session, and the identifiers of new rows.\<close>

record freshValues =
  fv_Link :: string
  fv_Session :: string
  fv_User :: string
  fv_Tenant :: string

definition reclaimAccount :: "authLib \<Rightarrow> int \<Rightarrow> freshValues \<Rightarrow> userRow \<Rightarrow> string \<Rightarrow> authDB \<Rightarrow> handled_auth" where
  "reclaimAccount L now F existing hash db =
     mailReply 201 (sendEmailVerification L now (fv_Link F) (us_ID existing) (us_Email existing)
       (deleteSessions (us_ID existing)
         (setUsers (\<lambda>u. us_ID u = us_ID existing \<and> \<not> us_EmailVerified u) (\<lambda>u. u\<lparr>us_PasswordHash := Some hash\<rparr>) db)))"

definition createAccount :: "authLib \<Rightarrow> int \<Rightarrow> freshValues \<Rightarrow> registration \<Rightarrow> string \<Rightarrow> string \<Rightarrow> authDB \<Rightarrow> handled_auth" where
  "createAccount L now F body email hash db =
     (case newAccountTenant L now (fv_Tenant F) (rg_TenantName body) (rg_InviteToken body) email db of
        Inl e \<Rightarrow> (Err e, db)
      | Inr (tid, role, db1) \<Rightarrow>
          let verified = (rg_InviteToken body \<noteq> [] \<or> ad_Users db1 = []);
              row = \<lparr>us_ID = fv_User F, us_TenantID = tid, us_Email = email, us_PasswordHash = Some hash, us_Subjects = [], us_Role = role, us_EmailVerified = verified\<rparr>;
              db2 = db1\<lparr>ad_Users := ad_Users db1 @ [row]\<rparr>
          in if \<not> verified then mailReply 201 (sendEmailVerification L now (fv_Link F) (fv_User F) email db2)
             else (Ok ((plainReply 201)\<lparr>rp_Refresh := Some (fv_Session F)\<rparr>), issueRefreshToken L now (fv_Session F) (fv_User F) db2))"

definition registerPassword :: "authLib \<Rightarrow> int \<Rightarrow> freshValues \<Rightarrow> registration \<Rightarrow> authDB \<Rightarrow> handled_auth" where
  "registerPassword L now F body db =
     (let email = toLower (trimSpace (rg_Email body)) in
      if \<not> au_PasswordEnabled L then (Err (apiNotFound ErrNotFound ''not found''), db)
      else if email = [] \<or> length (rg_Password body) < 8
      then (Err (badRequest ErrInvalidRequest ''email and a password of at least 8 characters are required''), db)
      else (case au_HashPassword L (rg_Password body) of
          None \<Rightarrow> (Err internalError, db)
        | Some hash \<Rightarrow>
            (case userByEmail email db of
               Some u \<Rightarrow>
                 if us_EmailVerified u \<or> list_ex (\<lambda>v. ve_UserID v = us_ID u \<and> ve_ExpiresAt v > now) (ad_Verifications db)
                 then (Err (ApiError 409 [] ''an account with this email already exists''), db)
                 else reclaimAccount L now F u hash db
             | None \<Rightarrow> createAccount L now F body email hash db)))"

text \<open>The update runs before the check for an empty token.\<close>

definition verifyEmail :: "authLib \<Rightarrow> int \<Rightarrow> string \<Rightarrow> authDB \<Rightarrow> handled_auth" where
  "verifyEmail L now token db =
     (case find (\<lambda>v. ve_TokenHash v = au_Sha L token \<and> ve_ExpiresAt v > now \<and> list_ex (\<lambda>u. us_ID u = ve_UserID v) (ad_Users db))
          (ad_Verifications db) of
        None \<Rightarrow> (Ok (redirectTo ''/login?error=verification_invalid''), db)
      | Some v \<Rightarrow>
          let db' = setUsers (\<lambda>u. us_ID u = ve_UserID v) (\<lambda>u. u\<lparr>us_EmailVerified := True\<rparr>) db in
          if token = [] then (Ok (redirectTo ''/login?error=verification_invalid''), db')
          else (Ok (redirectTo ''/login?verified=1''), deleteVerifications (ve_UserID v) db'))"

definition wrongLogin :: apiError where
  "wrongLogin = ApiError 401 [] ''invalid email or password''"

definition loginPassword :: "authLib \<Rightarrow> int \<Rightarrow> freshValues \<Rightarrow> string \<Rightarrow> string \<Rightarrow> authDB \<Rightarrow> handled_auth" where
  "loginPassword L now F email password db =
     (if \<not> au_PasswordEnabled L then (Err (apiNotFound ErrNotFound ''not found''), db)
      else if email = [] \<or> password = [] then (Err (badRequest ErrInvalidRequest ''email and password are required''), db)
      else (case userByEmail (toLower email) db of
          None \<Rightarrow> (Err wrongLogin, db)
        | Some u \<Rightarrow>
            (case us_PasswordHash u of
               None \<Rightarrow> (Err wrongLogin, db)
             | Some hash \<Rightarrow>
                 if \<not> au_CheckPassword L hash password then (Err wrongLogin, db)
                 else if \<not> us_EmailVerified u
                 then (case sendEmailVerification L now (fv_Link F) (us_ID u) (toLower email) db of
                     (Inl e, db') \<Rightarrow> (Err e, db')
                   | (Inr _, db') \<Rightarrow> (Err (ApiError 403 ErrEmailNotVerified ''confirm your email first: we sent you a new link''), db'))
                 else (Ok ((plainReply 200)\<lparr>rp_Refresh := Some (fv_Session F)\<rparr>), issueRefreshToken L now (fv_Session F) (us_ID u) db))))"

text \<open>At most one link a minute for an account; a new link replaces the others.\<close>

definition sendPasswordReset :: "authLib \<Rightarrow> int \<Rightarrow> string \<Rightarrow> string \<Rightarrow> string \<Rightarrow> authDB \<Rightarrow> (string \<times> string) list \<times> authDB" where
  "sendPasswordReset L now token uid email db =
     (if list_ex (\<lambda>r. rs_UserID r = uid \<and> rs_CreatedAt r > now - 60 * timeSecond) (ad_Resets db) then ([], db)
      else (if au_MailConfigured L \<and> \<not> au_MailOK L then [] else [(email, token)],
        db\<lparr>ad_Resets := filter (\<lambda>r. rs_UserID r \<noteq> uid) (ad_Resets db)
             @ [\<lparr>rs_TokenHash = au_Sha L token, rs_UserID = uid, rs_ExpiresAt = now + 3600 * timeSecond, rs_CreatedAt = now\<rparr>]\<rparr>))"

definition forgotPassword :: "authLib \<Rightarrow> int \<Rightarrow> freshValues \<Rightarrow> string \<Rightarrow> authDB \<Rightarrow> handled_auth" where
  "forgotPassword L now F raw db =
     (let email = toLower (trimSpace raw) in
      if \<not> au_PasswordEnabled L then (Err (apiNotFound ErrNotFound ''not found''), db)
      else (case (if email = [] then None else userByEmail email db) of
          None \<Rightarrow> (Ok (plainReply 200), db)
        | Some u \<Rightarrow> (case sendPasswordReset L now (fv_Link F) (us_ID u) email db of
            (mails, db') \<Rightarrow> (Ok ((plainReply 200)\<lparr>rp_Mails := mails\<rparr>), db'))))"

definition resetPassword :: "authLib \<Rightarrow> int \<Rightarrow> string \<Rightarrow> string \<Rightarrow> authDB \<Rightarrow> handled_auth" where
  "resetPassword L now token password db =
     (if \<not> au_PasswordEnabled L then (Err (apiNotFound ErrNotFound ''not found''), db)
      else if length password < 8 then (Err (badRequest ErrInvalidRequest ''a password of at least 8 characters is required''), db)
      else (case au_HashPassword L password of
          None \<Rightarrow> (Err internalError, db)
        | Some hash \<Rightarrow>
            (case (if token = [] then None else find (\<lambda>r. rs_TokenHash r = au_Sha L token \<and> rs_ExpiresAt r > now) (ad_Resets db)) of
               None \<Rightarrow> (Err (badRequest ErrInvalidRequest ''this reset link is invalid or has expired; ask for a new one''), db)
             | Some r \<Rightarrow>
                 let uid = rs_UserID r in
                 if \<not> list_ex (\<lambda>u. us_ID u = uid) (ad_Users db) then (Err internalError, db)
                 else (Ok (plainReply 200),
                   revokeSessions now uid (deleteVerifications uid
                     ((setUsers (\<lambda>u. us_ID u = uid) (\<lambda>u. u\<lparr>us_PasswordHash := Some hash, us_EmailVerified := True\<rparr>) db)
                        \<lparr>ad_Resets := filter (\<lambda>r. rs_UserID r \<noteq> uid) (ad_Resets db)\<rparr>))))))"

section \<open>Sessions\<close>

definition refreshReuseGrace :: int where
  "refreshReuseGrace = 10 * timeSecond"

definition rejectRefresh :: "int \<Rightarrow> string \<Rightarrow> authDB \<Rightarrow> handled_auth" where
  "rejectRefresh now hash db =
     (case find (\<lambda>r. rt_TokenHash r = hash) (ad_Refresh db) of
        None \<Rightarrow> (Err (ApiError 401 [] ''invalid refresh token''), db)
      | Some r \<Rightarrow>
          (case rt_RevokedAt r of
             None \<Rightarrow> (Err (ApiError 401 [] ''refresh token expired''), db)
           | Some t \<Rightarrow>
               if now - t < refreshReuseGrace then (Err (ApiError 401 [] ''refresh token already used''), db)
               else (Err (ApiError 401 [] ''refresh token reuse detected''), revokeSessions now (rt_UserID r) db)))"

definition userObj :: "userRow \<Rightarrow> obj" where
  "userObj u = [(''id'', VStr (us_ID u)), (''tenant_id'', VStr (us_TenantID u)), (''email'', VStr (us_Email u)), (''role'', VStr (us_Role u)),
     (''email_verified'', VBool (us_EmailVerified u))]"

definition refreshSession :: "authLib \<Rightarrow> int \<Rightarrow> freshValues \<Rightarrow> string option \<Rightarrow> authDB \<Rightarrow> handled_auth" where
  "refreshSession L now F cookie db =
     (case cookie of
        None \<Rightarrow> (Err (ApiError 401 [] ''no refresh token''), db)
      | Some token \<Rightarrow>
          let hash = au_Sha L token; live = (\<lambda>r. rt_TokenHash r = hash \<and> rt_RevokedAt r = None \<and> rt_ExpiresAt r > now) in
          (case find live (ad_Refresh db) of
             None \<Rightarrow> rejectRefresh now hash db
           | Some r \<Rightarrow>
               let db1 = db\<lparr>ad_Refresh := updateWhere live (\<lambda>r. r\<lparr>rt_RevokedAt := Some now\<rparr>) (ad_Refresh db)\<rparr>;
                   db2 = issueRefreshToken L now (fv_Session F) (rt_UserID r) db1;
                   user = (case find (\<lambda>u. us_ID u = rt_UserID r) (ad_Users db) of Some u \<Rightarrow> userObj u | None \<Rightarrow> [])
               in (Ok ((plainReply 200)\<lparr>rp_Refresh := Some (fv_Session F), rp_Access := Some (signAccessToken (au_Sign L) now user)\<rparr>), db2)))"

definition logout :: "authLib \<Rightarrow> int \<Rightarrow> string option \<Rightarrow> authDB \<Rightarrow> handled_auth" where
  "logout L now cookie db =
     (Ok (plainReply 200),
      case cookie of
        None \<Rightarrow> db
      | Some token \<Rightarrow> db\<lparr>ad_Refresh := updateWhere (\<lambda>r. rt_TokenHash r = au_Sha L token \<and> rt_RevokedAt r = None) (\<lambda>r. r\<lparr>rt_RevokedAt := Some now\<rparr>) (ad_Refresh db)\<rparr>)"

definition acceptInvite :: "authLib \<Rightarrow> int \<Rightarrow> string \<Rightarrow> authDB \<Rightarrow> (apiError, string \<times> string) result" where
  "acceptInvite L now token db =
     (if token = [] then Err (badRequest ErrInvalidRequest ''token required'')
      else (case inviteTenant L token of
          None \<Rightarrow> Err (badRequest ErrInvalidRequest ''invalid or used token'')
        | Some tid \<Rightarrow>
            (case find (\<lambda>i. iv_TenantID i = tid \<and> iv_TokenHash i = au_Sha L token \<and> iv_AcceptedAt i = None) (ad_Invitations db) of
               None \<Rightarrow> Err (badRequest ErrInvalidRequest ''invalid or used token'')
             | Some i \<Rightarrow> if iv_ExpiresAt i < now then Err (badRequest ErrInvalidRequest ''token expired'') else Ok (iv_Email i, iv_Role i))))"

section \<open>Providers\<close>

definition emailClaimVerified :: "gv \<Rightarrow> bool" where
  "emailClaimVerified v = (case v of VBool b \<Rightarrow> b | VStr s \<Rightarrow> equalFold s ''true'' | _ \<Rightarrow> False)"

text \<open>\<^verbatim>\<open>claim_email_invitation\<close>: the open invitation of an address that expires last.\<close>

definition claimInvitation :: "int \<Rightarrow> string \<Rightarrow> authDB \<Rightarrow> (string \<times> string \<times> authDB) option" where
  "claimInvitation now email db =
     (case rev (sort_key iv_ExpiresAt (filter (\<lambda>i. iv_Email i = email \<and> iv_AcceptedAt i = None \<and> iv_ExpiresAt i > now) (ad_Invitations db))) of
        [] \<Rightarrow> None
      | i # _ \<Rightarrow> Some (iv_TenantID i, iv_Role i,
          db\<lparr>ad_Invitations := updateWhere (\<lambda>j. iv_TokenHash j = iv_TokenHash i) (\<lambda>j. j\<lparr>iv_AcceptedAt := Some now\<rparr>) (ad_Invitations db)\<rparr>))"

definition linkSubject :: "string \<Rightarrow> string \<Rightarrow> userRow \<Rightarrow> userRow" where
  "linkSubject column sub u = u\<lparr>us_Subjects := AList.update column sub (us_Subjects u)\<rparr>"

definition resolveIdentity ::
  "int \<Rightarrow> freshValues \<Rightarrow> string \<Rightarrow> string \<Rightarrow> string \<Rightarrow> authDB \<Rightarrow> (string, string) result \<times> authDB" where
  "resolveIdentity now F column sub email db =
     (if column \<noteq> ''google_sub'' \<and> column \<noteq> ''oidc_sub'' then (Err ''unsupported identity column'', db)
      else (case find (\<lambda>u. map_of (us_Subjects u) column = Some sub) (ad_Users db) of
          Some u \<Rightarrow> (Ok (us_ID u), db)
        | None \<Rightarrow>
            (case userByEmail email db of
               Some u \<Rightarrow>
                 if \<not> us_EmailVerified u
                 then (Ok (us_ID u), deleteSessions (us_ID u) (deleteVerifications (us_ID u)
                     (setUsers (\<lambda>x. us_ID x = us_ID u \<and> \<not> us_EmailVerified x)
                        (\<lambda>x. (linkSubject column sub x)\<lparr>us_EmailVerified := True, us_PasswordHash := None\<rparr>) db)))
                 else (Ok (us_ID u), setUsers (\<lambda>x. us_ID x = us_ID u) (linkSubject column sub) db)
             | None \<Rightarrow>
                 let (tid, role, db1) = (case claimInvitation now email db of
                     Some r \<Rightarrow> r
                   | None \<Rightarrow> (fv_Tenant F, ''owner'', db\<lparr>ad_Tenants := ad_Tenants db @ [(fv_Tenant F, hd (splitOn (CHR ''@'') email))]\<rparr>))
                 in (Ok (fv_User F), db1\<lparr>ad_Users := ad_Users db1 @ [\<lparr>us_ID = fv_User F, us_TenantID = tid, us_Email = email, us_PasswordHash = None,
                       us_Subjects = [(column, sub)], us_Role = role, us_EmailVerified = True\<rparr>]\<rparr>))))"

text \<open>A login by a provider: \<open>profile\<close> is the subject and the address that the provider has confirmed.\<close>

definition providerLogin :: "authLib \<Rightarrow> int \<Rightarrow> freshValues \<Rightarrow> string \<Rightarrow> string \<Rightarrow> string \<times> string \<Rightarrow> authDB \<Rightarrow> handled_auth" where
  "providerLogin L now F column failure profile db =
     (case resolveIdentity now F column (fst profile) (toLower (snd profile)) db of
        (Inl e, db') \<Rightarrow> (Ok (redirectTo failure), db')
      | (Inr uid, db') \<Rightarrow> (Ok ((redirectTo ''/pipelines'')\<lparr>rp_Refresh := Some (fv_Session F)\<rparr>), issueRefreshToken L now (fv_Session F) uid db'))"

record googleProfile =
  gp_Sub :: string
  gp_Email :: string
  gp_Aud :: string
  gp_Iss :: string
  gp_EmailVerified :: gv

definition googleProfileOK :: "googleProfile option \<Rightarrow> bool" where
  "googleProfileOK p = (case p of None \<Rightarrow> False | Some g \<Rightarrow> gp_Sub g \<noteq> [] \<and> gp_Email g \<noteq> [] \<and> emailClaimVerified (gp_EmailVerified g))"

text \<open>\<open>idToken\<close> and \<open>profile\<close> are what Google's endpoints answer for the code.\<close>

definition googleCallback ::
  "authLib \<Rightarrow> int \<Rightarrow> freshValues \<Rightarrow> string \<Rightarrow> string \<Rightarrow> string \<Rightarrow> string option \<Rightarrow> (string \<Rightarrow> string option) \<Rightarrow> (string \<Rightarrow> googleProfile option)
     \<Rightarrow> authDB \<Rightarrow> handled_auth" where
  "googleCallback L now F clientID code state stateCookie exchange profile db =
     (if code = [] \<or> stateCookie \<noteq> Some state then (Ok (redirectTo ''/login?error=oauth_state''), db)
      else (case exchange code of
          None \<Rightarrow> (Ok (redirectTo ''/login?error=oauth_failed''), db)
        | Some idToken \<Rightarrow>
            if idToken = [] \<or> \<not> googleProfileOK (profile idToken) then (Ok (redirectTo ''/login?error=oauth_profile''), db)
            else let g = the (profile idToken) in
              if gp_Aud g \<noteq> clientID \<or> (gp_Iss g \<noteq> [] \<and> gp_Iss g \<noteq> ''https://accounts.google.com'' \<and> gp_Iss g \<noteq> ''accounts.google.com'')
              then (Err (ApiError 401 [] ''Google id_token audience or issuer mismatch''), db)
              else providerLogin L now F ''google_sub'' ''/login?error=oauth_failed'' (gp_Sub g, gp_Email g) db))"

text \<open>The keys of an issuer, cached by address. \<open>fetch\<close> is what the issuer answers.\<close>

record 'k jwksEntry =
  jw_Keys :: "(string \<times> 'k) list"
  jw_Fetched :: int

definition jwksLookup :: "'k jwksEntry \<Rightarrow> string \<Rightarrow> 'k option" where
  "jwksLookup e kid = (case jw_Keys e of [(k, key)] \<Rightarrow> if kid = [] then Some key else map_of (jw_Keys e) kid | ks \<Rightarrow> map_of ks kid)"

definition usableKeys :: "('j \<Rightarrow> string) \<Rightarrow> ('j \<Rightarrow> string) \<Rightarrow> ('j \<Rightarrow> 'k option) \<Rightarrow> 'j list \<Rightarrow> (string, (string \<times> 'k) list) result" where
  "usableKeys useOf kidOf parse jwks =
     (let keys = fold (\<lambda>j ks. if useOf j \<noteq> [] \<and> useOf j \<noteq> ''sig'' then ks
          else (case parse j of Some key \<Rightarrow> AList.update (kidOf j) key ks | None \<Rightarrow> ks)) jwks []
      in if keys = [] then Err ''JWKS has no usable signing keys'' else Ok keys)"

definition keyNotFound :: "string \<Rightarrow> string" where
  "keyNotFound kid = ''id_token signing key '' @ goQuote kid @ '' not found''"

text \<open>The result, the cache, and whether the issuer was asked.\<close>

definition jwksKey ::
  "int \<Rightarrow> (string, (string \<times> 'k) list) result \<Rightarrow> string \<Rightarrow> string \<Rightarrow> (string \<times> 'k jwksEntry) list \<Rightarrow> (string, 'k) result \<times> (string \<times> 'k jwksEntry) list \<times> bool" where
  "jwksKey now fetch uri kid cache =
     (let entry = map_of cache uri;
          fresh = (case entry of Some e \<Rightarrow> now - jw_Fetched e < 3600 * timeSecond | None \<Rightarrow> False);
          hit = (case entry of Some e \<Rightarrow> if fresh then jwksLookup e kid else None | None \<Rightarrow> None);
          recent = (case entry of Some e \<Rightarrow> fresh \<and> now - jw_Fetched e < 30 * timeSecond | None \<Rightarrow> False)
      in case hit of
           Some key \<Rightarrow> (Ok key, cache, False)
         | None \<Rightarrow>
             if recent then (Err (keyNotFound kid), cache, False)
             else (case fetch of
                 Inl e \<Rightarrow> (Err e, cache, True)
               | Inr keys \<Rightarrow>
                   let e' = \<lparr>jw_Keys = keys, jw_Fetched = now\<rparr> in
                   (case jwksLookup e' kid of Some key \<Rightarrow> Ok key | None \<Rightarrow> Err (keyNotFound kid), AList.update uri e' cache, True)))"

text \<open>A key of a key set: \<^verbatim>\<open>onCurve\<close> says whether a point is on a curve.\<close>

record jsonWebKey =
  jk_Kty :: string
  jk_Kid :: string
  jk_Use :: string
  jk_Crv :: string
  jk_N :: string
  jk_E :: string
  jk_X :: string
  jk_Y :: string

datatype publicKey = RSAKey nat nat | ECKey string string string

definition b64RawURL :: "string \<Rightarrow> string option" where
  "b64RawURL s =
     (let t = filter (\<lambda>c. c \<noteq> CHR 0x0A \<and> c \<noteq> CHR 0x0D) s;
          swapped = map (\<lambda>c. if c = CHR ''-'' then CHR ''+'' else if c = CHR ''_'' then CHR ''/'' else c) t in
      if list_ex (\<lambda>c. c = CHR ''+'' \<or> c = CHR ''/'' \<or> c = CHR ''='') t \<or> length t mod 4 = 1 then None
      else case b64Scan (swapped @ replicate ((4 - length t mod 4) mod 4) (CHR ''='')) of (bytes, ok) \<Rightarrow> if ok then Some bytes else None)"

definition bigEndian :: "string \<Rightarrow> nat" where
  "bigEndian bytes = foldl (\<lambda>n c. 256 * n + of_char c) 0 bytes"

definition curveBytes :: "string \<Rightarrow> nat option" where
  "curveBytes crv = map_of [(''P-256'', 32), (''P-384'', 48), (''P-521'', 66)] crv"

definition parseJWK :: "(string \<Rightarrow> string \<Rightarrow> string \<Rightarrow> bool) \<Rightarrow> jsonWebKey \<Rightarrow> publicKey option" where
  "parseJWK onCurve j =
     (if jk_Kty j = ''RSA'' then
        (case (b64RawURL (jk_N j), b64RawURL (jk_E j)) of
           (Some n, Some e) \<Rightarrow>
             if e = [] \<or> length e > 4 \<or> bigEndian n < 2 ^ 2047 \<or> bigEndian e < 3 then None else Some (RSAKey (bigEndian n) (bigEndian e))
         | _ \<Rightarrow> None)
      else if jk_Kty j = ''EC'' then
        (case (curveBytes (jk_Crv j), b64RawURL (jk_X j), b64RawURL (jk_Y j)) of
           (Some width, Some x, Some y) \<Rightarrow>
             if length x \<noteq> width \<or> length y \<noteq> width \<or> \<not> onCurve (jk_Crv j) x y then None else Some (ECKey (jk_Crv j) x y)
         | _ \<Rightarrow> None)
      else None)"

record oidcIDClaims =
  oc_Issuer :: string
  oc_Audience :: "string list"
  oc_Azp :: string
  oc_Nonce :: string

definition verifyOIDCIDToken :: "(string, oidcIDClaims) result \<Rightarrow> string \<Rightarrow> string \<Rightarrow> string \<Rightarrow> string \<Rightarrow> string option" where
  "verifyOIDCIDToken parsed jwksURI issuer clientID nonce =
     (if issuer = [] \<or> jwksURI = [] \<or> nonce = [] then Some ''OIDC verification is not configured''
      else (case parsed of
          Inl e \<Rightarrow> Some (''id_token: '' @ e)
        | Inr c \<Rightarrow>
            if trimSuffix ''/'' (oc_Issuer c) \<noteq> issuer then Some ''id_token issuer mismatch''
            else if length (oc_Audience c) > 1 \<and> oc_Azp c \<noteq> clientID then Some ''id_token authorized party mismatch''
            else if oc_Nonce c \<noteq> nonce then Some ''id_token nonce mismatch''
            else None))"

text \<open>A login by OpenID Connect. The issuer's documents and tokens are what its endpoints answer.\<close>

record oidcDiscoveryDoc =
  dd_Issuer :: string
  dd_Authorization :: string
  dd_Token :: string
  dd_Userinfo :: string
  dd_JWKS :: string

definition oidcDiscovery :: "string \<Rightarrow> (string \<Rightarrow> oidcDiscoveryDoc option) \<Rightarrow> (apiError option, oidcDiscoveryDoc) result" where
  "oidcDiscovery configured fetch =
     (let issuer = trimSuffix ''/'' configured in
      if issuer = [] then Err (Some (ApiError 503 [] ''OIDC_ISSUER not configured''))
      else (case fetch (issuer @ ''/.well-known/openid-configuration'') of
          None \<Rightarrow> Err None
        | Some doc \<Rightarrow>
            if trimSuffix ''/'' (dd_Issuer doc) \<noteq> issuer \<or> dd_Authorization doc = [] \<or> dd_Token doc = [] \<or> dd_Userinfo doc = [] \<or> dd_JWKS doc = []
            then Err None else Ok doc))"

record oidcUserInfo =
  oi_Sub :: string
  oi_Email :: string
  oi_EmailVerified :: gv

record oidcPeer =
  op_Discovery :: "string \<Rightarrow> oidcDiscoveryDoc option"
  op_Token :: "string \<Rightarrow> string \<Rightarrow> obj option"
  op_UserInfo :: "string \<Rightarrow> string \<Rightarrow> oidcUserInfo option"
  op_Parse :: "string \<Rightarrow> string \<Rightarrow> string \<Rightarrow> string \<Rightarrow> (string, oidcIDClaims) result"

definition oidcCallback ::
  "authLib \<Rightarrow> int \<Rightarrow> freshValues \<Rightarrow> string \<Rightarrow> string \<Rightarrow> oidcPeer \<Rightarrow> string \<Rightarrow> string \<Rightarrow> string option \<Rightarrow> string option \<Rightarrow> authDB \<Rightarrow> handled_auth" where
  "oidcCallback L now F configured clientID P code state stateCookie nonceCookie db =
     (if code = [] \<or> stateCookie \<noteq> Some state \<or> nonceCookie = None then (Ok (redirectTo ''/login?error=oauth_state''), db)
      else (case oidcDiscovery configured (op_Discovery P) of
          Inl _ \<Rightarrow> (Ok (redirectTo ''/login?error=oidc_failed''), db)
        | Inr doc \<Rightarrow>
            (case op_Token P (dd_Token doc) code of
               None \<Rightarrow> (Ok (redirectTo ''/login?error=oidc_token''), db)
             | Some token \<Rightarrow>
                 (case op_UserInfo P (dd_Userinfo doc) (''Bearer '' @ apiString (objGet token ''access_token'')) of
                    None \<Rightarrow> (Ok (redirectTo ''/login?error=oidc_profile''), db)
                  | Some info \<Rightarrow>
                      if oi_Sub info = [] \<or> oi_Email info = [] \<or> \<not> emailClaimVerified (oi_EmailVerified info)
                      then (Ok (redirectTo ''/login?error=oidc_profile''), db)
                      else let idToken = (case asStr (objGet token ''id_token'') of Some t \<Rightarrow> t | None \<Rightarrow> []) in
                        if idToken = [] \<or> verifyOIDCIDToken (op_Parse P (dd_JWKS doc) idToken clientID (oi_Sub info)) (dd_JWKS doc)
                             (trimSuffix ''/'' configured) clientID (the nonceCookie) \<noteq> None
                        then (Ok (redirectTo ''/login?error=oidc_token''), db)
                        else providerLogin L now F ''oidc_sub'' ''/login?error=oidc_failed'' (oi_Sub info, oi_Email info) db))))"

text \<open>The account of a request, with the name of its tenant.\<close>

definition me :: "string \<Rightarrow> authDB \<Rightarrow> (apiError, obj) result" where
  "me uid db =
     (case find (\<lambda>u. us_ID u = uid \<and> us_TenantID u \<in> set (map fst (ad_Tenants db))) (ad_Users db) of
        None \<Rightarrow> Err (apiNotFound ErrNotFound ''user not found'')
      | Some u \<Rightarrow> Ok (userObj u @ [(''tenant_name'', VStr (case map_of (ad_Tenants db) (us_TenantID u) of Some n \<Rightarrow> n | None \<Rightarrow> []))]))"

end
