(* ===== verification/SessionLaws.thy ===== *)
theory SessionLaws
  imports Sessions
begin

text \<open>
  What accounts and sessions guarantee over any sequence of requests: a refresh token is rotated at most once, a
  reset of the password ends every session, and an address counts as confirmed only after a proof.
\<close>

section \<open>Requests\<close>

datatype authOp =
    Register freshValues registration
  | Verify string
  | Login freshValues string string
  | Forgot freshValues string
  | Reset string string
  | Refresh freshValues "string option"
  | Logout "string option"
  | Provider freshValues string string "string \<times> string"

definition authStep :: "authLib \<Rightarrow> int \<Rightarrow> authOp \<Rightarrow> authDB \<Rightarrow> handled_auth" where
  "authStep L now op db = (case op of
     Register F body \<Rightarrow> registerPassword L now F body db
   | Verify token \<Rightarrow> verifyEmail L now token db
   | Login F email password \<Rightarrow> loginPassword L now F email password db
   | Forgot F email \<Rightarrow> forgotPassword L now F email db
   | Reset token password \<Rightarrow> resetPassword L now token password db
   | Refresh F cookie \<Rightarrow> refreshSession L now F cookie db
   | Logout cookie \<Rightarrow> logout L now cookie db
   | Provider F column failure profile \<Rightarrow> providerLogin L now F column failure profile db)"

fun runAuth :: "authLib \<Rightarrow> (int \<times> authOp) list \<Rightarrow> authDB \<Rightarrow> authDB" where
  "runAuth L [] db = db"
| "runAuth L ((now, op) # ops) db = runAuth L ops (snd (authStep L now op db))"

text \<open>The session token that a request may issue.\<close>

definition sessionOf :: "authOp \<Rightarrow> string option" where
  "sessionOf op = (case op of Register F _ \<Rightarrow> Some (fv_Session F) | Login F _ _ \<Rightarrow> Some (fv_Session F) | Refresh F _ \<Rightarrow> Some (fv_Session F)
     | Provider F _ _ _ \<Rightarrow> Some (fv_Session F) | _ \<Rightarrow> None)"

section \<open>Refresh tokens\<close>

definition deadRows :: "string \<Rightarrow> refreshRow list \<Rightarrow> bool" where
  "deadRows h rows \<longleftrightarrow> list_all (\<lambda>r. rt_TokenHash r = h \<longrightarrow> rt_RevokedAt r \<noteq> None) rows"

abbreviation deadToken :: "string \<Rightarrow> authDB \<Rightarrow> bool" where
  "deadToken h db \<equiv> deadRows h (ad_Refresh db)"

lemma dead_update: "deadRows h rows \<Longrightarrow> deadRows h (updateWhere P (\<lambda>r. r\<lparr>rt_RevokedAt := Some now\<rparr>) rows)"
  by (auto simp: deadRows_def updateWhere_def list_all_iff)

lemma dead_append: "deadRows h (rows @ rows') \<longleftrightarrow> deadRows h rows \<and> deadRows h rows'"
  by (simp add: deadRows_def)

lemma dead_filter: "deadRows h rows \<Longrightarrow> deadRows h (filter P rows)"
  by (auto simp: deadRows_def list_all_iff)

lemma dead_issue: "deadToken h db \<Longrightarrow> au_Sha L t \<noteq> h \<Longrightarrow> deadToken h (issueRefreshToken L now t uid db)"
  by (simp add: issueRefreshToken_def dead_append) (simp add: deadRows_def)

lemma refresh_rows [simp]:
  "ad_Refresh (setUsers P f db) = ad_Refresh db"
  "ad_Refresh (deleteVerifications uid db) = ad_Refresh db"
  "ad_Refresh (snd (sendEmailVerification L now t uid e db)) = ad_Refresh db"
  "ad_Refresh (acceptRow L now tid t db) = ad_Refresh db"
  by (simp_all add: setUsers_def deleteVerifications_def sendEmailVerification_def acceptRow_def Let_def)

lemma snd_mailReply [simp]: "snd (mailReply n r) = snd r"
  by (simp add: mailReply_def)

lemma dead_revoke: "deadToken h db \<Longrightarrow> deadToken h (revokeSessions now uid db)"
  by (simp add: revokeSessions_def dead_update)

lemma dead_delete: "deadToken h db \<Longrightarrow> deadToken h (deleteSessions uid db)"
  by (simp add: deleteSessions_def dead_filter)

lemma newAccountTenant_rows:
  "newAccountTenant L now nt tn it email db = Ok (tid, role, db') \<Longrightarrow> ad_Refresh db' = ad_Refresh db \<and> ad_Users db' = ad_Users db"
  by (auto simp: newAccountTenant_def Let_def acceptRow_def split: if_splits option.splits)

lemma dead_register:
  assumes "deadToken h db" "au_Sha L (fv_Session F) \<noteq> h"
  shows "deadToken h (snd (registerPassword L now F body db))"
proof -
  have "deadToken h (snd (createAccount L now F body email hash db))" for email hash
  proof (cases "newAccountTenant L now (fv_Tenant F) (rg_TenantName body) (rg_InviteToken body) email db")
    case (Inr r)
    then obtain tid role db1 where r: "r = (tid, role, db1)" by (cases r) auto
    then have "deadToken h db1" using newAccountTenant_rows Inr assms(1) by metis
    then show ?thesis using Inr r assms(2) by (auto simp: createAccount_def Let_def intro!: dead_issue)
  qed (use assms in \<open>simp add: createAccount_def\<close>)
  moreover have "deadToken h (snd (reclaimAccount L now F u hash db))" for u hash
    using assms(1) by (auto simp: reclaimAccount_def intro!: dead_delete)
  ultimately show ?thesis using assms(1) by (auto simp: registerPassword_def Let_def split: option.splits)
qed

lemma dead_provider:
  assumes "deadToken h db" "au_Sha L (fv_Session F) \<noteq> h"
  shows "deadToken h (snd (providerLogin L now F column failure profile db))"
proof -
  have "deadToken h (snd (resolveIdentity now F column sub email db))" for sub email
    using assms(1)
    by (auto simp: resolveIdentity_def claimInvitation_def Let_def split: option.splits list.splits prod.splits intro!: dead_delete)
  then show ?thesis using assms(2)
    by (auto simp: providerLogin_def split: sum.splits prod.splits intro!: dead_issue) (metis snd_conv)+
qed

lemma dead_step:
  assumes "deadToken h db" "\<And>t. sessionOf op = Some t \<Longrightarrow> au_Sha L t \<noteq> h"
  shows "deadToken h (snd (authStep L now op db))"
proof (cases op)
  case (Register F body)
  then show ?thesis using dead_register assms by (simp add: authStep_def sessionOf_def)
next
  case (Verify token)
  then show ?thesis using assms(1) by (auto simp: authStep_def verifyEmail_def Let_def split: option.splits)
next
  case (Login F email password)
  then show ?thesis using assms by (auto simp: authStep_def sessionOf_def loginPassword_def split: option.splits sum.splits prod.splits intro!: dead_issue)
      (metis refresh_rows(3) snd_conv)+
next
  case (Forgot F email)
  then show ?thesis using assms(1) by (auto simp: authStep_def forgotPassword_def sendPasswordReset_def Let_def split: option.splits prod.splits if_splits)
next
  case (Reset token password)
  then show ?thesis using assms(1) by (auto simp: authStep_def resetPassword_def Let_def split: option.splits intro!: dead_revoke)
next
  case (Refresh F cookie)
  then show ?thesis using assms
    by (auto simp: authStep_def sessionOf_def refreshSession_def rejectRefresh_def Let_def split: option.splits intro!: dead_issue dead_update dead_revoke)
next
  case (Logout cookie)
  then show ?thesis using assms(1) by (auto simp: authStep_def logout_def split: option.splits intro!: dead_update)
next
  case (Provider F column failure profile)
  then show ?thesis using dead_provider assms by (simp add: authStep_def sessionOf_def)
qed

lemma dead_run:
  assumes "deadToken h db" "\<forall>(now, op)\<in>set ops. \<forall>t. sessionOf op = Some t \<longrightarrow> au_Sha L t \<noteq> h"
  shows "deadToken h (runAuth L ops db)"
  using assms by (induction ops arbitrary: db) (auto simp: dead_step split: prod.splits)

lemma dead_refused:
  assumes "deadToken (au_Sha L token) db"
  shows "fst (refreshSession L now F (Some token) db) \<in> range Inl"
proof -
  have "find (\<lambda>r. rt_TokenHash r = au_Sha L token \<and> rt_RevokedAt r = None \<and> rt_ExpiresAt r > now) (ad_Refresh db) = None"
    using assms by (auto simp: find_None_iff deadRows_def list_all_iff)
  then show ?thesis by (simp add: refreshSession_def rejectRefresh_def Let_def split: option.splits)
qed

text \<open>C33: A refresh token is rotated at most once: after a request has exchanged it, no sequence of requests of any kind
  makes it acceptable again; every later exchange is refused.\<close>

theorem refresh_token_single_use:
  assumes "refreshSession L now F (Some token) db = (Ok reply, db1)"
    and "\<forall>(t, op)\<in>set ((now, Refresh F None) # ops). \<forall>s. sessionOf op = Some s \<longrightarrow> au_Sha L s \<noteq> au_Sha L token"
    and "distinct (map rt_TokenHash (ad_Refresh db))"
  shows "fst (refreshSession L later F' (Some token) (runAuth L ops db1)) \<in> range Inl"
proof -
  let ?live = "\<lambda>r. rt_TokenHash r = au_Sha L token \<and> rt_RevokedAt r = None \<and> rt_ExpiresAt r > now"
  obtain r where r: "find ?live (ad_Refresh db) = Some r"
    using assms(1) by (auto simp: refreshSession_def rejectRefresh_def Let_def split: option.splits if_splits)
  have "rt_ExpiresAt x > now" if "x \<in> set (ad_Refresh db)" "rt_TokenHash x = au_Sha L token" for x
  proof -
    have "r \<in> set (ad_Refresh db)" "?live r" using r by (auto simp: find_Some_iff)
    moreover have "x = r" using that calculation assms(3) by (metis (no_types, lifting) inj_onD distinct_map)
    ultimately show ?thesis by simp
  qed
  then have "deadRows (au_Sha L token) (updateWhere ?live (\<lambda>r. r\<lparr>rt_RevokedAt := Some now\<rparr>) (ad_Refresh db))"
    by (auto simp: deadRows_def updateWhere_def list_all_iff)
  moreover have "au_Sha L (fv_Session F) \<noteq> au_Sha L token" using assms(2) by (auto simp: sessionOf_def)
  ultimately have "deadToken (au_Sha L token) db1"
    using assms(1) r by (auto simp: refreshSession_def Let_def intro!: dead_issue)
  then have "deadToken (au_Sha L token) (runAuth L ops db1)" using assms(2) by (intro dead_run) auto
  then show ?thesis by (rule dead_refused)
qed

text \<open>An account with one session, a library whose hash is the text itself, and fresh values.\<close>

definition plainAuth :: authLib where
  "plainAuth = \<lparr>au_Sha = (\<lambda>s. s), au_HashPassword = Some, au_CheckPassword = (=), au_PasswordEnabled = True, au_MailConfigured = True,
     au_MailOK = True, au_ParseUUID = (\<lambda>_. True), au_Sign = ac_Subject\<rparr>"

definition demoUser :: "bool \<Rightarrow> userRow" where
  "demoUser verified = \<lparr>us_ID = ''u'', us_TenantID = ''a'', us_Email = ''x@y'', us_PasswordHash = Some ''password'', us_Subjects = [],
     us_Role = ''owner'', us_EmailVerified = verified\<rparr>"

definition demoAuthDB :: "bool \<Rightarrow> authDB" where
  "demoAuthDB verified = \<lparr>ad_Tenants = [(''a'', ''A'')], ad_Users = [demoUser verified],
     ad_Refresh = [\<lparr>rt_UserID = ''u'', rt_TokenHash = ''s0'', rt_RevokedAt = None, rt_ExpiresAt = dayNS\<rparr>], ad_Verifications = [],
     ad_Resets = [\<lparr>rs_TokenHash = ''link'', rs_UserID = ''u'', rs_ExpiresAt = dayNS, rs_CreatedAt = 0\<rparr>], ad_Invitations = []\<rparr>"

definition freshOf :: "string \<Rightarrow> freshValues" where
  "freshOf s = \<lparr>fv_Link = s, fv_Session = s, fv_User = s, fv_Tenant = s\<rparr>"

theorem refresh_token_single_use_witness:
  "\<exists>reply db1. refreshSession plainAuth 1 (freshOf ''s1'') (Some ''s0'') (demoAuthDB True) = (Ok reply, db1)
     \<and> fst (refreshSession plainAuth 9 (freshOf ''s3'') (Some ''s0'') (runAuth plainAuth [(2, Login (freshOf ''s2'') ''x@y'' ''password'')] db1)) \<in> range Inl"
proof -
  obtain reply db1 where r: "refreshSession plainAuth 1 (freshOf ''s1'') (Some ''s0'') (demoAuthDB True) = (Ok reply, db1)"
    by (simp add: refreshSession_def plainAuth_def demoAuthDB_def Let_def)
  moreover have "fst (refreshSession plainAuth 9 (freshOf ''s3'') (Some ''s0'') (runAuth plainAuth [(2, Login (freshOf ''s2'') ''x@y'' ''password'')] db1)) \<in> range Inl"
    by (rule refresh_token_single_use [OF r]) (simp_all add: sessionOf_def plainAuth_def freshOf_def demoAuthDB_def)
  ultimately show ?thesis by blast
qed

text \<open>A token that was rotated longer ago than the grace ends every session of its user.\<close>

lemma reuse_revokes_all:
  assumes "find (\<lambda>r. rt_TokenHash r = au_Sha L token) (ad_Refresh db) = Some r" "rt_RevokedAt r = Some t" "now - t \<ge> refreshReuseGrace"
    and "deadToken (au_Sha L token) db"
  shows "refreshSession L now F (Some token) db = (Err (ApiError 401 [] ''refresh token reuse detected''), revokeSessions now (rt_UserID r) db)
    \<and> (\<forall>x\<in>set (ad_Refresh (revokeSessions now (rt_UserID r) db)). rt_UserID x = rt_UserID r \<longrightarrow> rt_RevokedAt x \<noteq> None)"
proof -
  have "find (\<lambda>r. rt_TokenHash r = au_Sha L token \<and> rt_RevokedAt r = None \<and> rt_ExpiresAt r > now) (ad_Refresh db) = None"
    using assms(4) by (auto simp: find_None_iff deadRows_def list_all_iff)
  then show ?thesis using assms(1-3) by (auto simp: refreshSession_def rejectRefresh_def revokeSessions_def updateWhere_def Let_def)
qed

section \<open>Resets\<close>

text \<open>C34: A reset of a password needs a live link that was issued for the account, and afterwards no session of the
  account is live, no link of it is left, the same link is refused, and only the new password opens it.\<close>

theorem reset_ends_sessions:
  assumes "resetPassword L now token password db = (Ok reply, db')" "distinct (map rs_TokenHash (ad_Resets db))"
  shows "\<exists>link\<in>set (ad_Resets db). rs_TokenHash link = au_Sha L token \<and> now < rs_ExpiresAt link
    \<and> (\<forall>r\<in>set (ad_Refresh db'). rt_UserID r = rs_UserID link \<longrightarrow> rt_RevokedAt r \<noteq> None)
    \<and> (\<forall>r\<in>set (ad_Resets db'). rs_UserID r \<noteq> rs_UserID link) \<and> (\<forall>v\<in>set (ad_Verifications db'). ve_UserID v \<noteq> rs_UserID link)
    \<and> (\<forall>later p. fst (resetPassword L later token p db') \<in> range Inl)
    \<and> (\<forall>u\<in>set (ad_Users db'). us_ID u = rs_UserID link \<longrightarrow> us_PasswordHash u = au_HashPassword L password)"
proof -
  let ?ok = "\<lambda>r. rs_TokenHash r = au_Sha L token \<and> rs_ExpiresAt r > now"
  obtain hash link where h: "au_HashPassword L password = Some hash" "token \<noteq> []" "find ?ok (ad_Resets db) = Some link"
      "db' = revokeSessions now (rs_UserID link) (deleteVerifications (rs_UserID link)
         ((setUsers (\<lambda>u. us_ID u = rs_UserID link) (\<lambda>u. u\<lparr>us_PasswordHash := Some hash, us_EmailVerified := True\<rparr>) db)
            \<lparr>ad_Resets := filter (\<lambda>r. rs_UserID r \<noteq> rs_UserID link) (ad_Resets db)\<rparr>))"
    using assms(1) by (auto simp: resetPassword_def Let_def split: if_splits option.splits)
  have l: "link \<in> set (ad_Resets db)" "?ok link" using h(3) by (auto simp: find_Some_iff)
  have rs: "ad_Resets db' = filter (\<lambda>r. rs_UserID r \<noteq> rs_UserID link) (ad_Resets db)"
    by (simp add: h(4) revokeSessions_def deleteVerifications_def)
  have "rs_TokenHash r \<noteq> au_Sha L token" if "r \<in> set (ad_Resets db')" for r
  proof
    assume e: "rs_TokenHash r = au_Sha L token"
    have "r \<in> set (ad_Resets db)" "rs_UserID r \<noteq> rs_UserID link" using that rs by auto
    moreover have "r = link" using calculation(1) e l assms(2) by (metis (no_types, lifting) inj_onD distinct_map)
    ultimately show False by simp
  qed
  then have "find (\<lambda>r. rs_TokenHash r = au_Sha L token \<and> rs_ExpiresAt r > later) (ad_Resets db') = None" for later
    by (auto simp: find_None_iff)
  then have again: "fst (resetPassword L later token p db') \<in> range Inl" for later p
    by (auto simp: resetPassword_def h(2) split: option.splits)
  have users: "ad_Users db' = updateWhere (\<lambda>u. us_ID u = rs_UserID link) (\<lambda>u. u\<lparr>us_PasswordHash := Some hash, us_EmailVerified := True\<rparr>) (ad_Users db)"
    by (simp add: h(4) revokeSessions_def deleteVerifications_def setUsers_def)
  show ?thesis
  proof (intro bexI [OF _ l(1)] conjI)
    show "rs_TokenHash link = au_Sha L token" "now < rs_ExpiresAt link" using l(2) by simp_all
    show "\<forall>r\<in>set (ad_Refresh db'). rt_UserID r = rs_UserID link \<longrightarrow> rt_RevokedAt r \<noteq> None"
      by (auto simp: h(4) revokeSessions_def updateWhere_def)
    show "\<forall>r\<in>set (ad_Resets db'). rs_UserID r \<noteq> rs_UserID link" using rs by simp
    show "\<forall>v\<in>set (ad_Verifications db'). ve_UserID v \<noteq> rs_UserID link"
      by (simp add: h(4) revokeSessions_def deleteVerifications_def)
    show "\<forall>later p. fst (resetPassword L later token p db') \<in> range Inl" using again by blast
    show "\<forall>u\<in>set (ad_Users db'). us_ID u = rs_UserID link \<longrightarrow> us_PasswordHash u = au_HashPassword L password"
      by (auto simp: users updateWhere_def h(1))
  qed
qed

theorem reset_ends_sessions_witness:
  "\<exists>reply db'. resetPassword plainAuth 1 ''link'' ''new password'' (demoAuthDB True) = (Ok reply, db')
     \<and> fst (resetPassword plainAuth 2 ''link'' ''another one'' db') \<in> range Inl"
proof -
  obtain reply db' where r: "resetPassword plainAuth 1 ''link'' ''new password'' (demoAuthDB True) = (Ok reply, db')"
    by (simp add: resetPassword_def plainAuth_def demoAuthDB_def demoUser_def Let_def)
  moreover have "distinct (map rs_TokenHash (ad_Resets (demoAuthDB True)))" by (simp add: demoAuthDB_def)
  ultimately show ?thesis using reset_ends_sessions by blast
qed

section \<open>Confirmed addresses\<close>

text \<open>What proves an address, for each kind of request.\<close>

definition provesAddress :: "authLib \<Rightarrow> int \<Rightarrow> authOp \<Rightarrow> authDB \<Rightarrow> userRow \<Rightarrow> bool" where
  "provesAddress L now op db u = (case op of
     Verify token \<Rightarrow> \<exists>v\<in>set (ad_Verifications db). ve_TokenHash v = au_Sha L token \<and> now < ve_ExpiresAt v \<and> ve_UserID v = us_ID u
   | Reset token password \<Rightarrow> \<exists>r\<in>set (ad_Resets db). rs_TokenHash r = au_Sha L token \<and> now < rs_ExpiresAt r \<and> rs_UserID r = us_ID u
   | Register F body \<Rightarrow> ad_Users db = [] \<or> (\<exists>i\<in>set (ad_Invitations db). iv_TokenHash i = au_Sha L (rg_InviteToken body) \<and> iv_Email i = us_Email u
        \<and> iv_AcceptedAt i = None \<and> now < iv_ExpiresAt i)
   | Provider F column failure profile \<Rightarrow> us_Email u = toLower (snd profile)
   | _ \<Rightarrow> False)"

lemma user_rows [simp]:
  "ad_Users (issueRefreshToken L now t uid db) = ad_Users db"
  "ad_Users (deleteSessions uid db) = ad_Users db"
  "ad_Users (deleteVerifications uid db) = ad_Users db"
  "ad_Users (revokeSessions now uid db) = ad_Users db"
  "ad_Users (snd (sendEmailVerification L now t uid e db)) = ad_Users db"
  "ad_Users (setUsers P f db) = updateWhere P f (ad_Users db)"
  by (simp_all add: issueRefreshToken_def deleteSessions_def deleteVerifications_def revokeSessions_def sendEmailVerification_def setUsers_def Let_def)

text \<open>An update that keeps the identifier confirms a row only where it is made.\<close>

lemma updated_row:
  assumes "u \<in> set (updateWhere P f rows)" "us_EmailVerified u" "\<forall>x\<in>set rows. us_ID x = us_ID u \<longrightarrow> \<not> us_EmailVerified x"
    and "\<And>x. us_ID (f x) = us_ID x"
  shows "\<exists>x\<in>set rows. P x \<and> u = f x \<and> us_EmailVerified (f x) \<and> \<not> us_EmailVerified x"
  using assms by (auto simp: updateWhere_def split: if_splits)

lemma confirmed_register:
  assumes "u \<in> set (ad_Users (snd (registerPassword L now F body db)))" "us_EmailVerified u"
    and "\<forall>x\<in>set (ad_Users db). us_ID x = us_ID u \<longrightarrow> \<not> us_EmailVerified x"
  shows "provesAddress L now (Register F body) db u"
proof -
  have old: "u \<notin> set (ad_Users db)" using assms(2,3) by blast
  define email where "email = toLower (trimSpace (rg_Email body))"
  have recl: "u \<notin> set (ad_Users (snd (reclaimAccount L now F x hash db)))" for x hash
  proof
    assume "u \<in> set (ad_Users (snd (reclaimAccount L now F x hash db)))"
    then have "u \<in> set (updateWhere (\<lambda>u. us_ID u = us_ID x \<and> \<not> us_EmailVerified u) (\<lambda>u. u\<lparr>us_PasswordHash := Some hash\<rparr>) (ad_Users db))"
      by (simp add: reclaimAccount_def)
    from updated_row [OF this assms(2,3)] show False by auto
  qed
  have "u \<in> set (ad_Users (snd (createAccount L now F body email hash db))) \<Longrightarrow> provesAddress L now (Register F body) db u" for hash
  proof -
    assume u: "u \<in> set (ad_Users (snd (createAccount L now F body email hash db)))"
    show ?thesis
    proof (cases "newAccountTenant L now (fv_Tenant F) (rg_TenantName body) (rg_InviteToken body) email db")
      case (Inl e)
      then show ?thesis using u old by (simp add: createAccount_def)
    next
      case (Inr r)
      then obtain tid role db1 where n: "newAccountTenant L now (fv_Tenant F) (rg_TenantName body) (rg_InviteToken body) email db = Ok (tid, role, db1)"
        by (cases r) auto
      have us: "ad_Users db1 = ad_Users db" using newAccountTenant_rows [OF n] by simp
      have "us_Email u = email \<and> (rg_InviteToken body \<noteq> [] \<or> ad_Users db = [])"
        using u n old us assms(2) by (auto simp: createAccount_def Let_def split: if_splits)
      moreover have "\<exists>i\<in>set (ad_Invitations db). iv_TokenHash i = au_Sha L (rg_InviteToken body) \<and> iv_Email i = email
          \<and> iv_AcceptedAt i = None \<and> now < iv_ExpiresAt i" if "rg_InviteToken body \<noteq> []"
        using n that by (auto simp: newAccountTenant_def openInvitation_def find_Some_iff split: option.splits)
      ultimately show ?thesis by (auto simp: provesAddress_def)
    qed
  qed
  then show ?thesis using assms(1) old recl
    by (auto simp: registerPassword_def Let_def email_def [symmetric] split: option.splits if_splits)
qed

lemma confirmed_provider:
  assumes "distinct (map us_ID (ad_Users db))" "u \<in> set (ad_Users (snd (providerLogin L now F column failure profile db)))" "us_EmailVerified u"
    and "\<forall>x\<in>set (ad_Users db). us_ID x = us_ID u \<longrightarrow> \<not> us_EmailVerified x"
  shows "us_Email u = toLower (snd profile)"
proof -
  let ?email = "toLower (snd profile)"
  have old: "u \<notin> set (ad_Users db)" using assms(3,4) by blast
  have r: "u \<in> set (ad_Users (snd (resolveIdentity now F column (fst profile) ?email db)))"
    using assms(2) by (auto simp: providerLogin_def split: sum.splits prod.splits)
  show ?thesis
  proof (cases "userByEmail ?email db")
    case (Some x)
    then have x: "x \<in> set (ad_Users db)" "us_Email x = ?email" by (auto simp: userByEmail_def find_Some_iff)
    have same: "y = x" if "y \<in> set (ad_Users db)" "us_ID y = us_ID x" for y
      using that x(1) assms(1) by (metis inj_onD distinct_map)
    have ids: "us_ID (linkSubject column (fst profile) y) = us_ID y" "us_EmailVerified (linkSubject column (fst profile) y) = us_EmailVerified y"
        "us_Email (linkSubject column (fst profile) y) = us_Email y" for y
      by (simp_all add: linkSubject_def)
    show ?thesis
    proof (cases "us_EmailVerified x")
      case True
      then have "u \<in> set (updateWhere (\<lambda>y. us_ID y = us_ID x) (linkSubject column (fst profile)) (ad_Users db))"
        using r Some old by (auto simp: resolveIdentity_def split: if_splits option.splits)
      from updated_row [OF this assms(3,4) ids(1)] show ?thesis using ids(2) by auto
    next
      case False
      let ?f = "\<lambda>y. (linkSubject column (fst profile) y)\<lparr>us_EmailVerified := True, us_PasswordHash := None\<rparr>"
      have "u \<in> set (updateWhere (\<lambda>y. us_ID y = us_ID x \<and> \<not> us_EmailVerified y) ?f (ad_Users db))"
        using r Some old False by (auto simp: resolveIdentity_def split: if_splits option.splits)
      then obtain y where "y \<in> set (ad_Users db)" "us_ID y = us_ID x" "u = ?f y"
        using updated_row [OF _ assms(3,4), of _ ?f] ids(1) by auto
      then show ?thesis using same x(2) ids(3) by auto
    qed
  next
    case None
    then show ?thesis using r old
      by (auto simp: resolveIdentity_def claimInvitation_def Let_def split: if_splits option.splits list.splits prod.splits)
  qed
qed

text \<open>C35: An account becomes confirmed only by a proof of its address: a live link that was mailed for it, an open
  invitation to it, the confirmation of a provider, or being the first account of the installation.\<close>

theorem confirmed_needs_proof:
  assumes "distinct (map us_ID (ad_Users db))" "u \<in> set (ad_Users (snd (authStep L now op db)))" "us_EmailVerified u"
    and "\<forall>x\<in>set (ad_Users db). us_ID x = us_ID u \<longrightarrow> \<not> us_EmailVerified x"
  shows "provesAddress L now op db u"
proof -
  have old: "u \<notin> set (ad_Users db)" using assms(3,4) by blast
  note step = assms(2) [unfolded authStep_def]
  show ?thesis
  proof (cases op)
    case (Register F body)
    then show ?thesis using confirmed_register step assms(3,4) by simp
  next
    case (Provider F column failure profile)
    then show ?thesis using confirmed_provider [OF assms(1) _ assms(3,4)] step by (simp add: provesAddress_def)
  next
    case (Verify token)
    then obtain v where v: "find (\<lambda>v. ve_TokenHash v = au_Sha L token \<and> ve_ExpiresAt v > now \<and> list_ex (\<lambda>u. us_ID u = ve_UserID v) (ad_Users db)) (ad_Verifications db) = Some v"
        "u \<in> set (updateWhere (\<lambda>u. us_ID u = ve_UserID v) (\<lambda>u. u\<lparr>us_EmailVerified := True\<rparr>) (ad_Users db))"
      using step old by (auto simp: verifyEmail_def Let_def split: option.splits if_splits)
    then have "us_ID u = ve_UserID v" using updated_row [OF v(2) assms(3,4)] by auto
    then show ?thesis using v(1) Verify by (auto simp: provesAddress_def find_Some_iff)
  next
    case (Reset token password)
    then obtain r hash where r: "find (\<lambda>r. rs_TokenHash r = au_Sha L token \<and> rs_ExpiresAt r > now) (ad_Resets db) = Some r"
        "u \<in> set (updateWhere (\<lambda>u. us_ID u = rs_UserID r) (\<lambda>u. u\<lparr>us_PasswordHash := Some hash, us_EmailVerified := True\<rparr>) (ad_Users db))"
      using step old by (auto simp: resetPassword_def Let_def split: option.splits if_splits)
    then have "us_ID u = rs_UserID r" using updated_row [OF r(2) assms(3,4)] by auto
    then show ?thesis using r(1) Reset by (auto simp: provesAddress_def find_Some_iff)
  next
    case (Login F email password)
    then show ?thesis using step old by (auto simp: loginPassword_def split: option.splits sum.splits prod.splits if_splits) (metis snd_conv user_rows(5))+
  next
    case (Forgot F email)
    then show ?thesis using step old by (auto simp: forgotPassword_def sendPasswordReset_def Let_def split: option.splits prod.splits if_splits)
  next
    case (Refresh F cookie)
    then show ?thesis using step old by (auto simp: refreshSession_def rejectRefresh_def Let_def split: option.splits if_splits)
  next
    case (Logout cookie)
    then show ?thesis using step old by (auto simp: logout_def split: option.splits)
  qed
qed

theorem confirmed_needs_proof_witness:
  "us_EmailVerified (demoUser True)
     \<and> provesAddress plainAuth 1 (Reset ''link'' ''password'') (demoAuthDB False) (demoUser True)"
proof -
  have "demoUser True \<in> set (ad_Users (snd (authStep plainAuth 1 (Reset ''link'' ''password'') (demoAuthDB False))))"
    by (simp add: authStep_def resetPassword_def plainAuth_def demoAuthDB_def demoUser_def Let_def updateWhere_def)
  moreover have "us_EmailVerified (demoUser True)" by (simp add: demoUser_def)
  moreover have "\<forall>x\<in>set (ad_Users (demoAuthDB False)). us_ID x = us_ID (demoUser True) \<longrightarrow> \<not> us_EmailVerified x"
    by (simp add: demoAuthDB_def demoUser_def)
  moreover have "distinct (map us_ID (ad_Users (demoAuthDB False)))" by (simp add: demoAuthDB_def)
  ultimately show ?thesis using confirmed_needs_proof by blast
qed

text \<open>A login with the right password on an unconfirmed account adds a link, and while it is live nobody else can
  register the address, whoever made the account.\<close>

lemma login_blocks_registration:
  assumes "au_PasswordEnabled L" "userByEmail email db = Some u" "us_PasswordHash u = Some hash" "au_CheckPassword L hash password"
    "\<not> us_EmailVerified u" "email = toLower (trimSpace (rg_Email body))" "toLower email = email" "email \<noteq> []" "password \<noteq> []"
    "now \<le> later" "later < now + dayNS" "length (rg_Password body) \<ge> 8" "au_HashPassword L (rg_Password body) = Some h"
  shows "registerPassword L later F' body (snd (loginPassword L now F email password db))
    = (Err (ApiError 409 [] ''an account with this email already exists''), snd (loginPassword L now F email password db))"
  using assms by (auto simp: registerPassword_def loginPassword_def userByEmail_def sendEmailVerification_def Let_def)

section \<open>Keys of an issuer\<close>

text \<open>The issuer is asked at most once in 30 seconds for an address whose keys were fetched, whatever identifiers tokens name.\<close>

lemma jwks_asked:
  assumes "jwksKey now fetch uri kid cache = (r, cache', True)" "map_of cache uri = Some e"
  shows "now - jw_Fetched e \<ge> 30 * timeSecond"
  using assms by (auto simp: jwksKey_def Let_def split: option.splits if_splits)

text \<open>A failed fetch leaves no trace, so the next token with an unknown key asks again.\<close>

lemma jwks_failure_forgotten:
  assumes "jwksKey now (Err e) uri kid cache = (r, cache', True)" "now \<le> later"
    and "map_of cache uri = None"
  shows "cache' = cache \<and> snd (snd (jwksKey later fetch uri kid' cache'))"
  using assms by (auto simp: jwksKey_def Let_def split: sum.splits)

section \<open>OpenID Connect\<close>

lemma verifyOIDC_None:
  "verifyOIDCIDToken parsed jwks issuer clientID nonce = None \<longleftrightarrow> issuer \<noteq> [] \<and> jwks \<noteq> [] \<and> nonce \<noteq> []
    \<and> (\<exists>c. parsed = Ok c \<and> trimSuffix ''/'' (oc_Issuer c) = issuer \<and> (length (oc_Audience c) > 1 \<longrightarrow> oc_Azp c = clientID) \<and> oc_Nonce c = nonce)"
  by (auto simp: verifyOIDCIDToken_def split: sum.splits)

text \<open>A session of a login by OpenID Connect needs the state and the nonce of this browser, a verified address and an
  ID token of the configured issuer for the same subject.\<close>

lemma oidc_login_proved:
  assumes "oidcCallback L now F configured clientID P code state stateCookie nonceCookie db = (Ok reply, db')" "rp_Refresh reply \<noteq> None"
  shows "stateCookie = Some state \<and> (\<exists>doc token info idToken c.
     oidcDiscovery configured (op_Discovery P) = Ok doc \<and> op_Token P (dd_Token doc) code = Some token \<and> nonceCookie = Some (oc_Nonce c)
     \<and> op_UserInfo P (dd_Userinfo doc) (''Bearer '' @ apiString (objGet token ''access_token'')) = Some info
     \<and> asStr (objGet token ''id_token'') = Some idToken \<and> op_Parse P (dd_JWKS doc) idToken clientID (oi_Sub info) = Ok c
     \<and> trimSuffix ''/'' (oc_Issuer c) = trimSuffix ''/'' configured \<and> emailClaimVerified (oi_EmailVerified info))"
proof -
  let ?issuer = "trimSuffix ''/'' configured"
  obtain nonce where n: "stateCookie = Some state" "nonceCookie = Some nonce"
    using assms by (auto simp: oidcCallback_def redirectTo_def plainReply_def split: if_splits)
  obtain doc token info where f: "oidcDiscovery configured (op_Discovery P) = Ok doc" "op_Token P (dd_Token doc) code = Some token"
      "op_UserInfo P (dd_Userinfo doc) (''Bearer '' @ apiString (objGet token ''access_token'')) = Some info"
      "emailClaimVerified (oi_EmailVerified info)"
    using assms by (auto simp: oidcCallback_def redirectTo_def plainReply_def split: if_splits option.splits sum.splits)
  obtain idToken where t: "asStr (objGet token ''id_token'') = Some idToken"
      "verifyOIDCIDToken (op_Parse P (dd_JWKS doc) idToken clientID (oi_Sub info)) (dd_JWKS doc) ?issuer clientID nonce = None"
    using assms n f by (auto simp: oidcCallback_def redirectTo_def plainReply_def Let_def split: if_splits option.splits)
  from t(2) obtain c where "op_Parse P (dd_JWKS doc) idToken clientID (oi_Sub info) = Ok c"
      "trimSuffix ''/'' (oc_Issuer c) = ?issuer" "nonce = oc_Nonce c"
    by (auto simp: verifyOIDC_None)
  then show ?thesis using n f t(1) by blast
qed

end
