(* ===== verification/Triggers.thy ===== *)
theory Triggers
  imports Backfills ApiHttp Base64
begin

text \<open>
  Triggers (\<^verbatim>\<open>internal/api/routes_triggers.go\<close>, the resolver of webhooks in \<^verbatim>\<open>db/028_public_entry_resolvers.sql\<close>): webhooks with
  their signature and the marks of deliveries in Redis, the events that start pipelines, the reader of the event
  stream, and the events of OpenLineage.

  Redis is a list of keys with their value and the instant they expire; a command that does not answer has no
  effect. The hash, the HMAC, the JSON decoders and the store of payloads are arguments.
\<close>

section \<open>Redis\<close>

type_synonym redisKV = "(string \<times> string \<times> int) list"

definition kvGet :: "int \<Rightarrow> string \<Rightarrow> redisKV \<Rightarrow> string option" where
  "kvGet now key kv = (case map_of kv key of Some (v, expires) \<Rightarrow> if now \<le> expires then Some v else None | None \<Rightarrow> None)"

definition kvSet :: "int \<Rightarrow> string \<Rightarrow> string \<Rightarrow> int \<Rightarrow> redisKV \<Rightarrow> redisKV" where
  "kvSet now key v ttl kv = AList.update key (v, now + ttl) kv"

definition kvSetNX :: "int \<Rightarrow> string \<Rightarrow> string \<Rightarrow> int \<Rightarrow> redisKV \<Rightarrow> bool \<times> redisKV" where
  "kvSetNX now key v ttl kv = (if kvGet now key kv = None then (True, kvSet now key v ttl kv) else (False, kv))"

definition kvSetXX :: "int \<Rightarrow> string \<Rightarrow> string \<Rightarrow> int \<Rightarrow> redisKV \<Rightarrow> redisKV" where
  "kvSetXX now key v ttl kv = (if kvGet now key kv = None then kv else kvSet now key v ttl kv)"

definition kvDel :: "string list \<Rightarrow> redisKV \<Rightarrow> redisKV" where
  "kvDel keys kv = filter (\<lambda>(k, x). k \<notin> set keys) kv"

section \<open>Webhooks\<close>

text \<open>A row of \<^verbatim>\<open>pipelines\<close>: the definition is a JSON object, whose fields the queries read as texts.\<close>

record hookRow =
  hk_ID :: string
  hk_TenantID :: string
  hk_Status :: string
  hk_Environment :: string
  hk_CreatedAt :: int
  hk_Definition :: obj

definition triggerText :: "hookRow \<Rightarrow> string \<Rightarrow> string option" where
  "triggerText r field = (case asObj (objGet (hk_Definition r) ''trigger'') of Some t \<Rightarrow> asStr (objGet t field) | None \<Rightarrow> None)"

definition resolveWebhookPipelines :: "string \<Rightarrow> hookRow list \<Rightarrow> hookRow list" where
  "resolveWebhookPipelines path rows =
     sort_key (\<lambda>r. if hk_Environment r = ''prod'' then 0 else (1 :: int)) (sort_key (\<lambda>r. - hk_CreatedAt r)
       (filter (\<lambda>r. hk_Status r = ''active'' \<and> triggerText r ''type'' = Some ''webhook'' \<and> triggerText r ''path'' = Some path) rows))"

record hookLib =
  hl_Sha :: "string \<Rightarrow> string"
  hl_Hmac :: "string \<Rightarrow> string \<Rightarrow> string"
  hl_Decode :: "string \<Rightarrow> gv option"
  hl_Struct :: "obj \<Rightarrow> PipelineDefinition option"
  hl_UUID :: "string \<Rightarrow> bool"
  hl_Legacy :: bool
  hl_Billing :: bool
  hl_Defaults :: planRow

definition webhookSignatureMaxAge :: int where
  "webhookSignatureMaxAge = 5 * 60 * timeSecond"

definition webhookSignature :: "hookLib \<Rightarrow> string \<Rightarrow> string \<Rightarrow> string \<Rightarrow> string" where
  "webhookSignature L secret timestamp raw = hl_Hmac L secret ((if timestamp \<noteq> [] then timestamp @ ''.'' else []) @ raw)"

definition parseSeconds :: "string \<Rightarrow> int option" where
  "parseSeconds s =
     (let (neg, digits) = (case s of c # r \<Rightarrow> if c = CHR ''-'' then (True, r) else if c = CHR ''+'' then (False, r) else (False, s) | [] \<Rightarrow> (False, []));
          n = foldl (\<lambda>m c. 10 * m + (of_char c - 48)) 0 digits; i = (if neg then - n else n)
      in if digits = [] \<or> \<not> list_all isDigit digits \<or> i < - (2 ^ 63) \<or> i \<ge> 2 ^ 63 then None else Some i)"

type_synonym httpHeader = "string \<Rightarrow> string"

definition unauthorized :: "string \<Rightarrow> apiError" where
  "unauthorized message = ApiError 401 [] message"

text \<open>A duration that does not fit saturates, which is outside of the window as well.\<close>

definition verifyWebhookSignature :: "hookLib \<Rightarrow> httpHeader \<Rightarrow> string \<Rightarrow> string \<Rightarrow> int \<Rightarrow> apiError option" where
  "verifyWebhookSignature L header secret raw now =
     (case hexDecode (header ''X-Signature-Sha256'') of
        None \<Rightarrow> Some (unauthorized ''bad signature'')
      | Some provided \<Rightarrow>
          if provided = [] then Some (unauthorized ''bad signature'')
          else let timestamp = trimSpace (header ''X-Signature-Timestamp'');
            stamp = (if timestamp = [] then (if hl_Legacy L then None else Some (unauthorized ''X-Signature-Timestamp is required; sign \"<timestamp>.<body>\"''))
              else case parseSeconds timestamp of
                None \<Rightarrow> Some (unauthorized ''bad signature timestamp'')
              | Some seconds \<Rightarrow>
                  let age = now - seconds * timeSecond in
                  if age > webhookSignatureMaxAge \<or> age < - webhookSignatureMaxAge
                  then Some (unauthorized ''signature timestamp outside the allowed window'') else None)
          in case stamp of
               Some e \<Rightarrow> Some e
             | None \<Rightarrow> if secret = [] \<or> provided \<noteq> webhookSignature L secret timestamp raw then Some (unauthorized ''bad signature'') else None)"

subsection \<open>Claims\<close>

record webhookClaim =
  wc_Keys :: "string list"
  wc_IdemKey :: string
  wc_Completed :: bool

text \<open>What one delivery meets: the time, whether each command to Redis answers, the store of payloads, the start of a run.\<close>

record deliveryEnv =
  dl_Now :: int
  dl_SigOK :: bool
  dl_IdemOK :: bool
  dl_GetOK :: bool
  dl_SetOK :: bool
  dl_DelOK :: bool
  dl_Write :: "gv \<Rightarrow> string \<Rightarrow> DataRef option"
  dl_Fire :: fireEnv

datatype claimOutcome = Claimed webhookClaim | ClaimRefused apiError | ClaimExisting string

definition webhookClaimPending :: string where
  "webhookClaimPending = ''pending''"

definition releaseClaim :: "deliveryEnv \<Rightarrow> webhookClaim \<Rightarrow> redisKV \<Rightarrow> redisKV" where
  "releaseClaim E c kv = (if wc_Completed c \<or> wc_Keys c = [] \<or> \<not> dl_DelOK E then kv else kvDel (wc_Keys c) kv)"

definition completeClaim :: "deliveryEnv \<Rightarrow> webhookClaim \<Rightarrow> string \<Rightarrow> redisKV \<Rightarrow> webhookClaim \<times> redisKV" where
  "completeClaim E c executionID kv =
     (c\<lparr>wc_Completed := True\<rparr>,
      if wc_IdemKey c \<noteq> [] \<and> dl_SetOK E then kvSetXX (dl_Now E) (wc_IdemKey c) executionID (24 * 3600 * timeSecond) kv else kv)"

definition signatureKey :: "hookLib \<Rightarrow> string \<Rightarrow> httpHeader \<Rightarrow> string" where
  "signatureKey L pid header =
     ''dataflow:webhook-seen:'' @ hl_Sha L (pid @ '':'' @ header ''X-Signature-Timestamp'' @ '':'' @ toLower (header ''X-Signature-Sha256''))"

definition idempotencyMark :: "hookLib \<Rightarrow> string \<Rightarrow> string \<Rightarrow> string" where
  "idempotencyMark L pid key = ''dataflow:webhook-idem:'' @ hl_Sha L (pid @ '':'' @ key)"

definition claimWebhookDelivery :: "hookLib \<Rightarrow> deliveryEnv \<Rightarrow> string \<Rightarrow> httpHeader \<Rightarrow> redisKV \<Rightarrow> claimOutcome \<times> redisKV" where
  "claimWebhookDelivery L E pid header kv =
     (let sigKey = signatureKey L pid header; empty = \<lparr>wc_Keys = [], wc_IdemKey = [], wc_Completed = False\<rparr> in
      if \<not> dl_SigOK E then (Claimed empty, kv)
      else case kvSetNX (dl_Now E) sigKey webhookClaimPending (2 * webhookSignatureMaxAge) kv of
        (False, _) \<Rightarrow> (ClaimRefused (ApiError 409 [] ''duplicate webhook delivery''), kv)
      | (True, kv1) \<Rightarrow>
          let c1 = empty\<lparr>wc_Keys := [sigKey]\<rparr>; idem = trimSpace (header ''Idempotency-Key''); idemKey = idempotencyMark L pid idem in
          if idem = [] \<or> \<not> dl_IdemOK E then (Claimed c1, kv1)
          else case kvSetNX (dl_Now E) idemKey webhookClaimPending (24 * 3600 * timeSecond) kv1 of
            (True, kv2) \<Rightarrow> (Claimed \<lparr>wc_Keys = [sigKey, idemKey], wc_IdemKey = idemKey, wc_Completed = False\<rparr>, kv2)
          | (False, _) \<Rightarrow>
              let kv2 = releaseClaim E c1 kv1;
                  existing = (if dl_GetOK E then case kvGet (dl_Now E) idemKey kv2 of Some v \<Rightarrow> v | None \<Rightarrow> [] else []) in
              if existing = [] \<or> existing = webhookClaimPending
              then (ClaimRefused (ApiError 409 [] ''webhook delivery with this Idempotency-Key is still being processed''), kv2)
              else (ClaimExisting existing, kv2))"

subsection \<open>The handler\<close>

datatype hookReply =
    HookRefused apiError | HookAgent agent_error | HookFailed | HookQuota int int | HookDuplicate string | HookStarted string

record hookRequest =
  hr_Path :: string
  hr_Header :: httpHeader
  hr_Body :: "string option"

record hookWorld =
  hw_KV :: redisKV
  hw_DB :: apiDB
  hw_Rows :: "hookRow list"

definition inlinePayload :: "string \<Rightarrow> string \<Rightarrow> DataRef" where
  "inlinePayload body tenant = \<lparr>ref_Type = ''inline'', ref_Key = b64Encode body, ref_Bucket = [], ref_TenantID = tenant, ref_SizeBytes = int (length body),
     ref_RecordCount = 0, ref_Encrypted = False, ref_IV = []\<rparr>"

definition hookBody :: "hookLib \<Rightarrow> string \<Rightarrow> gv option" where
  "hookBody L raw = (case hl_Decode L raw of Some (VObj m) \<Rightarrow> Some (VObj m) | Some VNil \<Rightarrow> Some VNil | _ \<Rightarrow> None)"

definition hookPayload :: "deliveryEnv \<Rightarrow> gv \<Rightarrow> string \<Rightarrow> DataRef option" where
  "hookPayload E body tenant =
     (let canonical = jsonMarshal body in
      if length canonical \<le> 4096 then Some (inlinePayload canonical tenant) else dl_Write E body tenant)"

text \<open>The part after the claim: it starts the run.\<close>

definition startHook :: "hookLib \<Rightarrow> deliveryEnv \<Rightarrow> PipelineDefinition \<Rightarrow> hookRow \<Rightarrow> gv \<Rightarrow> apiDB \<Rightarrow> hookReply \<times> apiDB" where
  "startHook L E def row body db =
     (case ValidateAgentAdmission (hl_UUID L) def of
        Some e \<Rightarrow> (HookAgent e, db)
      | None \<Rightarrow>
          (case hookPayload E body (def_TenantID def) of
             None \<Rightarrow> (HookFailed, db)
           | Some payload \<Rightarrow>
               (case fireExecution (hl_UUID L) (hl_Billing L) (hl_Defaults L) (dl_Fire E)
                   \<lparr>fr_Definition = def, fr_PipelineRowID = hk_ID row, fr_TriggerType = ''webhook'', fr_Environment = hk_Environment row,
                    fr_PayloadRef = Some payload, fr_EncryptedDEK = [], fr_PartitionID = []\<rparr> db of
                  (Inr executionID, db', _) \<Rightarrow> (HookStarted executionID, db')
                | (Inl (QuotaExceeded used lim), db', _) \<Rightarrow> (HookQuota used lim, db')
                | (Inl _, db', _) \<Rightarrow> (HookFailed, db'))))"

definition deliverHook :: "hookLib \<Rightarrow> deliveryEnv \<Rightarrow> PipelineDefinition \<Rightarrow> hookRow \<Rightarrow> hookRequest \<Rightarrow> gv \<Rightarrow> hookWorld \<Rightarrow> hookReply \<times> hookWorld" where
  "deliverHook L E def row q body w =
     (case claimWebhookDelivery L E (hk_ID row) (hr_Header q) (hw_KV w) of
        (ClaimRefused e, kv) \<Rightarrow> (HookRefused e, w\<lparr>hw_KV := kv\<rparr>)
      | (ClaimExisting executionID, kv) \<Rightarrow> (HookDuplicate executionID, w\<lparr>hw_KV := kv\<rparr>)
      | (Claimed c, kv) \<Rightarrow>
          (case startHook L E def row body (hw_DB w) of
             (HookStarted executionID, db) \<Rightarrow>
               (case completeClaim E c executionID kv of
                  (c', kv') \<Rightarrow> (HookStarted executionID, w\<lparr>hw_KV := releaseClaim E c' kv', hw_DB := db\<rparr>))
           | (reply, db) \<Rightarrow> (reply, w\<lparr>hw_KV := releaseClaim E c kv, hw_DB := db\<rparr>)))"

definition webhookTrigger :: "hookLib \<Rightarrow> deliveryEnv \<Rightarrow> hookRequest \<Rightarrow> hookWorld \<Rightarrow> hookReply \<times> hookWorld" where
  "webhookTrigger L E q w =
     (case hr_Body q of
        None \<Rightarrow> (HookRefused (badRequest ErrInvalidRequest ''request body too large or unreadable''), w)
      | Some raw \<Rightarrow>
          (case hookBody L raw of
             None \<Rightarrow> (HookRefused (badRequest ErrInvalidRequest ''invalid JSON body''), w)
           | Some body \<Rightarrow>
               (case resolveWebhookPipelines (hr_Path q) (hw_Rows w) of
                  [] \<Rightarrow> (HookRefused (apiNotFound ErrNotFound ''no active pipeline on this hook''), w)
                | row # others \<Rightarrow>
                    if list_ex (\<lambda>r. hk_TenantID r \<noteq> hk_TenantID row) others
                    then (HookRefused (ApiError 409 [] ''webhook path is claimed by more than one workspace''), w)
                    else (case hl_Struct L (hk_Definition row) of
                        None \<Rightarrow> (HookFailed, w)
                      | Some def0 \<Rightarrow>
                          let def = def0\<lparr>def_TenantID := hk_TenantID row\<rparr> in
                          (case verifyWebhookSignature L (hr_Header q) (trig_Secret (def_Trigger def)) raw (dl_Now E) of
                             Some e \<Rightarrow> (HookRefused e, w)
                           | None \<Rightarrow> deliverHook L E def row q body w)))))"

section \<open>Events\<close>

text \<open>What the delivery of an event to one pipeline meets.\<close>

record eventEnv =
  ee_Now :: int
  ee_ExistsOK :: bool
  ee_LockOK :: bool
  ee_DoneOK :: bool
  ee_UnlockOK :: bool
  ee_Fire :: fireEnv

definition eventRows :: "string \<Rightarrow> string \<Rightarrow> string \<Rightarrow> string \<Rightarrow> hookRow list \<Rightarrow> hookRow list" where
  "eventRows tenant environment topic assetURN rows =
     filter (\<lambda>r. hk_TenantID r = tenant \<and> hk_Status r = ''active'' \<and> hk_Environment r = environment
       \<and> ((triggerText r ''type'' = Some ''event'' \<and> triggerText r ''topic'' = Some topic)
          \<or> (assetURN \<noteq> [] \<and> triggerText r ''type'' = Some ''asset'' \<and> triggerText r ''assetUrn'' = Some assetURN))) rows"

definition doneKey :: "string \<Rightarrow> hookRow \<Rightarrow> string" where
  "doneKey eventID row = ''dataflow:event-done:'' @ eventID @ '':'' @ hk_ID row"

definition lockKey :: "string \<Rightarrow> hookRow \<Rightarrow> string" where
  "lockKey eventID row = ''dataflow:event-lock:'' @ eventID @ '':'' @ hk_ID row"

definition eventDone :: "eventEnv \<Rightarrow> string \<Rightarrow> string \<Rightarrow> hookRow \<Rightarrow> hookWorld \<Rightarrow> hookWorld" where
  "eventDone E v eventID row w =
     (if eventID \<noteq> [] \<and> ee_DoneOK E then w\<lparr>hw_KV := kvSet (ee_Now E) (doneKey eventID row) v (30 * 24 * 3600 * timeSecond) (hw_KV w)\<rparr> else w)"

definition eventUnlock :: "eventEnv \<Rightarrow> string \<Rightarrow> hookRow \<Rightarrow> hookWorld \<Rightarrow> hookWorld" where
  "eventUnlock E eventID row w = (if eventID \<noteq> [] \<and> ee_UnlockOK E then w\<lparr>hw_KV := kvDel [lockKey eventID row] (hw_KV w)\<rparr> else w)"

definition eventRequest :: "string \<Rightarrow> string \<Rightarrow> string \<Rightarrow> hookRow \<Rightarrow> PipelineDefinition \<Rightarrow> fireRequest" where
  "eventRequest tenant environment message row def = \<lparr>fr_Definition = def, fr_PipelineRowID = hk_ID row,
     fr_TriggerType = (if trig_Type (def_Trigger def) = ''asset'' then ''asset'' else ''event''), fr_Environment = environment,
     fr_PayloadRef = Some (inlinePayload message tenant), fr_EncryptedDEK = [], fr_PartitionID = []\<rparr>"

text \<open>The run of one pipeline for an event, under its lock: whether the event counts as delivered.\<close>

definition fireEvent :: "hookLib \<Rightarrow> eventEnv \<Rightarrow> string \<Rightarrow> string \<Rightarrow> string \<Rightarrow> string \<Rightarrow> hookRow \<Rightarrow> hookWorld \<Rightarrow> bool \<times> hookWorld" where
  "fireEvent L E tenant environment message eventID row w =
     (case hl_Struct L (hk_Definition row) of
        None \<Rightarrow> (True, eventUnlock E eventID row w)
      | Some def \<Rightarrow>
          (case fireExecution (hl_UUID L) (hl_Billing L) (hl_Defaults L) (ee_Fire E) (eventRequest tenant environment message row def) (hw_DB w) of
             (Inr _, db, _) \<Rightarrow> (True, eventUnlock E eventID row (eventDone E ''1'' eventID row (w\<lparr>hw_DB := db\<rparr>)))
           | (Inl (QuotaExceeded _ _), db, _) \<Rightarrow> (True, eventUnlock E eventID row (eventDone E ''quota-exceeded'' eventID row (w\<lparr>hw_DB := db\<rparr>)))
           | (Inl _, db, _) \<Rightarrow> (False, eventUnlock E eventID row (w\<lparr>hw_DB := db\<rparr>))))"

definition deliverRow :: "hookLib \<Rightarrow> eventEnv \<Rightarrow> string \<Rightarrow> string \<Rightarrow> string \<Rightarrow> string \<Rightarrow> hookRow \<Rightarrow> hookWorld \<Rightarrow> bool \<times> hookWorld" where
  "deliverRow L E tenant environment message eventID row w =
     (if eventID = [] then fireEvent L E tenant environment message eventID row w
      else if ee_ExistsOK E \<and> kvGet (ee_Now E) (doneKey eventID row) (hw_KV w) \<noteq> None then (True, w)
      else if \<not> ee_LockOK E then (False, w)
      else case kvSetNX (ee_Now E) (lockKey eventID row) ''1'' (60 * timeSecond) (hw_KV w) of
        (False, _) \<Rightarrow> (False, w)
      | (True, kv) \<Rightarrow> fireEvent L E tenant environment message eventID row (w\<lparr>hw_KV := kv\<rparr>))"

fun deliverToRows :: "hookLib \<Rightarrow> (string \<Rightarrow> eventEnv) \<Rightarrow> string \<Rightarrow> string \<Rightarrow> string \<Rightarrow> string \<Rightarrow> hookRow list \<Rightarrow> hookWorld \<Rightarrow> bool \<times> hookWorld" where
  "deliverToRows L Es tenant environment message eventID [] w = (True, w)"
| "deliverToRows L Es tenant environment message eventID (row # rows) w =
     (case deliverRow L (Es (hk_ID row)) tenant environment message eventID row w of
        (ok, w1) \<Rightarrow> (case deliverToRows L Es tenant environment message eventID rows w1 of (oks, w2) \<Rightarrow> (ok \<and> oks, w2)))"

record pipelineEvent =
  pe_Tenant :: string
  pe_Environment :: string
  pe_Topic :: string
  pe_Payload :: string
  pe_EventID :: string
  pe_AllowAsset :: bool

definition assetOf :: "pipelineEvent \<Rightarrow> string" where
  "assetOf e = (if pe_AllowAsset e \<and> hasPrefix ''asset.materialized.'' (pe_Topic e) then trimPrefix ''asset.materialized.'' (pe_Topic e) else [])"

text \<open>\<open>queried\<close>: whether the query of the pipelines succeeds.\<close>

definition deliverEvent :: "hookLib \<Rightarrow> bool \<Rightarrow> (string \<Rightarrow> eventEnv) \<Rightarrow> pipelineEvent \<Rightarrow> hookWorld \<Rightarrow> bool \<times> hookWorld" where
  "deliverEvent L queried Es e w =
     (if \<not> queried then (False, w)
      else deliverToRows L Es (pe_Tenant e) (pe_Environment e) (pe_Payload e) (pe_EventID e)
        (eventRows (pe_Tenant e) (pe_Environment e) (pe_Topic e) (assetOf e) (hw_Rows w)) w)"

text \<open>An event of the channel \<^verbatim>\<open>dataflow:events:<tenant>:<environment>:<topic>\<close>: it has no identifier.\<close>

definition channelEvent :: "string \<Rightarrow> string \<Rightarrow> pipelineEvent option" where
  "channelEvent channel payload =
     (case splitOn (CHR '':'') (trimPrefix ''dataflow:events:'' channel) of
        tenant # environment # t # ts \<Rightarrow>
          Some \<lparr>pe_Tenant = tenant, pe_Environment = environment, pe_Topic = join '':'' (t # ts), pe_Payload = payload, pe_EventID = [], pe_AllowAsset = False\<rparr>
      | _ \<Rightarrow> None)"

section \<open>The event stream\<close>

text \<open>
  The stream as its only reader sees it: the entries not read yet, those read and not acknowledged, and whether the
  next read asks for the latter.
\<close>

record eventStream =
  es_New :: "(string \<times> pipelineEvent) list"
  es_Pending :: "(string \<times> pipelineEvent) list"
  es_Retry :: bool

record readerEnv =
  re_ReadOK :: bool
  re_Queried :: "string \<Rightarrow> bool"
  re_Events :: "string \<Rightarrow> string \<Rightarrow> eventEnv"
  re_AckOK :: "string \<Rightarrow> bool"

fun deliverBatch :: "hookLib \<Rightarrow> readerEnv \<Rightarrow> (string \<times> pipelineEvent) list \<Rightarrow> hookWorld \<Rightarrow> string list \<times> bool \<times> hookWorld" where
  "deliverBatch L R [] w = ([], False, w)"
| "deliverBatch L R ((mid, e) # batch) w =
     (case deliverEvent L (re_Queried R mid) (re_Events R mid) (e\<lparr>pe_AllowAsset := True\<rparr>) w of
        (ok, w1) \<Rightarrow> (case deliverBatch L R batch w1 of
          (acked, retry, w2) \<Rightarrow> ((if ok \<and> re_AckOK R mid then [mid] else []) @ acked, \<not> ok \<or> retry, w2)))"

text \<open>One turn of the loop of \<^verbatim>\<open>consumePipelineEventStream\<close>.\<close>

definition consumeTurn :: "hookLib \<Rightarrow> readerEnv \<Rightarrow> eventStream \<times> hookWorld \<Rightarrow> eventStream \<times> hookWorld" where
  "consumeTurn L R sw =
     (let (s, w) = sw in
      if \<not> re_ReadOK R then (s, w)
      else let batch = take 20 (if es_Retry s then es_Pending s else es_New s);
          s1 = (if es_Retry s then s else s\<lparr>es_New := drop 20 (es_New s), es_Pending := es_Pending s @ batch\<rparr>);
          (acked, retry, w1) = deliverBatch L R batch w
        in (s1\<lparr>es_Pending := filter (\<lambda>(mid, e). mid \<notin> set acked) (es_Pending s1),
               es_Retry := (retry \<or> (es_Retry s \<and> batch \<noteq> []))\<rparr>, w1))"

section \<open>OpenLineage\<close>

record externalLineage =
  ll_TenantID :: string
  ll_Environment :: string
  ll_Event :: obj
  ll_RunID :: gv
  ll_Namespace :: gv
  ll_Name :: gv
  ll_Inputs :: gv
  ll_Outputs :: gv
  ll_Producer :: string

text \<open>\<open>refuse\<close>: the error of the database for a row, which no constraint of the table admits.\<close>

definition storeOpenLineage :: "(externalLineage \<Rightarrow> externalLineage list \<Rightarrow> string option) \<Rightarrow> string \<Rightarrow> string \<Rightarrow> obj \<Rightarrow> externalLineage list \<Rightarrow> (string, externalLineage list) result" where
  "storeOpenLineage refuse tenant environment event rows =
     (let part = (\<lambda>k. case asObj (objGet event k) of Some m \<Rightarrow> m | None \<Rightarrow> []); job = part ''job''; run = part ''run'';
          listed = (\<lambda>k. if objGet event k = VNil then VArr [] else objGet event k);
          row = \<lparr>ll_TenantID = tenant, ll_Environment = environment, ll_Event = event, ll_RunID = objGet run ''runId'',
            ll_Namespace = objGet job ''namespace'', ll_Name = objGet job ''name'', ll_Inputs = listed ''inputs'', ll_Outputs = listed ''outputs'',
            ll_Producer = apiString (objGet event ''producer'')\<rparr> in
      if apiString (objGet job ''namespace'') = [] \<or> apiString (objGet job ''name'') = [] \<or> apiString (objGet run ''runId'') = []
      then Err ''invalid OpenLineage event''
      else (case refuse row rows of Some e \<Rightarrow> Err e | None \<Rightarrow> Ok (rows @ [row])))"

text \<open>\<open>resolve\<close> is \<^verbatim>\<open>resolve_openlineage_tenant\<close> on the hash of the key; \<open>body\<close> is the decoded request.\<close>

definition serviceOpenLineage ::
  "(externalLineage \<Rightarrow> externalLineage list \<Rightarrow> string option) \<Rightarrow> (string \<Rightarrow> string) \<Rightarrow> (string \<Rightarrow> string option) \<Rightarrow> string \<Rightarrow> string \<Rightarrow> obj option \<Rightarrow> externalLineage list \<Rightarrow> apiError option \<times> externalLineage list" where
  "serviceOpenLineage refuse sha resolve authorization environmentQuery body rows =
     (let token = trimSpace (trimPrefix ''Bearer '' authorization);
          environment = (if environmentQuery = [] then ''prod'' else environmentQuery) in
      if \<not> hasPrefix ''Bearer '' authorization \<or> token = [] then (Some (unauthorized ''OpenLineage bearer token required''), rows)
      else (case resolve (sha token) of
          None \<Rightarrow> (Some (unauthorized ''invalid or revoked OpenLineage token''), rows)
        | Some tenant \<Rightarrow>
            if tenant = [] then (Some (unauthorized ''invalid or revoked OpenLineage token''), rows)
            else if environment \<noteq> ''test'' \<and> environment \<noteq> ''prod''
            then (Some (badRequest ErrInvalidRequest ''environment must be test or prod''), rows)
            else (case body of
                None \<Rightarrow> (Some (badRequest ErrInvalidRequest ''invalid JSON body''), rows)
              | Some event \<Rightarrow>
                  (case storeOpenLineage refuse tenant environment event rows of
                     Inl e \<Rightarrow> (Some (badRequest ErrInvalidRequest e), rows)
                   | Inr rows' \<Rightarrow> (None, rows')))))"

end
