(* ===== verification/TriggerLaws.thy ===== *)
theory TriggerLaws
  imports Triggers BackfillLaws
begin

text \<open>
  What triggers guarantee: a signed delivery starts at most one run, also when it is captured and sent again, a retry
  under an idempotency key gets the run of the first, an event starts a pipeline once; and where this fails.
\<close>

section \<open>Keys\<close>

lemma map_of_kvSet: "map_of (kvSet now key v ttl kv) k = (if k = key then Some (v, now + ttl) else map_of kv k)"
  by (simp add: kvSet_def update_conv')

lemma map_of_kvDel: "map_of (kvDel keys kv) k = (if k \<in> set keys then None else map_of kv k)"
  by (induction kv) (auto simp: kvDel_def)

lemma kvGet_other [simp]: "k \<noteq> key \<Longrightarrow> kvGet t k (kvSet now key v ttl kv) = kvGet t k kv"
  by (simp add: kvGet_def map_of_kvSet)

lemma kvGet_same: "kvGet t key (kvSet now key v ttl kv) = (if t \<le> now + ttl then Some v else None)"
  by (simp add: kvGet_def map_of_kvSet)

lemma kvGet_del: "kvGet t k (kvDel keys kv) = (if k \<in> set keys then None else kvGet t k kv)"
  by (simp add: kvGet_def map_of_kvDel)

lemma kvGet_entry: "map_of kv key = Some (v, e) \<Longrightarrow> now \<le> e \<Longrightarrow> kvGet now key kv = Some v"
  by (simp add: kvGet_def)

lemma sig_idem_apart [simp]: "signatureKey L pid h \<noteq> idempotencyMark L pid' k" "idempotencyMark L pid' k \<noteq> signatureKey L pid h"
  by (simp_all add: signatureKey_def idempotencyMark_def)

section \<open>One delivery\<close>

text \<open>A delivery holds only keys that nobody held.\<close>

lemma claim_fresh:
  assumes "claimWebhookDelivery L E pid h kv = (Claimed c, kv1)"
  shows "(\<forall>k\<in>set (wc_Keys c). kvGet (dl_Now E) k kv = None) \<and> (wc_IdemKey c \<noteq> [] \<longrightarrow> wc_IdemKey c \<in> set (wc_Keys c))
    \<and> \<not> wc_Completed c \<and> (\<forall>k. k \<notin> set (wc_Keys c) \<longrightarrow> map_of kv1 k = map_of kv k)"
  using assms
  by (auto simp: claimWebhookDelivery_def kvSetNX_def Let_def map_of_kvSet split: if_splits)

lemma claim_rejected:
  assumes "claimWebhookDelivery L E pid h kv = (r, kv1)" "\<forall>c. r \<noteq> Claimed c" "kvGet (dl_Now E) k kv \<noteq> None"
  shows "map_of kv1 k = map_of kv k"
  using assms
  by (auto simp: claimWebhookDelivery_def kvSetNX_def releaseClaim_def Let_def map_of_kvSet map_of_kvDel split: if_splits option.splits)

lemma claim_held:
  assumes "claimWebhookDelivery L E pid h kv = (Claimed c, kv1)" "dl_SigOK E"
  shows "map_of kv1 (signatureKey L pid h) = Some (webhookClaimPending, dl_Now E + 2 * webhookSignatureMaxAge)
    \<and> kvGet (dl_Now E) (signatureKey L pid h) kv = None"
  using assms by (auto simp: claimWebhookDelivery_def kvSetNX_def Let_def map_of_kvSet split: if_splits)

lemma claim_live_refused:
  assumes "dl_SigOK E" "kvGet (dl_Now E) (signatureKey L pid h) kv \<noteq> None"
  shows "claimWebhookDelivery L E pid h kv = (ClaimRefused (ApiError 409 [] ''duplicate webhook delivery''), kv)"
  using assms by (simp add: claimWebhookDelivery_def kvSetNX_def Let_def)

lemma claim_new:
  assumes "kvGet (dl_Now E) (signatureKey L pid h) kv = None"
    and "kvGet (dl_Now E) (idempotencyMark L pid (trimSpace (h ''Idempotency-Key''))) kv = None"
  shows "\<exists>c kv1. claimWebhookDelivery L E pid h kv = (Claimed c, kv1)"
  using assms by (cases "trimSpace (h ''Idempotency-Key'') = []") (auto simp: claimWebhookDelivery_def kvSetNX_def Let_def)

text \<open>The keys that are live when a delivery arrives are the same after it.\<close>

lemma deliver_keeps:
  assumes "map_of (hw_KV w) k = Some (v, e)" "dl_Now E \<le> e"
  shows "map_of (hw_KV (snd (deliverHook L E def row q body w))) k = Some (v, e)"
proof -
  have live: "kvGet (dl_Now E) k (hw_KV w) \<noteq> None" using assms by (simp add: kvGet_entry)
  obtain r kv1 where c: "claimWebhookDelivery L E (hk_ID row) (hr_Header q) (hw_KV w) = (r, kv1)" by fastforce
  show ?thesis
  proof (cases r)
    case (Claimed cl)
    note fresh = claim_fresh [OF c [unfolded Claimed]]
    have n: "k \<notin> set (wc_Keys cl)" using fresh live by metis
    moreover have "map_of kv1 k = Some (v, e)" using fresh n assms(1) by metis
    moreover have "wc_IdemKey cl \<noteq> k \<or> wc_IdemKey cl = []" using fresh n by metis
    ultimately have k: "k \<notin> set (wc_Keys cl)" "map_of kv1 k = Some (v, e)" "wc_IdemKey cl \<noteq> k \<or> wc_IdemKey cl = []" by blast+
    then show ?thesis using c Claimed
      by (auto simp: deliverHook_def completeClaim_def releaseClaim_def kvSetXX_def map_of_kvSet map_of_kvDel split: hookReply.splits prod.splits)
  qed (use c claim_rejected [OF c _ live] assms(1) in \<open>auto simp: deliverHook_def\<close>)
qed

lemma trigger_keeps:
  assumes "map_of (hw_KV w) k = Some (v, e)" "dl_Now E \<le> e"
  shows "map_of (hw_KV (snd (webhookTrigger L E q w))) k = Some (v, e)"
  using deliver_keeps [OF assms] assms(1) by (auto simp: webhookTrigger_def Let_def split: option.splits list.splits)

lemma deliver_rows [simp]: "hw_Rows (snd (deliverHook L E def row q body w)) = hw_Rows w"
  by (auto simp: deliverHook_def completeClaim_def split: claimOutcome.splits hookReply.splits prod.splits)

lemma trigger_rows [simp]: "hw_Rows (snd (webhookTrigger L E q w)) = hw_Rows w"
  by (auto simp: webhookTrigger_def Let_def split: option.splits list.splits)

fun runHooks :: "hookLib \<Rightarrow> (deliveryEnv \<times> hookRequest) list \<Rightarrow> hookWorld \<Rightarrow> hookWorld" where
  "runHooks L [] w = w"
| "runHooks L ((E, q) # ds) w = runHooks L ds (snd (webhookTrigger L E q w))"

lemma run_keeps:
  assumes "map_of (hw_KV w) k = Some (v, e)" "\<forall>(E, q)\<in>set ds. dl_Now E \<le> e"
  shows "map_of (hw_KV (runHooks L ds w)) k = Some (v, e)"
  using assms by (induction ds arbitrary: w) (auto simp: trigger_keeps)

lemma run_rows [simp]: "hw_Rows (runHooks L ds w) = hw_Rows w"
  by (induction ds arbitrary: w) auto

text \<open>What holds when a delivery has started a run.\<close>

lemma started:
  assumes "webhookTrigger L E q w = (HookStarted x, w1)"
  obtains row others secret raw c kv where "resolveWebhookPipelines (hr_Path q) (hw_Rows w) = row # others"
    "verifyWebhookSignature L (hr_Header q) secret raw (dl_Now E) = None"
    "claimWebhookDelivery L E (hk_ID row) (hr_Header q) (hw_KV w) = (Claimed c, kv)" "x = fe_ExecutionID (dl_Fire E)"
    "hw_KV w1 = (if wc_IdemKey c \<noteq> [] \<and> dl_SetOK E then kvSetXX (dl_Now E) (wc_IdemKey c) x (24 * 3600 * timeSecond) kv else kv)"
proof -
  obtain raw body row others def secret where d: "resolveWebhookPipelines (hr_Path q) (hw_Rows w) = row # others"
      "verifyWebhookSignature L (hr_Header q) secret raw (dl_Now E) = None"
      "deliverHook L E def row q body w = (HookStarted x, w1)"
    using assms by (auto simp: webhookTrigger_def Let_def split: option.splits list.splits if_splits)
  obtain c kv db where "claimWebhookDelivery L E (hk_ID row) (hr_Header q) (hw_KV w) = (Claimed c, kv)"
      "startHook L E def row body (hw_DB w) = (HookStarted x, db)"
      "hw_KV w1 = (if wc_IdemKey c \<noteq> [] \<and> dl_SetOK E then kvSetXX (dl_Now E) (wc_IdemKey c) x (24 * 3600 * timeSecond) kv else kv)"
    using d(3) by (auto simp: deliverHook_def completeClaim_def releaseClaim_def split: claimOutcome.splits hookReply.splits prod.splits)
  moreover have "x = fe_ExecutionID (dl_Fire E)"
    using calculation(2) by (auto simp: startHook_def fireExecution_def Let_def split: option.splits sum.splits prod.splits fireError.splits)
  ultimately show ?thesis using that d(1,2) by blast
qed


section \<open>Replays\<close>

lemma verified_stamp:
  assumes "verifyWebhookSignature L h secret raw now = None" "trimSpace (h ''X-Signature-Timestamp'') \<noteq> []"
  shows "\<exists>s. parseSeconds (trimSpace (h ''X-Signature-Timestamp'')) = Some s
    \<and> now - s * timeSecond \<le> webhookSignatureMaxAge \<and> - webhookSignatureMaxAge \<le> now - s * timeSecond"
  using assms by (auto simp: verifyWebhookSignature_def Let_def split: option.splits if_splits)

definition hexOf :: "nat \<Rightarrow> char" where
  "hexOf n = char_of (if n < 10 then 48 + n else 87 + n)"

lemma hexDigit_lower: "hexDigit c = Some n \<Longrightarrow> lowerChar c = hexOf n \<and> n < 16"
proof -
  assume h: "hexDigit c = Some n"
  have "char_of (of_char c :: nat) = c" by simp
  then show ?thesis using h by (auto simp: hexDigit_def hexOf_def lowerChar_def Let_def split: if_splits)
qed

lemma hexDecode_lower:
  "hexDecode s = Some b \<Longrightarrow> toLower s = concat (map (\<lambda>c. [hexOf (of_char c div 16), hexOf (of_char c mod 16)]) b)"
proof (induction s arbitrary: b rule: hexDecode.induct)
  case (3 x y s)
  then obtain m n r where h: "hexDigit x = Some m" "hexDigit y = Some n" "hexDecode s = Some r" "b = char_of (m * 16 + n) # r"
    by (auto split: option.splits)
  then have "m < 16" "n < 16" "lowerChar x = hexOf m" "lowerChar y = hexOf n" using hexDigit_lower by auto
  moreover from this have "(of_char (char_of (m * 16 + n) :: char) :: nat) = m * 16 + n" by (simp add: of_char_of)
  ultimately show ?case using h(4) 3(1) h by (simp add: toLower_def)
qed (simp_all add: toLower_def)

text \<open>C36: A signed webhook delivery that started a run starts no second one when it is sent again with the same timestamp
  and signature: whatever was delivered in between, the repetition is refused.\<close>

theorem webhook_replay_refused:
  assumes "webhookTrigger L E q w = (HookStarted x, w1)" "dl_SigOK E" "trimSpace (hr_Header q ''X-Signature-Timestamp'') \<noteq> []"
    and "hr_Path q' = hr_Path q" "hr_Header q' ''X-Signature-Timestamp'' = hr_Header q ''X-Signature-Timestamp''"
      "hexDecode (hr_Header q' ''X-Signature-Sha256'') = hexDecode (hr_Header q ''X-Signature-Sha256'')"
    and "dl_SigOK E'" "dl_Now E \<le> dl_Now E'" "\<forall>(E'', q'')\<in>set ds. dl_Now E'' \<le> dl_Now E'"
  shows "fst (webhookTrigger L E' q' (runHooks L ds w1)) \<in> range HookRefused \<union> {HookFailed}
    \<and> snd (webhookTrigger L E' q' (runHooks L ds w1)) = runHooks L ds w1"
proof -
  let ?sig = "\<lambda>r q. signatureKey L (hk_ID r) (hr_Header q)" and ?w = "runHooks L ds w1"
  obtain row others secret raw c kv where f: "resolveWebhookPipelines (hr_Path q) (hw_Rows w) = row # others"
      "verifyWebhookSignature L (hr_Header q) secret raw (dl_Now E) = None"
      "claimWebhookDelivery L E (hk_ID row) (hr_Header q) (hw_KV w) = (Claimed c, kv)"
      "hw_KV w1 = (if wc_IdemKey c \<noteq> [] \<and> dl_SetOK E then kvSetXX (dl_Now E) (wc_IdemKey c) x (24 * 3600 * timeSecond) kv else kv)"
    using started [OF assms(1)] by metis
  obtain prov where p: "hexDecode (hr_Header q ''X-Signature-Sha256'') = Some prov"
    using f(2) by (auto simp: verifyWebhookSignature_def split: option.splits)
  have same: "?sig row q' = ?sig row q"
    using p assms(5,6) hexDecode_lower [OF p] hexDecode_lower [of "hr_Header q' ''X-Signature-Sha256''" prov] by (simp add: signatureKey_def)
  have idem: "wc_IdemKey c \<noteq> ?sig row q" if "wc_IdemKey c \<noteq> []"
    using f(3) that by (auto simp: claimWebhookDelivery_def kvSetNX_def Let_def split: if_splits)
  let ?e = "dl_Now E + 2 * webhookSignatureMaxAge"
  have held: "map_of (hw_KV w1) (?sig row q) = Some (webhookClaimPending, ?e)"
    using claim_held [OF f(3) assms(2)] f(4) idem by (auto simp: kvSetXX_def map_of_kvSet)
  have rows: "hw_Rows ?w = hw_Rows w" using trigger_rows [of L E q w] assms(1) by simp
  show ?thesis
  proof (cases "dl_Now E' \<le> ?e")
    case True
    then have "map_of (hw_KV ?w) (?sig row q') = Some (webhookClaimPending, ?e)"
      using run_keeps [OF held] assms(9) same by fastforce
    then have "kvGet (dl_Now E') (?sig row q') (hw_KV ?w) \<noteq> None" using True by (simp add: kvGet_entry)
    from claim_live_refused [OF assms(7) this] show ?thesis using f(1) rows assms(4)
      by (auto simp: webhookTrigger_def deliverHook_def Let_def split: option.splits)
  next
    case False
    obtain s where "parseSeconds (trimSpace (hr_Header q ''X-Signature-Timestamp'')) = Some s" "- webhookSignatureMaxAge \<le> dl_Now E - s * timeSecond"
      using verified_stamp [OF f(2) assms(3)] by blast
    then have late: "verifyWebhookSignature L (hr_Header q') secret' raw' (dl_Now E') = None \<Longrightarrow> P" for secret' raw' P
      using verified_stamp [of L "hr_Header q'" secret' raw' "dl_Now E'"] False assms(3,5) by auto
    show ?thesis using f(1) rows assms(4) by (auto simp: webhookTrigger_def Let_def split: option.splits elim: late)
  qed
qed

section \<open>Retries\<close>

lemma claim_both:
  assumes "claimWebhookDelivery L E pid h kv = (Claimed c, kv1)" "dl_SigOK E" "dl_IdemOK E" "trimSpace (h ''Idempotency-Key'') \<noteq> []"
  shows "wc_IdemKey c = idempotencyMark L pid (trimSpace (h ''Idempotency-Key''))
    \<and> map_of kv1 (wc_IdemKey c) = Some (webhookClaimPending, dl_Now E + 24 * 3600 * timeSecond)"
  using assms by (auto simp: claimWebhookDelivery_def kvSetNX_def Let_def map_of_kvSet split: if_splits)

lemma claim_existing:
  assumes "kvGet (dl_Now E) (signatureKey L pid h) kv = None" "dl_SigOK E" "dl_IdemOK E" "dl_GetOK E" "dl_DelOK E"
    and "trimSpace (h ''Idempotency-Key'') \<noteq> []" "kvGet (dl_Now E) (idempotencyMark L pid (trimSpace (h ''Idempotency-Key''))) kv = Some x"
    and "x \<noteq> []" "x \<noteq> webhookClaimPending"
  shows "fst (claimWebhookDelivery L E pid h kv) = ClaimExisting x
    \<and> (\<forall>k. kvGet (dl_Now E) k (snd (claimWebhookDelivery L E pid h kv)) = kvGet (dl_Now E) k kv)"
  using assms by (auto simp: claimWebhookDelivery_def kvSetNX_def releaseClaim_def Let_def kvGet_del)


subsection \<open>Spaces of UTF-8\<close>

text \<open>A request may end the timestamp with a no-break space: HTTP keeps it and \<^verbatim>\<open>strings.TrimSpace\<close> drops it.\<close>

definition nbsp :: string where
  "nbsp = [CHR 0xC2, CHR 0xA0]"

lemma dropSpaces_nbsp:
  "dropSpaces wideSpace2 wideSpace3 (s @ nbsp) = (if dropSpaces wideSpace2 wideSpace3 s = [] then [] else dropSpaces wideSpace2 wideSpace3 s @ nbsp)"
  by (induction wideSpace2 wideSpace3 s rule: dropSpaces.induct)
    (auto simp: nbsp_def wideSpace2_def wideSpace3_def isSpace_def)

lemma trimSpace_nbsp: "trimSpace (s @ nbsp) = trimSpace s"
proof -
  have "dropSpaces (\<lambda>b a. wideSpace2 a b) (\<lambda>c b a. wideSpace3 a b c) (CHR 0xA0 # CHR 0xC2 # t)
      = dropSpaces (\<lambda>b a. wideSpace2 a b) (\<lambda>c b a. wideSpace3 a b c) t" for t
    by (cases t) (simp_all add: wideSpace2_def isSpace_def)
  then show ?thesis by (simp add: trimSpace_def dropSpaces_nbsp) (simp add: nbsp_def)
qed

lemma sig_header: "''X-Signature-Sha256'' \<noteq> ''X-Signature-Timestamp''"
  by simp

text \<open>C38: A captured delivery can be replayed by ending its timestamp with a no-break space: the signature is still valid,
  and the mark under which the first delivery was remembered does not apply.\<close>

theorem trailing_space_defeats_marks:
  assumes "\<And>a b. hl_Sha L a = hl_Sha L b \<Longrightarrow> a = b"
  shows "verifyWebhookSignature L (h(''X-Signature-Timestamp'' := h ''X-Signature-Timestamp'' @ nbsp)) secret raw now = verifyWebhookSignature L h secret raw now
    \<and> signatureKey L pid (h(''X-Signature-Timestamp'' := h ''X-Signature-Timestamp'' @ nbsp)) \<noteq> signatureKey L pid h"
proof
  show "signatureKey L pid (h(''X-Signature-Timestamp'' := h ''X-Signature-Timestamp'' @ nbsp)) \<noteq> signatureKey L pid h"
  proof
    assume "signatureKey L pid (h(''X-Signature-Timestamp'' := h ''X-Signature-Timestamp'' @ nbsp)) = signatureKey L pid h"
    then have "hl_Sha L (pid @ '':'' @ (h ''X-Signature-Timestamp'' @ nbsp) @ '':'' @ toLower (h ''X-Signature-Sha256''))
        = hl_Sha L (pid @ '':'' @ h ''X-Signature-Timestamp'' @ '':'' @ toLower (h ''X-Signature-Sha256''))"
      unfolding signatureKey_def same_append_eq fun_upd_same fun_upd_other [OF sig_header] .
    from assms [OF this] show False by (simp add: nbsp_def)
  qed
qed (simp only: verifyWebhookSignature_def fun_upd_same fun_upd_other [OF sig_header] trimSpace_nbsp)

subsection \<open>A delivery and its repetitions\<close>

definition hookTrigger :: Trigger where
  "hookTrigger = \<lparr>trig_Type = ''webhook'', trig_Schedule = [], trig_Path = ''in'', trig_Secret = ''k'', trig_Topic = [], trig_AssetURN = []\<rparr>"

definition demoHookDef :: PipelineDefinition where
  "demoHookDef = (sampleDef [] [])\<lparr>def_Trigger := hookTrigger\<rparr>"

definition demoHooks :: hookLib where
  "demoHooks = \<lparr>hl_Sha = (\<lambda>s. s), hl_Hmac = (\<lambda>k m. [char_of (171 :: nat)]), hl_Decode = (\<lambda>_. Some (VObj [])),
     hl_Struct = (\<lambda>_. Some demoHookDef), hl_UUID = (\<lambda>_. True), hl_Legacy = False, hl_Billing = False,
     hl_Defaults = freePlan\<rparr>"

definition demoDelivery :: "int \<Rightarrow> string \<Rightarrow> deliveryEnv" where
  "demoDelivery now eid = \<lparr>dl_Now = now, dl_SigOK = True, dl_IdemOK = True, dl_GetOK = True, dl_SetOK = True, dl_DelOK = True,
     dl_Write = (\<lambda>_ _. None), dl_Fire = sampleEnv eid (Ok ''run'')\<rparr>"

definition demoHeader :: "string \<Rightarrow> string \<Rightarrow> httpHeader" where
  "demoHeader stamp idem = (\<lambda>k. if k = ''X-Signature-Timestamp'' then stamp else if k = ''X-Signature-Sha256'' then ''ab''
     else if k = ''Idempotency-Key'' then idem else [])"

definition demoHookRequest :: "string \<Rightarrow> string \<Rightarrow> hookRequest" where
  "demoHookRequest stamp idem = \<lparr>hr_Path = ''in'', hr_Header = demoHeader stamp idem, hr_Body = Some ''{}''\<rparr>"

definition demoHookWorld :: hookWorld where
  "demoHookWorld = \<lparr>hw_KV = [], hw_DB = emptyAPI, hw_Rows = [\<lparr>hk_ID = ''r'', hk_TenantID = ''t1'', hk_Status = ''active'', hk_Environment = ''prod'',
     hk_CreatedAt = 0, hk_Definition = [(''trigger'', VObj [(''type'', VStr ''webhook''), (''path'', VStr ''in'')])]\<rparr>]\<rparr>"

lemma demo_verified:
  "verifyWebhookSignature demoHooks (demoHeader ''0'' idem) secret raw 1 = (if secret = [] then Some (unauthorized ''bad signature'') else None)"
  by (simp add: verifyWebhookSignature_def demoHooks_def demoHeader_def hexDigit_def trimSpace_def wideSpace2_def wideSpace3_def isSpace_def
      parseSeconds_def isDigit_def webhookSignatureMaxAge_def webhookSignature_def)

lemma demo_row: "resolveWebhookPipelines ''in'' (hw_Rows demoHookWorld) = hw_Rows demoHookWorld"
  by (simp add: resolveWebhookPipelines_def demoHookWorld_def triggerText_def objGet_def)

lemma demo_admitted: "ValidateAgentAdmission uuidOK demoHookDef = None" "ValidateNodePolicies demoHookDef = None"
  by (simp_all add: demoHookDef_def sampleDef_def ValidateAgentAdmission_def ValidateAgentNodes_def ValidateNodePolicies_def)

lemma demo_tenant: "demoHookDef\<lparr>def_TenantID := ''t1''\<rparr> = demoHookDef" and demo_secret: "trig_Secret (def_Trigger demoHookDef) = ''k''"
  by (simp_all add: demoHookDef_def sampleDef_def hookTrigger_def)

lemma demo_fires:
  assumes "eid \<notin> set (map ex_ID (as_Executions db))"
  shows "\<exists>db'. fireExecution uuidOK False plan (sampleEnv eid (Ok ''run''))
     \<lparr>fr_Definition = demoHookDef, fr_PipelineRowID = p, fr_TriggerType = t, fr_Environment = e, fr_PayloadRef = r, fr_EncryptedDEK = [], fr_PartitionID = []\<rparr> db
     = (Ok eid, db', None) \<and> map ex_ID (as_Executions db') = map ex_ID (as_Executions db) @ [eid]"
  using assms by (auto simp: fireExecution_def demo_admitted consumeQuota_def recordFired_def executionClash_def newExecution_def nullString_def
      sampleEnv_def Let_def list_all_iff list_ex_iff)

lemma demo_start:
  assumes "eid \<notin> set (map ex_ID (as_Executions db))"
  shows "\<exists>db'. startHook demoHooks (demoDelivery now eid) demoHookDef row (VObj []) db = (HookStarted eid, db')
    \<and> map ex_ID (as_Executions db') = map ex_ID (as_Executions db) @ [eid]"
proof -
  let ?E = "demoDelivery now eid"
  have "hl_Billing demoHooks = False" "dl_Fire ?E = sampleEnv eid (Ok ''run'')" by (simp_all add: demoHooks_def demoDelivery_def)
  moreover obtain payload where "hookPayload ?E (VObj []) (def_TenantID demoHookDef) = Some payload" by (simp add: hookPayload_def)
  ultimately show ?thesis
    using demo_fires [OF assms, of "hl_UUID demoHooks" "hl_Defaults demoHooks" "hk_ID row" "''webhook''" "hk_Environment row" "Some payload"] demo_admitted
    by (auto simp: startHook_def)
qed

lemma demo_started:
  assumes "hw_Rows w = hw_Rows demoHookWorld" "eid \<notin> set (map ex_ID (as_Executions (hw_DB w)))"
    and "claimWebhookDelivery demoHooks (demoDelivery 1 eid) ''r'' (demoHeader stamp idem) (hw_KV w) = (Claimed c, kv)" "\<not> wc_Completed c"
    and "verifyWebhookSignature demoHooks (demoHeader stamp idem) ''k'' ''{}'' 1 = None"
  shows "\<exists>w'. webhookTrigger demoHooks (demoDelivery 1 eid) (demoHookRequest stamp idem) w = (HookStarted eid, w')
    \<and> map ex_ID (as_Executions (hw_DB w')) = map ex_ID (as_Executions (hw_DB w)) @ [eid]
    \<and> hw_Rows w' = hw_Rows w \<and> hw_KV w' = (if wc_IdemKey c \<noteq> [] then kvSetXX 1 (wc_IdemKey c) eid (24 * 3600 * timeSecond) kv else kv)"
proof -
  let ?E = "demoDelivery 1 eid" and ?q = "demoHookRequest stamp idem"
  have q: "hr_Header ?q = demoHeader stamp idem" "hr_Body ?q = Some ''{}''" by (simp_all add: demoHookRequest_def)
  have E: "dl_SetOK ?E" "dl_Now ?E = 1" by (simp_all add: demoDelivery_def)
  obtain row where rows: "hw_Rows demoHookWorld = [row]" "hk_ID row = ''r''" "hk_TenantID row = ''t1''" by (simp add: demoHookWorld_def)
  then have r: "resolveWebhookPipelines (hr_Path ?q) (hw_Rows w) = [row]"
    using assms(1) demo_row by (simp add: demoHookRequest_def)
  obtain db' where db': "startHook demoHooks ?E demoHookDef row (VObj []) (hw_DB w) = (HookStarted eid, db')"
      "map ex_ID (as_Executions db') = map ex_ID (as_Executions (hw_DB w)) @ [eid]"
    using demo_start [OF assms(2)] by blast
  have "deliverHook demoHooks ?E demoHookDef row ?q (VObj []) w
      = (HookStarted eid, w\<lparr>hw_KV := (if wc_IdemKey c \<noteq> [] then kvSetXX 1 (wc_IdemKey c) eid (24 * 3600 * timeSecond) kv else kv), hw_DB := db'\<rparr>)"
    using assms(3,4) rows(2) db'(1) q E by (simp add: deliverHook_def completeClaim_def releaseClaim_def)
  moreover have "hookBody demoHooks ''{}'' = Some (VObj [])" "hl_Struct demoHooks d = Some demoHookDef" for d
    by (simp_all add: hookBody_def demoHooks_def)
  ultimately show ?thesis using r rows(3) assms(5) q E db'(2)
    by (simp add: webhookTrigger_def demo_tenant demo_secret Let_def)
qed

lemma demo_claims:
  assumes "kvGet 1 (signatureKey demoHooks ''r'' (demoHeader stamp [])) kv = None"
  shows "claimWebhookDelivery demoHooks (demoDelivery 1 eid) ''r'' (demoHeader stamp []) kv
    = (Claimed \<lparr>wc_Keys = [signatureKey demoHooks ''r'' (demoHeader stamp [])], wc_IdemKey = [], wc_Completed = False\<rparr>,
       kvSet 1 (signatureKey demoHooks ''r'' (demoHeader stamp [])) webhookClaimPending (2 * webhookSignatureMaxAge) kv)"
proof -
  have "demoHeader stamp [] ''Idempotency-Key'' = []" by (simp add: demoHeader_def)
  then show ?thesis using assms by (simp add: claimWebhookDelivery_def kvSetNX_def demoDelivery_def Let_def)
qed

lemma demo_empty: "kvGet t x (hw_KV demoHookWorld) = None" "map ex_ID (as_Executions (hw_DB demoHookWorld)) = []"
  by (simp_all add: kvGet_def demoHookWorld_def emptyAPI_def)

lemma demo_header_nbsp:
  "demoHeader (s @ nbsp) [] = (demoHeader s [])(''X-Signature-Timestamp'' := demoHeader s [] ''X-Signature-Timestamp'' @ nbsp)"
  by (rule ext) (simp add: demoHeader_def)

theorem trailing_space_defeats_marks_witness:
  "\<exists>w1. webhookTrigger demoHooks (demoDelivery 1 ''e1'') (demoHookRequest ''0'' []) demoHookWorld = (HookStarted ''e1'', w1)
     \<and> fst (webhookTrigger demoHooks (demoDelivery 1 ''e2'') (demoHookRequest (''0'' @ nbsp) []) w1) = HookStarted ''e2''"
proof -
  have ok: "verifyWebhookSignature demoHooks (demoHeader ''0'' []) ''k'' ''{}'' 1 = None" by (simp add: demo_verified)
  have "\<And>a b. hl_Sha demoHooks a = hl_Sha demoHooks b \<Longrightarrow> a = b" by (simp add: demoHooks_def)
  note t = trailing_space_defeats_marks [of demoHooks "demoHeader ''0'' []" "''k''" "''{}''" 1 "''r''", OF this, folded demo_header_nbsp]
  obtain w1 where w1: "webhookTrigger demoHooks (demoDelivery 1 ''e1'') (demoHookRequest ''0'' []) demoHookWorld = (HookStarted ''e1'', w1)"
      "map ex_ID (as_Executions (hw_DB w1)) = [''e1'']" "hw_Rows w1 = hw_Rows demoHookWorld"
      "hw_KV w1 = kvSet 1 (signatureKey demoHooks ''r'' (demoHeader ''0'' [])) webhookClaimPending (2 * webhookSignatureMaxAge) (hw_KV demoHookWorld)"
    using demo_started [OF refl _ demo_claims _ ok, of "''e1''"] demo_empty by auto
  moreover have "kvGet 1 (signatureKey demoHooks ''r'' (demoHeader (''0'' @ nbsp) [])) (hw_KV w1) = None"
    using t demo_empty(1) w1(4) by simp
  ultimately show ?thesis using demo_started [OF w1(3) _ demo_claims, of "''e2''" "''0'' @ nbsp"] t ok by auto
qed

theorem webhook_replay_refused_witness:
  "\<exists>w1. webhookTrigger demoHooks (demoDelivery 1 ''e1'') (demoHookRequest ''0'' []) demoHookWorld = (HookStarted ''e1'', w1)
     \<and> snd (webhookTrigger demoHooks (demoDelivery 2 ''e2'') (demoHookRequest ''0'' []) w1) = w1"
proof -
  have ok: "verifyWebhookSignature demoHooks (demoHeader ''0'' []) ''k'' ''{}'' 1 = None" by (simp add: demo_verified)
  obtain w1 where w1: "webhookTrigger demoHooks (demoDelivery 1 ''e1'') (demoHookRequest ''0'' []) demoHookWorld = (HookStarted ''e1'', w1)"
    using demo_started [OF refl _ demo_claims _ ok, of "''e1''"] demo_empty by auto
  have "trimSpace (hr_Header (demoHookRequest ''0'' []) ''X-Signature-Timestamp'') \<noteq> []"
    by (simp add: demoHookRequest_def demoHeader_def trimSpace_def isSpace_def)
  then show ?thesis
    using webhook_replay_refused [OF w1 _ _ refl refl refl, of "demoDelivery 2 ''e2''" "[]"] w1 by (simp add: demoDelivery_def)
qed


section \<open>Events\<close>

lemma done_lock_apart [simp]: "doneKey e r \<noteq> lockKey e' r'" "lockKey e' r' \<noteq> doneKey e r"
  by (simp_all add: doneKey_def lockKey_def)

lemma event_world [simp]:
  "hw_Rows (eventDone E v e r w) = hw_Rows w" "hw_Rows (eventUnlock E e r w) = hw_Rows w"
  "hw_DB (eventDone E v e r w) = hw_DB w" "hw_DB (eventUnlock E e r w) = hw_DB w"
  by (simp_all add: eventDone_def eventUnlock_def)

text \<open>A mark of delivery stays: only another mark under the same key, later, replaces it.\<close>

definition marked :: "string \<Rightarrow> hookRow \<Rightarrow> int \<Rightarrow> redisKV \<Rightarrow> bool" where
  "marked eventID row until kv \<longleftrightarrow> (\<exists>v e. map_of kv (doneKey eventID row) = Some (v, e) \<and> until \<le> e)"

lemma marked_live: "marked eventID row until kv \<Longrightarrow> t \<le> until \<Longrightarrow> kvGet t (doneKey eventID row) kv \<noteq> None"
  by (auto simp: marked_def kvGet_def)

abbreviation monthNS :: int where "monthNS \<equiv> 30 * 24 * 3600 * timeSecond"

lemma unlock_done [simp]: "map_of (hw_KV (eventUnlock E e' r' w)) (doneKey e r) = map_of (hw_KV w) (doneKey e r)"
  by (simp add: eventUnlock_def map_of_kvDel)

lemma eventDone_done:
  "map_of (hw_KV (eventDone E v e' r' w)) (doneKey e r)
    = (if e' \<noteq> [] \<and> ee_DoneOK E \<and> doneKey e r = doneKey e' r' then Some (v, ee_Now E + monthNS) else map_of (hw_KV w) (doneKey e r))"
  by (simp add: eventDone_def map_of_kvSet)

text \<open>The key of a delivery is unchanged, or it is set now.\<close>

definition markKept :: "eventEnv \<Rightarrow> string \<Rightarrow> hookRow \<Rightarrow> hookWorld \<Rightarrow> hookWorld \<Rightarrow> bool" where
  "markKept E e r w w' \<longleftrightarrow> map_of (hw_KV w') (doneKey e r) = map_of (hw_KV w) (doneKey e r)
     \<or> (\<exists>v. map_of (hw_KV w') (doneKey e r) = Some (v, ee_Now E + monthNS))"

lemma fire_done: "markKept E e r w (snd (fireEvent L E t env m e' r' w))"
  by (simp add: fireEvent_def markKept_def eventDone_done split: option.split sum.split prod.split fireError.split)

lemma fire_marks:
  assumes "fst (fireEvent L E t env m e r w)" "e \<noteq> []" "hl_Struct L (hk_Definition r) \<noteq> None" "ee_DoneOK E"
  shows "\<exists>v. map_of (hw_KV (snd (fireEvent L E t env m e r w))) (doneKey e r) = Some (v, ee_Now E + monthNS)"
proof -
  obtain def where d: "hl_Struct L (hk_Definition r) = Some def" using assms(3) by blast
  obtain res db x where f: "fireExecution (hl_UUID L) (hl_Billing L) (hl_Defaults L) (ee_Fire E) (eventRequest t env m r def) (hw_DB w) = (res, db, x)"
    by (metis surj_pair)
  show ?thesis
  proof (cases res)
    case (Inl err)
    then show ?thesis using assms(1,2,4) d f by (cases err) (simp_all add: fireEvent_def eventDone_done)
  next
    case (Inr run)
    then show ?thesis using assms(1,2,4) d f by (simp add: fireEvent_def eventDone_done)
  qed
qed

definition lockedWorld :: "eventEnv \<Rightarrow> string \<Rightarrow> hookRow \<Rightarrow> hookWorld \<Rightarrow> hookWorld" where
  "lockedWorld E e r w = w\<lparr>hw_KV := kvSet (ee_Now E) (lockKey e r) ''1'' (60 * timeSecond) (hw_KV w)\<rparr>"

lemma lock_done [simp]: "map_of (hw_KV (lockedWorld E e' r' w)) (doneKey e r) = map_of (hw_KV w) (doneKey e r)"
  by (simp add: lockedWorld_def map_of_kvSet)

lemma row_cases:
  "deliverRow L E t env m e r w \<in> {(True, w), (False, w)} \<or>
    (\<exists>w1\<in>{w, lockedWorld E e r w}. deliverRow L E t env m e r w = fireEvent L E t env m e r w1)"
  by (simp add: deliverRow_def kvSetNX_def lockedWorld_def)

lemma row_done: "markKept E e r w (snd (deliverRow L E t env m e' r' w))"
proof -
  consider "snd (deliverRow L E t env m e' r' w) = w"
    | "deliverRow L E t env m e' r' w = fireEvent L E t env m e' r' w"
    | "deliverRow L E t env m e' r' w = fireEvent L E t env m e' r' (lockedWorld E e' r' w)"
    using row_cases [of L E t env m e' r' w] by auto
  then show ?thesis
  proof cases
    case 3
    then show ?thesis using fire_done [of E e r "lockedWorld E e' r' w" L t env m e' r'] by (simp add: markKept_def)
  next
    case 2
    then show ?thesis using fire_done [of E e r w L t env m e' r'] by simp
  qed (simp add: markKept_def)
qed

lemma marked_row:
  assumes "marked e r until (hw_KV w)" "until \<le> ee_Now E + monthNS"
  shows "marked e r until (hw_KV (snd (deliverRow L E t env m e' r' w)))"
  using row_done [of E e r w L t env m e' r'] assms by (auto simp: markKept_def marked_def)

lemma fire_rows [simp]: "hw_Rows (snd (fireEvent L E t env m e r w)) = hw_Rows w"
  by (auto simp: fireEvent_def split: option.splits sum.splits prod.splits fireError.splits)

lemma row_rows [simp]: "hw_Rows (snd (deliverRow L E t env m e r w)) = hw_Rows w"
  by (auto simp: deliverRow_def kvSetNX_def)

lemma rows_invariant:
  assumes "P w" "\<And>r w. r \<in> set rows \<Longrightarrow> P w \<Longrightarrow> P (snd (deliverRow L (Es (hk_ID r)) t env m e r w))"
  shows "P (snd (deliverToRows L Es t env m e rows w))"
  using assms
proof (induction rows arbitrary: w)
  case (Cons a rows)
  from Cons.IH [OF Cons.prems(2) [of a, OF _ Cons.prems(1)] Cons.prems(2)] show ?case by (auto split: prod.splits)
qed simp

lemma rows_rows [simp]: "hw_Rows (snd (deliverToRows L Es t env m e rows w)) = hw_Rows w"
  by (rule rows_invariant [of "\<lambda>x. hw_Rows x = hw_Rows w"]) simp_all

lemma event_rows_kept [simp]: "hw_Rows (snd (deliverEvent L queried Es e w)) = hw_Rows w"
  by (simp add: deliverEvent_def)

text \<open>A pipeline that was run for an event is marked, and marked pipelines are passed over.\<close>

definition newOrMarked :: "string \<Rightarrow> hookRow \<Rightarrow> int \<Rightarrow> redisKV \<Rightarrow> bool" where
  "newOrMarked e r until kv \<longleftrightarrow> map_of kv (doneKey e r) = None \<or> marked e r until kv"

lemma newOrMarked_row:
  assumes "newOrMarked e r until (hw_KV w)" "until \<le> ee_Now E + monthNS"
  shows "newOrMarked e r until (hw_KV (snd (deliverRow L E t env m e' r' w)))"
  using row_done [of E e r w L t env m e' r'] assms by (auto simp: markKept_def marked_def newOrMarked_def)

lemma row_marks:
  assumes "fst (deliverRow L E t env m e r w)" "e \<noteq> []" "hl_Struct L (hk_Definition r) \<noteq> None" "ee_DoneOK E"
    and "newOrMarked e r until (hw_KV w)" "until \<le> ee_Now E + monthNS"
  shows "marked e r until (hw_KV (snd (deliverRow L E t env m e r w)))"
proof (cases "ee_ExistsOK E \<and> kvGet (ee_Now E) (doneKey e r) (hw_KV w) \<noteq> None")
  case True
  then have "map_of (hw_KV w) (doneKey e r) \<noteq> None" by (auto simp: kvGet_def split: option.splits)
  then show ?thesis using assms(2,5) True by (auto simp: newOrMarked_def deliverRow_def)
next
  case False
  let ?w = "w\<lparr>hw_KV := kvSet (ee_Now E) (lockKey e r) ''1'' (60 * timeSecond) (hw_KV w)\<rparr>"
  have "deliverRow L E t env m e r w = fireEvent L E t env m e r ?w"
    using assms(1,2) False by (auto simp: deliverRow_def kvSetNX_def split: if_splits)
  then show ?thesis using fire_marks [of L E t env m e r ?w] assms(1-4,6) by (auto simp: marked_def)
qed

lemma rows_mark:
  assumes "fst (deliverToRows L Es t env m e rows w)" "e \<noteq> []" "\<forall>r\<in>set rows. hl_Struct L (hk_Definition r) \<noteq> None"
    and "\<forall>p. ee_DoneOK (Es p) \<and> until \<le> ee_Now (Es p) + monthNS" "\<forall>r\<in>set rows. newOrMarked e r until (hw_KV w)"
  shows "\<forall>r\<in>set rows. marked e r until (hw_KV (snd (deliverToRows L Es t env m e rows w)))"
  using assms
proof (induction rows arbitrary: w)
  case (Cons a rows)
  let ?w1 = "snd (deliverRow L (Es (hk_ID a)) t env m e a w)"
  have ok: "fst (deliverRow L (Es (hk_ID a)) t env m e a w)" "fst (deliverToRows L Es t env m e rows ?w1)"
    and sn: "snd (deliverToRows L Es t env m e (a # rows) w) = snd (deliverToRows L Es t env m e rows ?w1)"
    using Cons.prems(1) by (auto split: prod.splits)
  have "marked e a until (hw_KV ?w1)" using row_marks [OF ok(1) Cons.prems(2)] Cons.prems(3-5) by simp
  then have "marked e a until (hw_KV (snd (deliverToRows L Es t env m e rows ?w1)))"
    using Cons.prems(4) by (rule_tac rows_invariant [of "\<lambda>x. marked e a until (hw_KV x)"]) (auto intro: marked_row)
  moreover have "\<forall>r\<in>set rows. newOrMarked e r until (hw_KV ?w1)" using Cons.prems(4,5) newOrMarked_row by auto
  ultimately show ?case using Cons.IH [OF ok(2) Cons.prems(2)] Cons.prems(3,4) sn by auto
qed simp

lemma marked_skipped:
  assumes "\<forall>r\<in>set rows. marked e r until (hw_KV w)" "e \<noteq> []" "\<forall>p. ee_ExistsOK (Es p) \<and> ee_Now (Es p) \<le> until"
  shows "deliverToRows L Es t env m e rows w = (True, w)"
  using assms by (induction rows) (auto simp: deliverRow_def dest: marked_live)

fun runEvents :: "hookLib \<Rightarrow> (bool \<times> (string \<Rightarrow> eventEnv) \<times> pipelineEvent) list \<Rightarrow> hookWorld \<Rightarrow> hookWorld" where
  "runEvents L [] w = w"
| "runEvents L ((queried, Es, e) # ds) w = runEvents L ds (snd (deliverEvent L queried Es e w))"

lemma runEvents_rows [simp]: "hw_Rows (runEvents L ds w) = hw_Rows w"
  by (induction ds arbitrary: w) auto

lemma runEvents_marked:
  assumes "marked e r until (hw_KV w)" "\<forall>(q, Es, e')\<in>set ds. \<forall>p. until \<le> ee_Now (Es p) + monthNS"
  shows "marked e r until (hw_KV (runEvents L ds w))"
  using assms
proof (induction ds arbitrary: w)
  case (Cons d ds)
  obtain q Es e' where d: "d = (q, Es, e')" by (cases d)
  have "marked e r until (hw_KV (snd (deliverEvent L q Es e' w)))"
    unfolding deliverEvent_def using Cons.prems d
    by (auto intro!: rows_invariant [of "\<lambda>x. marked e r until (hw_KV x)"] marked_row)
  then show ?case using Cons d by simp
qed simp

definition rowsOf :: "pipelineEvent \<Rightarrow> hookWorld \<Rightarrow> hookRow list" where
  "rowsOf e w = eventRows (pe_Tenant e) (pe_Environment e) (pe_Topic e) (assetOf e) (hw_Rows w)"


section \<open>The stream\<close>

text \<open>The workflow service answers no start.\<close>

definition startsFail :: "eventEnv \<Rightarrow> bool" where
  "startsFail E \<longleftrightarrow> (\<forall>name input. \<exists>e. fe_Start (ee_Fire E) name input = Err e)"

lemma fire_fails:
  assumes "startsFail E" "\<not> hl_Billing L" "hl_Struct L (hk_Definition r) \<noteq> None"
  shows "\<not> fst (fireEvent L E t env m e r w)
    \<and> map_of (hw_KV (snd (fireEvent L E t env m e r w))) (doneKey e' r') = map_of (hw_KV w) (doneKey e' r')"
proof -
  obtain def where d: "hl_Struct L (hk_Definition r) = Some def" using assms(3) by blast
  obtain res db x where f: "fireExecution (hl_UUID L) (hl_Billing L) (hl_Defaults L) (ee_Fire E) (eventRequest t env m r def) (hw_DB w) = (res, db, x)"
    by (metis surj_pair)
  obtain err where err: "res = Err err" "\<forall>u k. err \<noteq> QuotaExceeded u k"
  proof -
    obtain e0 where "fe_Start (ee_Fire E) (workflowName def) (fireInput (ee_Fire E) (eventRequest t env m r def)) = Err e0"
      using assms(1) unfolding startsFail_def by blast
    moreover have "fst (consumeQuota False pl mo te db0) = None" for pl mo te db0 by (simp add: consumeQuota_def Let_def)
    moreover have "fr_Definition (eventRequest t env m r def) = def" by (simp add: eventRequest_def)
    ultimately show ?thesis using f assms(2) that
      by (auto simp: fireExecution_def Let_def split: option.splits prod.splits) (metis fst_conv option.distinct(1))+
  qed
  then show ?thesis using d f by (cases err) (auto simp: fireEvent_def)
qed

text \<open>The marks are those of \<open>w0\<close>.\<close>

definition sameMarks :: "hookWorld \<Rightarrow> hookWorld \<Rightarrow> bool" where
  "sameMarks w0 w \<longleftrightarrow> hw_Rows w = hw_Rows w0 \<and> (\<forall>e r. map_of (hw_KV w) (doneKey e r) = map_of (hw_KV w0) (doneKey e r))"

lemma row_fails:
  assumes "startsFail E" "\<not> hl_Billing L" "sameMarks w0 w" "hl_Struct L (hk_Definition r) \<noteq> None"
  shows "sameMarks w0 (snd (deliverRow L E t env m e r w))
    \<and> (e \<noteq> [] \<and> map_of (hw_KV w0) (doneKey e r) = None \<longrightarrow> \<not> fst (deliverRow L E t env m e r w))"
proof -
  have l: "sameMarks w0 (lockedWorld E e r w)" using assms(3) by (simp add: sameMarks_def) (simp add: lockedWorld_def)
  have f: "\<not> fst (fireEvent L E t env m e r w1) \<and> sameMarks w0 (snd (fireEvent L E t env m e r w1))" if "sameMarks w0 w1" for w1
    using fire_fails [OF assms(1,2,4)] that by (simp add: sameMarks_def)
  have n: "map_of (hw_KV w0) (doneKey e r) = None \<Longrightarrow> kvGet (ee_Now E) (doneKey e r) (hw_KV w) = None"
    using assms(3) by (simp add: kvGet_def sameMarks_def)
  show ?thesis using f [OF assms(3)] f [OF l] assms(3) n
    by (auto simp: deliverRow_def kvSetNX_def lockedWorld_def split: if_splits)
qed

lemma rows_fail:
  assumes "\<forall>p. startsFail (Es p)" "\<not> hl_Billing L" "sameMarks w0 w" "\<forall>r\<in>set rows. hl_Struct L (hk_Definition r) \<noteq> None"
  shows "sameMarks w0 (snd (deliverToRows L Es t env m e rows w))
    \<and> (e \<noteq> [] \<and> (\<exists>r\<in>set rows. map_of (hw_KV w0) (doneKey e r) = None) \<longrightarrow> \<not> fst (deliverToRows L Es t env m e rows w))"
  using assms
proof (induction rows arbitrary: w)
  case (Cons a rows)
  let ?w1 = "snd (deliverRow L (Es (hk_ID a)) t env m e a w)"
  have a: "sameMarks w0 ?w1" "e \<noteq> [] \<and> map_of (hw_KV w0) (doneKey e a) = None \<longrightarrow> \<not> fst (deliverRow L (Es (hk_ID a)) t env m e a w)"
    using row_fails [of "Es (hk_ID a)"] Cons.prems by auto
  then show ?case using Cons.IH [OF Cons.prems(1,2) a(1)] Cons.prems(4) by (auto split: prod.splits)
qed simp

definition blockedEntry :: "hookLib \<Rightarrow> hookWorld \<Rightarrow> string \<times> pipelineEvent \<Rightarrow> bool" where
  "blockedEntry L w x \<longleftrightarrow> (let e = (snd x)\<lparr>pe_AllowAsset := True\<rparr> in pe_EventID e \<noteq> [] \<and> (\<forall>r\<in>set (rowsOf e w). hl_Struct L (hk_Definition r) \<noteq> None)
     \<and> (\<exists>r\<in>set (rowsOf e w). map_of (hw_KV w) (doneKey (pe_EventID e) r) = None))"

lemma entry_fails:
  assumes "\<forall>p. startsFail (Es p)" "\<not> hl_Billing L" "sameMarks w0 w" "blockedEntry L w0 (mid, e)"
  shows "sameMarks w0 (snd (deliverEvent L q Es (e\<lparr>pe_AllowAsset := True\<rparr>) w)) \<and> \<not> fst (deliverEvent L q Es (e\<lparr>pe_AllowAsset := True\<rparr>) w)"
proof -
  let ?e = "e\<lparr>pe_AllowAsset := True\<rparr>"
  have "hw_Rows w = hw_Rows w0" using assms(3) by (simp add: sameMarks_def)
  then have "rowsOf ?e w = rowsOf ?e w0" unfolding rowsOf_def by simp
  then show ?thesis
    using rows_fail [OF assms(1-3), of "rowsOf ?e w0" "pe_Tenant ?e" "pe_Environment ?e" "pe_Payload ?e" "pe_EventID ?e"] assms(3,4)
    unfolding blockedEntry_def deliverEvent_def rowsOf_def [symmetric] by (auto simp: Let_def simp del: pipelineEvent.simps)
qed

lemma batch_fails:
  assumes "\<forall>(mid, e)\<in>set batch. \<forall>p. startsFail (re_Events R mid p)" "\<not> hl_Billing L" "sameMarks w0 w" "\<forall>x\<in>set batch. blockedEntry L w0 x"
  shows "\<exists>w'. deliverBatch L R batch w = ([], batch \<noteq> [], w') \<and> sameMarks w0 w'"
  using assms
proof (induction batch arbitrary: w)
  case (Cons a batch)
  obtain mid e where a: "a = (mid, e)" by (cases a)
  have f: "sameMarks w0 (snd (deliverEvent L (re_Queried R mid) (re_Events R mid) (e\<lparr>pe_AllowAsset := True\<rparr>) w))"
      "\<not> fst (deliverEvent L (re_Queried R mid) (re_Events R mid) (e\<lparr>pe_AllowAsset := True\<rparr>) w)"
    using entry_fails [of "re_Events R mid" L w0 w mid e] Cons.prems a by auto
  from Cons.IH [OF _ Cons.prems(2) f(1)] obtain w' where
    "deliverBatch L R batch (snd (deliverEvent L (re_Queried R mid) (re_Events R mid) (e\<lparr>pe_AllowAsset := True\<rparr>) w)) = ([], batch \<noteq> [], w')" "sameMarks w0 w'"
    using Cons.prems(1,4) by auto
  then show ?case using f(2) a by (auto split: prod.splits)
qed simp

fun runTurns :: "hookLib \<Rightarrow> readerEnv list \<Rightarrow> eventStream \<times> hookWorld \<Rightarrow> eventStream \<times> hookWorld" where
  "runTurns L [] sw = sw"
| "runTurns L (R # Rs) sw = runTurns L Rs (consumeTurn L R sw)"

text \<open>C40: Twenty pending entries that cannot be delivered stop the stream: as long as their pipelines cannot be started,
  the reader takes no other entry, of whatever tenant or environment.\<close>

theorem failing_entries_block_stream:
  assumes "es_Retry s" "length (es_Pending s) \<ge> 20" "\<not> hl_Billing L" "\<forall>x\<in>set (take 20 (es_Pending s)). blockedEntry L w x"
    and "\<forall>R\<in>set Rs. \<forall>(mid, e)\<in>set (take 20 (es_Pending s)). \<forall>p. startsFail (re_Events R mid p)"
  shows "fst (runTurns L Rs (s, w)) = s"
proof -
  have "fst (runTurns L Rs (s, w1)) = s" if "sameMarks w w1" for w1
    using assms(5) that
  proof (induction Rs arbitrary: w1)
    case (Cons R Rs)
    have "fst (consumeTurn L R (s, w1)) = s \<and> sameMarks w (snd (consumeTurn L R (s, w1)))"
    proof (cases "re_ReadOK R")
      case True
      obtain w' where "deliverBatch L R (take 20 (es_Pending s)) w1 = ([], take 20 (es_Pending s) \<noteq> [], w')" "sameMarks w w'"
        using batch_fails [of "take 20 (es_Pending s)" R L w w1] assms(3,4) Cons.prems by auto
      moreover have "take 20 (es_Pending s) \<noteq> []" using assms(2) by auto
      ultimately show ?thesis using True assms(1) by (simp add: consumeTurn_def Let_def)
    qed (simp add: consumeTurn_def Cons.prems(2))
    then show ?case using Cons by (metis list.set_intros(2) prod.collapse runTurns.simps(2))
  qed simp
  then show ?thesis by (simp add: sameMarks_def)
qed

section \<open>An event and its pipeline\<close>

definition demoEvent :: pipelineEvent where
  "demoEvent = \<lparr>pe_Tenant = ''t1'', pe_Environment = ''prod'', pe_Topic = ''orders'', pe_Payload = ''{}'', pe_EventID = ''7'', pe_AllowAsset = True\<rparr>"

definition demoEventRow :: hookRow where
  "demoEventRow = \<lparr>hk_ID = ''r'', hk_TenantID = ''t1'', hk_Status = ''active'', hk_Environment = ''prod'', hk_CreatedAt = 0,
     hk_Definition = [(''trigger'', VObj [(''type'', VStr ''event''), (''topic'', VStr ''orders'')])]\<rparr>"

definition demoEventWorld :: hookWorld where
  "demoEventWorld = \<lparr>hw_KV = [], hw_DB = emptyAPI, hw_Rows = [demoEventRow]\<rparr>"

definition demoEventEnv :: "int \<Rightarrow> (string, string) result \<Rightarrow> eventEnv" where
  "demoEventEnv now answer = \<lparr>ee_Now = now, ee_ExistsOK = True, ee_LockOK = True, ee_DoneOK = True, ee_UnlockOK = True, ee_Fire = sampleEnv ''e1'' answer\<rparr>"

lemma demo_event_rows: "rowsOf demoEvent demoEventWorld = [demoEventRow]"
  by (simp add: rowsOf_def eventRows_def demoEvent_def demoEventWorld_def demoEventRow_def triggerText_def objGet_def assetOf_def hasPrefix_def)

lemma demo_event_fresh: "map_of (hw_KV demoEventWorld) k = None"
  by (simp add: demoEventWorld_def)

lemma demo_struct: "hl_Struct demoHooks d = Some demoHookDef"
  by (simp add: demoHooks_def)


definition stuckStream :: eventStream where
  "stuckStream = \<lparr>es_New = [(''next'', demoEvent)], es_Pending = map (\<lambda>n. (replicate n (CHR ''i''), demoEvent)) [0..<20], es_Retry = True\<rparr>"

definition failingReader :: readerEnv where
  "failingReader = \<lparr>re_ReadOK = True, re_Queried = (\<lambda>_. True), re_Events = (\<lambda>_ _. demoEventEnv 1 (Err ''unavailable'')), re_AckOK = (\<lambda>_. True)\<rparr>"

theorem failing_entries_block_stream_witness:
  "fst (runTurns demoHooks [failingReader, failingReader] (stuckStream, demoEventWorld)) = stuckStream \<and> es_New stuckStream \<noteq> []"
proof -
  have "demoEvent\<lparr>pe_AllowAsset := True\<rparr> = demoEvent" by (simp add: demoEvent_def)
  then have "blockedEntry demoHooks demoEventWorld (i, demoEvent)" for i
    by (simp add: blockedEntry_def Let_def demo_event_rows demo_event_fresh demo_struct) (simp add: demoEvent_def)
  moreover have "startsFail (re_Events failingReader mid p)" for mid p
    by (simp add: startsFail_def failingReader_def demoEventEnv_def sampleEnv_def)
  ultimately show ?thesis
    using failing_entries_block_stream [of stuckStream demoHooks demoEventWorld "[failingReader, failingReader]"]
    by (simp add: stuckStream_def demoHooks_def)
qed

section \<open>OpenLineage\<close>

text \<open>The check of an event passes when the fields are missing, since \<^verbatim>\<open>fmt.Sprint(nil)\<close> is not empty; only the constraints of
  the table are left, and the producer is stored as \<^verbatim>\<open><nil>\<close>.\<close>

lemma lineage_check_passes_nothing:
  "\<exists>row. storeOpenLineage (\<lambda>_ _. None) tenant environment [] rows = Ok (rows @ [row]) \<and> ll_Namespace row = VNil \<and> ll_Producer row = ''<nil>''"
  by (simp add: storeOpenLineage_def apiString_def objGet_def Let_def)

end
