(* ===== verification/Spec2Isabelle.thy ===== *)
theory Spec2Isabelle
  imports WorkflowSafety Control TransformLaws SqlLaws Ssrf ActivityLaws DispatchLaws BackfillLaws StreamLaws EngineLaws HttpLaws OutboxLaws ApiLaws SessionLaws TriggerLaws
begin

text \<open>
  Verification of the Go services of Cohestra Dataflow (\<^verbatim>\<open>src/apps/workflow-go\<close>).
\<close>

end
